(* ===== verification/Prelude.thy ===== *)
theory Prelude
  imports Main "HOL-Library.Word" "HOL-Library.Multiset" "HOL-Library.AList_Mapping"
begin

text \<open>
  Shared vocabulary of the development: the panics of the Go runtime, error values, the
  machine integers of the program (a 64-bit \<open>int\<close>, the 32-bit fields of the report), and
  the facts on lists, association lists and counting that several components use.

  A Go \<open>error\<close> is a value of \<open>go_error\<close>: a leaf is an error produced by code outside the
  repository, \<open>Errorf p e\<close> is the program's \<open>fmt.Errorf("p: %v", e)\<close> and
  \<open>Errorf_around p e q\<close> its \<open>fmt.Errorf("p%vq", e)\<close>. A step that may
  panic returns \<open>panic + 'a\<close>.
\<close>

text \<open>A collection: the definitions that register the flags of a command.\<close>

named_theorems registration

section \<open>Errors and panics\<close>

datatype go_error =
    Not_found string
  | Already_exists string
  | Bad_request string string
  | External string
  | Field_invalid string string string
  | Err string
  | Errorf string go_error
  | Errorf_around string go_error string

text \<open>\<open>Panic_with\<close> is a panic whose value is an error, as that of the functions named \<open>\<dots>OrDie\<close>.\<close>

datatype panic =
    Index_out_of_range
  | Slice_bounds_out_of_range
  | Integer_divide_by_zero
  | Nil_dereference
  | Assignment_to_nil_map
  | Close_of_closed_channel
  | Send_on_closed_channel
  | Makechan_size_out_of_range
  | Channel_full
  | Panic_with go_error

text \<open>A Go map with string keys that the code prints or iterates over in the order of its keys.\<close>

type_synonym 'v dict = "(string, 'v) mapping"

lemma lookup_dict [simp]:
  "Mapping.lookup (Mapping.update k v d) = (Mapping.lookup d)(k \<mapsto> v)"
  by (auto simp: fun_eq_iff lookup_update')

lemma lookup_of_alist_dict [simp]: "Mapping.lookup (Mapping.of_alist kvs) = map_of kvs"
  by (simp add: fun_eq_iff lookup_of_alist)

lemma lookup_empty_dict: "Mapping.lookup Mapping.empty = Map.empty"
  by (simp add: fun_eq_iff)

lemma dict_eqI: "Mapping.lookup d = Mapping.lookup e \<Longrightarrow> d = e"
  by (rule mapping_eqI) simp

section \<open>Machine integers\<close>

definition wrap64 :: "int \<Rightarrow> int" where
  "wrap64 x = (x + 2 ^ 63) mod 2 ^ 64 - 2 ^ 63"

definition wrap32 :: "int \<Rightarrow> int" where
  "wrap32 x = (x + 2 ^ 31) mod 2 ^ 32 - 2 ^ 31"

definition int64 :: "int \<Rightarrow> bool" where
  "int64 x \<longleftrightarrow> - (2 ^ 63) \<le> x \<and> x < 2 ^ 63"

definition int32 :: "int \<Rightarrow> bool" where
  "int32 x \<longleftrightarrow> - (2 ^ 31) \<le> x \<and> x < 2 ^ 31"

lemma wrap64_id [simp]: "int64 x \<Longrightarrow> wrap64 x = x"
  by (simp add: wrap64_def int64_def)

lemma wrap32_id [simp]: "int32 x \<Longrightarrow> wrap32 x = x"
  by (simp add: wrap32_def int32_def)

lemma int64_wrap64 [simp]: "int64 (wrap64 x)"
  using pos_mod_bound [of "2 ^ 64" "x + 2 ^ 63"] pos_mod_sign [of "2 ^ 64" "x + 2 ^ 63"]
  by (simp add: wrap64_def int64_def)

lemma int32_wrap32 [simp]: "int32 (wrap32 x)"
  using pos_mod_bound [of "2 ^ 32" "x + 2 ^ 31"] pos_mod_sign [of "2 ^ 32" "x + 2 ^ 31"]
  by (simp add: wrap32_def int32_def)

lemma wrap64_wrap64_add [simp]: "wrap64 (wrap64 x + y) = wrap64 (x + y)"
proof -
  have "((x + 2 ^ 63) mod 2 ^ 64 - 2 ^ 63 + y + 2 ^ 63) mod 2 ^ 64
      = ((x + 2 ^ 63) mod 2 ^ 64 + y) mod (2 ^ 64 :: int)"
    by (simp add: algebra_simps)
  also have "\<dots> = (x + 2 ^ 63 + y) mod 2 ^ 64"
    by (rule mod_add_left_eq)
  finally show ?thesis
    by (simp add: wrap64_def algebra_simps)
qed

lemma wrap64_congruent: "\<exists>k. wrap64 x = x - k * 2 ^ 64"
proof
  show "wrap64 x = x - ((x + 2 ^ 63) div 2 ^ 64) * 2 ^ 64"
    by (simp add: wrap64_def minus_div_mult_eq_mod [symmetric])
qed

section \<open>Decimal rendering of integers, as the verb v of package fmt prints them\<close>

definition digit_char :: "nat \<Rightarrow> char" where
  "digit_char d = char_of (48 + d)"

fun show_nat :: "nat \<Rightarrow> string" where
  "show_nat n = (if n < 10 then [digit_char n] else show_nat (n div 10) @ [digit_char (n mod 10)])"

declare show_nat.simps [simp del]

definition show_int :: "int \<Rightarrow> string" where
  "show_int i = (if i < 0 then CHR ''-'' # show_nat (nat (- i)) else show_nat (nat i))"

definition read_nat :: "string \<Rightarrow> nat" where
  "read_nat s = foldl (\<lambda>n c. 10 * n + (of_char c - 48)) 0 s"

lemma of_char_digit_char [simp]: "d < 10 \<Longrightarrow> (of_char (digit_char d) :: nat) = 48 + d"
  by (simp add: digit_char_def)

lemma read_nat_show_nat: "read_nat (show_nat n) = n"
proof (induction n rule: show_nat.induct)
  case (1 n)
  then show ?case
    by (subst show_nat.simps) (simp add: read_nat_def)
qed

lemma show_nat_inject [simp]: "show_nat m = show_nat n \<longleftrightarrow> m = n"
  by (metis read_nat_show_nat)

lemma set_show_nat: "set (show_nat n) \<subseteq> digit_char ` {0..<10}"
proof (induction n rule: show_nat.induct)
  case (1 n)
  then show ?case
    by (subst show_nat.simps) auto
qed

lemma digit_char_eq_iff: "c = digit_char d \<longleftrightarrow> of_char c = (48 + d :: nat)" if "d < 10"
proof
  assume "of_char c = (48 + d :: nat)"
  then have "char_of (of_char c :: nat) = char_of (48 + d)"
    by simp
  then show "c = digit_char d"
    by (simp add: digit_char_def)
qed (simp add: that)

lemma show_nat_no_char:
  assumes "of_char c < (48 :: nat) \<or> 57 < (of_char c :: nat)"
  shows "c \<notin> set (show_nat n)"
proof
  assume "c \<in> set (show_nat n)"
  then obtain d where "d < 10" and "c = digit_char d"
    using set_show_nat by fastforce
  then show False
    using assms by auto
qed

lemma show_nat_nonempty [simp]: "show_nat n \<noteq> []"
  by (subst show_nat.simps) simp

lemma hd_show_nat: "0 < n \<Longrightarrow> \<exists>d. 0 < d \<and> d < 10 \<and> hd (show_nat n) = digit_char d"
proof (induction n rule: show_nat.induct)
  case (1 n)
  show ?case
  proof (cases "n < 10")
    case True
    with 1(2) show ?thesis
      by (subst show_nat.simps) auto
  next
    case False
    with 1(1) have "\<exists>d. 0 < d \<and> d < 10 \<and> hd (show_nat (n div 10)) = digit_char d"
      by (simp add: div_greater_zero_iff)
    with False show ?thesis
      by (subst show_nat.simps) simp
  qed
qed

lemma digit_char_zero: "d < 10 \<Longrightarrow> digit_char d = CHR ''0'' \<longleftrightarrow> d = 0"
  using digit_char_eq_iff [of d "CHR ''0''"] by auto

section \<open>Association lists: the maps of Go whose iteration order the code can observe\<close>

fun alist_put :: "'k \<Rightarrow> 'v \<Rightarrow> ('k \<times> 'v) list \<Rightarrow> ('k \<times> 'v) list" where
  "alist_put k v [] = [(k, v)]"
| "alist_put k v ((k', v') # m) = (if k = k' then (k, v) # m else (k', v') # alist_put k v m)"

lemma map_of_alist_put [simp]: "map_of (alist_put k v m) = (map_of m)(k \<mapsto> v)"
  by (induction k v m rule: alist_put.induct) (auto simp: fun_eq_iff)

lemma keys_alist_put: "fst ` set (alist_put k v m) = insert k (fst ` set m)"
  by (induction k v m rule: alist_put.induct) auto

lemma distinct_alist_put [simp]:
  "distinct (map fst m) \<Longrightarrow> distinct (map fst (alist_put k v m))"
  by (induction k v m rule: alist_put.induct) (auto simp: keys_alist_put)

lemma alist_put_fresh: "k \<notin> fst ` set m \<Longrightarrow> alist_put k v m = m @ [(k, v)]"
  by (induction k v m rule: alist_put.induct) auto

lemma set_alist_put:
  "distinct (map fst m) \<Longrightarrow> set (alist_put k v m) = insert (k, v) {(k', v') \<in> set m. k' \<noteq> k}"
  by (induction k v m rule: alist_put.induct) (auto simp: image_iff split: if_splits)

text \<open>How a write changes the number of entries that satisfy a predicate.\<close>

definition count_if :: "('a \<Rightarrow> bool) \<Rightarrow> 'a list \<Rightarrow> nat" where
  "count_if P xs = length (filter P xs)"

lemma count_if_simps [simp]:
  "count_if P [] = 0"
  "count_if P (x # xs) = (if P x then Suc (count_if P xs) else count_if P xs)"
  "count_if P (xs @ ys) = count_if P xs + count_if P ys"
  by (simp_all add: count_if_def)

lemma count_if_cong: "(\<And>x. x \<in> set xs \<Longrightarrow> P x = Q x) \<Longrightarrow> count_if P xs = count_if Q xs"
  by (auto simp: count_if_def intro: arg_cong [where f = length] filter_cong)

lemma count_if_mono: "(\<And>x. x \<in> set xs \<Longrightarrow> P x \<Longrightarrow> Q x) \<Longrightarrow> count_if P xs \<le> count_if Q xs"
  by (induction xs) auto

lemma count_if_zero: "count_if P xs = 0 \<longleftrightarrow> (\<forall>x \<in> set xs. \<not> P x)"
  by (induction xs) auto

lemma count_if_pos: "x \<in> set xs \<Longrightarrow> P x \<Longrightarrow> 0 < count_if P xs"
  by (induction xs) auto

lemma count_if_one_unique:
  assumes "count_if P xs = 1" and "x \<in> set xs" "P x" "y \<in> set xs" "P y"
  shows "x = y"
  using assms by (induction xs) (auto simp: count_if_zero split: if_splits)

abbreviation truth :: "bool \<Rightarrow> nat" where
  "truth b \<equiv> (if b then 1 else 0)"

lemma count_if_alist_put:
  assumes "map_of m k = Some v"
  shows "count_if P (alist_put k v' m) + truth (P (k, v)) = count_if P m + truth (P (k, v'))"
  using assms by (induction k v' m rule: alist_put.induct) (auto split: if_splits)

lemma count_if_alist_put_fresh:
  assumes "map_of m k = None"
  shows "count_if P (alist_put k v' m) = count_if P m + truth (P (k, v'))"
  using assms by (induction k v' m rule: alist_put.induct) (auto split: if_splits)

text \<open>Taking one key out of the counted keys.\<close>

lemma count_if_insert_key:
  assumes "map_of m k = Some v" and "distinct (map fst m)" and "k \<notin> M" and "Q v"
  shows "Suc (count_if (\<lambda>(k', x). Q x \<and> k' \<notin> insert k M) m) =
    count_if (\<lambda>(k', x). Q x \<and> k' \<notin> M) m"
  using assms
proof (induction m)
  case Nil
  then show ?case by simp
next
  case (Cons a m)
  show ?case
  proof (cases "fst a = k")
    case True
    have "count_if (\<lambda>(k', x). Q x \<and> k' \<notin> insert k M) m = count_if (\<lambda>(k', x). Q x \<and> k' \<notin> M) m"
      using Cons.prems(2) True by (intro count_if_cong) (auto simp: image_iff)
    with Cons.prems True show ?thesis by (cases a) auto
  next
    case False
    with Cons show ?thesis by (cases a) auto
  qed
qed

end
