(* ===== verification/Go_Strings.thy ===== *)
theory Go_Strings
  imports Prelude
begin

text \<open>
  The functions of package \<open>strings\<close> and the slice expressions on strings that the
  program uses, on byte strings. A separator or cut set of the program is always a single
  byte, so \<open>split_char\<close> is \<open>strings.Split\<close> with a one-byte separator, \<open>index_char\<close>
  is \<open>strings.Index\<close> (\<open>- 1\<close> when absent). A slice expression panics out of range.
\<close>

definition has_prefix :: "string \<Rightarrow> string \<Rightarrow> bool" where
  "has_prefix p s \<longleftrightarrow> take (length p) s = p"

fun contains :: "string \<Rightarrow> string \<Rightarrow> bool" where
  "contains p [] = (p = [])"
| "contains p (c # s) = (has_prefix p (c # s) \<or> contains p s)"

fun split_char :: "char \<Rightarrow> string \<Rightarrow> string list" where
  "split_char c [] = [[]]"
| "split_char c (x # s) =
     (if x = c then [] # split_char c s
      else (case split_char c s of [] \<Rightarrow> [[x]] | y # ys \<Rightarrow> (x # y) # ys))"

fun index_char :: "char \<Rightarrow> string \<Rightarrow> int" where
  "index_char c [] = - 1"
| "index_char c (x # s) =
     (if x = c then 0 else (let i = index_char c s in if i < 0 then - 1 else i + 1))"

definition slice_to :: "string \<Rightarrow> int \<Rightarrow> panic + string" where
  "slice_to s n =
     (if 0 \<le> n \<and> n \<le> int (length s) then Inr (take (nat n) s) else Inl Slice_bounds_out_of_range)"

definition slice_from :: "string \<Rightarrow> int \<Rightarrow> panic + string" where
  "slice_from s n =
     (if 0 \<le> n \<and> n \<le> int (length s) then Inr (drop (nat n) s) else Inl Slice_bounds_out_of_range)"

definition index :: "'a list \<Rightarrow> nat \<Rightarrow> panic + 'a" where
  "index xs i = (if i < length xs then Inr (xs ! i) else Inl Index_out_of_range)"

definition trim_char :: "char \<Rightarrow> string \<Rightarrow> string" where
  "trim_char c s = rev (dropWhile (\<lambda>x. x = c) (rev (dropWhile (\<lambda>x. x = c) s)))"

fun join :: "string \<Rightarrow> string list \<Rightarrow> string" where
  "join sep [] = []"
| "join sep [s] = s"
| "join sep (s # t # ss) = s @ sep @ join sep (t # ss)"

text \<open>The verb q of package fmt, on ASCII strings (\<open>strconv.Quote\<close>).\<close>

definition hex_digit :: "nat \<Rightarrow> char" where
  "hex_digit d = (if d < 10 then digit_char d else char_of (87 + d))"

definition quote_char :: "char \<Rightarrow> string" where
  "quote_char c =
     (let n = of_char c :: nat; esc = (\<lambda>x. [CHR 0x5C, x]) in
      if n = 0x22 \<or> n = 0x5C then esc c
      else if n = 7 then esc (CHR ''a'')
      else if n = 8 then esc (CHR ''b'')
      else if n = 12 then esc (CHR ''f'')
      else if n = 10 then esc (CHR ''n'')
      else if n = 13 then esc (CHR ''r'')
      else if n = 9 then esc (CHR ''t'')
      else if n = 11 then esc (CHR ''v'')
      else if n < 32 \<or> n = 127 then esc (CHR ''x'') @ [hex_digit (n div 16), hex_digit (n mod 16)]
      else [c])"

definition go_quote :: "string \<Rightarrow> string" where
  "go_quote s = [CHR 0x22] @ concat (map quote_char s) @ [CHR 0x22]"

section \<open>Splitting\<close>

lemma split_char_nonempty [simp]: "split_char c s \<noteq> []"
  by (induction s) (auto split: list.splits)

lemma split_char_absent [simp]: "c \<notin> set s \<Longrightarrow> split_char c s = [s]"
  by (induction s) auto

lemma split_char_append [simp]:
  "c \<notin> set a \<Longrightarrow> split_char c (a @ c # b) = a # split_char c b"
  by (induction a) auto

text \<open>The pieces put together again with the separator are the string: nothing is lost.\<close>

lemma join_Cons_char: "join sep ((x # y) # ys) = x # join sep (y # ys)"
  by (cases ys) auto

lemma join_Nil_Cons: "ys \<noteq> [] \<Longrightarrow> join sep ([] # ys) = sep @ join sep ys"
  by (cases ys) auto

lemma join_split_char: "join [c] (split_char c s) = s"
proof (induction s)
  case Nil
  then show ?case by simp
next
  case (Cons x s)
  obtain y ys where ys: "split_char c s = y # ys"
    by (cases "split_char c s") auto
  with Cons show ?case
    by (auto simp: join_Cons_char join_Nil_Cons)
qed

lemma split_char_pieces: "p \<in> set (split_char c s) \<Longrightarrow> c \<notin> set p"
proof (induction s arbitrary: p)
  case Nil
  then show ?case by simp
next
  case (Cons x s)
  obtain y ys where ys: "split_char c s = y # ys"
    by (cases "split_char c s") auto
  with Cons show ?case
    by (auto split: if_splits)
qed

text \<open>The first piece is the text before the first separator.\<close>

lemma hd_split_char: "hd (split_char c s) = takeWhile (\<lambda>x. x \<noteq> c) s"
proof (induction s)
  case Nil
  then show ?case by simp
next
  case (Cons x s)
  obtain y ys where ys: "split_char c s = y # ys"
    by (cases "split_char c s") auto
  with Cons show ?case by auto
qed

text \<open>The last piece is the text after the last separator.\<close>

lemma last_split_char_append:
  "c \<notin> set b \<Longrightarrow> a = [] \<or> last a = c \<Longrightarrow> last (split_char c (a @ b)) = b"
proof (induction a)
  case (Cons x a)
  obtain y ys where ys: "split_char c (a @ b) = y # ys"
    by (cases "split_char c (a @ b)") auto
  with Cons join_split_char [of c "a @ b"] show ?case
    by (cases "a = []") auto
qed simp

lemma last_split_char_prefix:
  "\<exists>a. s = a @ last (split_char c s) \<and> (a = [] \<or> last a = c)"
proof (cases "c \<in> set s")
  case True
  then obtain u v where s: "s = u @ c # v" "c \<notin> set v"
    by (metis split_list_last)
  then have "last (split_char c ((u @ [c]) @ v)) = v"
    by (intro last_split_char_append) simp_all
  with s(1) have "s = (u @ [c]) @ last (split_char c s)" by simp
  then show ?thesis by (intro exI [of _ "u @ [c]"]) simp
next
  case False
  then show ?thesis by simp
qed

section \<open>Searching\<close>

lemma index_char_bounds: "- 1 \<le> index_char c s \<and> index_char c s < int (length s) + of_bool (c \<notin> set s)"
  by (induction s) (auto simp: Let_def split: if_splits)

lemma index_char_negative: "index_char c s < 0 \<longleftrightarrow> c \<notin> set s"
  by (induction s) (auto simp: Let_def split: if_splits)

lemma index_char_absent: "index_char c s = - 1 \<longleftrightarrow> c \<notin> set s"
  using index_char_bounds [of c s] index_char_negative [of c s] by auto

lemma index_char_append [simp]: "c \<notin> set a \<Longrightarrow> index_char c (a @ c # b) = int (length a)"
  by (induction a) (auto simp: Let_def)

lemma slice_to_append [simp]: "slice_to (a @ b) (int (length a)) = Inr a"
  by (simp add: slice_to_def)

lemma slice_from_append [simp]: "slice_from (a @ b) (int (length a)) = Inr b"
  by (simp add: slice_from_def)

lemma slice_from_append_Suc [simp]: "slice_from (a @ x # b) (int (length a) + 1) = Inr b"
proof -
  have "nat (int (length a) + 1) = Suc (length a)" by simp
  then show ?thesis by (simp add: slice_from_def)
qed

lemma slice_to_negative [simp]: "n < 0 \<Longrightarrow> slice_to s n = Inl Slice_bounds_out_of_range"
  by (simp add: slice_to_def)

lemma index_Inr [simp]: "i < length xs \<Longrightarrow> index xs i = Inr (xs ! i)"
  by (simp add: index_def)

section \<open>Trimming\<close>

lemma trim_char_id: "s = [] \<or> (hd s \<noteq> c \<and> last s \<noteq> c) \<Longrightarrow> trim_char c s = s"
proof -
  assume *: "s = [] \<or> (hd s \<noteq> c \<and> last s \<noteq> c)"
  show ?thesis
  proof (cases s rule: rev_cases)
    case Nil
    then show ?thesis by (simp add: trim_char_def)
  next
    case (snoc t x)
    with * have "dropWhile (\<lambda>y. y = c) s = s"
      by (subst dropWhile_eq_self_iff) simp
    with * snoc show ?thesis
      by (simp add: trim_char_def)
  qed
qed

lemma trim_char_Cons [simp]: "trim_char c (c # s) = trim_char c s"
  by (simp add: trim_char_def)

lemma trim_char_absent: "c \<notin> set s \<Longrightarrow> trim_char c s = s"
  by (rule trim_char_id) (metis hd_in_set last_in_set)

lemma set_trim_char: "set (trim_char c s) \<subseteq> set s"
  by (auto simp: trim_char_def dest!: set_dropWhileD)

lemma has_prefix_append [simp]: "has_prefix p (p @ s)"
  by (simp add: has_prefix_def)

lemma has_prefix_iff: "has_prefix p s \<longleftrightarrow> (\<exists>t. s = p @ t)"
  unfolding has_prefix_def by (metis append_take_drop_id append_eq_conv_conj)

end
