(* ===== verification/Flag_Values.thy ===== *)
theory Flag_Values
  imports Go_Strings
begin

text \<open>
  How the value of a flag is read from its text (\<open>string_slice.go\<close>, \<open>bool.go\<close> and \<open>int.go\<close> of the
  vendored package pflag), with the functions of the standard library they call: \<open>strconv.ParseBool\<close>,
  \<open>strconv.ParseInt\<close> with base 0 and the reader of package \<open>encoding/csv\<close>. Texts are byte strings.
  An error is a value of \<open>cause\<close>; the positions an error message of csv gives are left out.
\<close>

datatype cause =
    Bool_syntax
  | Int_syntax
  | Int_range
  | Csv_eof
  | Csv_bare_quote
  | Csv_quote
  | Go_flag string

section \<open>Booleans and integers\<close>

definition ParseBool :: "string \<Rightarrow> cause + bool" where
  "ParseBool s =
     (if s \<in> {''1'', ''t'', ''T'', ''true'', ''TRUE'', ''True''} then Inr True
      else if s \<in> {''0'', ''f'', ''F'', ''false'', ''FALSE'', ''False''} then Inr False
      else Inl Bool_syntax)"

definition char_code :: "char \<Rightarrow> nat" where
  "char_code c = of_char c"

text \<open>The value of a digit or letter; \<open>c | 0x20\<close> lies between a and z only for letters.\<close>

definition digit_value :: "char \<Rightarrow> nat option" where
  "digit_value c =
     (let n = char_code c in
      if 48 \<le> n \<and> n \<le> 57 then Some (n - 48)
      else if 97 \<le> n \<and> n \<le> 122 then Some (n - 87)
      else if 65 \<le> n \<and> n \<le> 90 then Some (n - 55)
      else None)"

definition is_letter :: "char \<Rightarrow> char \<Rightarrow> bool" where
  "is_letter l c \<longleftrightarrow> c = l \<or> char_code c + 32 = char_code l"

text \<open>
  The loop of \<open>ParseUint\<close> for 64 bits: the number read so far and whether an underscore was seen.
  The first digit that is too large ends it, and so does the first that exceeds 64 bits.
\<close>

fun uint_loop :: "nat \<Rightarrow> bool \<Rightarrow> nat \<Rightarrow> bool \<Rightarrow> string \<Rightarrow> cause + (nat \<times> bool)" where
  "uint_loop base base0 n underscores [] = Inr (n, underscores)"
| "uint_loop base base0 n underscores (c # s) =
     (if c = CHR ''_'' \<and> base0 then uint_loop base base0 n True s
      else (case digit_value c of
          None \<Rightarrow> Inl Int_syntax
        | Some d \<Rightarrow>
            if base \<le> d then Inl Int_syntax
            else if 2 ^ 64 \<le> base * n + d then Inl Int_range
            else uint_loop base base0 (base * n + d) underscores s))"

fun underscore_loop :: "bool \<Rightarrow> char \<Rightarrow> string \<Rightarrow> bool" where
  "underscore_loop hex saw [] = (saw \<noteq> CHR ''_'')"
| "underscore_loop hex saw (c # s) =
     (if (case digit_value c of None \<Rightarrow> False | Some d \<Rightarrow> d < 10 \<or> hex \<and> d < 16) then underscore_loop hex (CHR ''0'') s
      else if c = CHR ''_'' then saw = CHR ''0'' \<and> underscore_loop hex (CHR ''_'') s
      else saw \<noteq> CHR ''_'' \<and> underscore_loop hex (CHR ''!'') s)"

definition strip_int_sign :: "string \<Rightarrow> bool \<times> string" where
  "strip_int_sign s =
     (case s of [] \<Rightarrow> (False, [])
      | c # t \<Rightarrow> if c = CHR ''+'' then (False, t) else if c = CHR ''-'' then (True, t) else (False, s))"

definition underscoreOK :: "string \<Rightarrow> bool" where
  "underscoreOK s =
     (let t = snd (strip_int_sign s) in
      case t of
        z # l # u \<Rightarrow>
          if z = CHR ''0'' \<and> (is_letter (CHR ''b'') l \<or> is_letter (CHR ''o'') l \<or> is_letter (CHR ''x'') l)
          then underscore_loop (is_letter (CHR ''x'') l) (CHR ''0'') u
          else underscore_loop False (CHR ''^'') t
      | _ \<Rightarrow> underscore_loop False (CHR ''^'') t)"

text \<open>The base a number is written in and its digits.\<close>

definition number_base :: "string \<Rightarrow> nat \<times> string" where
  "number_base s =
     (if hd s = CHR ''0'' then
        (if 3 \<le> length s \<and> is_letter (CHR ''b'') (s ! 1) then (2, drop 2 s)
         else if 3 \<le> length s \<and> is_letter (CHR ''o'') (s ! 1) then (8, drop 2 s)
         else if 3 \<le> length s \<and> is_letter (CHR ''x'') (s ! 1) then (16, drop 2 s)
         else (8, tl s))
      else (10, s))"

definition ParseUint :: "string \<Rightarrow> cause + nat" where
  "ParseUint s =
     (if s = [] then Inl Int_syntax
      else (let (base, digits) = number_base s in
        case uint_loop base True 0 False digits of
          Inl e \<Rightarrow> Inl e
        | Inr (n, underscores) \<Rightarrow> if underscores \<and> \<not> underscoreOK s then Inl Int_syntax else Inr n))"

definition ParseInt0 :: "string \<Rightarrow> cause + int" where
  "ParseInt0 s =
     (if s = [] then Inl Int_syntax
      else (let (neg, u) = strip_int_sign s in
        case ParseUint u of
          Inl e \<Rightarrow> Inl e
        | Inr n \<Rightarrow>
            if \<not> neg \<and> 2 ^ 63 \<le> n then Inl Int_range
            else if neg \<and> 2 ^ 63 < n then Inl Int_range
            else Inr (if neg then - int n else int n)))"

section \<open>Comma separated values\<close>

abbreviation comma :: char where "comma \<equiv> CHR '',''"
abbreviation double_quote :: char where "double_quote \<equiv> CHR 0x22"
abbreviation line_feed :: char where "line_feed \<equiv> CHR 0x0A"
abbreviation carriage_return :: char where "carriage_return \<equiv> CHR 0x0D"

definition drop_last_if :: "char \<Rightarrow> string \<Rightarrow> string" where
  "drop_last_if c s = (if s \<noteq> [] \<and> last s = c then butlast s else s)"

text \<open>
  \<open>readLine\<close>: the next line with its line feed and the text after it, \<open>None\<close> at the end. A carriage
  return before the line feed or at the end is dropped.
\<close>

definition csv_line :: "string \<Rightarrow> (string \<times> string) option" where
  "csv_line s =
     (if s = [] then None
      else (let line = takeWhile (\<lambda>c. c \<noteq> line_feed) s; after = dropWhile (\<lambda>c. c \<noteq> line_feed) s in
        Some (if after = [] then (drop_last_if carriage_return line, [])
              else (drop_last_if carriage_return line @ [line_feed], tl after))))"

lemma length_take_drop_While: "length (takeWhile P s) + length (dropWhile P s) = length s"
  by (metis length_append takeWhile_dropWhile_id)

lemma drop_last_if_absent: "c \<notin> set s \<Longrightarrow> drop_last_if c s = s"
  by (cases s rule: rev_cases) (auto simp: drop_last_if_def)

lemma length_drop_last_if: "length (drop_last_if c s) \<le> length s"
  by (simp add: drop_last_if_def)

lemma csv_line_shorter:
  assumes "csv_line s = Some (line, rest)"
  shows "length line + length rest \<le> length s" and "length rest < length s"
proof -
  define l where "l = takeWhile (\<lambda>c. c \<noteq> line_feed) s"
  define r where "r = dropWhile (\<lambda>c. c \<noteq> line_feed) s"
  have len: "length l + length r = length s" "s \<noteq> []"
    using assms length_take_drop_While [of "\<lambda>c. c \<noteq> line_feed" s] by (auto simp: l_def r_def csv_line_def)
  have "(line, rest) = (if r = [] then (drop_last_if carriage_return l, [])
      else (drop_last_if carriage_return l @ [line_feed], tl r))"
    using assms len(2) by (simp add: csv_line_def Let_def l_def r_def del: dropWhile_eq_Nil_conv split: if_splits)
  then show "length line + length rest \<le> length s" "length rest < length s"
    using len length_drop_last_if [of carriage_return l] by (cases r; simp)+
qed

text \<open>A record starts at the first line that is not empty.\<close>

function csv_first :: "string \<Rightarrow> (string \<times> string) option" where
  "csv_first s =
     (case csv_line s of
        None \<Rightarrow> None
      | Some (line, rest) \<Rightarrow> if line = [] \<or> line = [line_feed] then csv_first rest else Some (line, rest))"
  by pat_completeness auto
termination
  by (relation "measure length") (auto dest: csv_line_shorter)

declare csv_first.simps [simp del]

lemma after_mark_shorter:
  "x \<in> set line \<Longrightarrow> length (dropWhile P line) - Suc 0 < length line"
  "x \<in> set line \<Longrightarrow> length (dropWhile P line) - Suc (Suc 0) < length line"
  using length_dropWhile_le [of P line] by (cases line; auto)+

lemma next_line_shorter:
  "csv_line rest = Some (l, r) \<Longrightarrow> line \<noteq> [] \<Longrightarrow> length l + length r < length line + length rest"
  by (cases line) (auto dest: csv_line_shorter)

text \<open>
  \<open>readRecord\<close> from the current line and the text after it: a field without quotes ends at a comma
  or with the line; a field in quotes may hold commas, doubled quotes and line feeds.
\<close>

function csv_fields :: "string \<Rightarrow> string \<Rightarrow> cause + string list"
  and csv_quoted :: "string \<Rightarrow> string \<Rightarrow> string \<Rightarrow> cause + string list" where
  "csv_fields line rest =
     (if line = [] \<or> hd line \<noteq> double_quote then
        (let field = takeWhile (\<lambda>c. c \<noteq> comma) line; after = dropWhile (\<lambda>c. c \<noteq> comma) line in
         if after = [] then
           (let field = drop_last_if line_feed field in
            if double_quote \<in> set field then Inl Csv_bare_quote else Inr [field])
         else if double_quote \<in> set field then Inl Csv_bare_quote
         else map_sum id ((#) field) (csv_fields (tl after) rest))
      else csv_quoted [] (tl line) rest)"
| "csv_quoted field line rest =
     (let chunk = takeWhile (\<lambda>c. c \<noteq> double_quote) line; after = dropWhile (\<lambda>c. c \<noteq> double_quote) line in
      if after \<noteq> [] then
        (let field = field @ chunk; line = tl after in
         if line \<noteq> [] \<and> hd line = double_quote then csv_quoted (field @ [double_quote]) (tl line) rest
         else if line \<noteq> [] \<and> hd line = comma then map_sum id ((#) field) (csv_fields (tl line) rest)
         else if line = [] \<or> line = [line_feed] then Inr [field]
         else Inl Csv_quote)
      else if line \<noteq> [] then
        (case csv_line rest of
           Some (next_line, rest) \<Rightarrow> csv_quoted (field @ line) next_line rest
         | None \<Rightarrow> csv_quoted (field @ line) [] [])
      else Inl Csv_quote)"
  by pat_completeness auto
termination
  by (relation "measure (case_sum (\<lambda>(l, r). length l + length r) (\<lambda>(f, l, r). length l + length r))")
    (auto intro: after_mark_shorter next_line_shorter)

declare csv_fields.simps [simp del] csv_quoted.simps [simp del]

definition readAsCSV :: "string \<Rightarrow> cause + string list" where
  "readAsCSV s =
     (if s = [] then Inr []
      else (case csv_first s of None \<Rightarrow> Inl Csv_eof | Some (line, rest) \<Rightarrow> csv_fields line rest))"

section \<open>What is printed is read back\<close>

lemma digit_value_digit_char [simp]: "d < 10 \<Longrightarrow> digit_value (digit_char d) = Some d"
  by (simp add: digit_value_def char_code_def Let_def)

lemma digit_value_marks: "digit_value (CHR ''_'') = None" "digit_value (CHR ''+'') = None" "digit_value (CHR ''-'') = None"
  by (simp_all add: digit_value_def char_code_def)

lemma digit_char_marks [simp]:
  assumes "d < 10"
  shows "digit_char d \<noteq> CHR ''_''" "digit_char d \<noteq> CHR ''+''" "digit_char d \<noteq> CHR ''-''"
  using digit_value_digit_char [OF assms] by (auto simp: digit_value_marks)

lemma uint_loop_append:
  "uint_loop 10 b n u (s @ t) =
     (case uint_loop 10 b n u s of Inl e \<Rightarrow> Inl e | Inr (m, v) \<Rightarrow> uint_loop 10 b m v t)"
  by (induction s arbitrary: n u) (auto split: option.splits)

lemma uint_loop_show_nat: "n < 2 ^ 64 \<Longrightarrow> uint_loop 10 True 0 False (show_nat n) = Inr (n, False)"
proof (induction n rule: show_nat.induct)
  case (1 n)
  show ?case
  proof (cases "n < 10")
    case True
    then show ?thesis
      by (subst show_nat.simps) simp
  next
    case False
    have "n div 10 < 2 ^ 64" "10 * (n div 10) + n mod 10 = n"
      using 1(2) by (simp_all add: order_le_less_trans [OF div_le_dividend])
    then show ?thesis
      using 1 False by (subst show_nat.simps) (simp add: uint_loop_append)
  qed
qed

lemma ParseUint_show_nat: "n < 2 ^ 64 \<Longrightarrow> ParseUint (show_nat n) = Inr n"
proof (cases n)
  case 0
  then show ?thesis
    by (simp add: ParseUint_def number_base_def show_nat.simps [of 0] digit_char_zero)
next
  case (Suc m)
  assume n: "n < 2 ^ 64"
  obtain d where "0 < d" "d < 10" "hd (show_nat n) = digit_char d"
    using hd_show_nat [of n] Suc by auto
  then have "number_base (show_nat n) = (10, show_nat n)"
    by (simp add: number_base_def digit_char_zero)
  with n show ?thesis
    by (simp add: ParseUint_def uint_loop_show_nat)
qed

lemma strip_int_sign_show_nat: "strip_int_sign (show_nat n) = (False, show_nat n)"
proof -
  obtain c s where c: "show_nat n = c # s"
    using show_nat_nonempty by (cases "show_nat n") blast+
  then obtain d where "c = digit_char d" "d < 10"
    using set_show_nat [of n] by auto
  then have "c \<noteq> CHR ''+''" "c \<noteq> CHR ''-''"
    by simp_all
  with c show ?thesis
    by (simp add: strip_int_sign_def)
qed

lemma ParseInt0_show_int: "int64 i \<Longrightarrow> ParseInt0 (show_int i) = Inr i"
proof (cases "i < 0")
  case True
  assume "int64 i"
  then have "nat (- i) < 2 ^ 64" "\<not> 2 ^ 63 < nat (- i)"
    using True by (auto simp: int64_def)
  with True show ?thesis
    by (simp add: ParseInt0_def show_int_def strip_int_sign_def ParseUint_show_nat)
next
  case False
  assume "int64 i"
  then have "nat i < 2 ^ 64" "\<not> 2 ^ 63 \<le> nat i"
    using False by (auto simp: int64_def)
  with False show ?thesis
    by (simp add: ParseInt0_def show_int_def strip_int_sign_show_nat ParseUint_show_nat)
qed

text \<open>Texts without a character that csv treats specially.\<close>

definition csv_plain :: "string \<Rightarrow> bool" where
  "csv_plain s \<longleftrightarrow> set s \<inter> {comma, double_quote, line_feed, carriage_return} = {}"

lemma csv_plainD:
  assumes "csv_plain s"
  shows "comma \<notin> set s" "double_quote \<notin> set s" "line_feed \<notin> set s" "carriage_return \<notin> set s"
  using assms unfolding csv_plain_def by blast+

lemma hd_absent: "c \<notin> set s \<Longrightarrow> s = [] \<or> hd s \<noteq> c"
  by (cases s) auto

lemma takeWhile_absent: "c \<notin> set s \<Longrightarrow> takeWhile (\<lambda>x. x \<noteq> c) s = s \<and> dropWhile (\<lambda>x. x \<noteq> c) s = []"
  by (induction s) auto

lemma takeWhile_mark: "c \<notin> set s \<Longrightarrow>
    takeWhile (\<lambda>x. x \<noteq> c) (s @ c # t) = s \<and> dropWhile (\<lambda>x. x \<noteq> c) (s @ c # t) = c # t"
  by (induction s) auto

lemma csv_fields_join:
  "names \<noteq> [] \<Longrightarrow> list_all csv_plain names \<Longrightarrow> csv_fields (join [comma] names) rest = Inr names"
proof (induction names rule: induct_list012)
  case (2 s)
  then have plain: "csv_plain s"
    by simp
  note absent = csv_plainD [OF plain]
  show ?case
    using hd_absent [OF absent(2)] takeWhile_absent [OF absent(1)] drop_last_if_absent [OF absent(3)] absent(2)
    by (subst csv_fields.simps) (auto simp del: takeWhile_eq_all_conv dropWhile_eq_Nil_conv)
next
  case (3 s t ss)
  let ?tail = "join [comma] (t # ss)"
  from 3 have plain: "csv_plain s" and tail: "csv_fields ?tail rest = Inr (t # ss)"
    by simp_all
  note absent = csv_plainD [OF plain]
  have "hd (s @ comma # ?tail) \<noteq> double_quote"
    using hd_absent [OF absent(2)] by (cases s) auto
  then show ?case
    using takeWhile_mark [OF absent(1), of ?tail] absent(2) tail by (subst csv_fields.simps) simp
qed simp

lemma set_join_comma: "c \<in> set (join [comma] names) \<Longrightarrow> c = comma \<or> (\<exists>n \<in> set names. c \<in> set n)"
  by (induction names rule: induct_list012) auto

lemma join_comma_empty: "join [comma] names = [] \<longleftrightarrow> names = [] \<or> names = [[]]"
  by (induction names rule: induct_list012) auto

lemma readAsCSV_join:
  assumes "list_all csv_plain names" "names \<noteq> [[]]"
  shows "readAsCSV (join [comma] names) = Inr names"
proof (cases "names = []")
  case False
  let ?s = "join [comma] names"
  have s: "?s \<noteq> []" "line_feed \<notin> set ?s" "carriage_return \<notin> set ?s"
    using assms False set_join_comma [of line_feed names] set_join_comma [of carriage_return names]
    by (auto simp: join_comma_empty csv_plain_def list_all_iff)
  have "csv_line ?s = Some (?s, [])"
    using s(1) takeWhile_absent [OF s(2)] drop_last_if_absent [OF s(3)] unfolding csv_line_def Let_def by presburger
  moreover have "?s \<noteq> [line_feed]"
    using s(2) by auto
  ultimately have "csv_first ?s = Some (?s, [])"
    using s(1) by (subst csv_first.simps) simp
  with s(1) assms False show ?thesis
    by (simp add: readAsCSV_def csv_fields_join)
qed (simp add: readAsCSV_def)

end
