(* ===== verification/Flags.thy ===== *)
theory Flags
  imports Flag_Values
begin

text \<open>
  The scanner of command lines of the vendored package pflag (\<open>flag.go\<close>, \<open>golangflag.go\<close>): sets of
  flags, \<open>AddFlag\<close>, and \<open>Parse\<close> with its long and short flags. A flag stores its value somewhere in a state
  of type \<open>'o\<close>; \<open>Set_value\<close> is the method \<open>Set\<close> of its \<open>Value\<close>, \<open>Inl\<close> an error, after which nothing reads
  the state. A set is empty when it gets its normalisation. The second part says what a command line
  means: a list of settings written in any of the accepted ways sets the flags in order.
\<close>

datatype flag_error =
    ErrHelp
  | InvalidSyntax string
  | NotExist string string
  | ValueRequired string string
  | InvalidValue string string cause

datatype flag_panic =
    Flag_redefined string
  | Shorthand_too_long string
  | Shorthand_redefined char

record 'o Flag =
  FlagName :: string
  Shorthand :: string
  NoOptDefVal :: string
  Set_value :: "string \<Rightarrow> 'o \<Rightarrow> cause + 'o"

record 'o FlagSet =
  formal :: "(string \<times> 'o Flag) list"
  shorthands :: "(char \<times> 'o Flag) list"
  normalizeNameFunc :: "string \<Rightarrow> string"
  interspersed :: bool
  UnknownFlags :: bool

definition NewFlagSet :: "(string \<Rightarrow> string) \<Rightarrow> 'o FlagSet" where
  "NewFlagSet n = \<lparr>formal = [], shorthands = [], normalizeNameFunc = n, interspersed = True, UnknownFlags = False\<rparr>"

text \<open>\<open>WordSepNormalizeFunc\<close> of component-base.\<close>

definition WordSepNormalizeFunc :: "string \<Rightarrow> string" where
  "WordSepNormalizeFunc = map (\<lambda>c. if c = CHR ''_'' then CHR ''-'' else c)"

definition Lookup :: "'o FlagSet \<Rightarrow> string \<Rightarrow> 'o Flag option" where
  "Lookup f name = map_of (formal f) (normalizeNameFunc f name)"

definition AddFlag :: "'o Flag \<Rightarrow> 'o FlagSet \<Rightarrow> flag_panic + 'o FlagSet" where
  "AddFlag flag f =
     (let name = normalizeNameFunc f (FlagName flag) in
      if map_of (formal f) name \<noteq> None then Inl (Flag_redefined (FlagName flag))
      else (let flag = flag\<lparr>FlagName := name\<rparr>; f = f\<lparr>formal := formal f @ [(name, flag)]\<rparr> in
        case Shorthand flag of
          [] \<Rightarrow> Inr f
        | [c] \<Rightarrow> if map_of (shorthands f) c \<noteq> None then Inl (Shorthand_redefined c)
                 else Inr (f\<lparr>shorthands := shorthands f @ [(c, flag)]\<rparr>)
        | _ \<Rightarrow> Inl (Shorthand_too_long (Shorthand flag))))"

fun add_flags :: "'o Flag list \<Rightarrow> 'o FlagSet \<Rightarrow> flag_panic + 'o FlagSet" where
  "add_flags [] f = Inr f"
| "add_flags (flag # flags) f = (case AddFlag flag f of Inl p \<Rightarrow> Inl p | Inr f \<Rightarrow> add_flags flags f)"

text \<open>A flag of the standard library: its name, whether it is a boolean flag, and its \<open>Set\<close>.\<close>

record go_flag =
  GoName :: string
  IsBoolFlag :: bool
  GoSet :: "string \<Rightarrow> cause option"

definition PFlagFromGoFlag :: "go_flag \<Rightarrow> 'o Flag" where
  "PFlagFromGoFlag g = \<lparr>FlagName = GoName g, Shorthand = (if length (GoName g) = 1 then GoName g else []),
     NoOptDefVal = (if IsBoolFlag g then ''true'' else []),
     Set_value = (\<lambda>s v. case GoSet g s of None \<Rightarrow> Inr v | Some e \<Rightarrow> Inl e)\<rparr>"

fun AddGoFlagSet :: "go_flag list \<Rightarrow> 'o FlagSet \<Rightarrow> flag_panic + 'o FlagSet" where
  "AddGoFlagSet [] f = Inr f"
| "AddGoFlagSet (g # gs) f =
     (if Lookup f (GoName g) \<noteq> None then AddGoFlagSet gs f
      else (case AddFlag (PFlagFromGoFlag g) f of Inl p \<Rightarrow> Inl p | Inr f \<Rightarrow> AddGoFlagSet gs f))"

section \<open>Scanning\<close>

definition Set_flag :: "'o FlagSet \<Rightarrow> string \<Rightarrow> string \<Rightarrow> 'o \<Rightarrow> flag_error + 'o" where
  "Set_flag f name val v =
     (case Lookup f name of
        None \<Rightarrow> Inl (NotExist name [])
      | Some flag \<Rightarrow>
          (case Set_value flag val v of Inl e \<Rightarrow> Inl (InvalidValue (FlagName flag) val e) | Inr v \<Rightarrow> Inr v))"

definition stripUnknownFlagValue :: "string list \<Rightarrow> string list" where
  "stripUnknownFlagValue args =
     (case args of [] \<Rightarrow> []
      | first # others \<Rightarrow> if first \<noteq> [] \<and> hd first = CHR ''-'' then args else others)"

text \<open>\<open>parseLongArg\<close> and \<open>parseSingleShortArg\<close> give the arguments left and the new values.\<close>

definition parseLongArg :: "'o FlagSet \<Rightarrow> string \<Rightarrow> string list \<Rightarrow> 'o \<Rightarrow> flag_error + (string list \<times> 'o)" where
  "parseLongArg f s a v =
     (let name = drop 2 s in
      if name = [] \<or> hd name = CHR ''-'' \<or> hd name = CHR ''='' then Inl (InvalidSyntax s)
      else (let has_value = (CHR ''='' \<in> set name); given = tl (dropWhile (\<lambda>c. c \<noteq> CHR ''='') name);
                name = takeWhile (\<lambda>c. c \<noteq> CHR ''='') name;
                set = (\<lambda>flag val a. case Set_flag f (FlagName flag) val v of Inl e \<Rightarrow> Inl e | Inr v \<Rightarrow> Inr (a, v)) in
        case Lookup f name of
          None \<Rightarrow>
            if name = ''help'' then Inl ErrHelp
            else if UnknownFlags f then Inr (if has_value then a else stripUnknownFlagValue a, v)
            else Inl (NotExist name [])
        | Some flag \<Rightarrow>
            if has_value then set flag given a
            else if NoOptDefVal flag \<noteq> [] then set flag (NoOptDefVal flag) a
            else (case a of val # a \<Rightarrow> set flag val a | [] \<Rightarrow> Inl (ValueRequired name []))))"

definition parseSingleShortArg ::
    "'o FlagSet \<Rightarrow> string \<Rightarrow> string list \<Rightarrow> 'o \<Rightarrow> flag_error + (string \<times> string list \<times> 'o)" where
  "parseSingleShortArg f shorts args v =
     (if has_prefix ''test.'' shorts then Inr ([], args, v)
      else (let c = hd shorts;
                set = (\<lambda>flag val shorts args. case Set_flag f (FlagName flag) val v of
                  Inl e \<Rightarrow> Inl e | Inr v \<Rightarrow> Inr (shorts, args, v)) in
        case map_of (shorthands f) c of
          None \<Rightarrow>
            if c = CHR ''h'' then Inl ErrHelp
            else if UnknownFlags f then
              (if 2 < length shorts \<and> shorts ! 1 = CHR ''='' then Inr ([], args, v)
               else Inr (tl shorts, stripUnknownFlagValue args, v))
            else Inl (NotExist [c] shorts)
        | Some flag \<Rightarrow>
            if 2 < length shorts \<and> shorts ! 1 = CHR ''='' then set flag (drop 2 shorts) [] args
            else if NoOptDefVal flag \<noteq> [] then set flag (NoOptDefVal flag) (tl shorts) args
            else if 1 < length shorts then set flag (tl shorts) [] args
            else (case args of val # args \<Rightarrow> set flag val (tl shorts) args
                  | [] \<Rightarrow> Inl (ValueRequired [c] shorts))))"

lemma parseSingleShortArg_shorter:
  "parseSingleShortArg f shorts args v = Inr (shorts', args', v') \<Longrightarrow> shorts \<noteq> [] \<Longrightarrow>
     length shorts' < length shorts \<and> length args' \<le> length args"
  by (cases shorts) (auto simp: parseSingleShortArg_def Let_def stripUnknownFlagValue_def
      split: if_splits option.splits sum.splits list.splits)

text \<open>
  The loop of \<open>parseShortArg\<close> gives every round the arguments that followed the group, not those the
  round before left; \<open>a\<close> is what the last round left.
\<close>

function short_loop ::
    "'o FlagSet \<Rightarrow> string \<Rightarrow> string list \<Rightarrow> string list \<Rightarrow> 'o \<Rightarrow> flag_error + (string list \<times> 'o)" where
  "short_loop f shorts args a v =
     (if shorts = [] then Inr (a, v)
      else (case parseSingleShortArg f shorts args v of
          Inl e \<Rightarrow> Inl e
        | Inr (shorts, a, v) \<Rightarrow> short_loop f shorts args a v))"
  by pat_completeness auto
termination
  by (relation "measure (\<lambda>(f, shorts, args, a, v). length shorts)") (auto dest: parseSingleShortArg_shorter)

declare short_loop.simps [simp del]

definition parseShortArg :: "'o FlagSet \<Rightarrow> string \<Rightarrow> string list \<Rightarrow> 'o \<Rightarrow> flag_error + (string list \<times> 'o)" where
  "parseShortArg f s args v = short_loop f (tl s) args args v"

lemma parseLongArg_shorter: "parseLongArg f s args v = Inr (args', v') \<Longrightarrow> length args' \<le> length args"
  by (auto simp: parseLongArg_def Let_def stripUnknownFlagValue_def
      split: if_splits option.splits sum.splits list.splits)

lemma short_loop_shorter:
  "short_loop f shorts args a v = Inr (args', v') \<Longrightarrow> length a \<le> length args \<Longrightarrow> length args' \<le> length args"
proof (induction f shorts args a v rule: short_loop.induct)
  case (1 f shorts args a v)
  then show ?case
    by (subst (asm) (2) short_loop.simps)
      (auto dest: parseSingleShortArg_shorter split: if_splits sum.splits)
qed

lemma parseShortArg_shorter: "parseShortArg f s args v = Inr (args', v') \<Longrightarrow> length args' \<le> length args"
  unfolding parseShortArg_def by (erule short_loop_shorter) simp

text \<open>\<open>parseArgs\<close>: \<open>pos\<close> are the arguments that are no flags (\<open>f.args\<close>).\<close>

function parseArgs ::
    "'o FlagSet \<Rightarrow> string list \<Rightarrow> string list \<Rightarrow> 'o \<Rightarrow> flag_error + (string list \<times> 'o)" where
  "parseArgs f [] pos v = Inr (pos, v)"
| "parseArgs f (s # args) pos v =
     (if s = [] \<or> hd s \<noteq> CHR ''-'' \<or> length s = 1 then
        (if interspersed f then parseArgs f args (pos @ [s]) v else Inr (pos @ s # args, v))
      else if s = ''--'' then Inr (pos @ args, v)
      else (case (if s ! 1 = CHR ''-'' then parseLongArg f s args v else parseShortArg f s args v) of
          Inl e \<Rightarrow> Inl e
        | Inr (args, v) \<Rightarrow> parseArgs f args pos v))"
  by pat_completeness auto
termination
  by (relation "measure (\<lambda>(f, args, pos, v). length args)")
    (auto dest: parseLongArg_shorter parseShortArg_shorter split: if_splits)

declare parseArgs.simps(2) [simp del]

definition Parse :: "'o FlagSet \<Rightarrow> string list \<Rightarrow> 'o \<Rightarrow> flag_error + (string list \<times> 'o)" where
  "Parse f arguments v = parseArgs f arguments [] v"

section \<open>What a command line means\<close>

text \<open>
  A setting of a flag, in one of the ways it may be written, or an argument between the flags:
  \<open>--name=value\<close>, \<open>--name value\<close>, \<open>--name\<close>, \<open>-c value\<close>.
\<close>

datatype setting =
    Assigned string string
  | Followed string string
  | Switched string
  | Short char string
  | Argument string

fun written_as :: "setting \<Rightarrow> string list" where
  "written_as (Assigned n x) = [''--'' @ n @ ''='' @ x]"
| "written_as (Followed n x) = [''--'' @ n, x]"
| "written_as (Switched n) = [''--'' @ n]"
| "written_as (Short c x) = [[CHR ''-'', c], x]"
| "written_as (Argument s) = [s]"

definition flag_word :: "string \<Rightarrow> bool" where
  "flag_word n \<longleftrightarrow> n \<noteq> [] \<and> hd n \<noteq> CHR ''-'' \<and> CHR ''='' \<notin> set n"

text \<open>The way of writing fits the flag: one that needs no value takes none from the next argument.\<close>

definition plain_argument :: "string \<Rightarrow> bool" where
  "plain_argument s \<longleftrightarrow> s = [] \<or> hd s \<noteq> CHR ''-'' \<or> length s = 1"

definition optional_value :: "'o Flag option \<Rightarrow> bool" where
  "optional_value fo = (case fo of None \<Rightarrow> False | Some flag \<Rightarrow> NoOptDefVal flag \<noteq> [])"

fun fits :: "'o FlagSet \<Rightarrow> setting \<Rightarrow> bool" where
  "fits f (Assigned n x) = flag_word n"
| "fits f (Followed n x) = (flag_word n \<and> \<not> optional_value (Lookup f n))"
| "fits f (Switched n) = (flag_word n \<and> optional_value (Lookup f n))"
| "fits f (Short c x) = (c \<notin> {CHR ''-'', CHR ''=''} \<and> map_of (shorthands f) c \<noteq> None \<and> \<not> optional_value (map_of (shorthands f) c))"
| "fits f (Argument s) = plain_argument s"

definition set_named :: "'o FlagSet \<Rightarrow> string \<Rightarrow> string option \<Rightarrow> 'o \<Rightarrow> flag_error + 'o" where
  "set_named f n x v =
     (case Lookup f n of
        None \<Rightarrow> Inl (if n = ''help'' then ErrHelp else NotExist n [])
      | Some flag \<Rightarrow> Set_flag f (FlagName flag) (case x of None \<Rightarrow> NoOptDefVal flag | Some x \<Rightarrow> x) v)"

fun set_one :: "'o FlagSet \<Rightarrow> setting \<Rightarrow> 'o \<Rightarrow> flag_error + 'o" where
  "set_one f (Assigned n x) v = set_named f n (Some x) v"
| "set_one f (Followed n x) v = set_named f n (Some x) v"
| "set_one f (Switched n) v = set_named f n None v"
| "set_one f (Short c x) v = Set_flag f (FlagName (the (map_of (shorthands f) c))) x v"
| "set_one f (Argument s) v = Inr v"

fun set_all :: "'o FlagSet \<Rightarrow> setting list \<Rightarrow> 'o \<Rightarrow> flag_error + 'o" where
  "set_all f [] v = Inr v"
| "set_all f (s # ss) v = (case set_one f s v of Inl e \<Rightarrow> Inl e | Inr v \<Rightarrow> set_all f ss v)"

fun argument_of :: "setting \<Rightarrow> string list" where
  "argument_of (Argument s) = [s]"
| "argument_of _ = []"

definition written_all :: "setting list \<Rightarrow> string list" where
  "written_all ss = concat (map written_as ss)"

definition arguments :: "setting list \<Rightarrow> string list" where
  "arguments ss = concat (map argument_of ss)"

lemma flag_word_mark: "flag_word n \<Longrightarrow>
    takeWhile (\<lambda>c. c \<noteq> CHR ''='') (n @ CHR ''='' # x) = n \<and> dropWhile (\<lambda>c. c \<noteq> CHR ''='') (n @ CHR ''='' # x) = CHR ''='' # x"
  by (rule takeWhile_mark) (simp add: flag_word_def)

lemma flag_word_absent: "flag_word n \<Longrightarrow> takeWhile (\<lambda>c. c \<noteq> CHR ''='') n = n"
  using takeWhile_absent [of "CHR ''=''" n] by (simp add: flag_word_def)

lemma flag_word_parts: "flag_word n \<Longrightarrow> n \<noteq> [] \<and> hd n \<noteq> CHR ''-'' \<and> hd n \<noteq> CHR ''='' \<and> CHR ''='' \<notin> set n"
  by (cases n) (auto simp: flag_word_def)

lemma parseLongArg_assigned:
  assumes "flag_word n" "\<not> UnknownFlags f"
  shows "parseLongArg f (''--'' @ n @ ''='' @ x) a v =
    (case set_named f n (Some x) v of Inl e \<Rightarrow> Inl e | Inr v \<Rightarrow> Inr (a, v))"
proof -
  let ?w = "n @ CHR ''='' # x"
  have w: "drop 2 (''--'' @ n @ ''='' @ x) = ?w" "?w \<noteq> []" "hd ?w = hd n" "CHR ''='' \<in> set ?w"
    "takeWhile (\<lambda>c. c \<noteq> CHR ''='') ?w = n" "tl (dropWhile (\<lambda>c. c \<noteq> CHR ''='') ?w) = x"
    using flag_word_parts [OF assms(1)] flag_word_mark [OF assms(1), of x] by simp_all
  show ?thesis
    using flag_word_parts [OF assms(1)] assms(2) unfolding parseLongArg_def Let_def w set_named_def
    by (simp add: w split: option.split)
qed

lemma parseLongArg_bare:
  assumes "flag_word n" "\<not> UnknownFlags f"
  shows "parseLongArg f (''--'' @ n) a v =
    (if Lookup f n \<noteq> None \<and> \<not> optional_value (Lookup f n) then
       (case a of [] \<Rightarrow> Inl (ValueRequired n [])
        | x # a \<Rightarrow> (case set_named f n (Some x) v of Inl e \<Rightarrow> Inl e | Inr v \<Rightarrow> Inr (a, v)))
     else (case set_named f n None v of Inl e \<Rightarrow> Inl e | Inr v \<Rightarrow> Inr (a, v)))"
proof -
  have w: "drop 2 (''--'' @ n) = n" "takeWhile (\<lambda>c. c \<noteq> CHR ''='') n = n"
    using flag_word_absent [OF assms(1)] by simp_all
  show ?thesis
    using flag_word_parts [OF assms(1)] assms(2) unfolding parseLongArg_def Let_def w set_named_def
    by (simp add: optional_value_def split: option.split list.split)
qed

lemma parseArgs_long:
  "n \<noteq> [] \<Longrightarrow> parseArgs f ((''--'' @ n) # args) pos v =
     (case parseLongArg f (''--'' @ n) args v of Inl e \<Rightarrow> Inl e | Inr (args, v) \<Rightarrow> parseArgs f args pos v)"
  by (simp add: parseArgs.simps(2))

lemma parse_one:
  assumes "fits f s" "interspersed f" "\<not> UnknownFlags f"
  shows "parseArgs f (written_as s @ rest) pos v =
    (case set_one f s v of Inl e \<Rightarrow> Inl e | Inr v \<Rightarrow> parseArgs f rest (pos @ argument_of s) v)"
proof (cases s)
  case (Assigned n x)
  with assms(1) have n: "flag_word n" by simp
  show ?thesis
    using parseArgs_long [of "n @ ''='' @ x" f rest pos v] parseLongArg_assigned [OF n assms(3)] Assigned
    by (simp split: sum.split)
next
  case (Followed n x)
  with assms(1) have n: "flag_word n" "\<not> optional_value (Lookup f n)" by simp_all
  have "set_named f n (Some x) v = set_named f n None v" if "Lookup f n = None"
    using that by (simp add: set_named_def)
  with n show ?thesis
    using parseArgs_long [of n f "x # rest" pos v] parseLongArg_bare [OF n(1) assms(3)] Followed
      flag_word_parts [OF n(1)]
    by (simp add: set_named_def split: sum.split option.split)
next
  case (Switched n)
  with assms(1) have n: "flag_word n" "optional_value (Lookup f n)" by simp_all
  then show ?thesis
    using parseArgs_long [of n f rest pos v] parseLongArg_bare [OF n(1) assms(3)] Switched
      flag_word_parts [OF n(1)]
    by (simp split: sum.split)
next
  case (Short c x)
  with assms obtain flag where flag: "map_of (shorthands f) c = Some flag" "NoOptDefVal flag = []" "c \<noteq> CHR ''-''"
    by (auto simp: optional_value_def)
  then show ?thesis
    using Short by (auto simp: parseArgs.simps(2) parseShortArg_def short_loop.simps parseSingleShortArg_def
        has_prefix_def split: sum.splits)
next
  case (Argument t)
  with assms show ?thesis
    by (simp add: parseArgs.simps(2) plain_argument_def)
qed

lemma parse_settings:
  assumes "list_all (fits f) ss" "interspersed f" "\<not> UnknownFlags f"
  shows "parseArgs f (written_all ss @ rest) pos v =
    (case set_all f ss v of Inl e \<Rightarrow> Inl e | Inr v \<Rightarrow> parseArgs f rest (pos @ arguments ss) v)"
  using assms(1)
proof (induction ss arbitrary: pos v)
  case (Cons s ss)
  then show ?case
    using parse_one [OF _ assms(2,3)] by (simp add: written_all_def arguments_def split: sum.splits)
qed (simp add: written_all_def arguments_def)

lemma set_all_append:
  "set_all f (ss @ ts) v = (case set_all f ss v of Inl e \<Rightarrow> Inl e | Inr v \<Rightarrow> set_all f ts v)"
  by (induction ss arbitrary: v) (auto split: sum.splits)

section \<open>Looking up a flag that was added\<close>

lemma AddFlag_Inr:
  assumes "AddFlag flag f = Inr g"
  shows "Lookup g n = (if normalizeNameFunc f n = normalizeNameFunc f (FlagName flag)
      then Some (flag\<lparr>FlagName := normalizeNameFunc f (FlagName flag)\<rparr>) else Lookup f n)"
    and "normalizeNameFunc g = normalizeNameFunc f" "interspersed g = interspersed f" "UnknownFlags g = UnknownFlags f"
    and "map_of (shorthands g) c = (if Shorthand flag = [c]
      then Some (flag\<lparr>FlagName := normalizeNameFunc f (FlagName flag)\<rparr>) else map_of (shorthands f) c)"
proof -
  have new: "map_of (formal f) (normalizeNameFunc f (FlagName flag)) = None"
    using assms by (auto simp: AddFlag_def Let_def split: if_splits)
  have g: "formal g = formal f @ [(normalizeNameFunc f (FlagName flag), flag\<lparr>FlagName := normalizeNameFunc f (FlagName flag)\<rparr>)]"
    "normalizeNameFunc g = normalizeNameFunc f" "interspersed g = interspersed f" "UnknownFlags g = UnknownFlags f"
    using assms by (auto simp: AddFlag_def Let_def split: if_splits list.splits)
  then show "normalizeNameFunc g = normalizeNameFunc f" "interspersed g = interspersed f"
    "UnknownFlags g = UnknownFlags f"
    by simp_all
  show "Lookup g n = (if normalizeNameFunc f n = normalizeNameFunc f (FlagName flag)
      then Some (flag\<lparr>FlagName := normalizeNameFunc f (FlagName flag)\<rparr>) else Lookup f n)"
    using new g by (auto simp: Lookup_def map_add_def split: option.splits)
  show "map_of (shorthands g) c = (if Shorthand flag = [c]
      then Some (flag\<lparr>FlagName := normalizeNameFunc f (FlagName flag)\<rparr>) else map_of (shorthands f) c)"
    using assms by (auto simp: AddFlag_def Let_def map_add_def split: if_splits list.splits option.splits)
qed

end
