(* ===== verification/Int64_Math.thy ===== *)
theory Int64_Math
  imports Prelude "HOL-Library.Signed_Division"
begin

text \<open>
  The overflow-checked 64-bit arithmetic of
  \<open>vendor/k8s.io/apimachinery/pkg/api/resource/math.go\<close>, on which resource quantities rest.
  A machine integer is an \<open>int\<close> in the range \<open>int64\<close>, every operation wraps
  (\<open>wrap64\<close>), and division truncates towards zero (\<open>sdiv\<close>, \<open>smod\<close>). The pair
  of Go results \<open>(value, ok)\<close> is a pair here. The lemmas say that each operation reports
  \<open>ok\<close> exactly when the mathematical result is representable, and then returns it.
\<close>

definition mostNegative :: int where
  "mostNegative = - (2 ^ 63)"

definition int64Add :: "int \<Rightarrow> int \<Rightarrow> int \<times> bool" where
  "int64Add a b =
     (let c = wrap64 (a + b) in
      if 0 < a \<and> 0 < b then (if c < 0 then (0, False) else (c, True))
      else if a < 0 \<and> b < 0 then
        (if 0 < c then (0, False)
         else if a = mostNegative \<and> b = mostNegative then (0, False)
         else (c, True))
      else (c, True))"

definition int64MultiplyScale :: "int \<Rightarrow> int \<Rightarrow> int \<times> bool" where
  "int64MultiplyScale a b =
     (if a = 0 \<or> a = 1 then (wrap64 (a * b), True)
      else if a = mostNegative \<and> b \<noteq> 1 then (0, False)
      else (let c = wrap64 (a * b) in (c, c sdiv b = a)))"

definition int64MultiplyScale10 :: "int \<Rightarrow> int \<times> bool" where
  "int64MultiplyScale10 a =
     (if a = 0 \<or> a = 1 then (wrap64 (a * 10), True)
      else if a = mostNegative then (0, False)
      else (let c = wrap64 (a * 10) in (c, c sdiv 10 = a)))"

definition int64MultiplyScale100 :: "int \<Rightarrow> int \<times> bool" where
  "int64MultiplyScale100 a =
     (if a = 0 \<or> a = 1 then (wrap64 (a * 100), True)
      else if a = mostNegative then (0, False)
      else (let c = wrap64 (a * 100) in (c, c sdiv 100 = a)))"

definition int64MultiplyScale1000 :: "int \<Rightarrow> int \<times> bool" where
  "int64MultiplyScale1000 a =
     (if a = 0 \<or> a = 1 then (wrap64 (a * 1000), True)
      else if a = mostNegative then (0, False)
      else (let c = wrap64 (a * 1000) in (c, c sdiv 1000 = a)))"

text \<open>The \<open>default\<close> loop of \<open>positiveScaleInt64\<close>: multiply by ten \<open>n\<close> times.\<close>

fun scale_up_loop :: "nat \<Rightarrow> int \<Rightarrow> int \<times> bool" where
  "scale_up_loop 0 v = (v, True)"
| "scale_up_loop (Suc n) v =
     (let (v', ok) = int64MultiplyScale v 10 in if ok then scale_up_loop n v' else (0, False))"

definition positiveScaleInt64 :: "int \<Rightarrow> int \<Rightarrow> int \<times> bool" where
  "positiveScaleInt64 base scale =
     (if scale = 0 then (base, True)
      else if scale = 1 then int64MultiplyScale10 base
      else if scale = 2 then int64MultiplyScale100 base
      else if scale = 3 then int64MultiplyScale1000 base
      else if scale = 6 then int64MultiplyScale base 1000000
      else if scale = 9 then int64MultiplyScale base 1000000000
      else scale_up_loop (nat scale) base)"

text \<open>
  The loop of \<open>negativeScaleInt64\<close>: divide by ten, remember whether a digit was dropped,
  stop early at zero. At the end a dropped digit rounds away from zero.
\<close>

fun scale_down_loop :: "nat \<Rightarrow> int \<Rightarrow> int \<Rightarrow> bool \<Rightarrow> int \<times> bool" where
  "scale_down_loop 0 base v fraction =
     (if fraction then (if 0 < base then (wrap64 (v + 1), False) else (wrap64 (v - 1), False))
      else (v, True))"
| "scale_down_loop (Suc n) base v fraction =
     (let fraction' = (fraction \<or> v smod 10 \<noteq> 0); v' = v sdiv 10 in
      if v' = 0 then (if fraction' then (if 0 < base then (1, False) else (- 1, False)) else (0, True))
      else scale_down_loop n base v' fraction')"

definition negativeScaleInt64 :: "int \<Rightarrow> int \<Rightarrow> int \<times> bool" where
  "negativeScaleInt64 base scale =
     (if scale = 0 then (base, True) else scale_down_loop (nat scale) base base False)"

definition pow10Int64 :: "int \<Rightarrow> int" where
  "pow10Int64 b = (if 0 \<le> b \<and> b \<le> 18 then 10 ^ nat b else 0)"

definition divideByScaleInt64 :: "int \<Rightarrow> int \<Rightarrow> int \<times> int \<times> bool" where
  "divideByScaleInt64 base scale =
     (if scale = 0 then (base, 0, True)
      else if 18 \<le> scale then (0, base, False)
      else (base sdiv pow10Int64 scale, base smod pow10Int64 scale, True))"

section \<open>Truncated division\<close>

lemma sdiv_smod_decomp: "(a :: int) = (a sdiv b) * b + a smod b"
  by (simp add: sdiv_mult_smod_eq)

lemma abs_smod_less: "0 < b \<Longrightarrow> \<bar>(a :: int) smod b\<bar> < b"
  by (simp add: smod_int_alt_def abs_mult sgn_if)

lemma sdiv_mult_exact [simp]: "0 < b \<Longrightarrow> ((a :: int) * b) sdiv b = a"
  by (simp add: signed_divide_int_def sgn_mult abs_mult mult_sgn_abs)

lemma sdiv_mult_exact' [simp]: "0 < b \<Longrightarrow> (b * (a :: int)) sdiv b = a"
  by (simp add: mult.commute)

lemma smod_one [simp]: "(a :: int) smod 1 = 0"
  by (simp add: smod_int_alt_def)

lemma smod_sgn: "0 < b \<Longrightarrow> (a :: int) smod b = 0 \<or> sgn (a smod b) = sgn a"
proof -
  assume "0 < b"
  then have "0 \<le> \<bar>a\<bar> mod b"
    by simp
  then have "\<bar>a\<bar> mod b = 0 \<or> sgn (\<bar>a\<bar> mod b) = 1"
    by (auto simp: sgn_if)
  with \<open>0 < b\<close> show ?thesis
    by (auto simp: smod_int_alt_def sgn_mult)
qed

section \<open>Addition and scaling report overflow exactly\<close>

lemma wrap64_high: "int64 (x - 2 ^ 64) \<Longrightarrow> wrap64 x = x - 2 ^ 64"
  and wrap64_low: "int64 (x + 2 ^ 64) \<Longrightarrow> wrap64 x = x + 2 ^ 64"
proof -
  assume "int64 (x - 2 ^ 64)"
  moreover have "wrap64 x = wrap64 (x - 2 ^ 64)"
    using mod_mult_self1 [of "x + 2 ^ 63 - 2 ^ 64" 1 "2 ^ 64"]
    by (simp add: wrap64_def algebra_simps)
  ultimately show "wrap64 x = x - 2 ^ 64" by simp
next
  assume "int64 (x + 2 ^ 64)"
  moreover have "wrap64 x = wrap64 (x + 2 ^ 64)"
    using mod_mult_self1 [of "x + 2 ^ 63" 1 "2 ^ 64"]
    by (simp add: wrap64_def algebra_simps)
  ultimately show "wrap64 x = x + 2 ^ 64" by simp
qed

lemma int64Add_ok:
  assumes "int64 a" "int64 b"
  shows "int64Add a b = (if int64 (a + b) then (a + b, True) else (0, False))"
proof (cases "int64 (a + b)")
  case True
  then have "wrap64 (a + b) = a + b" by simp
  with assms True show ?thesis
    by (simp add: int64Add_def Let_def mostNegative_def int64_def)
next
  case False
  then consider "2 ^ 63 \<le> a + b" | "a + b < - (2 ^ 63)"
    by (auto simp: int64_def)
  then show ?thesis
  proof cases
    case 1
    with assms have "int64 (a + b - 2 ^ 64)" and *: "0 < a" "0 < b" "a + b - 2 ^ 64 < 0"
      by (simp_all add: int64_def)
    then have "wrap64 (a + b) = a + b - 2 ^ 64"
      by (simp only: wrap64_high)
    with * False show ?thesis
      by (simp add: int64Add_def)
  next
    case 2
    with assms have "int64 (a + b + 2 ^ 64)" and *: "a < 0" "b < 0"
      by (simp_all add: int64_def)
    then have w: "wrap64 (a + b) = a + b + 2 ^ 64"
      by (simp only: wrap64_low)
    show ?thesis
    proof (cases "a = mostNegative \<and> b = mostNegative")
      case True
      with False * w show ?thesis
        by (simp add: int64Add_def mostNegative_def)
    next
      case False
      with assms have "0 < a + b + 2 ^ 64"
        by (auto simp: int64_def mostNegative_def)
      with \<open>\<not> int64 (a + b)\<close> * w show ?thesis
        by (simp add: int64Add_def)
    qed
  qed
qed

lemma checked_product:
  assumes "int64 a" "1 < b" "int64 b"
  shows "wrap64 (a * b) sdiv b = a \<longleftrightarrow> int64 (a * b)"
proof
  assume "int64 (a * b)"
  then show "wrap64 (a * b) sdiv b = a"
    using assms by simp
next
  assume *: "wrap64 (a * b) sdiv b = a"
  obtain k where k: "wrap64 (a * b) = a * b - k * 2 ^ 64"
    using wrap64_congruent by blast
  have "wrap64 (a * b) = a * b + wrap64 (a * b) smod b"
    using sdiv_smod_decomp [of "wrap64 (a * b)" b] * by simp
  then have "\<bar>k * 2 ^ 64\<bar> < b"
    using k abs_smod_less [of b "wrap64 (a * b)"] assms by simp
  then have "\<bar>k\<bar> * 2 ^ 64 < 2 ^ 63"
    using assms by (simp add: abs_mult int64_def)
  then have "k = 0" by simp
  with k have "wrap64 (a * b) = a * b" by simp
  then show "int64 (a * b)"
    using int64_wrap64 [of "a * b"] by simp
qed

definition exact_product :: "int \<times> bool \<Rightarrow> int \<Rightarrow> bool" where
  "exact_product r x \<longleftrightarrow> (snd r \<longleftrightarrow> int64 x) \<and> (snd r \<longrightarrow> fst r = x)"

lemma int64_not_mostNegative: "1 < b \<Longrightarrow> \<not> int64 (mostNegative * b)"
  by (simp add: int64_def mostNegative_def)

lemma int64MultiplyScale_exact:
  assumes "int64 a" "1 < b" "int64 b"
  shows "exact_product (int64MultiplyScale a b) (a * b)"
  using assms checked_product [OF assms] int64_not_mostNegative [of b]
  by (auto simp: exact_product_def int64MultiplyScale_def Let_def)

lemma int64MultiplyScale_constants:
  "int64MultiplyScale10 a = int64MultiplyScale a 10"
  "int64MultiplyScale100 a = int64MultiplyScale a 100"
  "int64MultiplyScale1000 a = int64MultiplyScale a 1000"
  by (simp_all add: int64MultiplyScale10_def int64MultiplyScale100_def
      int64MultiplyScale1000_def int64MultiplyScale_def)

lemma int64_scale_down: "int64 (v * 10 ^ Suc n) \<Longrightarrow> int64 (v * 10)"
proof -
  assume *: "int64 (v * 10 ^ Suc n)"
  have p: "(1 :: int) \<le> 10 ^ n" by simp
  have e: "v * 10 ^ Suc n = v * 10 * 10 ^ n" by simp
  show ?thesis
  proof (cases "0 \<le> v")
    case True
    then have "v * 10 * 1 \<le> v * 10 * 10 ^ n"
      by (intro mult_left_mono p) simp
    with * e True show ?thesis
      unfolding int64_def by linarith
  next
    case False
    then have "v * 10 * 10 ^ n \<le> v * 10 * 1"
      by (intro mult_left_mono_neg p) simp
    with * e False show ?thesis
      unfolding int64_def by linarith
  qed
qed

lemma scale_up_loop_exact: "int64 v \<Longrightarrow> exact_product (scale_up_loop n v) (v * 10 ^ n)"
proof (induction n arbitrary: v)
  case 0
  then show ?case by (simp add: exact_product_def)
next
  case (Suc n)
  have *: "exact_product (int64MultiplyScale v 10) (v * 10)"
    using Suc.prems by (intro int64MultiplyScale_exact) (simp_all add: int64_def)
  obtain v' ok where v': "int64MultiplyScale v 10 = (v', ok)" by force
  show ?case
  proof (cases ok)
    case True
    with * v' have "v' = v * 10" and "int64 (v * 10)"
      by (auto simp: exact_product_def)
    with True v' Suc.IH [of "v * 10"] show ?thesis
      by (simp add: mult.assoc)
  next
    case False
    with * v' have "\<not> int64 (v * 10)"
      by (auto simp: exact_product_def)
    with False v' int64_scale_down [of v n] show ?thesis
      by (auto simp: exact_product_def)
  qed
qed

lemma positiveScaleInt64_exact:
  assumes "int64 base" "0 \<le> scale"
  shows "exact_product (positiveScaleInt64 base scale) (base * 10 ^ nat scale)"
proof -
  have *: "exact_product (int64MultiplyScale base b) (base * b)" if "1 < b" "b < 2 ^ 63" for b
    using assms that by (intro int64MultiplyScale_exact) (simp_all add: int64_def)
  show ?thesis
    using assms scale_up_loop_exact [of base "nat scale"] * [of 10] * [of 100] * [of 1000]
      * [of 1000000] * [of 1000000000]
    by (auto simp: positiveScaleInt64_def int64MultiplyScale_constants exact_product_def)
qed

section \<open>Scaling down rounds away from zero\<close>

definition round_away :: "int \<Rightarrow> int \<Rightarrow> int \<times> bool" where
  "round_away a d = (if a smod d = 0 then (a sdiv d, True) else (a sdiv d + sgn a, False))"

lemma smod_eq_0_iff: "0 < b \<Longrightarrow> (a :: int) smod b = 0 \<longleftrightarrow> b dvd a"
  by (auto simp: smod_int_alt_def dvd_eq_mod_eq_0 [symmetric] sgn_0_0)

lemma sdiv_sdiv: "0 < b \<Longrightarrow> 0 < c \<Longrightarrow> ((a :: int) sdiv b) sdiv c = a sdiv (b * c)"
proof -
  assume "0 < b" "0 < c"
  then have "\<bar>a\<bar> div (b * c) = (\<bar>a\<bar> div b) div c" and "0 \<le> \<bar>a\<bar> div b"
    by (simp_all add: div_mult2_eq pos_imp_zdiv_nonneg_iff zdiv_zmult2_eq)
  with \<open>0 < b\<close> \<open>0 < c\<close> show ?thesis
    by (cases "\<bar>a\<bar> div b = 0") (auto simp: signed_divide_int_def sgn_mult abs_mult sgn_if)
qed

lemma smod_mult_eq_0_iff:
  assumes "0 < b" "0 < c"
  shows "(a :: int) smod (b * c) = 0 \<longleftrightarrow> a smod b = 0 \<and> (a sdiv b) smod c = 0"
proof (cases "b dvd a")
  case True
  then obtain e where "a = b * e" ..
  then have "a = e * b" by simp
  with assms show ?thesis
    by (simp add: smod_eq_0_iff mult.commute)
next
  case False
  with assms show ?thesis
    by (auto simp: smod_eq_0_iff dest: dvd_mult_left)
qed

lemma abs_sdiv: "0 < b \<Longrightarrow> \<bar>(a :: int) sdiv b\<bar> = \<bar>a\<bar> div b"
  by (simp add: signed_divide_int_def abs_mult sgn_if pos_imp_zdiv_nonneg_iff)

lemma sdiv_Suc_step:
  assumes "int64 a" "0 < k"
  shows "int64 (a sdiv 10 ^ k + 1)" "int64 (a sdiv 10 ^ k - 1)"
proof -
  have "(10 :: int) ^ 1 \<le> 10 ^ k"
    using assms(2) by (intro power_increasing) auto
  then have "\<bar>a\<bar> div 10 ^ k \<le> \<bar>a\<bar> div 10"
    by (intro zdiv_mono2) auto
  then have "\<bar>a sdiv 10 ^ k\<bar> \<le> \<bar>a\<bar> div 10"
    by (simp add: abs_sdiv)
  moreover have "\<bar>a\<bar> div 10 < 2 ^ 62"
    using zdiv_mono1 [of "\<bar>a\<bar>" "2 ^ 63" 10] assms(1) by (auto simp: int64_def)
  ultimately show "int64 (a sdiv 10 ^ k + 1)" "int64 (a sdiv 10 ^ k - 1)"
    by (auto simp: int64_def)
qed

lemma scale_down_loop_rounds:
  assumes "int64 a" "0 < n \<or> 0 < k"
  shows "scale_down_loop n a (a sdiv 10 ^ k) (a smod 10 ^ k \<noteq> 0) = round_away a (10 ^ (k + n))"
  using assms(2)
proof (induction n arbitrary: k)
  case 0
  with assms(1) sdiv_Suc_step [of a k] show ?case
    by (auto simp: round_away_def sgn_if)
next
  case (Suc n)
  let ?q = "a sdiv 10 ^ Suc k"
  have q: "(a sdiv 10 ^ k) sdiv 10 = ?q"
    by (simp add: sdiv_sdiv mult.commute)
  have f: "(a smod 10 ^ k \<noteq> 0 \<or> (a sdiv 10 ^ k) smod 10 \<noteq> 0) = (a smod 10 ^ Suc k \<noteq> 0)"
    using smod_mult_eq_0_iff [of "10 ^ k" 10 a] by (simp add: mult.commute)
  show ?case
  proof (cases "?q = 0")
    case True
    have z: "a sdiv 10 ^ (k + Suc n) = 0"
      using sdiv_sdiv [of "10 ^ Suc k" "10 ^ n" a] True by (simp add: power_add mult_ac)
    have s: "a smod 10 ^ Suc k = a"
      using sdiv_smod_decomp [of a "10 ^ Suc k"] True by simp
    have s': "a smod 10 ^ (k + Suc n) = a"
      using sdiv_smod_decomp [of a "10 ^ (k + Suc n)"] z by simp
    show ?thesis
      using True q f s s' z by (auto simp: Let_def round_away_def sgn_if)
  next
    case False
    then show ?thesis
      using q f Suc.IH [of "Suc k"] by (simp add: Let_def del: power_Suc)
  qed
qed

lemma negativeScaleInt64_rounds:
  assumes "int64 base" "0 \<le> scale"
  shows "negativeScaleInt64 base scale = round_away base (10 ^ nat scale)"
proof (cases "scale = 0")
  case True
  then show ?thesis by (simp add: negativeScaleInt64_def round_away_def smod_eq_0_iff)
next
  case False
  with assms scale_down_loop_rounds [of base "nat scale" 0] show ?thesis
    by (simp add: negativeScaleInt64_def)
qed

section \<open>Properties\<close>

text \<open>Scaling a 64-bit integer up succeeds exactly when the product fits 64 bits, and scaling
  the result down again gives the integer back, exactly.\<close>

lemma scale_up_down:
  assumes "int64 base" and "0 \<le> scale"
  shows "(snd (positiveScaleInt64 base scale) = int64 (base * 10 ^ nat scale)) \<and>
    (snd (positiveScaleInt64 base scale) \<longrightarrow>
       negativeScaleInt64 (fst (positiveScaleInt64 base scale)) scale = (base, True))"
proof -
  have p: "exact_product (positiveScaleInt64 base scale) (base * 10 ^ nat scale)"
    by (rule positiveScaleInt64_exact [OF assms])
  have "negativeScaleInt64 (base * 10 ^ nat scale) scale = (base, True)" if "int64 (base * 10 ^ nat scale)"
  proof -
    have "(base * 10 ^ nat scale) smod 10 ^ nat scale = 0"
      by (simp add: smod_eq_0_iff)
    then show ?thesis
      by (simp add: negativeScaleInt64_rounds [OF that assms(2)] round_away_def)
  qed
  with p show ?thesis
    by (auto simp: exact_product_def)
qed

lemma scale_up_down_witness:
  "positiveScaleInt64 (- 7) 9 = (- 7000000000, True) \<and> negativeScaleInt64 (- 7000000000) 9 = (- 7, True)"
proof -
  have up: "positiveScaleInt64 (- 7) 9 = (- 7000000000, True)"
    by code_simp
  moreover have "snd (positiveScaleInt64 (- 7) 9) \<longrightarrow>
      negativeScaleInt64 (fst (positiveScaleInt64 (- 7) 9)) 9 = (- 7, True)"
    by (rule scale_up_down [THEN conjunct2]) (simp_all add: int64_def)
  ultimately show ?thesis by simp
qed

end
