(* ===== verification/Quantity.thy ===== *)
theory Quantity
  imports Complex_Main Int64_Math
begin

text \<open>
  Resource quantities (\<open>vendor/k8s.io/apimachinery/pkg/api/resource/amount.go\<close> and
  \<open>quantity.go\<close>), with the arbitrary-precision decimals of \<open>gopkg.in/inf.v0\<close> they fall
  back to. A quantity is a 64-bit numerator with a decimal scale, or, once an operation does
  not fit, an exact decimal. The lemmas give every operation its meaning on the rational
  number the quantity denotes (\<open>qval\<close>), whichever representation is in use: addition is
  exact and comparison is comparison of the values. The cached string of the Go struct is
  left out; \<open>Format\<close> only selects how the value is printed.
\<close>

record int64Amount =
  ivalue :: int
  iscale :: int

record Dec =
  unscaled :: int
  dscale :: int

record Quantity =
  qi :: int64Amount
  qd :: "Dec option"
  Format :: string

definition DecimalExponent :: string where
  "DecimalExponent = ''DecimalExponent''"

definition BinarySI :: string where
  "BinarySI = ''BinarySI''"

definition DecimalSI :: string where
  "DecimalSI = ''DecimalSI''"

definition NewQuantity :: "int \<Rightarrow> string \<Rightarrow> Quantity" where
  "NewQuantity v f = \<lparr>qi = \<lparr>ivalue = v, iscale = 0\<rparr>, qd = None, Format = f\<rparr>"

definition NewMilliQuantity :: "int \<Rightarrow> string \<Rightarrow> Quantity" where
  "NewMilliQuantity v f = \<lparr>qi = \<lparr>ivalue = v, iscale = - 3\<rparr>, qd = None, Format = f\<rparr>"

section \<open>Exact decimals\<close>

text \<open>\<open>rescale\<close> as \<open>upscale\<close> calls it, towards the larger scale.\<close>

definition Dec_rescale :: "Dec \<Rightarrow> int \<Rightarrow> Dec" where
  "Dec_rescale x newScale =
     (let shift = newScale - dscale x in
      if shift < 0 then \<lparr>unscaled = unscaled x sdiv 10 ^ nat (- shift), dscale = newScale\<rparr>
      else if 0 < shift then \<lparr>unscaled = unscaled x * 10 ^ nat shift, dscale = newScale\<rparr>
      else x)"

definition Dec_upscale :: "Dec \<Rightarrow> Dec \<Rightarrow> Dec \<times> Dec" where
  "Dec_upscale a b =
     (if dscale a = dscale b then (a, b)
      else if dscale b < dscale a then (a, Dec_rescale b (dscale a))
      else (Dec_rescale a (dscale b), b))"

definition Dec_Add :: "Dec \<Rightarrow> Dec \<Rightarrow> Dec" where
  "Dec_Add x y =
     (let (xx, yy) = Dec_upscale x y
      in \<lparr>unscaled = unscaled xx + unscaled yy, dscale = dscale xx\<rparr>)"

definition cmp_int :: "int \<Rightarrow> int \<Rightarrow> int" where
  "cmp_int a b = (if a = b then 0 else if a < b then - 1 else 1)"

definition Dec_Cmp :: "Dec \<Rightarrow> Dec \<Rightarrow> int" where
  "Dec_Cmp x y = (let (xx, yy) = Dec_upscale x y in cmp_int (unscaled xx) (unscaled yy))"

section \<open>64-bit amounts\<close>

definition int64Amount_AsDec :: "int64Amount \<Rightarrow> Dec" where
  "int64Amount_AsDec a = \<lparr>unscaled = ivalue a, dscale = - iscale a\<rparr>"

definition int64Amount_Cmp :: "int64Amount \<Rightarrow> int64Amount \<Rightarrow> int" where
  "int64Amount_Cmp a b =
     (if iscale a = iscale b then cmp_int (ivalue a) (ivalue b)
      else if iscale b < iscale a then
        (case divideByScaleInt64 (ivalue b) (iscale a - iscale b) of (result, remainder, exact) \<Rightarrow>
          if \<not> exact then Dec_Cmp (int64Amount_AsDec a) (int64Amount_AsDec b)
          else if result = ivalue a then
            (if remainder = 0 then 0 else if 0 < remainder then - 1 else 1)
          else cmp_int (ivalue a) result)
      else
        (case divideByScaleInt64 (ivalue a) (iscale b - iscale a) of (result, remainder, exact) \<Rightarrow>
          if \<not> exact then Dec_Cmp (int64Amount_AsDec a) (int64Amount_AsDec b)
          else if result = ivalue b then
            (if remainder = 0 then 0 else if 0 < remainder then 1 else - 1)
          else cmp_int result (ivalue b)))"

text \<open>\<open>None\<close> is the Go result \<open>false\<close>, with the receiver unchanged.\<close>

definition int64Amount_Add :: "int64Amount \<Rightarrow> int64Amount \<Rightarrow> int64Amount option" where
  "int64Amount_Add a b =
     (if ivalue b = 0 then Some a
      else if ivalue a = 0 then Some b
      else if iscale a = iscale b then
        (let (c, ok) = int64Add (ivalue a) (ivalue b)
         in if ok then Some (a\<lparr>ivalue := c\<rparr>) else None)
      else if iscale b < iscale a then
        (let (c, ok) = positiveScaleInt64 (ivalue a) (iscale a - iscale b) in
         if \<not> ok then None
         else (let (c', ok') = int64Add c (ivalue b)
               in if ok' then Some (a\<lparr>ivalue := c', iscale := iscale b\<rparr>) else None))
      else
        (let (c, ok) = positiveScaleInt64 (ivalue b) (iscale b - iscale a) in
         if \<not> ok then None
         else (let (c', ok') = int64Add (ivalue a) c
               in if ok' then Some (a\<lparr>ivalue := c'\<rparr>) else None)))"

definition int64Amount_AsScaledInt64 :: "int64Amount \<Rightarrow> int \<Rightarrow> int \<times> bool" where
  "int64Amount_AsScaledInt64 a scale =
     (if iscale a < scale then (fst (negativeScaleInt64 (ivalue a) (scale - iscale a)), True)
      else positiveScaleInt64 (ivalue a) (iscale a - scale))"

section \<open>Quantities\<close>

definition Quantity_AsDec :: "Quantity \<Rightarrow> Dec" where
  "Quantity_AsDec q = (case qd q of Some d \<Rightarrow> d | None \<Rightarrow> int64Amount_AsDec (qi q))"

definition Quantity_ToDec :: "Quantity \<Rightarrow> Quantity" where
  "Quantity_ToDec q =
     (case qd q of Some _ \<Rightarrow> q
      | None \<Rightarrow> q\<lparr>qd := Some (int64Amount_AsDec (qi q)), qi := \<lparr>ivalue = 0, iscale = 0\<rparr>\<rparr>)"

definition Quantity_IsZero :: "Quantity \<Rightarrow> bool" where
  "Quantity_IsZero q = (case qd q of Some d \<Rightarrow> unscaled d = 0 | None \<Rightarrow> ivalue (qi q) = 0)"

definition Quantity_Add :: "Quantity \<Rightarrow> Quantity \<Rightarrow> Quantity" where
  "Quantity_Add q y =
     (let slow = (\<lambda>q. (Quantity_ToDec q)\<lparr>qd := Some (Dec_Add (Quantity_AsDec q) (Quantity_AsDec y))\<rparr>) in
      if qd q = None \<and> qd y = None then
        (let q1 = (if ivalue (qi q) = 0 then q\<lparr>Format := Format y\<rparr> else q) in
         case int64Amount_Add (qi q1) (qi y) of
           Some i \<Rightarrow> q1\<lparr>qi := i\<rparr>
         | None \<Rightarrow> slow q1)
      else slow (if Quantity_IsZero q then q\<lparr>Format := Format y\<rparr> else q))"

definition Quantity_Cmp :: "Quantity \<Rightarrow> Quantity \<Rightarrow> int" where
  "Quantity_Cmp q y =
     (if qd q = None \<and> qd y = None then int64Amount_Cmp (qi q) (qi y)
      else Dec_Cmp (Quantity_AsDec q) (Quantity_AsDec y))"

text \<open>\<open>Cmp\<close> turns its receiver into a decimal when the other is one.\<close>

definition Cmp_receiver :: "Quantity \<Rightarrow> Quantity \<Rightarrow> Quantity" where
  "Cmp_receiver q y = (if qd q = None \<and> qd y = None then q else Quantity_ToDec q)"

text \<open>
  \<open>Value\<close> of the decimal form goes through \<open>scaledValue\<close> of \<open>scale_int.go\<close>:
  \<open>Int64()\<close> of a big integer keeps its low 64 bits, and the conversion of a float power of
  ten to \<open>int64\<close> is the smallest integer when it does not fit (amd64).
\<close>

definition int64_pow10 :: "int \<Rightarrow> int" where
  "int64_pow10 n = (if n \<le> 18 then 10 ^ nat n else - (2 ^ 63))"

definition scaledValue :: "int \<Rightarrow> int \<Rightarrow> int \<Rightarrow> int" where
  "scaledValue u scale newScale =
     (let dif = scale - newScale in
      if dif = 0 then wrap64 u
      else if dif < 0 then wrap64 (wrap64 u * int64_pow10 (- dif))
      else if u < 2 ^ 63 - 1 \<and> dif < 19 then
        (let d = int64_pow10 dif; result = wrap64 u sdiv d in
         if wrap64 u smod d \<noteq> 0 then wrap64 (result + 1) else result)
      else
        (let d = 10 ^ nat dif in
         if u mod d \<noteq> 0 then wrap64 (wrap64 (u div d) + 1) else wrap64 (u div d)))"

definition Quantity_Value :: "Quantity \<Rightarrow> int" where
  "Quantity_Value q =
     (case qd q of None \<Rightarrow> fst (int64Amount_AsScaledInt64 (qi q) 0)
      | Some d \<Rightarrow> scaledValue (unscaled d) (dscale d) 0)"

definition Quantity_MilliValue :: "Quantity \<Rightarrow> int" where
  "Quantity_MilliValue q =
     (case qd q of None \<Rightarrow> fst (int64Amount_AsScaledInt64 (qi q) (- 3))
      | Some d \<Rightarrow> scaledValue (unscaled d) (dscale d) 3)"

section \<open>The rational number a quantity denotes\<close>

definition aval :: "int64Amount \<Rightarrow> rat" where
  "aval a = of_int (ivalue a) * 10 powi iscale a"

definition dval :: "Dec \<Rightarrow> rat" where
  "dval d = of_int (unscaled d) * 10 powi (- dscale d)"

definition qval :: "Quantity \<Rightarrow> rat" where
  "qval q = (case qd q of Some d \<Rightarrow> dval d | None \<Rightarrow> aval (qi q))"

text \<open>The representation invariant: the numerator is a 64-bit integer.\<close>

definition quantity_ok :: "Quantity \<Rightarrow> bool" where
  "quantity_ok q \<longleftrightarrow> int64 (ivalue (qi q))"

lemma powi_split: "m \<le> n \<Longrightarrow> (10 :: rat) powi n = 10 ^ nat (n - m) * 10 powi m"
proof -
  assume "m \<le> n"
  have "(10 :: rat) powi n = 10 powi (n - m) * 10 powi m"
    using power_int_add [of "10 :: rat" "n - m" m] by simp
  also have "(10 :: rat) powi (n - m) = 10 ^ nat (n - m)"
    using \<open>m \<le> n\<close> by (simp add: power_int_nonneg_exp)
  finally show ?thesis .
qed

lemma dval_AsDec [simp]: "dval (int64Amount_AsDec a) = aval a"
  by (simp add: dval_def aval_def int64Amount_AsDec_def)

lemma dval_Quantity_AsDec [simp]: "dval (Quantity_AsDec q) = qval q"
  by (simp add: Quantity_AsDec_def qval_def split: option.splits)

lemma dval_rescale: "dscale x \<le> s \<Longrightarrow> dval (Dec_rescale x s) = dval x \<and> dscale (Dec_rescale x s) = s"
  using powi_split [of "- s" "- dscale x"]
  by (auto simp: Dec_rescale_def dval_def Let_def)

lemma dval_upscale:
  "Dec_upscale a b = (aa, bb) \<Longrightarrow> dval aa = dval a \<and> dval bb = dval b \<and> dscale aa = dscale bb"
  using dval_rescale [of a "dscale b"] dval_rescale [of b "dscale a"]
  by (auto simp: Dec_upscale_def split: if_splits)

lemma dval_Add [simp]: "dval (Dec_Add x y) = dval x + dval y"
proof -
  obtain xx yy where u: "Dec_upscale x y = (xx, yy)" by force
  have "dval (Dec_Add x y) = dval xx + dval yy"
    using dval_upscale [OF u] by (simp add: Dec_Add_def u dval_def algebra_simps)
  with dval_upscale [OF u] show ?thesis by simp
qed

lemma cmp_int_sgn: "cmp_int a b = sgn (a - b)"
  by (simp add: cmp_int_def sgn_if)

lemma sgn_rat_scale: "sgn (of_int i * 10 powi s :: rat) = of_int (sgn i)"
proof -
  have "sgn (10 powi s :: rat) = 1"
    by (rule sgn_pos) simp
  then show ?thesis
    by (simp add: sgn_mult) (simp add: sgn_if)
qed

lemma Dec_Cmp_sgn: "of_int (Dec_Cmp x y) = sgn (dval x - dval y)"
proof -
  obtain xx yy where u: "Dec_upscale x y = (xx, yy)" by force
  have "dval xx - dval yy = of_int (unscaled xx - unscaled yy) * 10 powi (- dscale yy)"
    using dval_upscale [OF u] by (simp add: dval_def algebra_simps)
  with dval_upscale [OF u] show ?thesis
    by (metis Dec_Cmp_def cmp_int_sgn prod.simps(2) sgn_rat_scale u)
qed

section \<open>Comparison compares values\<close>

lemma truncated_compare:
  fixes a b d :: int
  assumes "0 < d"
  shows "sgn (a * d - b) =
    (if b sdiv d = a then - sgn (b smod d) else sgn (a - b sdiv d))"
proof -
  have b: "b = (b sdiv d) * d + b smod d" and r: "\<bar>b smod d\<bar> < d"
    using sdiv_smod_decomp [of b d] abs_smod_less [OF assms] by simp_all
  consider "b sdiv d = a" | "b sdiv d < a" | "a < b sdiv d"
    by linarith
  then show ?thesis
  proof cases
    case 1
    with b have "a * d - b = - (b smod d)" by simp
    with 1 show ?thesis by simp
  next
    case 2
    then have "1 * d \<le> (a - b sdiv d) * d"
      using assms by (intro mult_right_mono) auto
    with b r have "0 < a * d - b" by (simp add: algebra_simps)
    with 2 show ?thesis by simp
  next
    case 3
    then have "1 * d \<le> (b sdiv d - a) * d"
      using assms by (intro mult_right_mono) auto
    with b r have "a * d - b < 0" by (simp add: algebra_simps)
    with 3 show ?thesis by simp
  qed
qed

lemma sgn_diff_swap: "sgn (x - y) = - sgn (y - x :: rat)"
  by (auto simp: sgn_if)

lemma aval_diff_scaled:
  assumes "iscale b \<le> iscale a"
  shows "aval a - aval b
    = of_int (ivalue a * 10 ^ nat (iscale a - iscale b) - ivalue b) * 10 powi iscale b"
  using powi_split [OF assms] by (simp add: aval_def algebra_simps)

lemma divideByScale_cases:
  assumes "0 < scale"
  shows "divideByScaleInt64 v scale = (0, v, False) \<or>
    divideByScaleInt64 v scale = (v sdiv 10 ^ nat scale, v smod 10 ^ nat scale, True)"
  using assms by (auto simp: divideByScaleInt64_def pow10Int64_def)

lemma int64Amount_Cmp_sgn: "of_int (int64Amount_Cmp a b) = sgn (aval a - aval b)"
proof -
  consider "iscale a = iscale b" | "iscale b < iscale a" | "iscale a < iscale b"
    by linarith
  then show ?thesis
  proof cases
    case 1
    then have "aval a - aval b = of_int (ivalue a - ivalue b) * 10 powi iscale b"
      by (simp add: aval_def algebra_simps)
    then have "sgn (aval a - aval b) = of_int (sgn (ivalue a - ivalue b))"
      by (simp only: sgn_rat_scale)
    with 1 show ?thesis
      by (simp add: int64Amount_Cmp_def cmp_int_sgn)
  next
    case 2
    let ?d = "10 ^ nat (iscale a - iscale b) :: int"
    have s: "sgn (aval a - aval b) = of_int (sgn (ivalue a * ?d - ivalue b))"
      using 2 by (simp only: aval_diff_scaled sgn_rat_scale less_imp_le)
    have "0 < iscale a - iscale b" using 2 by simp
    from divideByScale_cases [OF this, of "ivalue b"] show ?thesis
    proof
      assume "divideByScaleInt64 (ivalue b) (iscale a - iscale b) = (0, ivalue b, False)"
      with 2 show ?thesis
        by (simp add: int64Amount_Cmp_def Dec_Cmp_sgn)
    next
      assume "divideByScaleInt64 (ivalue b) (iscale a - iscale b)
        = (ivalue b sdiv ?d, ivalue b smod ?d, True)"
      with 2 s show ?thesis
        by (simp add: int64Amount_Cmp_def truncated_compare cmp_int_sgn)
    qed
  next
    case 3
    let ?d = "10 ^ nat (iscale b - iscale a) :: int"
    have "sgn (aval b - aval a) = of_int (sgn (ivalue b * ?d - ivalue a))"
      using 3 by (simp only: aval_diff_scaled sgn_rat_scale less_imp_le)
    moreover have "sgn (aval a - aval b) = - sgn (aval b - aval a)"
      by (rule sgn_diff_swap)
    ultimately have s: "sgn (aval a - aval b) = - of_int (sgn (ivalue b * ?d - ivalue a))"
      by simp
    have "0 < iscale b - iscale a" using 3 by simp
    from divideByScale_cases [OF this, of "ivalue a"] show ?thesis
    proof
      assume "divideByScaleInt64 (ivalue a) (iscale b - iscale a) = (0, ivalue a, False)"
      with 3 show ?thesis
        by (simp add: int64Amount_Cmp_def Dec_Cmp_sgn)
    next
      assume "divideByScaleInt64 (ivalue a) (iscale b - iscale a)
        = (ivalue a sdiv ?d, ivalue a smod ?d, True)"
      moreover have "sgn (ivalue b - ivalue a sdiv ?d) = - sgn (ivalue a sdiv ?d - ivalue b)"
        by (auto simp: sgn_if)
      ultimately show ?thesis
        using 3 s by (simp add: int64Amount_Cmp_def truncated_compare cmp_int_sgn)
    qed
  qed
qed

lemma Quantity_Cmp_sgn: "of_int (Quantity_Cmp q y) = sgn (qval q - qval y)"
  by (simp add: Quantity_Cmp_def int64Amount_Cmp_sgn Dec_Cmp_sgn qval_def)

lemma sgn_diff_iff:
  "sgn (x - y) = (1 :: rat) \<longleftrightarrow> y < x" "sgn (x - y) = (0 :: rat) \<longleftrightarrow> x = y"
  "sgn (x - y) = (- 1 :: rat) \<longleftrightarrow> x < y"
  by (auto simp: sgn_if)

lemma Quantity_Cmp_greater: "Quantity_Cmp q y = 1 \<longleftrightarrow> qval y < qval q"
  using Quantity_Cmp_sgn [of q y] sgn_diff_iff(1) [of "qval q" "qval y"]
  by (metis of_int_1 of_int_eq_iff)

lemma Quantity_IsZero_iff: "Quantity_IsZero q \<longleftrightarrow> qval q = 0"
  by (simp add: Quantity_IsZero_def qval_def dval_def aval_def split: option.splits)

section \<open>Addition is exact\<close>

lemma aval_zero: "ivalue a = 0 \<Longrightarrow> aval a = 0"
  by (simp add: aval_def)

lemma aval_sum_scaled:
  assumes "iscale b \<le> iscale a"
  shows "of_int (ivalue a * 10 ^ nat (iscale a - iscale b) + ivalue b) * 10 powi iscale b
    = aval a + aval b"
  using powi_split [OF assms] by (simp add: aval_def algebra_simps)

lemma int64Amount_Add_exact:
  assumes "int64Amount_Add a b = Some c" "int64 (ivalue a)" "int64 (ivalue b)"
  shows "aval c = aval a + aval b \<and> int64 (ivalue c)"
proof -
  have up: "snd (positiveScaleInt64 v e) \<Longrightarrow>
      fst (positiveScaleInt64 v e) = v * 10 ^ nat e \<and> int64 (v * 10 ^ nat e)"
    if "int64 v" "0 \<le> e" for v e
    using positiveScaleInt64_exact [OF that] by (simp add: exact_product_def)
  consider "ivalue a = 0 \<or> ivalue b = 0" | "ivalue a \<noteq> 0" "ivalue b \<noteq> 0" "iscale a = iscale b"
    | "ivalue a \<noteq> 0" "ivalue b \<noteq> 0" "iscale b < iscale a"
    | "ivalue a \<noteq> 0" "ivalue b \<noteq> 0" "iscale a < iscale b"
    by linarith
  then show ?thesis
  proof cases
    case 1
    with assms show ?thesis
      by (auto simp: int64Amount_Add_def aval_zero split: if_splits)
  next
    case 2
    with assms show ?thesis
      by (auto simp: int64Amount_Add_def int64Add_ok aval_def algebra_simps split: if_splits)
  next
    case 3
    with assms up [of "ivalue a" "iscale a - iscale b"]
    have "ivalue c = ivalue a * 10 ^ nat (iscale a - iscale b) + ivalue b"
      and "iscale c = iscale b" "int64 (ivalue c)"
      by (auto simp: int64Amount_Add_def int64Add_ok split: prod.splits if_splits)
    then show ?thesis
      using 3 aval_sum_scaled [of b a] by (simp add: aval_def)
  next
    case 4
    with assms up [of "ivalue b" "iscale b - iscale a"]
    have "ivalue c = ivalue b * 10 ^ nat (iscale b - iscale a) + ivalue a"
      and "iscale c = iscale a" "int64 (ivalue c)"
      by (auto simp: int64Amount_Add_def int64Add_ok add.commute split: prod.splits if_splits)
    then show ?thesis
      using 4 aval_sum_scaled [of a b] by (simp add: aval_def)
  qed
qed

lemma qval_format [simp]: "qval (q\<lparr>Format := f\<rparr>) = qval q"
  and quantity_ok_format [simp]: "quantity_ok (q\<lparr>Format := f\<rparr>) = quantity_ok q"
  and qd_ToDec_update [simp]: "qval ((Quantity_ToDec q)\<lparr>qd := Some d\<rparr>) = dval d"
  by (simp_all add: qval_def quantity_ok_def split: option.splits)

lemma quantity_ok_ToDec: "quantity_ok q \<Longrightarrow> quantity_ok ((Quantity_ToDec q)\<lparr>qd := d\<rparr>)"
  by (simp add: quantity_ok_def Quantity_ToDec_def int64_def split: option.splits)

lemma Quantity_Add_exact:
  assumes "quantity_ok q" "quantity_ok y"
  shows "qval (Quantity_Add q y) = qval q + qval y \<and> quantity_ok (Quantity_Add q y)"
proof (cases "qd q = None \<and> qd y = None")
  case True
  define q1 where "q1 = (if ivalue (qi q) = 0 then q\<lparr>Format := Format y\<rparr> else q)"
  have q1: "qi q1 = qi q" "qd q1 = None" "qval q1 = qval q" "quantity_ok q1"
    using True assms by (simp_all add: q1_def)
  show ?thesis
  proof (cases "int64Amount_Add (qi q) (qi y)")
    case None
    with True q1 show ?thesis
      by (simp add: Quantity_Add_def Let_def q1_def [symmetric] quantity_ok_ToDec)
  next
    case (Some i)
    from int64Amount_Add_exact [OF Some] assms
    have "aval i = aval (qi q) + aval (qi y)" "int64 (ivalue i)"
      by (simp_all add: quantity_ok_def)
    with True q1 Some show ?thesis
      by (simp add: Quantity_Add_def Let_def q1_def [symmetric] qval_def quantity_ok_def)
  qed
next
  case False
  define q1 where "q1 = (if Quantity_IsZero q then q\<lparr>Format := Format y\<rparr> else q)"
  have "qval q1 = qval q" "quantity_ok q1"
    using assms by (simp_all add: q1_def)
  moreover have "Quantity_Add q y =
      (Quantity_ToDec q1)\<lparr>qd := Some (Dec_Add (Quantity_AsDec q1) (Quantity_AsDec y))\<rparr>"
    unfolding Quantity_Add_def Let_def q1_def by (rule if_not_P [OF False])
  ultimately show ?thesis
    by (simp add: quantity_ok_ToDec)
qed

lemma qval_Cmp_receiver [simp]: "qval (Cmp_receiver q y) = qval q"
  by (simp add: Cmp_receiver_def Quantity_ToDec_def qval_def split: option.splits)

lemma quantity_ok_Cmp_receiver [simp]: "quantity_ok q \<Longrightarrow> quantity_ok (Cmp_receiver q y)"
  by (simp add: Cmp_receiver_def Quantity_ToDec_def quantity_ok_def int64_def split: option.splits)

section \<open>Properties\<close>

text \<open>\<open>Cmp\<close> is the order of the rational numbers the quantities stand for, and \<open>IsZero\<close> is
  equality with zero, for every scale and both representations.\<close>

lemma Quantity_Cmp_order:
  "Quantity_Cmp q y = (if qval q < qval y then - 1 else if qval q = qval y then 0 else 1) \<and>
   Quantity_IsZero q = (qval q = 0)"
proof -
  have "(of_int (Quantity_Cmp q y) :: rat) =
      of_int (if qval q < qval y then - 1 else if qval q = qval y then 0 else 1)"
    by (auto simp: Quantity_Cmp_sgn sgn_if)
  then have "Quantity_Cmp q y = (if qval q < qval y then - 1 else if qval q = qval y then 0 else 1)"
    by (simp only: of_int_eq_iff)
  then show ?thesis
    by (simp add: Quantity_IsZero_iff)
qed

text \<open>Adding up quantities is exact: no overflow of the 64-bit fast path is lost, in any number
  of additions.\<close>

lemma Quantity_Add_sum:
  assumes "quantity_ok q" and "list_all quantity_ok qs"
  shows "qval (fold Quantity_Add qs q) = qval q + (\<Sum>x\<leftarrow>qs. qval x) \<and>
    quantity_ok (fold Quantity_Add qs q)"
  using assms
proof (induction qs arbitrary: q)
  case Nil
  then show ?case by simp
next
  case (Cons x qs)
  then show ?case
    using Quantity_Add_exact [of x q] by (simp add: algebra_simps)
qed

lemma Quantity_Add_sum_witness:
  "let qs = [NewQuantity (2 ^ 63 - 1) [], NewMilliQuantity 1500 []]; q = NewQuantity (2 ^ 63 - 1) [] in
     qval (fold Quantity_Add qs q) = qval q + (\<Sum>x\<leftarrow>qs. qval x) \<and> quantity_ok (fold Quantity_Add qs q)"
  unfolding Let_def
  by (rule Quantity_Add_sum) (simp_all add: quantity_ok_def NewQuantity_def NewMilliQuantity_def int64_def)

text \<open>\<open>Value\<close> of a quantity in the fast representation is its value rounded away from zero to
  an integer, when the result fits 64 bits.\<close>

lemma Quantity_Value_rounds:
  assumes "quantity_ok q" and "qd q = None"
    and "int64 (ivalue (qi q) * 10 ^ nat (iscale (qi q)))"
  shows "Quantity_Value q =
    (if 0 \<le> iscale (qi q) then ivalue (qi q) * 10 ^ nat (iscale (qi q))
     else fst (round_away (ivalue (qi q)) (10 ^ nat (- iscale (qi q)))))"
proof (cases "0 \<le> iscale (qi q)")
  case True
  then show ?thesis
    using assms positiveScaleInt64_exact [of "ivalue (qi q)" "iscale (qi q)"]
    by (simp add: Quantity_Value_def int64Amount_AsScaledInt64_def exact_product_def quantity_ok_def)
next
  case False
  then show ?thesis
    using assms negativeScaleInt64_rounds [of "ivalue (qi q)" "- iscale (qi q)"]
    by (simp add: Quantity_Value_def int64Amount_AsScaledInt64_def quantity_ok_def)
qed

lemma Quantity_Value_rounds_witness:
  "let q = NewMilliQuantity (- 1500) [] in
   Quantity_Value q =
    (if 0 \<le> iscale (qi q) then ivalue (qi q) * 10 ^ nat (iscale (qi q))
     else fst (round_away (ivalue (qi q)) (10 ^ nat (- iscale (qi q)))))"
  unfolding Let_def
  by (rule Quantity_Value_rounds) (simp_all add: quantity_ok_def NewMilliQuantity_def int64_def)

end
