(* ===== verification/Objects.thy ===== *)
theory Objects
  imports Go_Strings Quantity
begin

text \<open>
  The Kubernetes objects of the program, restricted to the fields the program reads or
  writes (\<open>vendor/k8s.io/api/core/v1\<close>, \<open>apimachinery/pkg/apis/meta/v1\<close>). A Go map that
  the code only reads and writes by key is a HOL map, with \<open>None\<close> for the nil map where the
  code tests for it; a \<open>ResourceList\<close>, over which the code iterates, is an association list,
  whose order stands for the unspecified iteration order of Go. The objects of the kinds the
  program only copies (\<open>KObject\<close>) carry the rest of their contents as an opaque text.
  \<open>DeepCopy\<close> is the identity on these values.
\<close>

type_synonym ResourceList = "(string \<times> Quantity) list"

record ObjectMeta =
  Name :: string
  Namespace :: string
  UID :: string
  Annotations :: "(string \<rightharpoonup> string) option"

record Container =
  ContainerName :: string
  Image :: string
  ImagePullPolicy :: string
  Limits :: ResourceList
  Requests :: ResourceList

record PodSpec =
  NodeName :: string
  SchedulerName :: string
  NodeSelector :: "string dict option"
  Containers :: "Container list"
  RestartPolicy :: string
  DNSPolicy :: string

record PodCondition =
  CondType :: string
  CondStatus :: string
  Reason :: string
  Message :: string

record PodStatus =
  Phase :: string
  Conditions :: "PodCondition list"

record Pod =
  Meta :: ObjectMeta
  Spec :: PodSpec
  PStatus :: PodStatus

record KObject =
  KMeta :: ObjectMeta
  KRest :: string

definition set_pod_meta :: "ObjectMeta \<Rightarrow> Pod \<Rightarrow> Pod" where
  "set_pod_meta m p = p\<lparr>Meta := m\<rparr>"

definition set_kobject_meta :: "ObjectMeta \<Rightarrow> KObject \<Rightarrow> KObject" where
  "set_kobject_meta m x = x\<lparr>KMeta := m\<rparr>"

abbreviation pod_name :: "Pod \<Rightarrow> string" where
  "pod_name p \<equiv> Name (Meta p)"

abbreviation pod_ns :: "Pod \<Rightarrow> string" where
  "pod_ns p \<equiv> Namespace (Meta p)"

abbreviation pod_node :: "Pod \<Rightarrow> string" where
  "pod_node p \<equiv> NodeName (Spec p)"

section \<open>Constants of the API\<close>

definition DefaultSchedulerName :: string where
  "DefaultSchedulerName = ''default-scheduler''"

definition podProvisioner :: string where
  "podProvisioner = ''cc.kubernetes.io/provisioned-by''"

definition HasAnnotation :: "ObjectMeta \<Rightarrow> string \<Rightarrow> bool" where
  "HasAnnotation m ann = (case Annotations m of None \<Rightarrow> False | Some a \<Rightarrow> a ann \<noteq> None)"

text \<open>
  \<open>UpdatePodCondition\<close> of \<open>kubernetes/pkg/api/v1/pod/util.go\<close>, with which the scheduler
  records a scheduling failure: the condition of the same type is replaced, or appended.
\<close>

fun set_condition :: "PodCondition \<Rightarrow> PodCondition list \<Rightarrow> PodCondition list" where
  "set_condition c [] = [c]"
| "set_condition c (d # ds) =
     (if CondType d = CondType c then c # ds else d # set_condition c ds)"

lemma set_condition_mem: "c \<in> set (set_condition c cs)"
  by (induction cs) auto

lemma set_condition_subset: "set (set_condition c cs) \<subseteq> insert c (set cs)"
  by (induction cs) auto

end
