(* ===== verification/Tracker.thy ===== *)
theory Tracker
  imports Objects
begin

text \<open>
  The object tracker behind the fake clientset, the simulated API server of the program
  (\<open>vendor/k8s.io/client-go/testing/fixture.go\<close>), for the objects of one resource. It is
  generic in the object type: \<open>meta\<close> and \<open>set_meta\<close> are the accessor Go gets from
  \<open>meta.Accessor\<close>. Every successful write also sends a watch event to the informer, in
  order. Resource versions and the lock are left out: each operation runs under the lock.

  \<open>object_store\<close> is what the program relies on: what a lookup returns after a create and
  after an update, and when they fail. It is stated as a locale, its consequences for the
  program's copy loops are proved once there, and the tracker provides it for every object
  type whose accessor is a lens (\<open>meta_lens\<close>).
\<close>

datatype 'a watch_event = Added 'a | Modified 'a

record 'a tracker =
  objects :: "((string \<times> string) \<times> 'a) list"
  watches :: "'a watch_event list"

definition empty_tracker :: "'a tracker" where
  "empty_tracker = \<lparr>objects = [], watches = []\<rparr>"

definition tracker_get :: "string \<Rightarrow> string \<Rightarrow> 'a tracker \<Rightarrow> go_error + 'a" where
  "tracker_get ns name t =
     (case map_of (objects t) (ns, name) of None \<Rightarrow> Inl (Not_found name) | Some x \<Rightarrow> Inr x)"

definition tracker_add ::
  "('a \<Rightarrow> ObjectMeta) \<Rightarrow> (ObjectMeta \<Rightarrow> 'a \<Rightarrow> 'a) \<Rightarrow> 'a \<Rightarrow> string \<Rightarrow> bool \<Rightarrow> 'a tracker
    \<Rightarrow> go_error + 'a tracker" where
  "tracker_add meta set_meta obj0 ns replaceExisting t =
     (let obj = (if Namespace (meta obj0) = [] then set_meta ((meta obj0)\<lparr>Namespace := ns\<rparr>) obj0
                 else obj0);
          namespacedName = (Namespace (meta obj), Name (meta obj)) in
      if ns \<noteq> Namespace (meta obj) then Inl (Bad_request ns (Namespace (meta obj)))
      else if map_of (objects t) namespacedName \<noteq> None then
        (if replaceExisting then
           Inr (t\<lparr>objects := alist_put namespacedName obj (objects t),
                  watches := watches t @ [Modified obj]\<rparr>)
         else Inl (Already_exists (Name (meta obj))))
      else if replaceExisting then Inl (Not_found (Name (meta obj)))
      else Inr (t\<lparr>objects := alist_put namespacedName obj (objects t),
                  watches := watches t @ [Added obj]\<rparr>))"

text \<open>
  \<open>Create\<close> and \<open>Update\<close> of the clientset: write, then read the object back. The
  program never uses the object they return.
\<close>

definition client_write ::
  "('a \<Rightarrow> ObjectMeta) \<Rightarrow> (ObjectMeta \<Rightarrow> 'a \<Rightarrow> 'a) \<Rightarrow> bool \<Rightarrow> 'a \<Rightarrow> string \<Rightarrow> 'a tracker
    \<Rightarrow> 'a tracker \<times> go_error option" where
  "client_write meta set_meta replaceExisting obj ns t =
     (case tracker_add meta set_meta obj ns replaceExisting t of
        Inl e \<Rightarrow> (t, Some e)
      | Inr t' \<Rightarrow> (t', case tracker_get ns (Name (meta obj)) t' of Inl e \<Rightarrow> Some e | Inr _ \<Rightarrow> None))"

abbreviation pod_create :: "Pod \<Rightarrow> string \<Rightarrow> Pod tracker \<Rightarrow> Pod tracker \<times> go_error option" where
  "pod_create \<equiv> client_write Meta set_pod_meta False"

abbreviation pod_update :: "Pod \<Rightarrow> string \<Rightarrow> Pod tracker \<Rightarrow> Pod tracker \<times> go_error option" where
  "pod_update \<equiv> client_write Meta set_pod_meta True"

abbreviation kobj_create :: "KObject \<Rightarrow> string \<Rightarrow> KObject tracker \<Rightarrow> KObject tracker \<times> go_error option" where
  "kobj_create \<equiv> client_write KMeta set_kobject_meta False"

text \<open>The well-formedness of a tracker: one entry per key, stored under its own key.\<close>

definition tracker_ok :: "('a \<Rightarrow> ObjectMeta) \<Rightarrow> 'a tracker \<Rightarrow> bool" where
  "tracker_ok meta t \<longleftrightarrow> distinct (map fst (objects t)) \<and>
     (\<forall>(k, x) \<in> set (objects t). k = (Namespace (meta x), Name (meta x)))"

lemma tracker_ok_empty [simp]: "tracker_ok meta empty_tracker"
  by (simp add: tracker_ok_def empty_tracker_def)

lemma tracker_okD:
  "tracker_ok meta t \<Longrightarrow> map_of (objects t) k = Some x \<Longrightarrow> k = (Namespace (meta x), Name (meta x))"
  by (auto simp: tracker_ok_def dest!: map_of_SomeD)

section \<open>The contract of a store\<close>

text \<open>
  A loop of the program that creates the objects of a list one after the other and stops at
  the first error, as the loops of \<open>SyncWithClient\<close> do.
\<close>

fun create_all :: "('o \<Rightarrow> 's \<Rightarrow> 's \<times> go_error option) \<Rightarrow> 'o list \<Rightarrow> 's \<Rightarrow> 's \<times> go_error option" where
  "create_all create [] s = (s, None)"
| "create_all create (x # xs) s =
     (case create x s of
        (s', Some e) \<Rightarrow> (s', Some e)
      | (s', None) \<Rightarrow> create_all create xs s')"

locale object_store =
  fixes key :: "'o \<Rightarrow> 'k"
    and lookup :: "'s \<Rightarrow> 'k \<Rightarrow> 'o option"
    and create :: "'o \<Rightarrow> 's \<Rightarrow> 's \<times> go_error option"
    and update :: "'o \<Rightarrow> 's \<Rightarrow> 's \<times> go_error option"
  assumes create_fresh:
      "lookup s (key x) = None \<Longrightarrow>
        snd (create x s) = None \<and> lookup (fst (create x s)) = (lookup s)(key x \<mapsto> x)"
    and create_exists:
      "lookup s (key x) \<noteq> None \<Longrightarrow> snd (create x s) \<noteq> None \<and> fst (create x s) = s"
    and update_exists:
      "lookup s (key x) \<noteq> None \<Longrightarrow>
        snd (update x s) = None \<and> lookup (fst (update x s)) = (lookup s)(key x \<mapsto> x)"
    and update_missing:
      "lookup s (key x) = None \<Longrightarrow> snd (update x s) \<noteq> None \<and> fst (update x s) = s"
begin

text \<open>Copying succeeds exactly when no key is taken and none occurs twice.\<close>

lemma create_all_ok_iff:
  "snd (create_all create xs s) = None \<longleftrightarrow>
     distinct (map key xs) \<and> (\<forall>x \<in> set xs. lookup s (key x) = None)"
proof (induction xs arbitrary: s)
  case Nil
  then show ?case by simp
next
  case (Cons x xs)
  show ?case
  proof (cases "lookup s (key x)")
    case None
    from create_fresh [OF None] obtain s' where
      c: "create x s = (s', None)" "lookup s' = (lookup s)(key x \<mapsto> x)"
      by (metis prod.collapse)
    have "(\<forall>z \<in> set xs. lookup s' (key z) = None) \<longleftrightarrow>
        key x \<notin> key ` set xs \<and> (\<forall>z \<in> set xs. lookup s (key z) = None)"
      by (auto simp: c(2) image_iff split: if_splits)
    with Cons.IH [of s'] None c(1) show ?thesis by auto
  next
    case (Some y)
    with create_exists [of s x] obtain s' e where "create x s = (s', Some e)"
      by (metis not_None_eq option.discI prod.collapse)
    with Some show ?thesis by auto
  qed
qed

text \<open>After a successful copy, exactly the copied objects have been added.\<close>

lemma create_all_lookup:
  "snd (create_all create xs s) = None \<Longrightarrow>
     lookup (fst (create_all create xs s)) = lookup s ++ map_of (map (\<lambda>x. (key x, x)) xs)"
proof (induction xs arbitrary: s)
  case Nil
  then show ?case by simp
next
  case (Cons x xs)
  then have fresh: "lookup s (key x) = None" and d: "key x \<notin> key ` set xs"
    using create_all_ok_iff [of "x # xs" s] by auto
  from create_fresh [OF fresh] obtain s' where
    c: "create x s = (s', None)" "lookup s' = (lookup s)(key x \<mapsto> x)"
    by (metis prod.collapse)
  have "map_of (map (\<lambda>x. (key x, x)) xs) (key x) = None"
    using d by (auto simp: map_of_eq_None_iff)
  with Cons c show ?case
    by (auto simp: fun_eq_iff map_add_def split: option.splits)
qed

lemma create_then_create_fails:
  "snd (create x s) = None \<Longrightarrow> key y = key x \<Longrightarrow> snd (create y (fst (create x s))) \<noteq> None"
  by (metis create_exists create_fresh fun_upd_same option.distinct(1))

lemma update_other: "k \<noteq> key x \<Longrightarrow> lookup (fst (update x s)) k = lookup s k"
  by (metis fun_upd_other update_exists update_missing)

end

section \<open>The tracker is a store\<close>

text \<open>
  \<open>tracker_create\<close> and \<open>tracker_update\<close> use the object's own namespace for the request, as
  the copy loops and the binder do.
\<close>

definition object_key :: "('a \<Rightarrow> ObjectMeta) \<Rightarrow> 'a \<Rightarrow> string \<times> string" where
  "object_key meta x = (Namespace (meta x), Name (meta x))"

definition tracker_lookup :: "'a tracker \<Rightarrow> string \<times> string \<Rightarrow> 'a option" where
  "tracker_lookup t = map_of (objects t)"

abbreviation own_write ::
  "('a \<Rightarrow> ObjectMeta) \<Rightarrow> (ObjectMeta \<Rightarrow> 'a \<Rightarrow> 'a) \<Rightarrow> bool \<Rightarrow> 'a \<Rightarrow> 'a tracker
    \<Rightarrow> 'a tracker \<times> go_error option" where
  "own_write meta set_meta replace x t \<equiv> client_write meta set_meta replace x (Namespace (meta x)) t"

locale meta_lens =
  fixes meta :: "'a \<Rightarrow> ObjectMeta"
    and set_meta :: "ObjectMeta \<Rightarrow> 'a \<Rightarrow> 'a"
  assumes meta_set: "meta (set_meta m x) = m"
    and set_meta_id: "set_meta (meta x) x = x"
begin

lemma own_namespace:
  "(if Namespace (meta x) = [] then set_meta ((meta x)\<lparr>Namespace := Namespace (meta x)\<rparr>) x else x) = x"
proof -
  have "(meta x)\<lparr>Namespace := Namespace (meta x)\<rparr> = meta x"
    by (cases "meta x") simp
  then show ?thesis
    by (simp only: set_meta_id if_cancel)
qed

text \<open>The four outcomes of a write in the object's own namespace.\<close>

lemma create_fresh_eq:
  assumes "map_of (objects t) (object_key meta x) = None"
  shows "own_write meta set_meta False x t =
    (t\<lparr>objects := alist_put (object_key meta x) x (objects t), watches := watches t @ [Added x]\<rparr>, None)"
  using assms own_namespace [of x]
  by (simp add: client_write_def tracker_add_def tracker_get_def object_key_def Let_def)

lemma create_exists_eq:
  assumes "map_of (objects t) (object_key meta x) = Some y"
  shows "own_write meta set_meta False x t = (t, Some (Already_exists (Name (meta x))))"
  using assms own_namespace [of x]
  by (simp add: client_write_def tracker_add_def object_key_def Let_def)

lemma update_exists_eq:
  assumes "map_of (objects t) (object_key meta x) = Some y"
  shows "own_write meta set_meta True x t =
    (t\<lparr>objects := alist_put (object_key meta x) x (objects t), watches := watches t @ [Modified x]\<rparr>, None)"
  using assms own_namespace [of x]
  by (simp add: client_write_def tracker_add_def tracker_get_def object_key_def Let_def)

lemma update_missing_eq:
  assumes "map_of (objects t) (object_key meta x) = None"
  shows "own_write meta set_meta True x t = (t, Some (Not_found (Name (meta x))))"
  using assms own_namespace [of x]
  by (simp add: client_write_def tracker_add_def object_key_def Let_def)

lemma own_write_ok:
  "tracker_ok meta t \<Longrightarrow> tracker_ok meta (fst (own_write meta set_meta r x t))"
proof -
  assume ok: "tracker_ok meta t"
  have put: "tracker_ok meta (t\<lparr>objects := alist_put (object_key meta x) x (objects t), watches := w\<rparr>)" for w
    using ok by (auto simp: tracker_ok_def set_alist_put object_key_def)
  show ?thesis
    using ok put
    by (cases r; cases "map_of (objects t) (object_key meta x)")
       (simp_all add: create_fresh_eq create_exists_eq update_exists_eq update_missing_eq)
qed

end

sublocale meta_lens \<subseteq> object_store "object_key meta" tracker_lookup
  "own_write meta set_meta False" "own_write meta set_meta True"
proof unfold_locales
  fix s :: "'a tracker" and x
  assume "tracker_lookup s (object_key meta x) = None"
  then have n: "map_of (objects s) (object_key meta x) = None"
    by (simp add: tracker_lookup_def)
  show "snd (own_write meta set_meta False x s) = None \<and>
      tracker_lookup (fst (own_write meta set_meta False x s)) =
      (tracker_lookup s)(object_key meta x \<mapsto> x)"
    by (simp add: create_fresh_eq [OF n] tracker_lookup_def)
  show "snd (own_write meta set_meta True x s) \<noteq> None \<and> fst (own_write meta set_meta True x s) = s"
    by (simp add: update_missing_eq [OF n])
next
  fix s :: "'a tracker" and x
  assume "tracker_lookup s (object_key meta x) \<noteq> None"
  then obtain y where n: "map_of (objects s) (object_key meta x) = Some y"
    by (auto simp: tracker_lookup_def)
  show "snd (own_write meta set_meta False x s) \<noteq> None \<and> fst (own_write meta set_meta False x s) = s"
    by (simp add: create_exists_eq [OF n])
  show "snd (own_write meta set_meta True x s) = None \<and>
      tracker_lookup (fst (own_write meta set_meta True x s)) =
      (tracker_lookup s)(object_key meta x \<mapsto> x)"
    by (simp add: update_exists_eq [OF n] tracker_lookup_def)
qed

interpretation pod_store: meta_lens Meta set_pod_meta
  by unfold_locales (simp_all add: set_pod_meta_def)

interpretation kobj_store: meta_lens KMeta set_kobject_meta
  by unfold_locales (simp_all add: set_kobject_meta_def)

section \<open>The pods of the simulated cluster are a map\<close>

text \<open>C29: The tracker refines a finite map: \<open>Create\<close> inserts a pod and fails when its key is
  taken, \<open>Update\<close> overwrites one and fails when there is none, and a failed write changes
  nothing.\<close>

theorem pods_refine_map:
  "tracker_lookup (fst (own_write Meta set_pod_meta replace p t)) =
     (if (tracker_lookup t (object_key Meta p) \<noteq> None) = replace
      then (tracker_lookup t)(object_key Meta p \<mapsto> p) else tracker_lookup t) \<and>
   (snd (own_write Meta set_pod_meta replace p t) = None) =
     ((tracker_lookup t (object_key Meta p) \<noteq> None) = replace)"
proof (cases "tracker_lookup t (object_key Meta p)")
  case None
  then show ?thesis
    using pod_store.create_fresh [of t p] pod_store.update_missing [of t p] by (cases replace) auto
next
  case (Some q)
  then show ?thesis
    using pod_store.create_exists [of t p] pod_store.update_exists [of t p] by (cases replace) auto
qed

end
