(* ===== verification/Pod_Generator.thy ===== *)
theory Pod_Generator
  imports Objects
begin

text \<open>
  \<open>pkg/framework/podgenerator.go\<close>: the generator of simulated pods. The counter is a Go
  \<open>uint\<close>, a 64-bit word; the random UID of each pod is an argument, since it comes from the
  operating system. The Go interface \<open>PodGenerator\<close> is the locale \<open>pod_generator\<close>: what
  the simulator expects of a generator, and what follows for the sequence of pods it emits.
\<close>

record singlePodGenerator =
  counter :: "64 word"
  podTemplate :: Pod

definition NewSinglePodGenerator :: "Pod \<Rightarrow> singlePodGenerator" where
  "NewSinglePodGenerator t = \<lparr>counter = 0, podTemplate = t\<rparr>"

definition simulated_name :: "string \<Rightarrow> nat \<Rightarrow> string" where
  "simulated_name base n = base @ ''-'' @ show_nat n"

definition Generate :: "string \<Rightarrow> singlePodGenerator \<Rightarrow> Pod \<times> singlePodGenerator" where
  "Generate uuid g =
     (let pod = podTemplate g;
          pod = pod\<lparr>Spec := (Spec pod)\<lparr>NodeName := []\<rparr>\<rparr>;
          pod = pod\<lparr>Meta := (Meta pod)\<lparr>
                  Name := simulated_name (pod_name (podTemplate g)) (unat (counter g)),
                  UID := uuid\<rparr>\<rparr>;
          pod = (case Annotations (Meta pod) of
                   None \<Rightarrow> pod\<lparr>Meta := (Meta pod)\<lparr>Annotations := Some Map.empty\<rparr>\<rparr>
                 | Some _ \<Rightarrow> pod)
      in (pod, g\<lparr>counter := counter g + 1\<rparr>))"

lemma simulated_name_inject [simp]:
  "simulated_name b m = simulated_name b n \<longleftrightarrow> m = n"
  by (simp add: simulated_name_def)

section \<open>What a generated pod is\<close>

lemma Generate_meta:
  "pod_name (fst (Generate u g)) = simulated_name (pod_name (podTemplate g)) (unat (counter g))"
  "pod_ns (fst (Generate u g)) = pod_ns (podTemplate g)"
  "UID (Meta (fst (Generate u g))) = u"
  "Annotations (Meta (fst (Generate u g))) =
     Some (case Annotations (Meta (podTemplate g)) of None \<Rightarrow> Map.empty | Some a \<Rightarrow> a)"
  by (simp_all add: Generate_def Let_def split: option.splits)

lemma Generate_spec:
  "Spec (fst (Generate u g)) = (Spec (podTemplate g))\<lparr>NodeName := []\<rparr>"
  "PStatus (fst (Generate u g)) = PStatus (podTemplate g)"
  by (simp_all add: Generate_def Let_def split: option.splits)

lemma Generate_state [simp]:
  "counter (snd (Generate u g)) = counter g + 1"
  "podTemplate (snd (Generate u g)) = podTemplate g"
  by (simp_all add: Generate_def Let_def)

lemmas Generate_simps = Generate_meta Generate_spec Generate_state

section \<open>The generator interface\<close>

fun generate_all :: "(string \<Rightarrow> 'g \<Rightarrow> Pod \<times> 'g) \<Rightarrow> string list \<Rightarrow> 'g \<Rightarrow> Pod list" where
  "generate_all gen [] g = []"
| "generate_all gen (u # us) g = fst (gen u g) # generate_all gen us (snd (gen u g))"

locale pod_generator =
  fixes generate :: "string \<Rightarrow> 'g \<Rightarrow> Pod \<times> 'g"
    and nth_name :: "'g \<Rightarrow> nat \<Rightarrow> string"
    and period :: nat
  assumes name_now: "pod_name (fst (generate u g)) = nth_name g 0"
    and name_next: "nth_name (snd (generate u g)) i = nth_name g (Suc i)"
    and names_inj: "inj_on (nth_name g) {..<period}"
    and unassigned: "pod_node (fst (generate u g)) = []"
    and annotated: "Annotations (Meta (fst (generate u g))) \<noteq> None"
begin

lemma generate_all_names:
  "map pod_name (generate_all generate us g) = map (nth_name g) [0..<length us]"
proof (induction us arbitrary: g)
  case Nil
  then show ?case by simp
next
  case (Cons u us)
  have "map (nth_name g) [0..<length (u # us)] =
      nth_name g 0 # map (\<lambda>i. nth_name g (Suc i)) [0..<length us]"
    by (simp add: upt_rec [of 0] map_Suc_upt [symmetric] comp_def del: upt_Suc)
  with Cons show ?case
    by (simp add: name_now name_next del: upt_Suc)
qed

lemma generate_all_distinct:
  "length us \<le> period \<Longrightarrow> distinct (map pod_name (generate_all generate us g))"
  using names_inj [of g]
  by (simp add: generate_all_names distinct_map) (auto intro: inj_on_subset)

lemma generate_all_unassigned:
  "p \<in> set (generate_all generate us g) \<Longrightarrow> pod_node p = [] \<and> Annotations (Meta p) \<noteq> None"
  by (induction us arbitrary: g) (auto simp: unassigned annotated [simplified])

end

definition single_nth_name :: "singlePodGenerator \<Rightarrow> nat \<Rightarrow> string" where
  "single_nth_name g i =
     simulated_name (pod_name (podTemplate g)) (unat (counter g + of_nat i))"

interpretation single: pod_generator Generate single_nth_name "2 ^ 64"
proof unfold_locales
  fix g :: singlePodGenerator
  show "inj_on (single_nth_name g) {..<2 ^ 64}"
  proof (rule inj_onI)
    fix i j :: nat
    assume ij: "i \<in> {..<2 ^ 64}" "j \<in> {..<2 ^ 64}" "single_nth_name g i = single_nth_name g j"
    then have "unat (counter g + of_nat i) = unat (counter g + of_nat j)"
      by (simp add: single_nth_name_def)
    then have "counter g + of_nat i = counter g + of_nat j"
      by (rule unsigned_word_eqI)
    then have "(of_nat i :: 64 word) = of_nat j"
      by simp
    then have "i mod 2 ^ 64 = j mod 2 ^ 64"
      by (simp add: word_of_nat_eq_iff take_bit_eq_mod)
    with ij show "i = j" by simp
  qed
qed (simp_all add: Generate_meta Generate_spec single_nth_name_def add.commute add.left_commute)

section \<open>The names of the simulated pods\<close>

text \<open>C31: The pods that a new generator makes are named after the template and numbered from 0;
  the first \<open>2 ^ 64\<close> names are distinct, and no pod is assigned to a node.\<close>

theorem generated_names:
  "map (\<lambda>p. Name (Meta p)) (generate_all Generate us (NewSinglePodGenerator t)) =
     map (\<lambda>i. simulated_name (Name (Meta t)) (i mod 2 ^ 64)) [0..<length us] \<and>
   (2 ^ 64 < length us \<or>
     distinct (map (\<lambda>p. Name (Meta p)) (generate_all Generate us (NewSinglePodGenerator t)))) \<and>
   list_all (\<lambda>p. NodeName (Spec p) = []) (generate_all Generate us (NewSinglePodGenerator t))"
proof -
  have "single_nth_name (NewSinglePodGenerator t) i = simulated_name (pod_name t) (i mod 2 ^ 64)" for i
    by (simp add: single_nth_name_def NewSinglePodGenerator_def unat_of_nat)
  then have "map pod_name (generate_all Generate us (NewSinglePodGenerator t)) =
      map (\<lambda>i. simulated_name (pod_name t) (i mod 2 ^ 64)) [0..<length us]"
    by (simp add: single.generate_all_names)
  moreover have "2 ^ 64 < length us \<or>
      distinct (map pod_name (generate_all Generate us (NewSinglePodGenerator t)))"
    using single.generate_all_distinct [of us "NewSinglePodGenerator t"] by linarith
  moreover have "list_all (\<lambda>p. pod_node p = []) (generate_all Generate us (NewSinglePodGenerator t))"
    using single.generate_all_unassigned by (auto simp: list_all_iff)
  ultimately show ?thesis
    by simp
qed

end
