(* ===== verification/Regex.thy ===== *)
theory Regex
  imports Go_Strings
begin

text \<open>
  The regular expressions of Go's \<open>regexp\<close> package as far as the program uses them: character
  classes, concatenation, alternation and repetition, always anchored at both ends. A matcher
  by derivatives evaluates them; it accepts exactly the language of the expression.
\<close>

datatype rexp =
    Empty
  | Eps
  | Class "char list"
  | Seq rexp rexp
  | Alt rexp rexp
  | Star rexp

fun nullable :: "rexp \<Rightarrow> bool" where
  "nullable Empty = False"
| "nullable Eps = True"
| "nullable (Class cs) = False"
| "nullable (Seq r s) = (nullable r \<and> nullable s)"
| "nullable (Alt r s) = (nullable r \<or> nullable s)"
| "nullable (Star r) = True"

fun deriv :: "char \<Rightarrow> rexp \<Rightarrow> rexp" where
  "deriv c Empty = Empty"
| "deriv c Eps = Empty"
| "deriv c (Class cs) = (if c \<in> set cs then Eps else Empty)"
| "deriv c (Seq r s) =
     (if nullable r then Alt (Seq (deriv c r) s) (deriv c s) else Seq (deriv c r) s)"
| "deriv c (Alt r s) = Alt (deriv c r) (deriv c s)"
| "deriv c (Star r) = Seq (deriv c r) (Star r)"

definition MatchString :: "rexp \<Rightarrow> string \<Rightarrow> bool" where
  "MatchString r s = nullable (fold deriv s r)"

section \<open>The language of an expression\<close>

inductive_set star :: "string set \<Rightarrow> string set" for A where
  star_Nil: "[] \<in> star A"
| star_append: "u \<in> A \<Longrightarrow> v \<in> star A \<Longrightarrow> u @ v \<in> star A"

fun lang :: "rexp \<Rightarrow> string set" where
  "lang Empty = {}"
| "lang Eps = {[]}"
| "lang (Class cs) = {[c] |c. c \<in> set cs}"
| "lang (Seq r s) = {u @ v |u v. u \<in> lang r \<and> v \<in> lang s}"
| "lang (Alt r s) = lang r \<union> lang s"
| "lang (Star r) = star (lang r)"

lemma nullable_lang: "nullable r \<longleftrightarrow> [] \<in> lang r"
  by (induction r) (auto intro: star_Nil)

lemma star_Cons: "c # w \<in> star A \<longleftrightarrow> (\<exists>u v. w = u @ v \<and> c # u \<in> A \<and> v \<in> star A)"
proof
  have "x \<in> star A \<Longrightarrow> x = c # w \<Longrightarrow> \<exists>u v. w = u @ v \<and> c # u \<in> A \<and> v \<in> star A" for x
    by (induction x rule: star.induct) (auto simp: append_eq_Cons_conv)
  then show "c # w \<in> star A \<Longrightarrow> \<exists>u v. w = u @ v \<and> c # u \<in> A \<and> v \<in> star A"
    by blast
next
  show "\<exists>u v. w = u @ v \<and> c # u \<in> A \<and> v \<in> star A \<Longrightarrow> c # w \<in> star A"
    using star_append [of "c # _"] by force
qed

lemma Nil_Seq: "[] \<in> lang (Seq r s) \<longleftrightarrow> [] \<in> lang r \<and> [] \<in> lang s"
  by auto

lemma Cons_Seq:
  "c # w \<in> lang (Seq r s) \<longleftrightarrow>
     [] \<in> lang r \<and> c # w \<in> lang s \<or> (\<exists>u v. w = u @ v \<and> c # u \<in> lang r \<and> v \<in> lang s)"
proof
  assume "c # w \<in> lang (Seq r s)"
  then obtain u v where uv: "c # w = u @ v" "u \<in> lang r" "v \<in> lang s"
    by auto
  then show "[] \<in> lang r \<and> c # w \<in> lang s \<or> (\<exists>u v. w = u @ v \<and> c # u \<in> lang r \<and> v \<in> lang s)"
    by (cases u) auto
next
  assume "[] \<in> lang r \<and> c # w \<in> lang s \<or> (\<exists>u v. w = u @ v \<and> c # u \<in> lang r \<and> v \<in> lang s)"
  then show "c # w \<in> lang (Seq r s)"
  proof (elim disjE exE conjE)
    fix u v
    assume "w = u @ v" "c # u \<in> lang r" "v \<in> lang s"
    then have "c # w = (c # u) @ v" by simp
    with \<open>c # u \<in> lang r\<close> \<open>v \<in> lang s\<close> show ?thesis
      by (simp only: lang.simps) blast
  qed auto
qed

lemma mem_Seq: "w \<in> lang (Seq r s) \<longleftrightarrow> (\<exists>u v. w = u @ v \<and> u \<in> lang r \<and> v \<in> lang s)"
  by simp

lemma deriv_lang: "w \<in> lang (deriv c r) \<longleftrightarrow> c # w \<in> lang r"
proof (induction r arbitrary: w)
  case (Seq r s)
  have "w \<in> lang (Seq (deriv c r) s) \<longleftrightarrow> (\<exists>u v. w = u @ v \<and> c # u \<in> lang r \<and> v \<in> lang s)"
    by (simp add: Seq.IH(1))
  then show ?case
    unfolding Cons_Seq nullable_lang [symmetric] using Seq.IH(2) by auto
next
  case (Star r)
  then show ?case
    by (auto simp: star_Cons)
qed auto

lemma MatchString_lang: "MatchString r s \<longleftrightarrow> s \<in> lang r"
proof -
  have "nullable (fold deriv s r) \<longleftrightarrow> s \<in> lang r"
    by (induction s arbitrary: r) (simp_all add: nullable_lang deriv_lang)
  then show ?thesis by (simp add: MatchString_def)
qed

section \<open>Building expressions\<close>

definition Lit :: "string \<Rightarrow> rexp" where
  "Lit s = foldr (\<lambda>c r. Seq (Class [c]) r) s Eps"

definition Plus :: "rexp \<Rightarrow> rexp" where
  "Plus r = Seq r (Star r)"

definition Opt :: "rexp \<Rightarrow> rexp" where
  "Opt r = Alt r Eps"

fun Repeat :: "nat \<Rightarrow> rexp \<Rightarrow> rexp" where
  "Repeat 0 r = Eps"
| "Repeat (Suc n) r = Seq r (Repeat n r)"

definition Cat :: "rexp list \<Rightarrow> rexp" where
  "Cat rs = foldr Seq rs Eps"

lemma lang_Lit [simp]: "lang (Lit s) = {s}"
  by (induction s) (auto simp: Lit_def)

lemma Cons_Class: "c # w \<in> lang (Seq (Class cs) r) \<longleftrightarrow> c \<in> set cs \<and> w \<in> lang r"
  unfolding Cons_Seq by auto

lemma Nil_Class: "[] \<notin> lang (Seq (Class cs) r)"
  by auto

lemma mem_Star_Class: "s \<in> lang (Star (Class cs)) \<longleftrightarrow> set s \<subseteq> set cs"
proof (induction s)
  case Nil
  then show ?case by (simp add: star_Nil)
next
  case (Cons c s)
  have "c # s \<in> lang (Star (Class cs)) \<longleftrightarrow> c \<in> set cs \<and> s \<in> lang (Star (Class cs))"
    by (auto simp: star_Cons)
  with Cons show ?case by simp
qed

lemma mem_Plus_Class: "s \<in> lang (Plus (Class cs)) \<longleftrightarrow> s \<noteq> [] \<and> set s \<subseteq> set cs"
  unfolding Plus_def by (cases s) (simp_all only: Cons_Class Nil_Class mem_Star_Class, auto)

lemma mem_Repeat_Class: "s \<in> lang (Repeat n (Class cs)) \<longleftrightarrow> length s = n \<and> set s \<subseteq> set cs"
proof (induction n arbitrary: s)
  case (Suc n)
  then show ?case
    by (cases s) (simp_all only: Repeat.simps Cons_Class Nil_Class, auto)
qed auto

lemmas lang_classes = mem_Star_Class mem_Plus_Class mem_Repeat_Class

lemma lang_Opt [simp]: "lang (Opt r) = insert [] (lang r)"
  by (auto simp: Opt_def)

lemma mem_Cat:
  "v \<in> lang (Cat [r]) \<longleftrightarrow> v \<in> lang r"
  "v \<in> lang (Cat (r # r' # rs)) \<longleftrightarrow>
     (\<exists>u w. v = u @ w \<and> u \<in> lang r \<and> w \<in> lang (Cat (r' # rs)))"
  by (simp_all add: Cat_def)

lemma mem_Cat_Lit:
  "v \<in> lang (Cat (Lit l # r # rs)) \<longleftrightarrow> (\<exists>w. v = l @ w \<and> w \<in> lang (Cat (r # rs)))"
  by (simp add: mem_Cat)

lemma Cat_append: "v \<in> lang (Cat (rs @ qs)) \<longleftrightarrow> (\<exists>u w. v = u @ w \<and> u \<in> lang (Cat rs) \<and> w \<in> lang (Cat qs))"
proof (induction rs arbitrary: v)
  case Nil
  then show ?case by (simp add: Cat_def)
next
  case (Cons r rs)
  have "lang (Cat (r # xs)) = {u @ w |u w. u \<in> lang r \<and> w \<in> lang (Cat xs)}" for xs
    by (simp add: Cat_def)
  with Cons show ?case
    by (auto simp del: lang.simps) (metis append.assoc)+
qed

section \<open>The characters of an expression\<close>

fun chars :: "rexp \<Rightarrow> char set" where
  "chars Empty = {}"
| "chars Eps = {}"
| "chars (Class cs) = set cs"
| "chars (Seq r s) = chars r \<union> chars s"
| "chars (Alt r s) = chars r \<union> chars s"
| "chars (Star r) = chars r"

lemma lang_chars: "s \<in> lang r \<Longrightarrow> set s \<subseteq> chars r"
proof (induction r arbitrary: s)
  case (Star r)
  from Star.prems have "s \<in> star (lang r)" by simp
  then show ?case by (induction rule: star.induct) (use Star.IH in fastforce)+
qed fastforce+

section \<open>Words with a first and a last character of one class\<close>

lemma edges_cases:
  assumes "s \<noteq> []" "hd s \<in> A" "last s \<in> A" "set s \<subseteq> B"
  shows "(\<exists>c \<in> A. s = [c]) \<or> (\<exists>a b w. a \<in> A \<and> b \<in> A \<and> set w \<subseteq> B \<and> s = a # w @ [b])"
proof (cases s)
  case (Cons a t)
  with assms show ?thesis by (cases t rule: rev_cases) auto
qed (use assms in simp)

lemma lang_edges_left:
  assumes "set a \<subseteq> set e"
  shows "s \<in> lang (Seq (Opt (Seq (Class a) (Star (Class e)))) (Class a)) \<longleftrightarrow>
    s \<noteq> [] \<and> hd s \<in> set a \<and> last s \<in> set a \<and> set s \<subseteq> set e"
proof -
  have m: "s \<in> lang (Seq (Opt (Seq (Class a) (Star (Class e)))) (Class a)) \<longleftrightarrow>
    (\<exists>c \<in> set a. s = [c]) \<or> (\<exists>x y w. x \<in> set a \<and> y \<in> set a \<and> set w \<subseteq> set e \<and> s = x # w @ [y])"
    using mem_Star_Class [of _ e] by auto (metis append_Cons append_Nil)+
  show ?thesis
    unfolding m using assms edges_cases [of s "set a" "set e"] by fastforce
qed

lemma lang_edges_right:
  assumes "set a \<subseteq> set e"
  shows "s \<in> lang (Seq (Class a) (Opt (Seq (Star (Class e)) (Class a)))) \<longleftrightarrow>
    s \<noteq> [] \<and> hd s \<in> set a \<and> last s \<in> set a \<and> set s \<subseteq> set e"
proof -
  have m: "s \<in> lang (Seq (Class a) (Opt (Seq (Star (Class e)) (Class a)))) \<longleftrightarrow>
    (\<exists>c \<in> set a. s = [c]) \<or> (\<exists>x y w. x \<in> set a \<and> y \<in> set a \<and> set w \<subseteq> set e \<and> s = x # w @ [y])"
    using mem_Star_Class [of _ e] by auto (metis append_Cons append_Nil)+
  show ?thesis
    unfolding m using assms edges_cases [of s "set a" "set e"] by fastforce
qed

section \<open>Words separated by a character\<close>

lemma lang_separated:
  assumes "\<And>w. w \<in> lang r \<Longrightarrow> c \<notin> set w"
  shows "s \<in> lang (Seq r (Star (Seq (Class [c]) r))) \<longleftrightarrow> list_all (\<lambda>p. p \<in> lang r) (split_char c s)"
proof
  assume "s \<in> lang (Seq r (Star (Seq (Class [c]) r)))"
  then obtain u v where s: "s = u @ v" "u \<in> lang r" and v: "v \<in> star (lang (Seq (Class [c]) r))"
    by auto
  from v s show "list_all (\<lambda>p. p \<in> lang r) (split_char c s)"
  proof (induction v arbitrary: u s rule: star.induct)
    case star_Nil
    then show ?case using assms by simp
  next
    case (star_append x v)
    then obtain w where "x = c # w" "w \<in> lang r" by auto
    with star_append show ?case using assms by simp
  qed
next
  have "list_all (\<lambda>p. p \<in> lang r) (p # ps) \<Longrightarrow> join [c] (p # ps) \<in> lang (Seq r (Star (Seq (Class [c]) r)))" for p ps
  proof (induction ps arbitrary: p)
    case Nil
    then show ?case by (auto intro: star_Nil)
  next
    case (Cons q ps)
    then have "join [c] (q # ps) \<in> lang (Seq r (Star (Seq (Class [c]) r)))" by simp
    then obtain u v where uv: "join [c] (q # ps) = u @ v" "u \<in> lang r" "v \<in> star (lang (Seq (Class [c]) r))"
      unfolding mem_Seq lang.simps(6) by blast
    then have "(c # u) @ v \<in> star (lang (Seq (Class [c]) r))"
      by (intro star_append) auto
    with Cons.prems uv show ?case by auto
  qed
  then show "list_all (\<lambda>p. p \<in> lang r) (split_char c s) \<Longrightarrow> s \<in> lang (Seq r (Star (Seq (Class [c]) r)))"
    using join_split_char [of c s] by (cases "split_char c s") (simp_all only: split_char_nonempty, metis)
qed

end
