(* ===== verification/Labels.thy ===== *)
theory Labels
  imports Regex "HOL-Library.List_Lexorder" "HOL-Library.Char_ord"
begin

text \<open>
  Label selectors of the form \<open>key=value,key=value\<close>: reading them with
  \<open>ConvertSelectorToLabelsMap\<close> and the validation of keys and values
  (\<open>vendor/k8s.io/apimachinery/pkg/labels\<close>, \<open>pkg/api/validate/content\<close>), and writing them with
  \<open>SelectorFromSet(m).String()\<close>. A \<open>Set\<close> is a map; where the code iterates over it, it is an
  association list in the order of the iteration. Strings are ASCII: the white space that
  \<open>TrimSpace\<close> removes is that of ASCII.
\<close>

text \<open>The entries of a map in the order of their keys, as package fmt prints a map.\<close>

definition entries :: "'v dict \<Rightarrow> (string \<times> 'v) list" where
  "entries m = map (\<lambda>k. (k, the (Mapping.lookup m k))) (Mapping.ordered_keys m)"

section \<open>Validation (content/errors.go, dns.go, kube.go)\<close>

definition quoted :: "string \<Rightarrow> string" where
  "quoted s = [CHR 0x27] @ s @ [CHR 0x27]"

definition EmptyError :: string where
  "EmptyError = ''must be non-empty''"

definition MaxLenError :: "nat \<Rightarrow> string" where
  "MaxLenError n = ''must be no more than '' @ show_nat n @ '' bytes''"

definition RegexError :: "string \<Rightarrow> string \<Rightarrow> string list \<Rightarrow> string" where
  "RegexError msg re examples =
     (if examples = [] then msg @ '' (regex used for validation is '' @ quoted re @ '')''
      else msg @ '' (e.g. '' @ join '' or '' (map (\<lambda>e. quoted e @ '', '') examples) @
        ''regex used for validation is '' @ quoted re @ '')'')"

definition lower_digits :: "char list" where
  "lower_digits = ''abcdefghijklmnopqrstuvwxyz0123456789''"

definition alphanumerics :: "char list" where
  "alphanumerics = ''ABCDEFGHIJKLMNOPQRSTUVWXYZ'' @ lower_digits"

definition labelKeyExtChars :: "char list" where
  "labelKeyExtChars = ''-_.'' @ alphanumerics"

definition labelKeyFmt :: string where
  "labelKeyFmt = ''([A-Za-z0-9][-A-Za-z0-9_.]*)?[A-Za-z0-9]''"

definition labelKeyRegexp :: rexp where
  "labelKeyRegexp = Seq (Opt (Seq (Class alphanumerics) (Star (Class labelKeyExtChars)))) (Class alphanumerics)"

definition labelValueRegexp :: rexp where
  "labelValueRegexp = Opt labelKeyRegexp"

definition dns1123LabelRegexp :: rexp where
  "dns1123LabelRegexp =
     Seq (Class lower_digits) (Opt (Seq (Star (Class (CHR ''-'' # lower_digits))) (Class lower_digits)))"

definition dns1123SubdomainRegexp :: rexp where
  "dns1123SubdomainRegexp = Seq dns1123LabelRegexp (Star (Seq (Class ''.'') dns1123LabelRegexp))"

definition dns1123LabelFmt :: string where
  "dns1123LabelFmt = ''[a-z0-9]([-a-z0-9]*[a-z0-9])?''"

definition dns1123SubdomainFmt :: string where
  "dns1123SubdomainFmt = dns1123LabelFmt @ ''('' @ [CHR 0x5C] @ ''.'' @ dns1123LabelFmt @ '')*''"

definition quoted_chars :: "string \<Rightarrow> string \<Rightarrow> string" where
  "quoted_chars a b = quoted a @ '' or '' @ quoted b"

definition dns1123SubdomainErrorMsg :: string where
  "dns1123SubdomainErrorMsg = ''a lowercase RFC 1123 subdomain must consist of lower case alphanumeric characters, '' @
     quoted_chars ''-'' ''.'' @ '', and must start and end with an alphanumeric character''"

definition labelKeyErrMsg :: string where
  "labelKeyErrMsg = ''must consist of alphanumeric characters, '' @ quoted ''-'' @ '', '' @
     quoted_chars ''_'' ''.'' @ '', and must start and end with an alphanumeric character''"

definition labelValueErrMsg :: string where
  "labelValueErrMsg = ''a valid label must be an empty string or consist of alphanumeric characters, '' @
     quoted ''-'' @ '', '' @ quoted_chars ''_'' ''.'' @
     '', and must start and end with an alphanumeric character''"

definition IsDNS1123Subdomain :: "string \<Rightarrow> string list" where
  "IsDNS1123Subdomain v =
     (if length v > 253 then [MaxLenError 253] else []) @
     (if \<not> MatchString dns1123SubdomainRegexp v
      then [RegexError dns1123SubdomainErrorMsg dns1123SubdomainFmt [''example.com'']] else [])"

definition name_errors :: "string \<Rightarrow> string list" where
  "name_errors name =
     (if name = [] then [''name part '' @ EmptyError]
      else if length name > 63 then [''name part '' @ MaxLenError 63] else []) @
     (if \<not> MatchString labelKeyRegexp name
      then [''name part '' @ RegexError labelKeyErrMsg labelKeyFmt [''MyName'', ''my.name'', ''123-abc'']]
      else [])"

definition prefix_errors :: "string \<Rightarrow> string list" where
  "prefix_errors prefix =
     (if prefix = [] then [''prefix part '' @ EmptyError]
      else map (\<lambda>m. ''prefix part '' @ m) (IsDNS1123Subdomain prefix))"

definition IsLabelKey :: "string \<Rightarrow> string list" where
  "IsLabelKey v =
     (case split_char (CHR ''/'') v of
        [name] \<Rightarrow> name_errors name
      | [prefix, name] \<Rightarrow> prefix_errors prefix @ name_errors name
      | _ \<Rightarrow> [''a valid label key '' @ RegexError labelKeyErrMsg labelKeyFmt [''MyName'', ''my.name'', ''123-abc''] @
          '' with an optional DNS subdomain prefix and '' @ quoted ''/'' @
          '' (e.g. '' @ quoted ''example.com/MyName'' @ '')''])"

definition IsLabelValue :: "string \<Rightarrow> string list" where
  "IsLabelValue v =
     (if length v > 63 then [MaxLenError 63] else []) @
     (if \<not> MatchString labelValueRegexp v
      then [RegexError labelValueErrMsg (''('' @ labelKeyFmt @ '')?'') [''MyValue'', ''my_value'', ''12345'']]
      else [])"

section \<open>Reading and writing selectors (labels.go, selector.go)\<close>

definition validateLabelKey :: "string \<Rightarrow> go_error option" where
  "validateLabelKey k =
     (if IsLabelKey k \<noteq> [] then Some (Field_invalid ''<nil>'' k (join ''; '' (IsLabelKey k))) else None)"

definition validateLabelValue :: "string \<Rightarrow> string \<Rightarrow> go_error option" where
  "validateLabelValue k v =
     (if IsLabelValue v \<noteq> []
      then Some (Field_invalid (''['' @ k @ '']'') v (join ''; '' (IsLabelValue v))) else None)"

definition space_chars :: "char list" where
  "space_chars = [CHR 9, CHR 10, CHR 11, CHR 12, CHR 13, CHR '' '']"

definition TrimSpace :: "string \<Rightarrow> string" where
  "TrimSpace s = rev (dropWhile (\<lambda>c. c \<in> set space_chars) (rev (dropWhile (\<lambda>c. c \<in> set space_chars) s)))"

fun convert_labels :: "string list \<Rightarrow> string dict \<Rightarrow> go_error + string dict" where
  "convert_labels [] labelsMap = Inr labelsMap"
| "convert_labels (label # labels) labelsMap =
     (case split_char (CHR ''='') label of
        [k, v] \<Rightarrow>
          (case validateLabelKey (TrimSpace k) of Some err \<Rightarrow> Inl err | None \<Rightarrow>
           (case validateLabelValue (TrimSpace k) (TrimSpace v) of Some err \<Rightarrow> Inl err | None \<Rightarrow>
              convert_labels labels (Mapping.update (TrimSpace k) (TrimSpace v) labelsMap)))
      | l \<Rightarrow> Inl (Err (''invalid selector: ['' @ join '' '' l @ '']'')))"

definition ConvertSelectorToLabelsMap :: "string \<Rightarrow> go_error + string dict" where
  "ConvertSelectorToLabelsMap selector =
     (if selector = [] then Inr Mapping.empty
      else convert_labels (split_char (CHR '','') selector) Mapping.empty)"

definition SelectorString :: "(string \<times> string) list \<Rightarrow> string" where
  "SelectorString ls = join '','' (map (\<lambda>(k, v). k @ ''='' @ v) (sort_key fst ls))"

section \<open>Valid keys and values\<close>

definition label_word :: "string \<Rightarrow> bool" where
  "label_word s \<longleftrightarrow> s \<noteq> [] \<and> length s \<le> 63 \<and> set s \<subseteq> set labelKeyExtChars \<and>
     hd s \<in> set alphanumerics \<and> last s \<in> set alphanumerics"

definition dns_label :: "string \<Rightarrow> bool" where
  "dns_label s \<longleftrightarrow> s \<noteq> [] \<and> set s \<subseteq> insert (CHR ''-'') (set lower_digits) \<and>
     hd s \<in> set lower_digits \<and> last s \<in> set lower_digits"

definition dns_subdomain :: "string \<Rightarrow> bool" where
  "dns_subdomain s \<longleftrightarrow> length s \<le> 253 \<and> list_all dns_label (split_char (CHR ''.'') s)"

lemma character_classes:
  "set alphanumerics \<subseteq> set labelKeyExtChars"
  "set lower_digits \<subseteq> set alphanumerics"
  "CHR ''.'' \<notin> insert (CHR ''-'') (set lower_digits)"
  "CHR ''/'' \<notin> set labelKeyExtChars"
  by (code_simp+)

lemma labelKeyRegexp_word:
  "MatchString labelKeyRegexp s \<longleftrightarrow> s \<noteq> [] \<and> set s \<subseteq> set labelKeyExtChars \<and>
     hd s \<in> set alphanumerics \<and> last s \<in> set alphanumerics"
  unfolding MatchString_lang labelKeyRegexp_def lang_edges_left [OF character_classes(1)] by auto

lemma dns1123LabelRegexp_label: "s \<in> lang dns1123LabelRegexp \<longleftrightarrow> dns_label s"
proof -
  have "set lower_digits \<subseteq> set (CHR ''-'' # lower_digits)" by auto
  then show ?thesis
    unfolding dns1123LabelRegexp_def using lang_edges_right [of lower_digits "CHR ''-'' # lower_digits" s]
    by (auto simp: dns_label_def)
qed

lemma dns_label_no_dot: "dns_label s \<Longrightarrow> CHR ''.'' \<notin> set s"
  unfolding dns_label_def using character_classes(3) by blast

lemma IsDNS1123Subdomain_valid: "IsDNS1123Subdomain s = [] \<longleftrightarrow> dns_subdomain s"
  unfolding IsDNS1123Subdomain_def MatchString_lang dns1123SubdomainRegexp_def dns_subdomain_def
  by (subst lang_separated) (auto simp: dns1123LabelRegexp_label dns_label_no_dot)

lemma name_errors_valid: "name_errors s = [] \<longleftrightarrow> label_word s"
  unfolding name_errors_def labelKeyRegexp_word label_word_def by auto

lemma prefix_errors_valid: "prefix_errors s = [] \<longleftrightarrow> dns_subdomain s"
proof (cases "s = []")
  case True
  then show ?thesis by (simp add: prefix_errors_def dns_subdomain_def dns_label_def)
qed (simp add: prefix_errors_def IsDNS1123Subdomain_valid)

lemma IsLabelValue_valid: "IsLabelValue v = [] \<longleftrightarrow> v = [] \<or> label_word v"
proof -
  have "MatchString labelValueRegexp v \<longleftrightarrow> v = [] \<or> MatchString labelKeyRegexp v"
    by (simp add: MatchString_lang labelValueRegexp_def)
  then show ?thesis
    by (auto simp: IsLabelValue_def labelKeyRegexp_word label_word_def)
qed

lemma label_word_no_char: "label_word s \<Longrightarrow> c \<notin> set labelKeyExtChars \<Longrightarrow> c \<notin> set s"
  by (auto simp: label_word_def)

lemma dns_subdomain_chars: "dns_subdomain s \<Longrightarrow> set s \<subseteq> set labelKeyExtChars"
proof -
  assume "dns_subdomain s"
  then have "MatchString dns1123SubdomainRegexp s"
    using IsDNS1123Subdomain_valid [of s] by (simp add: IsDNS1123Subdomain_def split: if_splits)
  then have "set s \<subseteq> chars dns1123SubdomainRegexp"
    by (simp add: MatchString_lang lang_chars)
  moreover have "chars dns1123SubdomainRegexp = set (''-.'' @ lower_digits)"
    by (auto simp: dns1123SubdomainRegexp_def dns1123LabelRegexp_def Opt_def)
  moreover have "set (''-.'' @ lower_digits) \<subseteq> set labelKeyExtChars"
    using character_classes(2) by (auto simp: labelKeyExtChars_def)
  ultimately show ?thesis by blast
qed

lemma IsLabelKey_valid:
  "IsLabelKey k = [] \<longleftrightarrow>
     label_word k \<or> (\<exists>prefix name. k = prefix @ ''/'' @ name \<and> dns_subdomain prefix \<and> label_word name)"
  (is "_ \<longleftrightarrow> ?valid")
proof -
  have slash: "CHR ''/'' \<notin> set s" if "label_word s \<or> dns_subdomain s" for s
    using that label_word_no_char dns_subdomain_chars character_classes(4) by blast
  show ?thesis
  proof
    assume "IsLabelKey k = []"
    then consider (1) n where "split_char (CHR ''/'') k = [n]" "label_word n"
      | (2) p n where "split_char (CHR ''/'') k = [p, n]" "dns_subdomain p" "label_word n"
      unfolding IsLabelKey_def by (auto simp: prefix_errors_valid name_errors_valid split: list.splits)
    then show ?valid
    proof cases
      case 1
      then show ?thesis using join_split_char [of "CHR ''/''" k] by simp
    next
      case 2
      then show ?thesis using join_split_char [of "CHR ''/''" k] by auto
    qed
  next
    assume ?valid
    then show "IsLabelKey k = []"
      by (elim disjE exE conjE)
        (simp_all add: IsLabelKey_def slash prefix_errors_valid name_errors_valid)
  qed
qed

text \<open>
  \<open>IsLabelKey\<close> reports no error exactly for a name of at most 63 characters that begins and ends
  with a letter or digit and otherwise has letters, digits, dashes, underscores and dots, alone
  or after a DNS subdomain (dot-separated lower case labels, at most 253 characters) and a
  slash; \<open>IsLabelValue\<close> exactly for such a name without prefix and for the empty string.\<close>

lemma label_validation:
  "(IsLabelKey k = [] \<longleftrightarrow>
      label_word k \<or> (\<exists>prefix name. k = prefix @ ''/'' @ name \<and> dns_subdomain prefix \<and> label_word name)) \<and>
   (IsLabelValue v = [] \<longleftrightarrow> v = [] \<or> label_word v)"
  by (simp only: IsLabelKey_valid IsLabelValue_valid)

section \<open>Reading a selector\<close>

text \<open>The pairs of a list of requirements, and when the reader accepts a pair.\<close>

abbreviation trimmed :: "string \<times> string \<Rightarrow> string \<times> string" where
  "trimmed \<equiv> map_prod TrimSpace TrimSpace"

definition valid_label :: "string \<times> string \<Rightarrow> bool" where
  "valid_label kv \<longleftrightarrow> IsLabelKey (fst kv) = [] \<and> IsLabelValue (snd kv) = []"

definition reads_as :: "string list \<Rightarrow> (string \<times> string) list \<Rightarrow> bool" where
  "reads_as labels kvs \<longleftrightarrow> map (split_char (CHR ''='')) labels = map (\<lambda>(k, v). [k, v]) kvs \<and>
     list_all valid_label (map trimmed kvs)"

lemma reads_as_Cons:
  "reads_as (l # ls) kvs \<longleftrightarrow>
     (\<exists>k v rest. kvs = (k, v) # rest \<and> split_char (CHR ''='') l = [k, v] \<and>
        valid_label (TrimSpace k, TrimSpace v) \<and> reads_as ls rest)"
  by (cases kvs) (auto simp: reads_as_def)

lemma convert_labels_Cons:
  "convert_labels (l # ls) m = Inr m' \<longleftrightarrow>
     (\<exists>k v. split_char (CHR ''='') l = [k, v] \<and> valid_label (TrimSpace k, TrimSpace v) \<and>
        convert_labels ls (Mapping.update (TrimSpace k) (TrimSpace v) m) = Inr m')"
  by (auto simp: valid_label_def validateLabelKey_def validateLabelValue_def split: list.splits)

lemma convert_labels_Inr:
  "convert_labels ls m = Inr m' \<longleftrightarrow>
     (\<exists>kvs. reads_as ls kvs \<and> Mapping.lookup m' = Mapping.lookup m ++ map_of (rev (map trimmed kvs)))"
proof (induction ls arbitrary: m)
  case Nil
  then show ?case by (auto simp: reads_as_def intro: dict_eqI)
next
  case (Cons l ls)
  show ?case
    unfolding convert_labels_Cons reads_as_Cons Cons.IH
    by (auto simp del: fun_upd_apply) fastforce+
qed

text \<open>
  \<open>ConvertSelectorToLabelsMap\<close> succeeds exactly when the selector is empty or each of its parts
  between commas is one key and one value around a single equals sign that are valid once the
  spaces around them are removed; the result maps each key to the last value given for it.\<close>

lemma selector_read:
  "ConvertSelectorToLabelsMap s = Inr m \<longleftrightarrow>
     (if s = [] then m = Mapping.empty
      else \<exists>kvs. reads_as (split_char (CHR '','') s) kvs \<and> Mapping.lookup m = map_of (rev (map trimmed kvs)))"
  by (auto simp: ConvertSelectorToLabelsMap_def convert_labels_Inr lookup_empty_dict)

section \<open>Reading what was written\<close>

lemma TrimSpace_id: "set s \<inter> set space_chars = {} \<Longrightarrow> TrimSpace s = s"
proof -
  assume "set s \<inter> set space_chars = {}"
  then have "dropWhile (\<lambda>c. c \<in> set space_chars) s = s"
    "dropWhile (\<lambda>c. c \<in> set space_chars) (rev s) = rev s"
    by (subst dropWhile_eq_self_iff, use hd_in_set in fastforce)+
  then show ?thesis by (simp add: TrimSpace_def)
qed

lemma separators_not_in_labels:
  "set ('',='' @ space_chars) \<inter> insert (CHR ''/'') (set labelKeyExtChars) = {}"
  by code_simp

lemma valid_label_chars:
  assumes "valid_label kv"
  shows "set (fst kv @ snd kv) \<subseteq> insert (CHR ''/'') (set labelKeyExtChars)"
proof -
  have "set (fst kv) \<subseteq> insert (CHR ''/'') (set labelKeyExtChars)"
    using assms dns_subdomain_chars unfolding valid_label_def IsLabelKey_valid label_word_def
    by fastforce
  moreover have "set (snd kv) \<subseteq> set labelKeyExtChars"
    using assms by (auto simp: valid_label_def IsLabelValue_valid label_word_def)
  ultimately show ?thesis by auto
qed

lemma valid_label_separators:
  assumes "valid_label (k, v)"
  shows "TrimSpace k = k" "TrimSpace v = v" "CHR ''='' \<notin> set k" "CHR ''='' \<notin> set v"
    "CHR '','' \<notin> set (k @ ''='' @ v)"
  using valid_label_chars [OF assms] separators_not_in_labels by (auto intro!: TrimSpace_id)

lemma split_join:
  assumes "list_all (\<lambda>p. c \<notin> set p) ps" and "ps \<noteq> []"
  shows "split_char c (join [c] ps) = ps"
  using assms by (induction "[c]" ps rule: join.induct) auto

lemma written_reads_as:
  assumes "list_all valid_label kvs"
  shows "reads_as (map (\<lambda>(k, v). k @ ''='' @ v) kvs) kvs" and "map trimmed kvs = kvs"
proof -
  show eq: "map trimmed kvs = kvs"
    using assms valid_label_separators(1,2)
    by (induction kvs) auto
  have "map (split_char (CHR ''='')) (map (\<lambda>(k, v). k @ ''='' @ v) kvs) = map (\<lambda>(k, v). [k, v]) kvs"
    using assms valid_label_separators(3,4)
    by (induction kvs) auto
  then show "reads_as (map (\<lambda>(k, v). k @ ''='' @ v) kvs) kvs"
    using assms eq by (simp add: reads_as_def)
qed

lemma written_not_empty:
  "kvs \<noteq> [] \<Longrightarrow> join '','' (map (\<lambda>(k, v). k @ ''='' @ v) kvs) \<noteq> []"
  by (cases kvs rule: list.exhaust; cases "tl kvs") auto

lemma written_selector_read:
  assumes "list_all valid_label kvs" and "distinct (map fst kvs)"
  shows "ConvertSelectorToLabelsMap (SelectorString kvs) = Inr (Mapping.of_alist kvs)"
proof -
  let ?kvs = "sort_key fst kvs"
  have valid: "list_all valid_label ?kvs" and dist: "distinct (map fst ?kvs)"
    using assms by (auto simp: list_all_iff distinct_map)
  have "map_of (rev ?kvs) = map_of kvs"
    using assms(2) dist by (subst map_of_inject_set) (auto simp flip: rev_map)
  show ?thesis
  proof (cases "kvs = []")
    case False
    then have "?kvs \<noteq> []" by (metis length_0_conv length_sort)
    moreover have "list_all (\<lambda>p. CHR '','' \<notin> set p) (map (\<lambda>(k, v). k @ ''='' @ v) ?kvs)"
      using valid valid_label_separators(5) by (fastforce simp: list_all_iff)
    ultimately show ?thesis
      unfolding ConvertSelectorToLabelsMap_def SelectorString_def convert_labels_Inr
      using written_not_empty written_reads_as [OF valid] \<open>map_of (rev ?kvs) = map_of kvs\<close>
      by (auto simp: split_join convert_labels_Inr lookup_empty_dict)
  qed (auto simp: ConvertSelectorToLabelsMap_def SelectorString_def lookup_empty_dict intro: dict_eqI)
qed

text \<open>
  Writing a node selector whose labels are valid and reading it again gives the same labels, in
  whatever order the map was iterated when it was written.\<close>

lemma selector_round_trip:
  assumes "list_all valid_label kvs" and "distinct (map fst kvs)"
  shows "ConvertSelectorToLabelsMap (SelectorString kvs) = Inr (Mapping.of_alist kvs)"
  using assms by (rule written_selector_read)

lemma selector_round_trip_witness:
  "ConvertSelectorToLabelsMap (SelectorString [(''zone'', ''a''), (''example.com/disk'', ''ssd'')]) =
     Inr (Mapping.of_alist [(''zone'', ''a''), (''example.com/disk'', ''ssd'')])"
  by (rule selector_round_trip) code_simp+

end
