(* ===== verification/Resource_Names.thy ===== *)
theory Resource_Names
  imports Labels
begin

text \<open>
  The classification of resource names: \<open>core/v1/helper/helpers.go\<close> and
  \<open>IsScalarResourceName\<close> of \<open>scheduler/util/utils.go\<close>, both vendored. \<open>IsQualifiedName\<close> is
  \<open>IsLabelKey\<close>.
\<close>

definition IsPrefixedNativeResource :: "string \<Rightarrow> bool" where
  "IsPrefixedNativeResource name = contains ''kubernetes.io/'' name"

definition IsNativeResource :: "string \<Rightarrow> bool" where
  "IsNativeResource name = (\<not> contains ''/'' name \<or> IsPrefixedNativeResource name)"

definition IsExtendedResourceName :: "string \<Rightarrow> bool" where
  "IsExtendedResourceName name =
     (if IsNativeResource name \<or> has_prefix ''requests.'' name then False
      else IsLabelKey (''requests.'' @ name) = [])"

definition IsHugePageResourceName :: "string \<Rightarrow> bool" where
  "IsHugePageResourceName name = has_prefix ''hugepages-'' name"

definition IsAttachableVolumeResourceName :: "string \<Rightarrow> bool" where
  "IsAttachableVolumeResourceName name = has_prefix ''attachable-volumes-'' name"

definition IsScalarResourceName :: "string \<Rightarrow> bool" where
  "IsScalarResourceName name =
     (IsExtendedResourceName name \<or> IsHugePageResourceName name \<or>
      IsPrefixedNativeResource name \<or> IsAttachableVolumeResourceName name)"

lemma cpu_memory_not_scalar [simp]:
  "\<not> IsScalarResourceName ''cpu''" "\<not> IsScalarResourceName ''memory''"
  by code_simp+

end
