(* ===== verification/Report.thy ===== *)
theory Report
  imports Objects Resource_Names
begin

text \<open>
  \<open>pkg/framework/report.go\<close>: how the list of bound pods and the stop reason of a
  simulation become the review that is printed. Nil slices and maps that stay nil are
  \<open>None\<close>. The current time is the argument \<open>now\<close>.
\<close>

definition ResourceMemory :: string where
  "ResourceMemory = ''memory''"

definition ResourceCPU :: string where
  "ResourceCPU = ''cpu''"

definition ResourceNvidiaGPU :: string where
  "ResourceNvidiaGPU = ''nvdia.com/gpu''"

record ScheduleFailReason =
  FailType :: string
  FailMessage :: string

record ReplicasOnNode =
  RonNode :: string
  RonReplicas :: int

record FailReasonSummary =
  SummaryReason :: string
  SummaryCount :: int

record ReviewResult =
  PodName :: string
  ReplicasOnNodes :: "ReplicasOnNode list"
  FailSummary :: "FailReasonSummary list option"

record Resources =
  PrimaryResources :: "string \<rightharpoonup> Quantity"
  ScalarResources :: "int dict option"

record Requirements =
  ReqPodName :: string
  ReqResources :: Resources
  ReqNodeSelectors :: "string dict option"

record ReviewSpec =
  Templates :: "Pod list"
  SpecReplicas :: int
  PodRequirements :: "Requirements list"

record ReviewStatus =
  CreationTimestamp :: int
  StatusReplicas :: int
  FailReason :: ScheduleFailReason
  StatusPods :: "ReviewResult list"

record ClusterCapacityReview =
  ReviewSpecOf :: ReviewSpec
  ReviewStatusOf :: ReviewStatus

text \<open>The \<open>Status\<close> of \<open>simulator.go\<close>, which the report is made from.\<close>

record Status =
  Pods :: "Pod list"
  StopReason :: string

section \<open>The reason the analysis stopped\<close>

definition newline :: char where
  "newline = CHR 0x0A"

definition getMainFailReason :: "string \<Rightarrow> panic + ScheduleFailReason" where
  "getMainFailReason message =
     (let slicedMessage = split_char newline message in
      case index slicedMessage 0 of Inl p \<Rightarrow> Inl p | Inr line \<Rightarrow>
      (let colon = index_char (CHR '':'') line in
       case slice_to line colon of Inl p \<Rightarrow> Inl p | Inr ty \<Rightarrow>
       (case slice_from line (colon + 1) of Inl p \<Rightarrow> Inl p | Inr msg \<Rightarrow>
        Inr \<lparr>FailType = ty, FailMessage = trim_char (CHR '' '') msg\<rparr>)))"

definition first_line :: "string \<Rightarrow> string" where
  "first_line s = takeWhile (\<lambda>c. c \<noteq> newline) s"

lemma index_split_newline: "index (split_char newline s) 0 = Inr (first_line s)"
  by (simp add: index_def hd_conv_nth [symmetric] hd_split_char first_line_def)

text \<open>The slice expression panics exactly when the first line has no colon.\<close>

lemma getMainFailReason_panics_iff:
  "(\<exists>p. getMainFailReason s = Inl p) \<longleftrightarrow> CHR '':'' \<notin> set (first_line s)"
proof (cases "CHR '':'' \<in> set (first_line s)")
  case True
  then obtain a b where ab: "first_line s = a @ CHR '':'' # b" "CHR '':'' \<notin> set a"
    by (metis split_list_first)
  then show ?thesis
    by (simp add: getMainFailReason_def index_split_newline Let_def)
next
  case False
  then show ?thesis
    by (simp add: getMainFailReason_def index_split_newline Let_def index_char_negative [THEN iffD2])
qed

text \<open>The two parts of a reason of the form the simulator writes.\<close>

lemma getMainFailReason_parts:
  assumes "CHR '':'' \<notin> set ty" "newline \<notin> set ty"
  shows "getMainFailReason (ty @ '': '' @ msg)
    = Inr \<lparr>FailType = ty, FailMessage = trim_char (CHR '' '') (first_line msg)\<rparr>"
proof -
  have "first_line (ty @ '': '' @ msg) = ty @ CHR '':'' # CHR '' '' # first_line msg"
    using assms(2) by (auto simp: first_line_def takeWhile_append newline_def)
  with assms(1) show ?thesis
    by (simp add: getMainFailReason_def index_split_newline Let_def)
qed

section \<open>Pods per node\<close>

definition count_on_node :: "string \<Rightarrow> ReplicasOnNode list \<Rightarrow> ReplicasOnNode list" where
  "count_on_node node rons =
     (let counted = map (\<lambda>s. if RonNode s = node then s\<lparr>RonReplicas := RonReplicas s + 1\<rparr> else s) rons;
          first = (\<not> list_ex (\<lambda>s. RonNode s = node) rons)
      in if first then counted @ [\<lparr>RonNode = node, RonReplicas = 1\<rparr>] else counted)"

fun review_pods :: "nat \<Rightarrow> nat \<Rightarrow> Pod list \<Rightarrow> ReviewResult list \<Rightarrow> panic + ReviewResult list" where
  "review_pods templatesCount i [] result = Inr result"
| "review_pods templatesCount i (pod # pods) result =
     (if templatesCount = 0 then Inl Integer_divide_by_zero
      else (let j = i mod templatesCount in
        case index result j of Inl p \<Rightarrow> Inl p | Inr r \<Rightarrow>
          review_pods templatesCount (Suc i) pods
            (result[j := r\<lparr>ReplicasOnNodes := count_on_node (pod_node pod) (ReplicasOnNodes r)\<rparr>])))"

definition parsePodsReview :: "Pod list \<Rightarrow> Status \<Rightarrow> panic + ReviewResult list" where
  "parsePodsReview templatePods status =
     review_pods (length templatePods) 0 (Pods status)
       (map (\<lambda>t. \<lparr>PodName = pod_name t, ReplicasOnNodes = [], FailSummary = None\<rparr>) templatePods)"

definition instancesSum :: "ReplicasOnNode list \<Rightarrow> int" where
  "instancesSum rs = sum_list (map RonReplicas rs)"

section \<open>What the tally is: one entry per node, in order of first use, with its count\<close>

definition first_uses :: "string list \<Rightarrow> string list" where
  "first_uses ns = rev (remdups (rev ns))"

definition tally :: "string list \<Rightarrow> ReplicasOnNode list" where
  "tally ns = map (\<lambda>n. \<lparr>RonNode = n, RonReplicas = int (count_list ns n)\<rparr>) (first_uses ns)"

lemma set_first_uses [simp]: "set (first_uses ns) = set ns"
  and distinct_first_uses [simp]: "distinct (first_uses ns)"
  by (simp_all add: first_uses_def)

lemma first_uses_snoc:
  "first_uses (ns @ [n]) = (if n \<in> set ns then first_uses ns else first_uses ns @ [n])"
  by (simp add: first_uses_def)

lemma count_list_snoc: "count_list (ns @ [n]) m = count_list ns m + (if m = n then 1 else 0)"
  by (induction ns) auto

lemma tally_Nil [simp]: "tally [] = []"
  by (simp add: tally_def first_uses_def)

lemma count_on_node_tally: "count_on_node n (tally ns) = tally (ns @ [n])"
proof -
  have ex: "list_ex (\<lambda>s. RonNode s = n) (tally ns) \<longleftrightarrow> n \<in> set ns"
    by (auto simp: tally_def list_ex_iff)
  show ?thesis
  proof (cases "n \<in> set ns")
    case True
    with ex show ?thesis
      by (simp add: count_on_node_def tally_def first_uses_snoc count_list_snoc)
  next
    case False
    then have "count_list ns n = 0" by (simp add: count_list_0_iff)
    with False ex show ?thesis
      by (auto simp: count_on_node_def tally_def first_uses_snoc count_list_snoc)
  qed
qed

lemma instancesSum_tally: "instancesSum (tally ns) = int (length ns)"
proof -
  have "instancesSum (tally ns) = (\<Sum>n\<leftarrow>first_uses ns. int (count_list ns n))"
    by (simp add: instancesSum_def tally_def comp_def)
  also have "\<dots> = (\<Sum>n\<in>set ns. int (count_list ns n))"
    by (simp add: sum_list_distinct_conv_sum_set)
  also have "\<dots> = int (\<Sum>n\<in>set ns. count_list ns n)"
    by simp
  also have "(\<Sum>n\<in>set ns. count_list ns n) = length ns"
    by (rule sum_count_set) auto
  finally show ?thesis .
qed

section \<open>Round robin over the templates\<close>

text \<open>The elements of a list whose position is \<open>j\<close> modulo \<open>n\<close>.\<close>

definition every_nth :: "nat \<Rightarrow> nat \<Rightarrow> 'a list \<Rightarrow> 'a list" where
  "every_nth n j xs = map (\<lambda>i. xs ! i) (filter (\<lambda>i. i mod n = j) [0..<length xs])"

lemma every_nth_Nil [simp]: "every_nth n j [] = []"
  by (simp add: every_nth_def)

lemma every_nth_snoc:
  "every_nth n j (xs @ [x]) = every_nth n j xs @ (if length xs mod n = j then [x] else [])"
  by (auto simp: every_nth_def nth_append intro!: map_cong)

lemma every_nth_one: "every_nth 1 0 xs = xs"
  by (simp add: every_nth_def map_nth)

lemma sum_every_nth: "0 < n \<Longrightarrow> (\<Sum>j<n. length (every_nth n j xs)) = length xs"
proof (induction xs rule: rev_induct)
  case Nil
  then show ?case by simp
next
  case (snoc x xs)
  then have "(\<Sum>j<n. if length xs mod n = j then 1 else 0) = (1 :: nat)"
    by simp
  with snoc show ?case
    by (simp add: every_nth_snoc if_distrib [where f = length] sum.distrib cong: if_cong)
qed

definition review_of :: "Pod list \<Rightarrow> Pod list \<Rightarrow> nat \<Rightarrow> ReviewResult" where
  "review_of templates pods j =
     \<lparr>PodName = pod_name (templates ! j),
      ReplicasOnNodes = tally (map pod_node (every_nth (length templates) j pods)),
      FailSummary = None\<rparr>"

lemma review_pods_step:
  assumes "templates \<noteq> []"
  shows "review_pods (length templates) (length ps) (pod # pods)
      (map (review_of templates ps) [0..<length templates])
    = review_pods (length templates) (Suc (length ps)) pods
      (map (review_of templates (ps @ [pod])) [0..<length templates])"
proof -
  let ?n = "length templates"
  let ?j = "length ps mod ?n"
  have j: "?j < ?n" using assms by simp
  have "(map (review_of templates ps) [0..<?n])[?j := (review_of templates ps ?j)
      \<lparr>ReplicasOnNodes := count_on_node (pod_node pod) (ReplicasOnNodes (review_of templates ps ?j))\<rparr>]
    = map (review_of templates (ps @ [pod])) [0..<?n]"
    using j by (intro nth_equalityI)
      (auto simp: nth_list_update review_of_def every_nth_snoc count_on_node_tally)
  with j assms show ?thesis
    by (simp add: Let_def)
qed

lemma review_pods_spec:
  "templates \<noteq> [] \<Longrightarrow>
    review_pods (length templates) (length ps) pods (map (review_of templates ps) [0..<length templates])
    = Inr (map (review_of templates (ps @ pods)) [0..<length templates])"
proof (induction pods arbitrary: ps)
  case Nil
  then show ?case by simp
next
  case (Cons pod pods)
  then show ?case
    using Cons.IH [of "ps @ [pod]"] by (simp add: review_pods_step del: review_pods.simps)
qed

lemma parsePodsReview_spec:
  assumes "templates \<noteq> []"
  shows "parsePodsReview templates status
    = Inr (map (review_of templates (Pods status)) [0..<length templates])"
proof -
  have "map (\<lambda>t. \<lparr>PodName = pod_name t, ReplicasOnNodes = [], FailSummary = None\<rparr>) templates
      = map (review_of templates []) [0..<length templates]"
    by (intro nth_equalityI) (simp_all add: review_of_def)
  with review_pods_spec [OF assms, of "[]" "Pods status"] show ?thesis
    by (simp add: parsePodsReview_def)
qed

lemma parsePodsReview_panics_iff:
  "(\<exists>p. parsePodsReview templates status = Inl p) \<longleftrightarrow> templates = [] \<and> Pods status \<noteq> []"
proof (cases "templates = []")
  case True
  then show ?thesis
    by (cases "Pods status") (simp_all add: parsePodsReview_def)
next
  case False
  then show ?thesis by (simp add: parsePodsReview_spec)
qed

section \<open>The resources a pod requests\<close>

definition list_quantity :: "(string \<rightharpoonup> Quantity) \<Rightarrow> string \<Rightarrow> string \<Rightarrow> Quantity" where
  "list_quantity m name defaultFormat =
     (case m name of Some q \<Rightarrow> q | None \<Rightarrow> NewQuantity 0 defaultFormat)"

definition initial_resources :: Resources where
  "initial_resources =
     \<lparr>PrimaryResources =
        [ResourceCPU \<mapsto> NewMilliQuantity 0 DecimalSI,
         ResourceMemory \<mapsto> NewQuantity 0 BinarySI,
         ResourceNvidiaGPU \<mapsto> NewMilliQuantity 0 DecimalSI],
      ScalarResources = None\<rparr>"

definition add_request :: "string \<times> Quantity \<Rightarrow> Resources \<Rightarrow> Resources" where
  "add_request rq result =
     (let (rName, rQuantity) = rq; primary = PrimaryResources result in
      if rName = ResourceMemory then
        result\<lparr>PrimaryResources := primary(ResourceMemory \<mapsto>
          Quantity_Add rQuantity (list_quantity primary ResourceMemory BinarySI))\<rparr>
      else if rName = ResourceCPU then
        result\<lparr>PrimaryResources := primary(ResourceCPU \<mapsto>
          Quantity_Add rQuantity (list_quantity primary ResourceCPU DecimalSI))\<rparr>
      else if IsScalarResourceName rName then
        (let scalars = (case ScalarResources result of None \<Rightarrow> Mapping.empty | Some m \<Rightarrow> m);
             old = (case Mapping.lookup scalars rName of None \<Rightarrow> 0 | Some v \<Rightarrow> v)
         in result\<lparr>ScalarResources := Some (Mapping.update rName (wrap64 (old + Quantity_Value rQuantity)) scalars)\<rparr>)
      else result)"

definition getResourceRequest :: "Pod \<Rightarrow> Resources" where
  "getResourceRequest pod =
     fold (\<lambda>container result. fold add_request (Requests container) result)
       (Containers (Spec pod)) initial_resources"

definition all_requests :: "Pod \<Rightarrow> ResourceList" where
  "all_requests pod = concat (map Requests (Containers (Spec pod)))"

lemma getResourceRequest_fold:
  "getResourceRequest pod = fold add_request (all_requests pod) initial_resources"
proof -
  have "fold (\<lambda>c r. fold add_request (Requests c) r) cs r =
      fold add_request (concat (map Requests cs)) r" for cs r
    by (induction cs arbitrary: r) auto
  then show ?thesis
    by (simp add: getResourceRequest_def all_requests_def)
qed

definition requested :: "string \<Rightarrow> ResourceList \<Rightarrow> rat" where
  "requested name rl = (\<Sum>(n, q)\<leftarrow>rl. if n = name then qval q else 0)"

definition requested_scalar :: "string \<Rightarrow> ResourceList \<Rightarrow> int" where
  "requested_scalar name rl = (\<Sum>(n, q)\<leftarrow>rl. if n = name then Quantity_Value q else 0)"

abbreviation amount_of :: "Resources \<Rightarrow> string \<Rightarrow> rat" where
  "amount_of r name \<equiv> qval (the (PrimaryResources r name))"

abbreviation scalar_of :: "Resources \<Rightarrow> string \<Rightarrow> int" where
  "scalar_of r name \<equiv>
     (case ScalarResources r of None \<Rightarrow> 0 | Some m \<Rightarrow> (case Mapping.lookup m name of None \<Rightarrow> 0 | Some v \<Rightarrow> v))"

definition resources_ok :: "Resources \<Rightarrow> bool" where
  "resources_ok r \<longleftrightarrow>
     (\<exists>c m. PrimaryResources r ResourceCPU = Some c \<and> quantity_ok c \<and>
            PrimaryResources r ResourceMemory = Some m \<and> quantity_ok m)"

lemma requested_append: "requested name (xs @ ys) = requested name xs + requested name ys"
  by (simp add: requested_def)

lemma resource_names [simp]:
  "ResourceMemory \<noteq> ResourceCPU" "ResourceCPU \<noteq> ResourceMemory"
  "ResourceNvidiaGPU \<noteq> ResourceCPU" "ResourceNvidiaGPU \<noteq> ResourceMemory"
  "ResourceCPU \<noteq> ResourceNvidiaGPU" "ResourceMemory \<noteq> ResourceNvidiaGPU"
  by (simp_all add: ResourceMemory_def ResourceCPU_def ResourceNvidiaGPU_def)

lemma resources_ok_initial: "resources_ok initial_resources"
  by (simp add: resources_ok_def initial_resources_def NewQuantity_def NewMilliQuantity_def
      quantity_ok_def int64_def)

lemma add_request_primary:
  "PrimaryResources (add_request (n, q) r) =
    (if n = ResourceMemory then (PrimaryResources r)(ResourceMemory \<mapsto>
       Quantity_Add q (list_quantity (PrimaryResources r) ResourceMemory BinarySI))
     else if n = ResourceCPU then (PrimaryResources r)(ResourceCPU \<mapsto>
       Quantity_Add q (list_quantity (PrimaryResources r) ResourceCPU DecimalSI))
     else PrimaryResources r)"
  by (simp add: add_request_def Let_def)

lemma add_request_scalar:
  "scalar_of (add_request (n, q) r) name =
    (if n = name \<and> IsScalarResourceName name then wrap64 (scalar_of r name + Quantity_Value q)
     else scalar_of r name)"
  by (auto simp: add_request_def Let_def ResourceCPU_def ResourceMemory_def split: option.splits)

lemma add_request_ok:
  assumes "resources_ok r" "quantity_ok q"
  shows "resources_ok (add_request (n, q) r)"
proof -
  obtain c m where cm: "PrimaryResources r ResourceCPU = Some c" "quantity_ok c"
    "PrimaryResources r ResourceMemory = Some m" "quantity_ok m"
    using assms(1) by (auto simp: resources_ok_def)
  have "quantity_ok (Quantity_Add q c)" "quantity_ok (Quantity_Add q m)"
    using Quantity_Add_exact assms(2) cm by blast+
  with cm show ?thesis
    by (simp add: resources_ok_def add_request_primary list_quantity_def)
qed

lemma add_request_amount:
  assumes "resources_ok r" "quantity_ok q" "name \<in> {ResourceCPU, ResourceMemory}"
  shows "amount_of (add_request (n, q) r) name
      = amount_of r name + (if n = name then qval q else 0)"
proof -
  obtain c m where cm: "PrimaryResources r ResourceCPU = Some c" "quantity_ok c"
    "PrimaryResources r ResourceMemory = Some m" "quantity_ok m"
    using assms(1) by (auto simp: resources_ok_def)
  have "qval (Quantity_Add q c) = qval q + qval c" "qval (Quantity_Add q m) = qval q + qval m"
    using Quantity_Add_exact assms(2) cm by blast+
  then have q: "qval (Quantity_Add q c) = qval c + qval q" "qval (Quantity_Add q m) = qval m + qval q"
    by (simp_all only: add.commute)
  from assms(3) consider "name = ResourceCPU" | "name = ResourceMemory" by blast
  then show ?thesis
    by cases (simp_all add: add_request_primary list_quantity_def cm(1,3) q)
qed

lemma fold_add_request:
  assumes "resources_ok r" "\<forall>(n, q) \<in> set rl. quantity_ok q" "name \<in> {ResourceCPU, ResourceMemory}"
  shows "resources_ok (fold add_request rl r) \<and>
    amount_of (fold add_request rl r) name = amount_of r name + requested name rl"
  using assms(1,2)
proof (induction rl arbitrary: r)
  case Nil
  then show ?case by (simp add: requested_def)
next
  case (Cons nq rl)
  obtain n q where nq: "nq = (n, q)" by force
  have step: "resources_ok (add_request (n, q) r)"
    "amount_of (add_request (n, q) r) name = amount_of r name + (if n = name then qval q else 0)"
    using add_request_ok [of r q n] add_request_amount [of r q name n] Cons.prems nq assms(3)
    by auto
  from Cons.IH [OF step(1)] Cons.prems nq step(2) show ?case
    by (simp add: requested_def)
qed

lemma request_amounts:
  assumes "\<forall>(n, q) \<in> set (all_requests pod). quantity_ok q" "name \<in> {ResourceCPU, ResourceMemory}"
  shows "amount_of (getResourceRequest pod) name = requested name (all_requests pod)"
  using fold_add_request [OF resources_ok_initial assms]  assms(2)
  by (auto simp: getResourceRequest_fold initial_resources_def NewQuantity_def NewMilliQuantity_def
      qval_def aval_def)

lemma fold_add_request_scalar:
  assumes "int64 (scalar_of r name)"
  shows "scalar_of (fold add_request rl r) name =
    (if IsScalarResourceName name then wrap64 (scalar_of r name + requested_scalar name rl) else scalar_of r name)"
  using assms
proof (induction rl arbitrary: r)
  case Nil
  then show ?case by (simp add: requested_scalar_def)
next
  case (Cons nq rl)
  obtain n q where nq: "nq = (n, q)" by force
  have "int64 (scalar_of (add_request (n, q) r) name)"
    using Cons.prems by (simp only: add_request_scalar split: if_splits) simp
  from Cons.IH [OF this] Cons.prems nq show ?case
    by (simp add: requested_scalar_def add.assoc add_request_scalar)
qed

text \<open>
  Go visits a map in an unspecified order: the requested amounts do not depend on it.
\<close>

lemma sum_list_mset_cong:
  "mset xs = mset ys \<Longrightarrow> sum_list (map f xs) = (sum_list (map f ys) :: 'a :: comm_monoid_add)"
  using sum_mset_sum_list [of "map f xs"] sum_mset_sum_list [of "map f ys"] by simp

lemma requested_permutation:
  "mset rl = mset rl' \<Longrightarrow> requested name rl = requested name rl'"
  "mset rl = mset rl' \<Longrightarrow> requested_scalar name rl = requested_scalar name rl'"
  unfolding requested_def requested_scalar_def by (rule sum_list_mset_cong, assumption)+

section \<open>The report\<close>

definition getPodsRequirements :: "Pod list \<Rightarrow> Requirements list" where
  "getPodsRequirements pods =
     map (\<lambda>pod. \<lparr>ReqPodName = pod_name pod,
                 ReqResources = getResourceRequest pod,
                 ReqNodeSelectors = NodeSelector (Spec pod)\<rparr>) pods"

definition getReviewSpec :: "Pod list \<Rightarrow> ReviewSpec" where
  "getReviewSpec podTemplates =
     \<lparr>Templates = podTemplates, SpecReplicas = 0,
      PodRequirements = getPodsRequirements podTemplates\<rparr>"

definition getReviewStatus :: "int \<Rightarrow> Pod list \<Rightarrow> Status \<Rightarrow> panic + ReviewStatus" where
  "getReviewStatus now pods status =
     (case getMainFailReason (StopReason status) of Inl p \<Rightarrow> Inl p | Inr reason \<Rightarrow>
      (case parsePodsReview pods status of Inl p \<Rightarrow> Inl p | Inr results \<Rightarrow>
       Inr \<lparr>CreationTimestamp = now, StatusReplicas = wrap32 (int (length (Pods status))),
            FailReason = reason, StatusPods = results\<rparr>))"

definition GetReport :: "int \<Rightarrow> Pod list \<Rightarrow> Status \<Rightarrow> panic + ClusterCapacityReview" where
  "GetReport now pods status =
     (case getReviewStatus now pods status of Inl p \<Rightarrow> Inl p | Inr st \<Rightarrow>
      Inr \<lparr>ReviewSpecOf = getReviewSpec pods, ReviewStatusOf = st\<rparr>)"

lemma GetReport_one_template:
  assumes "getMainFailReason (StopReason status) = Inr reason"
  shows "GetReport now [t] status = Inr
    \<lparr>ReviewSpecOf = getReviewSpec [t],
     ReviewStatusOf =
       \<lparr>CreationTimestamp = now, StatusReplicas = wrap32 (int (length (Pods status))),
        FailReason = reason,
        StatusPods = [\<lparr>PodName = pod_name t,
                       ReplicasOnNodes = tally (map pod_node (Pods status)),
                       FailSummary = None\<rparr>]\<rparr>\<rparr>"
  using assms parsePodsReview_spec [of "[t]" status]
  by (simp add: GetReport_def getReviewStatus_def review_of_def every_nth_one [simplified])

section \<open>Properties\<close>

definition bound_to :: "string \<Rightarrow> Pod" where
  "bound_to node =
     \<lparr>Meta = \<lparr>Name = ''p'', Namespace = ''ns'', UID = [], Annotations = None\<rparr>,
      Spec = \<lparr>NodeName = node, SchedulerName = [], NodeSelector = None,
        Containers = [\<lparr>ContainerName = ''c'', Image = [], ImagePullPolicy = [], Limits = [],
          Requests = [(''cpu'', NewMilliQuantity 150 DecimalSI), (''example.com/a'', NewQuantity 2 DecimalSI)]\<rparr>,
          \<lparr>ContainerName = ''d'', Image = [], ImagePullPolicy = [], Limits = [],
          Requests = [(''cpu'', NewQuantity 2 DecimalSI)]\<rparr>],
        RestartPolicy = [], DNSPolicy = []\<rparr>,
      PStatus = \<lparr>Phase = [], Conditions = []\<rparr>\<rparr>"

text \<open>\<open>getMainFailReason\<close> splits the first line of a stop reason at its first colon, and
  panics with a slice bound out of range exactly when that line has none.\<close>

lemma getMainFailReason_spec:
  "getMainFailReason s =
    (let line = takeWhile (\<lambda>c. c \<noteq> newline) s; ty = takeWhile (\<lambda>c. c \<noteq> CHR '':'') line in
     if CHR '':'' \<in> set line
     then Inr \<lparr>FailType = ty, FailMessage = trim_char (CHR '' '') (drop (length ty + 1) line)\<rparr>
     else Inl Slice_bounds_out_of_range)"
proof (cases "CHR '':'' \<in> set (first_line s)")
  case True
  then obtain a b where ab: "first_line s = a @ CHR '':'' # b" "CHR '':'' \<notin> set a"
    by (metis split_list_first)
  then have "takeWhile (\<lambda>c. c \<noteq> CHR '':'') (first_line s) = a"
    by (auto simp: takeWhile_append)
  with ab show ?thesis
    by (simp add: getMainFailReason_def index_split_newline Let_def first_line_def [symmetric])
next
  case False
  then show ?thesis
    by (simp add: getMainFailReason_def index_split_newline Let_def index_char_negative [THEN iffD2]
        first_line_def [symmetric])
qed

text \<open>\<open>parsePodsReview\<close> gives each template the pods of its turn in the round robin, tallied
  by node in the order of first use; without a template it divides by zero as soon as a pod
  was bound.\<close>

lemma parsePodsReview_result:
  "parsePodsReview templates status =
    (if templates = [] then (if Pods status = [] then Inr [] else Inl Integer_divide_by_zero)
     else Inr (map (review_of templates (Pods status)) [0..<length templates]))"
proof (cases "templates = []")
  case True
  then show ?thesis
    by (cases "Pods status") (simp_all add: parsePodsReview_def)
next
  case False
  then show ?thesis by (simp add: parsePodsReview_spec)
qed

text \<open>No bound pod is lost or counted twice: over all templates the instances on the nodes add
  up to the number of bound pods.\<close>

lemma review_conserves_pods:
  assumes "parsePodsReview templates status = Inr results" "templates \<noteq> []"
  shows "(\<Sum>r\<leftarrow>results. instancesSum (ReplicasOnNodes r)) = int (length (Pods status))"
proof -
  let ?n = "length templates"
  have "(\<Sum>r\<leftarrow>results. instancesSum (ReplicasOnNodes r))
      = (\<Sum>j\<leftarrow>[0..<?n]. int (length (every_nth ?n j (Pods status))))"
    using assms by (auto simp: parsePodsReview_spec review_of_def instancesSum_tally comp_def)
  also have "\<dots> = (\<Sum>j<?n. int (length (every_nth ?n j (Pods status))))"
    by (simp add: interv_sum_list_conv_sum_set_nat atLeast0LessThan)
  also have "\<dots> = int (\<Sum>j<?n. length (every_nth ?n j (Pods status)))"
    by simp
  also have "\<dots> = int (length (Pods status))"
    using assms(2) by (subst sum_every_nth) simp_all
  finally show ?thesis .
qed

lemma review_conserves_pods_witness:
  "(\<Sum>r\<leftarrow>projr (parsePodsReview [bound_to [], bound_to []]
      \<lparr>Pods = map bound_to [''a'', ''b'', ''a''], StopReason = []\<rparr>).
      instancesSum (ReplicasOnNodes r)) =
   int (length (Pods \<lparr>Pods = map bound_to [''a'', ''b'', ''a''], StopReason = []\<rparr>))"
  by (rule review_conserves_pods [where templates = "[bound_to [], bound_to []]"])
     (simp_all add: parsePodsReview_spec)

lemma fold_add_request_other:
  "n \<notin> {ResourceCPU, ResourceMemory} \<Longrightarrow>
     PrimaryResources (fold add_request rl r) n = PrimaryResources r n"
proof (induction rl arbitrary: r)
  case (Cons nq rl)
  then show ?case by (cases nq) (simp add: add_request_primary)
qed simp

text \<open>C34: The primary resources of the report are exactly cpu, memory and the GPU entry. The
  amounts of cpu and of memory are the exact sums over the containers of the pod, whatever
  the scales and forms of the quantities added; the GPU entry is always zero.\<close>

theorem getResourceRequest_sums:
  assumes "\<forall>(n, q) \<in> set (all_requests pod). quantity_ok q"
  defines "r \<equiv> getResourceRequest pod"
  shows "dom (PrimaryResources r) = {ResourceCPU, ResourceMemory, ResourceNvidiaGPU} \<and>
    amount_of r ResourceCPU = requested ResourceCPU (all_requests pod) \<and>
    amount_of r ResourceMemory = requested ResourceMemory (all_requests pod) \<and>
    amount_of r ResourceNvidiaGPU = 0"
proof -
  have other: "PrimaryResources r n = PrimaryResources initial_resources n"
    if "n \<notin> {ResourceCPU, ResourceMemory}" for n
    using that by (simp add: r_def getResourceRequest_fold fold_add_request_other)
  have "resources_ok r"
    using fold_add_request [OF resources_ok_initial assms(1), of ResourceCPU]
    by (simp add: r_def getResourceRequest_fold)
  then have "ResourceCPU \<in> dom (PrimaryResources r)" "ResourceMemory \<in> dom (PrimaryResources r)"
    by (auto simp: resources_ok_def)
  moreover have "n \<in> dom (PrimaryResources r) \<longleftrightarrow> n = ResourceNvidiaGPU"
    if "n \<notin> {ResourceCPU, ResourceMemory}" for n
    using other [OF that] that by (auto simp: initial_resources_def split: if_splits)
  ultimately have "n \<in> dom (PrimaryResources r) \<longleftrightarrow> n \<in> {ResourceCPU, ResourceMemory, ResourceNvidiaGPU}" for n
    by (cases "n \<in> {ResourceCPU, ResourceMemory}") auto
  then have "dom (PrimaryResources r) = {ResourceCPU, ResourceMemory, ResourceNvidiaGPU}"
    by blast
  moreover have "amount_of r ResourceNvidiaGPU = 0"
    using other [of ResourceNvidiaGPU]
    by (simp add: initial_resources_def NewMilliQuantity_def qval_def aval_def)
  ultimately show ?thesis
    using request_amounts [OF assms(1), of ResourceCPU] request_amounts [OF assms(1), of ResourceMemory]
    by (simp add: r_def)
qed

theorem getResourceRequest_sums_witness:
  "let r = getResourceRequest (bound_to []) in
    dom (PrimaryResources r) = {ResourceCPU, ResourceMemory, ResourceNvidiaGPU} \<and>
    amount_of r ResourceCPU = requested ResourceCPU (all_requests (bound_to [])) \<and>
    amount_of r ResourceMemory = requested ResourceMemory (all_requests (bound_to [])) \<and>
    amount_of r ResourceNvidiaGPU = 0"
  unfolding Let_def
  by (rule getResourceRequest_sums)
     (simp add: all_requests_def bound_to_def quantity_ok_def NewMilliQuantity_def NewQuantity_def int64_def)

text \<open>The count of a scalar resource (extended, huge pages, attachable volumes or prefixed native)
  is the 64-bit wrapped sum of the values requested of it; no other resource is counted.\<close>

lemma getResourceRequest_scalars:
  "scalar_of (getResourceRequest pod) name =
     (if IsScalarResourceName name then wrap64 (requested_scalar name (all_requests pod)) else 0)"
  using fold_add_request_scalar [where r = initial_resources and name = name]
  by (simp add: getResourceRequest_fold initial_resources_def int64_def)

text \<open>Go visits the requests of a container in any order. The amounts in the report do not
  depend on it, nor on the distribution of the requests over the containers.\<close>

lemma request_order_irrelevant:
  assumes "mset (all_requests pod) = mset (all_requests pod')"
    and "\<forall>(n, q) \<in> set (all_requests pod). quantity_ok q"
    and "name \<in> {ResourceCPU, ResourceMemory}"
  shows "amount_of (getResourceRequest pod) name = amount_of (getResourceRequest pod') name"
proof -
  have "set (all_requests pod) = set (all_requests pod')"
    using assms(1) by (rule mset_eq_setD)
  then show ?thesis
    using requested_permutation(1) [OF assms(1)] request_amounts assms(2,3) by metis
qed

lemma request_order_irrelevant_witness:
  "amount_of (getResourceRequest (bound_to [])) ResourceCPU =
   amount_of (getResourceRequest
     ((bound_to [])\<lparr>Spec := (Spec (bound_to []))\<lparr>Containers := rev (Containers (Spec (bound_to [])))\<rparr>\<rparr>)) ResourceCPU"
  by (rule request_order_irrelevant)
     (simp_all add: all_requests_def bound_to_def quantity_ok_def NewMilliQuantity_def NewQuantity_def int64_def)

text \<open>C37: \<open>GetReport\<close> panics exactly when the first line of the stop reason has no colon (as when
  the report is asked for before the analysis stopped) or pods were bound without a template.\<close>

theorem GetReport_panics_iff:
  "(\<exists>p. GetReport now pods status = Inl p) \<longleftrightarrow>
     (if CHR '':'' \<in> set (first_line (StopReason status)) then pods = [] \<and> Pods status \<noteq> [] else True)"
  using getMainFailReason_panics_iff [of "StopReason status"] parsePodsReview_panics_iff [of pods status]
  by (cases "getMainFailReason (StopReason status)"; cases "parsePodsReview pods status")
     (simp_all add: GetReport_def getReviewStatus_def)

end
