(* ===== verification/Simulator.thy ===== *)
theory Simulator
  imports Tracker Pod_Generator Report
begin

text \<open>
  \<open>pkg/framework/simulator.go\<close> and \<open>plugins/clustercapacitybinder/plugin.go\<close>: the state of
  an analysis and its handlers, one definition per method. The clientset is one tracker per
  resource. Of the channels, \<open>informerStopCh\<close> and the scheduler context are only closed, so
  each is a flag; \<open>stop\<close> is the unbuffered channel through which a handler tells \<open>Run\<close> to
  end, kept as the queue of the goroutines parked in a send on it and its closed flag. A
  handler runs up to its (last) send. The mutexes only make \<open>Close\<close> and the end of
  \<open>Update\<close> atomic.
\<close>

section \<open>State\<close>

record clientset =
  cs_namespaces :: "KObject tracker"
  cs_pods :: "Pod tracker"
  cs_nodes :: "KObject tracker"
  cs_services :: "KObject tracker"
  cs_pvcs :: "KObject tracker"
  cs_rcs :: "KObject tracker"
  cs_pdbs :: "KObject tracker"
  cs_replicaSets :: "KObject tracker"
  cs_statefulSets :: "KObject tracker"
  cs_storageClasses :: "KObject tracker"

definition NewSimpleClientset :: clientset where
  "NewSimpleClientset =
     \<lparr>cs_namespaces = empty_tracker, cs_pods = empty_tracker, cs_nodes = empty_tracker,
      cs_services = empty_tracker, cs_pvcs = empty_tracker, cs_rcs = empty_tracker,
      cs_pdbs = empty_tracker, cs_replicaSets = empty_tracker, cs_statefulSets = empty_tracker,
      cs_storageClasses = empty_tracker\<rparr>"

datatype sender = Binder_goroutine | Informer_goroutine

record stop_chan =
  senders :: "sender list"
  chan_closed :: bool

record ClusterCapacity =
  client :: clientset
  defaultSchedulerName :: string
  podGenerator :: singlePodGenerator
  simulatedPod :: Pod
  lastSimulatedPod :: "Pod option"
  maxSimulated :: int
  simulated :: int
  status :: Status
  report :: "ClusterCapacityReview option"
  excludeNodes :: "string set"
  informerStopped :: bool
  contextCancelled :: bool
  stop :: stop_chan
  stopped :: bool
  closed :: bool

text \<open>
  \<open>New\<close>: building the scheduler from its configuration is outside the repository; the
  argument \<open>schedErr\<close> is the error it returns, if any. \<open>MaxLimit\<close> is a Go \<open>int\<close>.
\<close>

definition New :: "go_error option \<Rightarrow> Pod \<Rightarrow> int \<Rightarrow> string list \<Rightarrow> go_error + ClusterCapacity" where
  "New schedErr pod maxPods exclude =
     (case schedErr of
        Some e \<Rightarrow> Inl e
      | None \<Rightarrow> Inr
          \<lparr>client = NewSimpleClientset,
           defaultSchedulerName = DefaultSchedulerName,
           podGenerator = NewSinglePodGenerator pod,
           simulatedPod = pod, lastSimulatedPod = None,
           maxSimulated = maxPods, simulated = 0,
           status = \<lparr>Pods = [], StopReason = []\<rparr>, report = None,
           excludeNodes = set exclude,
           informerStopped = False, contextCancelled = False,
           stop = \<lparr>senders = [], chan_closed = False\<rparr>, stopped = False, closed = False\<rparr>)"

text \<open>
  Before it builds the scheduler, \<open>New\<close> makes a dynamic client with \<open>dynamic.NewForConfigOrDie\<close>, which panics with the error
  of the client library, if there is one (\<open>dynErr\<close>).
\<close>

definition New_or_die ::
  "go_error option \<Rightarrow> go_error option \<Rightarrow> Pod \<Rightarrow> int \<Rightarrow> string list \<Rightarrow> panic + (go_error + ClusterCapacity)" where
  "New_or_die dynErr schedErr pod maxPods exclude =
     (case dynErr of Some e \<Rightarrow> Inl (Panic_with e) | None \<Rightarrow> Inr (New schedErr pod maxPods exclude))"

section \<open>Closing and signalling\<close>

definition send_stop :: "sender \<Rightarrow> ClusterCapacity \<Rightarrow> panic + ClusterCapacity" where
  "send_stop who c =
     (if chan_closed (stop c) then Inl Send_on_closed_channel
      else Inr (c\<lparr>stop := (stop c)\<lparr>senders := senders (stop c) @ [who]\<rparr>\<rparr>))"

text \<open>Closing a channel a goroutine is parked on makes that goroutine's send panic.\<close>

definition close_stop :: "ClusterCapacity \<Rightarrow> panic + ClusterCapacity" where
  "close_stop c =
     (if chan_closed (stop c) then Inl Close_of_closed_channel
      else if senders (stop c) \<noteq> [] then Inl Send_on_closed_channel
      else Inr (c\<lparr>stop := (stop c)\<lparr>chan_closed := True\<rparr>\<rparr>))"

definition Close :: "ClusterCapacity \<Rightarrow> panic + ClusterCapacity" where
  "Close c =
     (if closed c then Inr c
      else if informerStopped c then Inl Close_of_closed_channel
      else Inr (c\<lparr>contextCancelled := True, informerStopped := True, closed := True\<rparr>))"

section \<open>Creating the next simulated pod\<close>

definition createNextPod :: "string \<Rightarrow> ClusterCapacity \<Rightarrow> panic + ClusterCapacity \<times> go_error option" where
  "createNextPod uuid c =
     (let (pod, g) = Generate uuid (podGenerator c);
          pod = pod\<lparr>Spec := (Spec pod)\<lparr>SchedulerName := defaultSchedulerName c\<rparr>\<rparr> in
      case Annotations (Meta pod) of
        None \<Rightarrow> Inl Assignment_to_nil_map
      | Some a \<Rightarrow>
          (let pod = pod\<lparr>Meta := (Meta pod)\<lparr>Annotations := Some (a(podProvisioner \<mapsto> defaultSchedulerName c))\<rparr>\<rparr>;
               c = c\<lparr>podGenerator := g, simulated := wrap64 (simulated c + 1), lastSimulatedPod := Some pod\<rparr>;
               (t, err) = pod_create pod (pod_ns pod) (cs_pods (client c))
           in Inr (c\<lparr>client := (client c)\<lparr>cs_pods := t\<rparr>\<rparr>, err)))"

section \<open>The handlers\<close>

definition limit_reached :: "int \<Rightarrow> string" where
  "limit_reached m = ''LimitReached: Maximum number of pods simulated: '' @ show_int m"

definition set_stop_reason :: "string \<Rightarrow> ClusterCapacity \<Rightarrow> ClusterCapacity" where
  "set_stop_reason r c = c\<lparr>status := (status c)\<lparr>StopReason := r\<rparr>\<rparr>"

definition postBindHook ::
  "string \<Rightarrow> Pod \<Rightarrow> ClusterCapacity \<Rightarrow> panic + ClusterCapacity \<times> go_error option" where
  "postBindHook uuid updatedPod c =
     (let c = c\<lparr>status := (status c)\<lparr>Pods := Pods (status c) @ [updatedPod]\<rparr>\<rparr> in
      if 0 < maxSimulated c \<and> maxSimulated c \<le> simulated c then
        (case Close (set_stop_reason (limit_reached (maxSimulated c)) c) of
           Inl p \<Rightarrow> Inl p
         | Inr c \<Rightarrow> (case send_stop Binder_goroutine c of Inl p \<Rightarrow> Inl p | Inr c \<Rightarrow> Inr (c, None)))
      else
        (case createNextPod uuid c of
           Inl p \<Rightarrow> Inl p
         | Inr (c, Some e) \<Rightarrow>
             Inr (c, Some (Errorf ''Unable to create next pod for simulated scheduling'' e))
         | Inr (c, None) \<Rightarrow> Inr (c, None)))"

definition Bind ::
  "string \<Rightarrow> Pod \<Rightarrow> string \<Rightarrow> ClusterCapacity \<Rightarrow> panic + ClusterCapacity \<times> go_error option" where
  "Bind uuid p nodeName c =
     (case tracker_get (pod_ns p) (pod_name p) (cs_pods (client c)) of
        Inl e \<Rightarrow> Inr (c, Some (Errorf ''Unable to bind'' e))
      | Inr pod \<Rightarrow>
          (let updatedPod = pod\<lparr>Spec := (Spec pod)\<lparr>NodeName := nodeName\<rparr>,
                                PStatus := (PStatus pod)\<lparr>Phase := ''Running''\<rparr>\<rparr>;
               (t, err) = pod_update updatedPod (pod_ns pod) (cs_pods (client c));
               c = c\<lparr>client := (client c)\<lparr>cs_pods := t\<rparr>\<rparr> in
           case err of
             Some e \<Rightarrow> Inr (c, Some (Errorf ''Unable to update binded pod'' e))
           | None \<Rightarrow>
               (case postBindHook uuid updatedPod c of
                  Inl p \<Rightarrow> Inl p
                | Inr (c, Some e) \<Rightarrow> Inr (c, Some (Errorf ''Invoking postBindHook gives an error'' e))
                | Inr (c, None) \<Rightarrow> Inr (c, None))))"

definition stop_condition :: "PodCondition \<Rightarrow> bool" where
  "stop_condition cond \<longleftrightarrow>
     CondType cond = ''PodScheduled'' \<and> CondStatus cond = ''False'' \<and> Reason cond = ''Unschedulable''"

definition Update :: "Pod \<Rightarrow> PodCondition \<Rightarrow> string \<Rightarrow> ClusterCapacity \<Rightarrow> panic + ClusterCapacity" where
  "Update pod podCondition schedulerName c =
     (if stop_condition podCondition \<and> HasAnnotation (Meta pod) podProvisioner then
        (case Close (set_stop_reason (Reason podCondition @ '': '' @ Message podCondition) c) of
           Inl p \<Rightarrow> Inl p
         | Inr c \<Rightarrow> send_stop Informer_goroutine (c\<lparr>stopped := True\<rparr>))
      else Inr c)"

text \<open>
  The pod event handler that \<open>createScheduler\<close> registers: the filter, and the conditions of
  an update event that are passed to \<open>Update\<close> one by one. An event reaches \<open>UpdateFunc\<close> only
  when both the old and the new object pass the filter (\<open>FilteringResourceEventHandler\<close>).
\<close>

definition handler_filter :: "string \<Rightarrow> Pod \<Rightarrow> bool" where
  "handler_filter schedulerName pod \<longleftrightarrow> SchedulerName (Spec pod) = schedulerName"

definition update_conditions :: "string \<Rightarrow> Pod \<Rightarrow> Pod \<Rightarrow> PodCondition list" where
  "update_conditions schedulerName old new =
     (if handler_filter schedulerName new \<and> handler_filter schedulerName old
      then filter (\<lambda>cond. CondType cond = ''PodScheduled'') (Conditions (PStatus new))
      else [])"

section \<open>Run and Report\<close>

text \<open>
  \<open>Run\<close> after the schedulers are started: create the first pod, and on an error close
  everything (the argument of \<open>cancel\<close> is not part of this state). When a handler's send is
  received, \<open>Run\<close> closes the channel and returns nil.
\<close>

definition run_create :: "string \<Rightarrow> ClusterCapacity \<Rightarrow> panic + ClusterCapacity \<times> go_error option" where
  "run_create uuid c =
     (case createNextPod uuid c of
        Inl p \<Rightarrow> Inl p
      | Inr (c, None) \<Rightarrow> Inr (c, None)
      | Inr (c, Some e) \<Rightarrow>
          (case Close c of Inl p \<Rightarrow> Inl p | Inr c \<Rightarrow>
           (case close_stop c of Inl p \<Rightarrow> Inl p | Inr c \<Rightarrow>
            Inr (c, Some (Errorf ''Unable to create next pod to schedule'' e)))))"

definition ScheduledPods :: "ClusterCapacity \<Rightarrow> Pod list" where
  "ScheduledPods c = Pods (status c)"

definition Report ::
  "int \<Rightarrow> ClusterCapacity \<Rightarrow> panic + ClusterCapacity \<times> ClusterCapacityReview" where
  "Report now c =
     (case report c of
        Some r \<Rightarrow> Inr (c, r)
      | None \<Rightarrow>
          (case GetReport now [simulatedPod c] (status c) of
             Inl p \<Rightarrow> Inl p
           | Inr r \<Rightarrow>
               (let r = r\<lparr>ReviewSpecOf := (ReviewSpecOf r)\<lparr>SpecReplicas := wrap32 (maxSimulated c)\<rparr>\<rparr>
                in Inr (c\<lparr>report := Some r\<rparr>, r))))"

end
