(* ===== verification/Sync.thy ===== *)
theory Sync
  imports Simulator
begin

text \<open>
  \<open>SyncWithClient\<close> of \<open>pkg/framework/simulator.go\<close>: the objects of the running cluster are
  copied into the simulated API server, kind by kind, stopping at the first error. What the
  real API server answers to each \<open>List\<close> is the record \<open>remote\<close>. Terminated pods and
  excluded nodes are skipped. The kinds without a namespace are created with the empty one.
\<close>

record remote =
  r_namespaces :: "go_error + KObject list"
  r_pods :: "go_error + Pod list"
  r_nodes :: "go_error + KObject list"
  r_services :: "go_error + KObject list"
  r_pvcs :: "go_error + KObject list"
  r_rcs :: "go_error + KObject list"
  r_pdbs :: "go_error + KObject list"
  r_replicaSets :: "go_error + KObject list"
  r_statefulSets :: "go_error + KObject list"
  r_storageClasses :: "go_error + KObject list"

text \<open>One list-and-copy block, and the blocks in sequence with the early return on error.\<close>

definition copy_kind ::
  "string \<Rightarrow> string \<Rightarrow> ('o \<Rightarrow> 't \<Rightarrow> 't \<times> go_error option) \<Rightarrow> ('o \<Rightarrow> bool) \<Rightarrow>
    (clientset \<Rightarrow> 't) \<Rightarrow> ('t \<Rightarrow> clientset \<Rightarrow> clientset) \<Rightarrow> go_error + 'o list \<Rightarrow>
    clientset \<Rightarrow> clientset \<times> go_error option" where
  "copy_kind listMsg copyMsg create keep get put items cs =
     (case items of
        Inl e \<Rightarrow> (cs, Some (Errorf listMsg e))
      | Inr xs \<Rightarrow>
          (case create_all create (filter keep xs) (get cs) of
             (t, err) \<Rightarrow> (put t cs, map_option (Errorf copyMsg) err)))"

fun run_steps :: "('s \<Rightarrow> 's \<times> go_error option) list \<Rightarrow> 's \<Rightarrow> 's \<times> go_error option" where
  "run_steps [] s = (s, None)"
| "run_steps (f # fs) s =
     (case f s of (s', Some e) \<Rightarrow> (s', Some e) | (s', None) \<Rightarrow> run_steps fs s')"

definition keep_pod :: "Pod \<Rightarrow> bool" where
  "keep_pod p \<longleftrightarrow> Phase (PStatus p) \<noteq> ''Succeeded'' \<and> Phase (PStatus p) \<noteq> ''Failed''"

abbreviation root_create :: "KObject \<Rightarrow> KObject tracker \<Rightarrow> KObject tracker \<times> go_error option" where
  "root_create x \<equiv> kobj_create x []"

abbreviation ns_create :: "KObject \<Rightarrow> KObject tracker \<Rightarrow> KObject tracker \<times> go_error option" where
  "ns_create x \<equiv> kobj_create x (Namespace (KMeta x))"

abbreviation ns_pod_create :: "Pod \<Rightarrow> Pod tracker \<Rightarrow> Pod tracker \<times> go_error option" where
  "ns_pod_create p \<equiv> pod_create p (pod_ns p)"

definition sync_clientset :: "string set \<Rightarrow> remote \<Rightarrow> clientset \<Rightarrow> clientset \<times> go_error option" where
  "sync_clientset exclude r = run_steps
     [copy_kind ''unable to list ns'' ''unable to copy ns'' root_create (\<lambda>_. True)
        cs_namespaces (\<lambda>t cs. cs\<lparr>cs_namespaces := t\<rparr>) (r_namespaces r),
      copy_kind ''unable to list pods'' ''unable to copy pod'' ns_pod_create keep_pod
        cs_pods (\<lambda>t cs. cs\<lparr>cs_pods := t\<rparr>) (r_pods r),
      copy_kind ''unable to list nodes'' ''unable to copy node'' root_create
        (\<lambda>n. Name (KMeta n) \<notin> exclude)
        cs_nodes (\<lambda>t cs. cs\<lparr>cs_nodes := t\<rparr>) (r_nodes r),
      copy_kind ''unable to list services'' ''unable to copy service'' ns_create (\<lambda>_. True)
        cs_services (\<lambda>t cs. cs\<lparr>cs_services := t\<rparr>) (r_services r),
      copy_kind ''unable to list pvcs'' ''unable to copy pvc'' ns_create (\<lambda>_. True)
        cs_pvcs (\<lambda>t cs. cs\<lparr>cs_pvcs := t\<rparr>) (r_pvcs r),
      copy_kind ''unable to list RCs'' ''unable to copy RC'' ns_create (\<lambda>_. True)
        cs_rcs (\<lambda>t cs. cs\<lparr>cs_rcs := t\<rparr>) (r_rcs r),
      copy_kind ''unable to list PDBs'' ''unable to copy PDB'' ns_create (\<lambda>_. True)
        cs_pdbs (\<lambda>t cs. cs\<lparr>cs_pdbs := t\<rparr>) (r_pdbs r),
      copy_kind ''unable to list replicas sets'' ''unable to copy replica set'' ns_create (\<lambda>_. True)
        cs_replicaSets (\<lambda>t cs. cs\<lparr>cs_replicaSets := t\<rparr>) (r_replicaSets r),
      copy_kind ''unable to list stateful sets'' ''unable to copy stateful set'' ns_create (\<lambda>_. True)
        cs_statefulSets (\<lambda>t cs. cs\<lparr>cs_statefulSets := t\<rparr>) (r_statefulSets r),
      copy_kind ''unable to list storage classes'' ''unable to copy storage class'' root_create (\<lambda>_. True)
        cs_storageClasses (\<lambda>t cs. cs\<lparr>cs_storageClasses := t\<rparr>) (r_storageClasses r)]"

definition SyncWithClient :: "remote \<Rightarrow> ClusterCapacity \<Rightarrow> ClusterCapacity \<times> go_error option" where
  "SyncWithClient r c =
     (case sync_clientset (excludeNodes c) r (client c) of (cs, err) \<Rightarrow> (c\<lparr>client := cs\<rparr>, err))"

section \<open>One kind\<close>

lemma run_steps_Cons:
  "run_steps (f # fs) s = (if snd (f s) = None then run_steps fs (fst (f s)) else f s)"
  by (simp split: prod.splits option.splits)

lemma copy_kind_frame:
  assumes "\<And>t cs. get' (put t cs) = get' cs"
  shows "get' (fst (copy_kind lm cm create keep get put items cs)) = get' cs"
  by (simp add: copy_kind_def assms split: sum.splits prod.splits)

lemma create_all_cong:
  "(\<And>x. x \<in> set xs \<Longrightarrow> f x = g x) \<Longrightarrow> create_all f xs s = create_all g xs s"
  by (induction xs arbitrary: s) (auto split: prod.splits option.splits)

text \<open>Objects of a kind without namespaces carry the empty one: both kinds of create agree.\<close>

definition cluster_scoped :: "go_error + KObject list \<Rightarrow> bool" where
  "cluster_scoped items \<longleftrightarrow> (\<forall>xs. items = Inr xs \<longrightarrow> list_all (\<lambda>x. Namespace (KMeta x) = []) xs)"

lemma copy_kind_root:
  "cluster_scoped items \<Longrightarrow>
    copy_kind lm cm root_create keep get put items = copy_kind lm cm ns_create keep get put items"
  by (cases items)
    (auto simp: copy_kind_def cluster_scoped_def list_all_iff fun_eq_iff
      intro!: arg_cong2 [where f = case_prod] create_all_cong)

text \<open>What a successful copy of a kind needs and does, from the contract of the store.\<close>

definition copyable :: "('o \<Rightarrow> 'k) \<Rightarrow> ('o \<Rightarrow> bool) \<Rightarrow> go_error + 'o list \<Rightarrow> bool" where
  "copyable key keep items \<longleftrightarrow>
     (\<exists>xs. items = Inr xs \<and> distinct (map key (filter keep xs)))"

definition copied :: "('o \<Rightarrow> 'k) \<Rightarrow> ('o \<Rightarrow> bool) \<Rightarrow> go_error + 'o list \<Rightarrow> 'k \<rightharpoonup> 'o" where
  "copied key keep items =
     (case items of Inl _ \<Rightarrow> Map.empty | Inr xs \<Rightarrow> map_of (map (\<lambda>x. (key x, x)) (filter keep xs)))"

context object_store
begin

lemma copy_kind_ok_iff:
  assumes "\<And>k. lookup (get cs) k = None"
  shows "snd (copy_kind lm cm create keep get put items cs) = None \<longleftrightarrow> copyable key keep items"
  using assms create_all_ok_iff [of "filter keep xs" "get cs" for xs]
  by (cases items) (simp_all add: copy_kind_def copyable_def case_prod_beta)

lemma copy_kind_lookup:
  assumes "snd (copy_kind lm cm create keep get put items cs) = None"
    and "\<And>k. lookup (get cs) k = None"
    and "\<And>t cs. get (put t cs) = t"
  shows "lookup (get (fst (copy_kind lm cm create keep get put items cs))) = copied key keep items"
proof -
  obtain xs where xs: "items = Inr xs" "snd (create_all create (filter keep xs) (get cs)) = None"
    using assms(1) by (auto simp: copy_kind_def split: sum.splits prod.splits)
  have "lookup (get cs) = Map.empty" using assms(2) by blast
  with create_all_lookup [OF xs(2)] xs(1) show ?thesis
    by (auto simp: copy_kind_def copied_def assms(3) split: prod.splits)
qed

end

section \<open>The whole snapshot\<close>

text \<open>What the copy needs: every list arrives, and no two kept objects of a kind share a key.\<close>

abbreviation kobj_key :: "KObject \<Rightarrow> string \<times> string" where
  "kobj_key \<equiv> object_key KMeta"

abbreviation pod_key :: "Pod \<Rightarrow> string \<times> string" where
  "pod_key \<equiv> object_key Meta"

definition scoped :: "remote \<Rightarrow> bool" where
  "scoped r \<longleftrightarrow> cluster_scoped (r_namespaces r) \<and> cluster_scoped (r_nodes r) \<and>
     cluster_scoped (r_storageClasses r)"

definition copyable_snapshot :: "string set \<Rightarrow> remote \<Rightarrow> bool" where
  "copyable_snapshot exclude r \<longleftrightarrow>
     copyable kobj_key (\<lambda>_. True) (r_namespaces r) \<and>
     copyable pod_key keep_pod (r_pods r) \<and>
     copyable kobj_key (\<lambda>n. Name (KMeta n) \<notin> exclude) (r_nodes r) \<and>
     copyable kobj_key (\<lambda>_. True) (r_services r) \<and>
     copyable kobj_key (\<lambda>_. True) (r_pvcs r) \<and>
     copyable kobj_key (\<lambda>_. True) (r_rcs r) \<and>
     copyable kobj_key (\<lambda>_. True) (r_pdbs r) \<and>
     copyable kobj_key (\<lambda>_. True) (r_replicaSets r) \<and>
     copyable kobj_key (\<lambda>_. True) (r_statefulSets r) \<and>
     copyable kobj_key (\<lambda>_. True) (r_storageClasses r)"

lemmas copy_frames =
  copy_kind_frame [where get' = cs_namespaces]
  copy_kind_frame [where get' = cs_pods]
  copy_kind_frame [where get' = cs_nodes]
  copy_kind_frame [where get' = cs_services]
  copy_kind_frame [where get' = cs_pvcs]
  copy_kind_frame [where get' = cs_rcs]
  copy_kind_frame [where get' = cs_pdbs]
  copy_kind_frame [where get' = cs_replicaSets]
  copy_kind_frame [where get' = cs_statefulSets]
  copy_kind_frame [where get' = cs_storageClasses]

lemma run_steps_ok_iff:
  "snd (run_steps [] s) = None"
  "snd (run_steps (f # fs) s) = None \<longleftrightarrow> snd (f s) = None \<and> snd (run_steps fs (fst (f s))) = None"
  by (auto simp: run_steps_Cons simp del: run_steps.simps(2))

lemma run_steps_fst:
  "fst (run_steps [] s) = s"
  "snd (f s) = None \<Longrightarrow> fst (run_steps (f # fs) s) = fst (run_steps fs (fst (f s)))"
  by (auto simp: run_steps_Cons simp del: run_steps.simps(2))

lemma lookup_fresh [simp]: "tracker_lookup empty_tracker k = None"
  by (simp add: tracker_lookup_def empty_tracker_def)

lemma sync_ok_iff:
  assumes "scoped r"
  shows "snd (sync_clientset exclude r NewSimpleClientset) = None \<longleftrightarrow> copyable_snapshot exclude r"
  using assms
  by (simp add: sync_clientset_def scoped_def copy_kind_root run_steps_ok_iff copyable_snapshot_def
      pod_store.copy_kind_ok_iff kobj_store.copy_kind_ok_iff copy_frames NewSimpleClientset_def
      del: run_steps.simps)

lemma sync_lookup:
  assumes "scoped r" "snd (sync_clientset exclude r NewSimpleClientset) = None"
  defines "cs \<equiv> fst (sync_clientset exclude r NewSimpleClientset)"
  shows "tracker_lookup (cs_pods cs) = copied pod_key keep_pod (r_pods r)"
    and "tracker_lookup (cs_nodes cs) = copied kobj_key (\<lambda>n. Name (KMeta n) \<notin> exclude) (r_nodes r)"
proof -
  have ok: "copyable_snapshot exclude r"
    using assms(1,2) sync_ok_iff by blast
  show "tracker_lookup (cs_pods cs) = copied pod_key keep_pod (r_pods r)"
    using assms(1) ok
    by (simp add: cs_def sync_clientset_def scoped_def copy_kind_root run_steps_fst copyable_snapshot_def
      pod_store.copy_kind_ok_iff kobj_store.copy_kind_ok_iff pod_store.copy_kind_lookup
      copy_frames NewSimpleClientset_def del: run_steps.simps)
  show "tracker_lookup (cs_nodes cs) = copied kobj_key (\<lambda>n. Name (KMeta n) \<notin> exclude) (r_nodes r)"
    using assms(1) ok
    by (simp add: cs_def sync_clientset_def scoped_def copy_kind_root run_steps_fst copyable_snapshot_def
      pod_store.copy_kind_ok_iff kobj_store.copy_kind_ok_iff kobj_store.copy_kind_lookup
      copy_frames NewSimpleClientset_def del: run_steps.simps)
qed

section \<open>The outcome of the copy\<close>

text \<open>A cluster of two nodes, for examples.\<close>

definition small_pod :: "string \<Rightarrow> string \<Rightarrow> string \<Rightarrow> Pod" where
  "small_pod name sched node =
     \<lparr>Meta = \<lparr>Name = name, Namespace = ''default'', UID = [], Annotations = None\<rparr>,
      Spec = \<lparr>NodeName = node, SchedulerName = sched, NodeSelector = None,
        Containers = [\<lparr>ContainerName = ''c'', Image = ''img'', ImagePullPolicy = ''Always'', Limits = [],
          Requests = [(''cpu'', NewMilliQuantity 150 ''DecimalSI'')]\<rparr>],
        RestartPolicy = ''Always'', DNSPolicy = ''Default''\<rparr>,
      PStatus = \<lparr>Phase = ''Pending'', Conditions = []\<rparr>\<rparr>"

definition small_node :: "string \<Rightarrow> KObject" where
  "small_node name =
     \<lparr>KMeta = \<lparr>Name = name, Namespace = [], UID = [], Annotations = None\<rparr>, KRest = []\<rparr>"

definition small_remote :: "Pod list \<Rightarrow> remote" where
  "small_remote pods =
     \<lparr>r_namespaces = Inr [small_node ''default''], r_pods = Inr pods,
      r_nodes = Inr [small_node ''n1'', small_node ''n2''], r_services = Inr [], r_pvcs = Inr [],
      r_rcs = Inr [], r_pdbs = Inr [], r_replicaSets = Inr [], r_statefulSets = Inr [],
      r_storageClasses = Inr []\<rparr>"

lemma small_remote_scoped: "scoped (small_remote pods)"
  by (simp add: scoped_def cluster_scoped_def small_remote_def small_node_def)

text \<open>C16: \<open>SyncWithClient\<close> on a new analysis succeeds exactly when every list request succeeds and
  no kept object occurs twice; then the simulated cluster has exactly the pods that are
  neither succeeded nor failed and exactly the nodes that are not excluded.\<close>

theorem sync_outcome:
  assumes "New None t m exclude = Inr c" and "scoped r"
  shows "(snd (SyncWithClient r c) = None \<longleftrightarrow> copyable_snapshot (set exclude) r) \<and>
    (snd (SyncWithClient r c) = None \<longrightarrow>
       tracker_lookup (cs_pods (client (fst (SyncWithClient r c)))) = copied pod_key keep_pod (r_pods r) \<and>
       tracker_lookup (cs_nodes (client (fst (SyncWithClient r c)))) =
         copied kobj_key (\<lambda>n. Name (KMeta n) \<notin> set exclude) (r_nodes r))"
proof -
  have c: "excludeNodes c = set exclude" "client c = NewSimpleClientset"
    using assms(1) by (auto simp: New_def)
  show ?thesis
    using sync_ok_iff [OF assms(2), of "set exclude"] sync_lookup [OF assms(2), of "set exclude"]
    by (simp add: SyncWithClient_def c case_prod_unfold)
qed

theorem sync_outcome_witness:
  "let c = projr (New None (small_pod ''p'' [] []) 0 [''n2'']) in
     copyable_snapshot (set [''n2'']) (small_remote []) \<and>
     tracker_lookup (cs_pods (client (fst (SyncWithClient (small_remote []) c)))) =
       copied pod_key keep_pod (r_pods (small_remote [])) \<and>
     tracker_lookup (cs_nodes (client (fst (SyncWithClient (small_remote []) c)))) =
       copied kobj_key (\<lambda>n. Name (KMeta n) \<notin> set [''n2'']) (r_nodes (small_remote []))"
proof -
  let ?c = "projr (New None (small_pod ''p'' [] []) 0 [''n2''])"
  have "New None (small_pod ''p'' [] []) 0 [''n2''] = Inr ?c" "scoped (small_remote [])"
    by (simp_all add: New_def small_remote_scoped)
  note outcome = sync_outcome [OF this]
  have "snd (SyncWithClient (small_remote []) ?c) = None"
    by code_simp
  with outcome show ?thesis
    by (simp add: Let_def)
qed

end
