(* ===== verification/Watcher.thy ===== *)
theory Watcher
  imports Sync
begin

text \<open>
  The channel of a watch (\<open>RaceFreeFakeWatcher\<close> of \<open>apimachinery/pkg/watch/watch.go\<close>): the simulated API server
  sends an event for every write, an informer receives them, and a write panics when the buffer is full. \<open>New\<close> of
  \<open>simulator.go\<close> sets the size of the buffers to 10000. \<open>Tracker\<close> keeps the events without a bound; this theory adds the bound
  to the copying of the cluster, \<open>Watch_Run\<close> to the analysis.
\<close>

section \<open>The watcher\<close>

definition DefaultChanSize :: nat where
  "DefaultChanSize = 10000"

record 'a watcher =
  result :: "'a watch_event list"
  watcher_stopped :: bool

definition NewRaceFreeFake :: "'a watcher" where
  "NewRaceFreeFake = \<lparr>result = [], watcher_stopped = False\<rparr>"

definition watcher_send :: "'a watch_event \<Rightarrow> 'a watcher \<Rightarrow> panic + 'a watcher" where
  "watcher_send e w =
     (if watcher_stopped w then Inr w
      else if length (result w) < DefaultChanSize then Inr (w\<lparr>result := result w @ [e]\<rparr>)
      else Inl Channel_full)"

definition watcher_receive :: "'a watcher \<Rightarrow> ('a watch_event \<times> 'a watcher) option" where
  "watcher_receive w = (case result w of [] \<Rightarrow> None | e # es \<Rightarrow> Some (e, w\<lparr>result := es\<rparr>))"

text \<open>An interleaving of writes and reads: \<open>Some e\<close> writes \<open>e\<close>, \<open>None\<close> reads if there is something to read.\<close>

fun watcher_run :: "'a watch_event option list \<Rightarrow> 'a watcher \<Rightarrow> panic + 'a watcher" where
  "watcher_run [] w = Inr w"
| "watcher_run (None # ops) w = watcher_run ops (case watcher_receive w of None \<Rightarrow> w | Some (e, w) \<Rightarrow> w)"
| "watcher_run (Some e # ops) w = (case watcher_send e w of Inl p \<Rightarrow> Inl p | Inr w \<Rightarrow> watcher_run ops w)"

definition writes :: "'a watch_event option list \<Rightarrow> nat" where
  "writes ops = count_if (\<lambda>x. x \<noteq> None) ops"

lemma watcher_run_enough:
  "\<not> watcher_stopped w \<Longrightarrow> length (result w) + writes ops \<le> DefaultChanSize \<Longrightarrow> \<exists>w'. watcher_run ops w = Inr w'"
proof (induction ops arbitrary: w)
  case (Cons x ops)
  show ?case
  proof (cases x)
    case None
    with Cons show ?thesis
      by (auto simp: watcher_receive_def writes_def split: list.split)
  next
    case (Some e)
    with Cons show ?thesis
      by (auto simp: watcher_send_def writes_def)
  qed
qed (simp add: writes_def)

lemma watcher_run_full:
  "\<not> watcher_stopped w \<Longrightarrow> DefaultChanSize < length (result w) + length es \<Longrightarrow> length (result w) \<le> DefaultChanSize \<Longrightarrow>
     watcher_run (map Some es) w = Inl Channel_full"
proof (induction es arbitrary: w)
  case (Cons e es)
  then show ?case
    by (cases "length (result w) < DefaultChanSize") (auto simp: watcher_send_def)
qed simp

definition written :: "'a watch_event option list \<Rightarrow> 'a watch_event list" where
  "written ops = map the (filter (\<lambda>x. x \<noteq> None) ops)"

lemma writes_written: "writes ops = length (written ops)"
  by (simp add: writes_def written_def count_if_def)

section \<open>Copying under watch\<close>

text \<open>
  The informers start in \<open>New\<close> and read while \<open>SyncWithClient\<close> writes. For a kind that is watched, \<open>reads i\<close> is
  the number of events its informer takes before the event \<open>i\<close> is written; \<open>None\<close> is a kind that nobody watches.
\<close>

definition copy_ops :: "(nat \<Rightarrow> nat) \<Rightarrow> 'a watch_event list \<Rightarrow> 'a watch_event option list" where
  "copy_ops reads es = concat (map (\<lambda>(i, e). replicate (reads i) None @ [Some e]) (enumerate 0 es))"

definition watched_copy :: "(nat \<Rightarrow> nat) option \<Rightarrow> 'a tracker \<Rightarrow> panic option" where
  "watched_copy informer t =
     (case informer of None \<Rightarrow> None
      | Some reads \<Rightarrow> (case watcher_run (copy_ops reads (watches t)) NewRaceFreeFake of
          Inl p \<Rightarrow> Some p | Inr _ \<Rightarrow> None))"

definition copy_panics :: "(string \<Rightarrow> (nat \<Rightarrow> nat) option) \<Rightarrow> clientset \<Rightarrow> panic option list" where
  "copy_panics informers cs =
     [watched_copy (informers ''namespaces'') (cs_namespaces cs), watched_copy (informers ''pods'') (cs_pods cs),
      watched_copy (informers ''nodes'') (cs_nodes cs), watched_copy (informers ''services'') (cs_services cs),
      watched_copy (informers ''persistentvolumeclaims'') (cs_pvcs cs),
      watched_copy (informers ''replicationcontrollers'') (cs_rcs cs),
      watched_copy (informers ''poddisruptionbudgets'') (cs_pdbs cs),
      watched_copy (informers ''replicasets'') (cs_replicaSets cs),
      watched_copy (informers ''statefulsets'') (cs_statefulSets cs),
      watched_copy (informers ''storageclasses'') (cs_storageClasses cs)]"

text \<open>\<open>SyncWithClient\<close> on a new analysis: the process panics at the first event that finds its buffer full.\<close>

definition SyncWithClient_watched ::
  "(string \<Rightarrow> (nat \<Rightarrow> nat) option) \<Rightarrow> remote \<Rightarrow> ClusterCapacity \<Rightarrow> panic + ClusterCapacity \<times> go_error option" where
  "SyncWithClient_watched informers r c =
     (case SyncWithClient r c of (c', err) \<Rightarrow>
        (case filter (\<lambda>x. x \<noteq> None) (copy_panics informers (client c')) of
           Some p # _ \<Rightarrow> Inl p
         | _ \<Rightarrow> Inr (c', err)))"

text \<open>The number of events of a kind is at most that of the objects to copy.\<close>

lemma write_events: "length (watches (fst (client_write meta set_meta replace x ns t))) \<le> Suc (length (watches t))"
  by (simp add: client_write_def tracker_add_def Let_def split: sum.splits)

lemma create_all_events:
  "(\<And>x t. length (watches (fst (create x t))) \<le> Suc (length (watches t))) \<Longrightarrow>
     length (watches (fst (create_all create xs t))) \<le> length (watches t) + length xs"
proof (induction xs arbitrary: t)
  case (Cons x xs)
  have "length (watches (fst (create x t))) \<le> Suc (length (watches t))"
    by (rule Cons.prems)
  moreover have "length (watches (fst (create_all create xs (fst (create x t))))) \<le>
      length (watches (fst (create x t))) + length xs"
    by (rule Cons.IH [OF Cons.prems])
  ultimately show ?case
    by (auto split: prod.split option.split)
qed simp

definition to_copy :: "('o \<Rightarrow> bool) \<Rightarrow> go_error + 'o list \<Rightarrow> nat" where
  "to_copy keep items = (case items of Inl _ \<Rightarrow> 0 | Inr xs \<Rightarrow> length (filter keep xs))"

lemma copy_kind_events:
  assumes "\<And>x t. length (watches (fst (create x t))) \<le> Suc (length (watches t))" and "\<And>t cs. get (put t cs) = t"
  shows "length (watches (get (fst (copy_kind lm cm create keep get put items cs)))) \<le>
    length (watches (get cs)) + to_copy keep items"
  using create_all_events [of create, OF assms(1)]
  by (auto simp: copy_kind_def to_copy_def assms(2) split: sum.split prod.split) (metis fst_conv)

lemma run_steps_grow:
  fixes g :: "'s \<Rightarrow> nat"
  shows "list_all2 (\<lambda>f k. \<forall>s. g (fst (f s)) \<le> g s + k) fs ks \<Longrightarrow> g (fst (run_steps fs s)) \<le> g s + sum_list ks"
proof (induction fs ks arbitrary: s rule: list_all2_induct)
  case (Cons f fs k ks)
  have "g (fst (f s)) \<le> g s + k"
    using Cons.hyps by blast
  with Cons.IH [of "fst (f s)"] show ?case
    by (simp add: run_steps_Cons del: run_steps.simps(2))
qed simp

definition copy_sizes :: "string set \<Rightarrow> remote \<Rightarrow> nat list" where
  "copy_sizes exclude r =
     [to_copy (\<lambda>_. True) (r_namespaces r), to_copy keep_pod (r_pods r), to_copy (\<lambda>n. Name (KMeta n) \<notin> exclude) (r_nodes r),
      to_copy (\<lambda>_. True) (r_services r), to_copy (\<lambda>_. True) (r_pvcs r), to_copy (\<lambda>_. True) (r_rcs r),
      to_copy (\<lambda>_. True) (r_pdbs r), to_copy (\<lambda>_. True) (r_replicaSets r), to_copy (\<lambda>_. True) (r_statefulSets r),
      to_copy (\<lambda>_. True) (r_storageClasses r)]"

definition event_counts :: "clientset \<Rightarrow> nat list" where
  "event_counts cs =
     [length (watches (cs_namespaces cs)), length (watches (cs_pods cs)), length (watches (cs_nodes cs)),
      length (watches (cs_services cs)), length (watches (cs_pvcs cs)), length (watches (cs_rcs cs)),
      length (watches (cs_pdbs cs)), length (watches (cs_replicaSets cs)), length (watches (cs_statefulSets cs)),
      length (watches (cs_storageClasses cs))]"

lemmas grows = run_steps_grow [where g = "\<lambda>cs. length (watches (get cs))" for get]

lemma copy_events:
  fixes exclude :: "string set" and r :: remote and cs :: clientset
  defines "cs' \<equiv> fst (sync_clientset exclude r cs)"
  shows "length (watches (cs_namespaces cs')) \<le> length (watches (cs_namespaces cs)) + sum_list [to_copy (\<lambda>_. True) (r_namespaces r), 0, 0, 0, 0, 0, 0, 0, 0, 0]"
    and "length (watches (cs_pods cs')) \<le> length (watches (cs_pods cs)) + sum_list [0, to_copy keep_pod (r_pods r), 0, 0, 0, 0, 0, 0, 0, 0]"
    and "length (watches (cs_nodes cs')) \<le> length (watches (cs_nodes cs)) + sum_list [0, 0, to_copy (\<lambda>n. Name (KMeta n) \<notin> exclude) (r_nodes r), 0, 0, 0, 0, 0, 0, 0]"
    and "length (watches (cs_services cs')) \<le> length (watches (cs_services cs)) + sum_list [0, 0, 0, to_copy (\<lambda>_. True) (r_services r), 0, 0, 0, 0, 0, 0]"
    and "length (watches (cs_pvcs cs')) \<le> length (watches (cs_pvcs cs)) + sum_list [0, 0, 0, 0, to_copy (\<lambda>_. True) (r_pvcs r), 0, 0, 0, 0, 0]"
    and "length (watches (cs_rcs cs')) \<le> length (watches (cs_rcs cs)) + sum_list [0, 0, 0, 0, 0, to_copy (\<lambda>_. True) (r_rcs r), 0, 0, 0, 0]"
    and "length (watches (cs_pdbs cs')) \<le> length (watches (cs_pdbs cs)) + sum_list [0, 0, 0, 0, 0, 0, to_copy (\<lambda>_. True) (r_pdbs r), 0, 0, 0]"
    and "length (watches (cs_replicaSets cs')) \<le> length (watches (cs_replicaSets cs)) + sum_list [0, 0, 0, 0, 0, 0, 0, to_copy (\<lambda>_. True) (r_replicaSets r), 0, 0]"
    and "length (watches (cs_statefulSets cs')) \<le> length (watches (cs_statefulSets cs)) + sum_list [0, 0, 0, 0, 0, 0, 0, 0, to_copy (\<lambda>_. True) (r_statefulSets r), 0]"
    and "length (watches (cs_storageClasses cs')) \<le> length (watches (cs_storageClasses cs)) + sum_list [0, 0, 0, 0, 0, 0, 0, 0, 0, to_copy (\<lambda>_. True) (r_storageClasses r)]"
  unfolding cs'_def sync_clientset_def
  subgoal by (rule grows [where get = cs_namespaces]) (simp add: copy_frames copy_kind_events write_events)
  subgoal by (rule grows [where get = cs_pods]) (simp add: copy_frames copy_kind_events write_events)
  subgoal by (rule grows [where get = cs_nodes]) (simp add: copy_frames copy_kind_events write_events)
  subgoal by (rule grows [where get = cs_services]) (simp add: copy_frames copy_kind_events write_events)
  subgoal by (rule grows [where get = cs_pvcs]) (simp add: copy_frames copy_kind_events write_events)
  subgoal by (rule grows [where get = cs_rcs]) (simp add: copy_frames copy_kind_events write_events)
  subgoal by (rule grows [where get = cs_pdbs]) (simp add: copy_frames copy_kind_events write_events)
  subgoal by (rule grows [where get = cs_replicaSets]) (simp add: copy_frames copy_kind_events write_events)
  subgoal by (rule grows [where get = cs_statefulSets]) (simp add: copy_frames copy_kind_events write_events)
  subgoal by (rule grows [where get = cs_storageClasses]) (simp add: copy_frames copy_kind_events write_events)
  done

lemma writes_copy: "writes (copy_ops reads es) = length es"
proof -
  have "writes (concat (map (\<lambda>(i, e). replicate (reads i) None @ [Some e]) xs)) = length xs" for xs :: "(nat \<times> 'a watch_event) list"
  proof (induction xs)
    case (Cons x xs)
    then show ?case
      by (cases x) (simp add: writes_def count_if_def)
  qed (simp add: writes_def)
  then show ?thesis
    by (simp add: copy_ops_def)
qed

lemma watched_copy_fits: "length (watches t) \<le> DefaultChanSize \<Longrightarrow> watched_copy informer t = None"
proof -
  assume "length (watches t) \<le> DefaultChanSize"
  then have "\<exists>w'. watcher_run (copy_ops reads (watches t)) NewRaceFreeFake = Inr w'" for reads
    by (intro watcher_run_enough) (simp_all add: writes_copy NewRaceFreeFake_def)
  then show ?thesis
    by (auto simp: watched_copy_def split: option.split sum.split) (metis Inl_Inr_False)
qed

lemma watcher_run_panic: "watcher_run ops w = Inl p \<Longrightarrow> p = Channel_full"
proof (induction ops w rule: watcher_run.induct)
  case (3 e ops w)
  then show ?case
    by (auto simp: watcher_send_def split: if_splits)
qed (auto split: option.splits)

lemma watched_copy_panic: "watched_copy informer t = Some p \<Longrightarrow> p = Channel_full"
  by (auto simp: watched_copy_def split: option.splits sum.splits dest: watcher_run_panic)

lemma copy_panic:
  assumes "SyncWithClient_watched informers r c = Inl p"
  shows "p = Channel_full"
proof -
  obtain rest where "filter (\<lambda>x. x \<noteq> None) (copy_panics informers (client (fst (SyncWithClient r c)))) = Some p # rest"
    using assms by (auto simp: SyncWithClient_watched_def split: prod.splits list.splits option.splits)
  then have "Some p \<in> set (copy_panics informers (client (fst (SyncWithClient r c))))"
    by (metis filter_eq_ConsD in_set_conv_decomp)
  then show ?thesis
    by (auto simp: copy_panics_def dest: sym watched_copy_panic)
qed

lemma copy_result: "SyncWithClient_watched informers r c = Inr x \<Longrightarrow> SyncWithClient r c = x"
  by (auto simp: SyncWithClient_watched_def split: prod.splits list.splits option.splits)

text \<open>When no kind has more objects to copy than a buffer holds, copying does not panic, however slow the informers are.\<close>

lemma copy_fits:
  assumes "client c = NewSimpleClientset" and "list_all (\<lambda>n. n \<le> DefaultChanSize) (copy_sizes (excludeNodes c) r)"
  shows "SyncWithClient_watched informers r c = Inr (SyncWithClient r c)"
proof -
  let ?cs = "fst (sync_clientset (excludeNodes c) r NewSimpleClientset)"
  have "client (fst (SyncWithClient r c)) = ?cs"
    using assms(1) by (simp add: SyncWithClient_def split: prod.split)
  moreover have "filter (\<lambda>x. x \<noteq> None) (copy_panics informers ?cs) = []"
    using copy_events [of "excludeNodes c" r NewSimpleClientset] assms(2)
    by (simp add: copy_panics_def copy_sizes_def watched_copy_fits NewSimpleClientset_def empty_tracker_def)
  ultimately show ?thesis
    by (cases "SyncWithClient r c") (simp add: SyncWithClient_watched_def)
qed

end
