(* ===== verification/Quantity_Text.thy ===== *)
theory Quantity_Text
  imports Quantity Go_Strings
begin

text \<open>
  Quantities as text: the canonical form \<open>String\<close> prints (\<open>CanonicalizeBytes\<close> of \<open>quantity.go\<close>
  with the methods of \<open>amount.go\<close>) and the tables of suffixes (\<open>suffix.go\<close>). \<open>canonical_value\<close>:
  what is printed denotes the quantity. An exponent is an \<open>int32\<close> in Go; the scales of quantities
  are small and the model does not wrap them here. The copy of the text that a parsed quantity
  caches is left out: \<open>Add\<close> clears it.
\<close>

section \<open>Removing factors of the base\<close>

text \<open>The loops of \<open>removeInt64Factors\<close> and \<open>removeBigIntFactors\<close>; the base is 10 or 1024.\<close>

function remove_loop :: "int \<Rightarrow> int \<Rightarrow> int \<Rightarrow> int \<times> int" where
  "remove_loop base r k =
     (if 1 < base \<and> base \<le> r \<and> r mod base = 0 then remove_loop base (r div base) (k + 1) else (r, k))"
  by pat_completeness auto
termination
proof (relation "measure (\<lambda>(base, r, k). nat r)")
  fix base r k :: int
  assume *: "1 < base \<and> base \<le> r \<and> r mod base = 0"
  then have "r div base < r" "0 \<le> r div base"
    by (simp_all add: int_div_less_self pos_imp_zdiv_nonneg_iff)
  with * show "((base, r div base, k + 1), base, r, k) \<in> measure (\<lambda>(base, r, k). nat r)"
    by simp
qed simp

declare remove_loop.simps [simp del]

definition removeInt64Factors :: "int \<Rightarrow> int \<Rightarrow> int \<times> int" where
  "removeInt64Factors value base =
     (let negative = (value < 0);
          (result, k) = remove_loop base (if negative then wrap64 (- value) else value) 0
      in (if negative then wrap64 (- result) else result, k))"

function remove_big_loop :: "int \<Rightarrow> int \<Rightarrow> int \<Rightarrow> int \<times> int" where
  "remove_big_loop factor d k =
     (if 1 < factor \<and> d \<noteq> 0 \<and> d mod factor = 0 then remove_big_loop factor (d div factor) (k + 1)
      else (d, k))"
  by pat_completeness auto
termination
proof (relation "measure (\<lambda>(factor, d, k). nat \<bar>d\<bar>)")
  fix factor d k :: int
  assume *: "1 < factor \<and> d \<noteq> 0 \<and> d mod factor = 0"
  then obtain e where e: "d = factor * e"
    by (auto simp: mod_eq_0_iff_dvd)
  with * have "e \<noteq> 0" "d div factor = e"
    by auto
  moreover have "\<bar>e\<bar> * 1 < \<bar>e\<bar> * factor"
    using * \<open>e \<noteq> 0\<close> by (intro mult_strict_left_mono) simp_all
  ultimately show "((factor, d div factor, k + 1), factor, d, k) \<in> measure (\<lambda>(factor, d, k). nat \<bar>d\<bar>)"
    using * e by (simp add: abs_mult mult.commute)
qed simp

declare remove_big_loop.simps [simp del]

definition removeBigIntFactors :: "int \<Rightarrow> int \<Rightarrow> int \<times> int" where
  "removeBigIntFactors d factor = remove_big_loop factor d 0"

section \<open>Canonical numbers\<close>

text \<open>\<open>Round\<close> of \<open>inf.Dec\<close> with the rounder \<open>RoundUp\<close>, away from zero.\<close>

definition Dec_RoundUp :: "Dec \<Rightarrow> int \<Rightarrow> Dec" where
  "Dec_RoundUp x s =
     (let shift = s - dscale x;
          ix = (if 0 < shift then unscaled x * 10 ^ nat shift else unscaled x);
          iy = (if shift < 0 then 10 ^ nat (- shift) else 1);
          r = ix smod iy
      in \<lparr>unscaled = ix sdiv iy + sgn r, dscale = s\<rparr>)"

definition int64Amount_AsScale :: "int64Amount \<Rightarrow> int \<Rightarrow> int64Amount \<times> bool" where
  "int64Amount_AsScale a scale =
     (if scale \<le> iscale a then (a, True)
      else (let (result, exact) = negativeScaleInt64 (ivalue a) (scale - iscale a)
            in (\<lparr>ivalue = result, iscale = scale\<rparr>, exact)))"

definition Dec_AsScale :: "Dec \<Rightarrow> int \<Rightarrow> Dec \<times> bool" where
  "Dec_AsScale a scale = (let tmp = Dec_RoundUp a (- scale) in (tmp, Dec_Cmp tmp a = 0))"

definition Quantity_AsScale :: "Quantity \<Rightarrow> int \<Rightarrow> (int64Amount + Dec) \<times> bool" where
  "Quantity_AsScale q scale =
     (case qd q of Some d \<Rightarrow> apfst Inr (Dec_AsScale d scale) | None \<Rightarrow> apfst Inl (int64Amount_AsScale (qi q) scale))"

function lower_exponent :: "int \<Rightarrow> int \<Rightarrow> int \<times> int" where
  "lower_exponent amount exponent =
     (if exponent smod 3 \<noteq> 0 then lower_exponent (amount * 10) (exponent - 1) else (amount, exponent))"
  by pat_completeness auto
termination
proof (relation "measure (\<lambda>(amount, exponent). nat (exponent mod 3))")
  fix amount exponent :: int
  assume "exponent smod 3 \<noteq> 0"
  then have "exponent mod 3 \<noteq> 0"
    by (simp add: smod_eq_0_iff mod_eq_0_iff_dvd)
  then have "(exponent - 1) mod 3 < exponent mod 3"
    by presburger
  then show "((amount * 10, exponent - 1), amount, exponent) \<in> measure (\<lambda>(amount, exponent). nat (exponent mod 3))"
    by simp
qed simp

declare lower_exponent.simps [simp del]

definition Dec_AsCanonical :: "Dec \<Rightarrow> int \<times> int" where
  "Dec_AsCanonical a =
     (let (amount, k) = removeBigIntFactors (unscaled a) 10
      in lower_exponent amount (- dscale a + k))"

definition int64Amount_AsCanonical :: "int64Amount \<Rightarrow> int \<times> int" where
  "int64Amount_AsCanonical a =
     (let (amount, k) = removeInt64Factors (ivalue a) 10; exponent = iscale a + k in
      if exponent smod 3 = 1 \<or> exponent smod 3 = - 2 then
        (case int64MultiplyScale10 amount of (amount, ok) \<Rightarrow>
           if ok then (amount, exponent - 1) else Dec_AsCanonical (int64Amount_AsDec a))
      else if exponent smod 3 = 2 \<or> exponent smod 3 = - 1 then
        (case int64MultiplyScale100 amount of (amount, ok) \<Rightarrow>
           if ok then (amount, exponent - 2) else Dec_AsCanonical (int64Amount_AsDec a))
      else (amount, exponent))"

definition Quantity_AsCanonical :: "Quantity \<Rightarrow> int \<times> int" where
  "Quantity_AsCanonical q =
     (case qd q of Some d \<Rightarrow> Dec_AsCanonical d | None \<Rightarrow> int64Amount_AsCanonical (qi q))"

definition Dec_AsCanonicalBase1024 :: "Dec \<Rightarrow> int \<times> int" where
  "Dec_AsCanonicalBase1024 a = removeBigIntFactors (unscaled (Dec_RoundUp a 0)) 1024"

definition int64Amount_AsCanonicalBase1024 :: "int64Amount \<Rightarrow> int \<times> int" where
  "int64Amount_AsCanonicalBase1024 a =
     (case int64Amount_AsScaledInt64 a 0 of (value, ok) \<Rightarrow>
        if ok then removeInt64Factors value 1024 else Dec_AsCanonicalBase1024 (int64Amount_AsDec a))"

definition Quantity_CmpInt64 :: "Quantity \<Rightarrow> int \<Rightarrow> int" where
  "Quantity_CmpInt64 q y =
     (case qd q of Some d \<Rightarrow> Dec_Cmp d \<lparr>unscaled = y, dscale = 0\<rparr>
      | None \<Rightarrow> int64Amount_Cmp (qi q) \<lparr>ivalue = y, iscale = 0\<rparr>)"

section \<open>Suffixes\<close>

definition decSuffixes :: "((int \<times> int) \<times> string) list" where
  "decSuffixes =
     [((2, 0), ''''), ((10, - 9), ''n''), ((10, - 6), ''u''), ((10, - 3), ''m''), ((10, 0), ''''),
      ((10, 3), ''k''), ((10, 6), ''M''), ((10, 9), ''G''), ((10, 12), ''T''), ((10, 15), ''P''), ((10, 18), ''E'')]"

definition binSuffixes :: "((int \<times> int) \<times> string) list" where
  "binSuffixes =
     [((2, 10), ''Ki''), ((2, 20), ''Mi''), ((2, 30), ''Gi''), ((2, 40), ''Ti''), ((2, 50), ''Pi''), ((2, 60), ''Ei'')]"

definition constructBytes :: "int \<Rightarrow> int \<Rightarrow> string \<Rightarrow> string option" where
  "constructBytes base exponent format =
     (if format = DecimalSI then map_of decSuffixes (base, exponent)
      else if format = BinarySI then map_of binSuffixes (base, exponent)
      else if format = DecimalExponent then
        (if base \<noteq> 10 then None else if exponent = 0 then Some [] else Some (''e'' @ show_int exponent))
      else None)"

section \<open>The canonical text\<close>

text \<open>The number, base, exponent and format that are printed; a failed look-up prints no suffix.\<close>

definition canonical :: "Quantity \<Rightarrow> int \<times> int \<times> int \<times> string" where
  "canonical q =
     (let decimal = (\<lambda>format. case Quantity_AsCanonical q of (n, e) \<Rightarrow> (n, 10, e, format)) in
      if Format q = DecimalExponent \<or> Format q = DecimalSI then decimal (Format q)
      else if Format q = BinarySI then
        (if Quantity_CmpInt64 q (- 1024) > 0 \<and> Quantity_CmpInt64 q 1024 < 0 then decimal DecimalSI
         else (case Quantity_AsScale q 0 of (rounded, exact) \<Rightarrow>
           if \<not> exact then decimal DecimalSI
           else (case (case rounded of Inl a \<Rightarrow> int64Amount_AsCanonicalBase1024 a
                       | Inr d \<Rightarrow> Dec_AsCanonicalBase1024 d) of (n, e) \<Rightarrow> (n, 2, e * 10, BinarySI))))
      else decimal DecimalExponent)"

definition CanonicalizeBytes :: "Quantity \<Rightarrow> string \<times> string option" where
  "CanonicalizeBytes q =
     (if Quantity_IsZero q then (''0'', None)
      else (case canonical q of (number, base, exponent, format) \<Rightarrow>
        (show_int number, constructBytes base exponent format)))"

definition Quantity_String :: "Quantity \<Rightarrow> string" where
  "Quantity_String q =
     (case CanonicalizeBytes q of (number, suffix) \<Rightarrow> number @ (case suffix of None \<Rightarrow> [] | Some s \<Rightarrow> s))"

section \<open>The canonical form denotes the quantity\<close>

lemma remove_loop_value:
  "remove_loop b r k = (r', k') \<Longrightarrow> 0 \<le> r \<Longrightarrow> 1 < b \<Longrightarrow>
     k \<le> k' \<and> r = r' * b ^ nat (k' - k) \<and> 0 \<le> r' \<and> r' \<le> r"
proof (induction b r k rule: remove_loop.induct)
  case (1 b r k)
  show ?case
  proof (cases "b \<le> r \<and> r mod b = 0")
    case True
    then obtain e where e: "r = b * e"
      by (auto simp: mod_eq_0_iff_dvd)
    with 1 True have "0 \<le> e"
      by (metis zero_le_mult_iff not_less dual_order.strict_trans zero_less_one)
    have d: "r div b = e"
      using e 1 by simp
    have "remove_loop b e (k + 1) = (r', k')"
      using 1 True d by (subst (asm) (2) remove_loop.simps) simp
    then have IH: "k + 1 \<le> k' \<and> e = r' * b ^ nat (k' - (k + 1)) \<and> 0 \<le> r' \<and> r' \<le> e"
      using 1 True d \<open>0 \<le> e\<close> by simp
    then have "nat (k' - k) = Suc (nat (k' - (k + 1)))"
      by linarith
    moreover have "e \<le> b * e"
      using mult_right_mono [of 1 b e] 1 \<open>0 \<le> e\<close> by simp
    ultimately show ?thesis
      using IH e by simp
  next
    case False
    then show ?thesis
      using 1 by (subst (asm) (2) remove_loop.simps) auto
  qed
qed

lemma removeInt64Factors_value:
  assumes "removeInt64Factors v b = (r, k)" and "int64 v" and "1 < b"
  shows "0 \<le> k \<and> v = r * b ^ nat k \<and> int64 r"
proof (cases "v = - (2 ^ 63)")
  case True
  then have "wrap64 (- v) = v"
    by (simp add: wrap64_def)
  moreover have "remove_loop b v 0 = (v, 0)"
    using True assms(3) by (subst remove_loop.simps) simp
  ultimately show ?thesis
    using assms True by (simp add: removeInt64Factors_def)
next
  case False
  then have "- (2 ^ 63) < v" "v < 2 ^ 63"
    using assms(2) by (auto simp: int64_def)
  then have a: "wrap64 (- v) = - v" "int64 \<bar>v\<bar>"
    by (auto simp: int64_def abs_if)
  have e: "(if v < 0 then wrap64 (- v) else v) = \<bar>v\<bar>"
    using a(1) by simp
  obtain r' where l: "remove_loop b \<bar>v\<bar> 0 = (r', k)" and r: "r = (if v < 0 then wrap64 (- r') else r')"
    using assms(1) by (auto simp: removeInt64Factors_def Let_def e split: prod.splits if_splits)
  have rl: "0 \<le> k" "\<bar>v\<bar> = r' * b ^ nat k" "0 \<le> r'" "r' \<le> \<bar>v\<bar>"
    using remove_loop_value [OF l] assms(3) by auto
  then have i: "int64 (- r')" "int64 r'"
    using a(2) by (simp_all add: int64_def)
  show ?thesis
  proof (cases "v < 0")
    case True
    then have "r = - r'" "v = - (r' * b ^ nat k)"
      using r i rl by simp_all
    then show ?thesis
      using i rl(1) by simp
  qed (use r rl i in simp)
qed

lemma remove_big_loop_value:
  "remove_big_loop b d k = (d', k') \<Longrightarrow> 1 < b \<Longrightarrow> k \<le> k' \<and> d = d' * b ^ nat (k' - k)"
proof (induction b d k rule: remove_big_loop.induct)
  case (1 b d k)
  show ?case
  proof (cases "d \<noteq> 0 \<and> d mod b = 0")
    case True
    then obtain e where e: "d = b * e"
      by (auto simp: mod_eq_0_iff_dvd)
    then have d: "d div b = e"
      using 1 by simp
    have "remove_big_loop b e (k + 1) = (d', k')"
      using 1 True d by (subst (asm) (2) remove_big_loop.simps) simp
    then have IH: "k + 1 \<le> k' \<and> e = d' * b ^ nat (k' - (k + 1))"
      using 1 True d by simp
    then have "nat (k' - k) = Suc (nat (k' - (k + 1)))"
      by linarith
    then show ?thesis
      using IH e by simp
  next
    case False
    then show ?thesis
      using 1 by (subst (asm) (2) remove_big_loop.simps) auto
  qed
qed

lemma removeBigIntFactors_value:
  "removeBigIntFactors d b = (r, k) \<Longrightarrow> 1 < b \<Longrightarrow> 0 \<le> k \<and> d = r * b ^ nat k"
  using remove_big_loop_value [of b d 0] by (simp add: removeBigIntFactors_def)

lemma lower_exponent_value:
  "lower_exponent a e = (a', e') \<Longrightarrow>
     3 dvd e' \<and> e' \<le> e \<and> of_int a' * 10 powi e' = (of_int a * 10 powi e :: rat)"
proof (induction a e rule: lower_exponent.induct)
  case (1 a e)
  show ?case
  proof (cases "e smod 3 = 0")
    case True
    then show ?thesis
      using 1 by (subst (asm) (2) lower_exponent.simps) (auto simp: smod_eq_0_iff)
  next
    case False
    then have "lower_exponent (a * 10) (e - 1) = (a', e')"
      using 1(2) by (subst (asm) lower_exponent.simps) simp
    from 1(1) [OF False this] show ?thesis
      by (simp add: power_int_minus_mult power_int_diff)
  qed
qed

lemma powi_shift:
  "0 \<le> k \<Longrightarrow> of_int (r * b ^ nat k) * of_int b powi e = (of_int r * of_int b powi (e + k) :: rat)" if "1 < b" for b :: int
  using that power_int_add [of "of_int b :: rat" e k] by (simp add: power_int_nonneg_exp algebra_simps)

lemma Dec_AsCanonical_value:
  assumes "Dec_AsCanonical d = (n, e)"
  shows "3 dvd e \<and> of_int n * 10 powi e = dval d"
proof -
  obtain r k where f: "removeBigIntFactors (unscaled d) 10 = (r, k)" by force
  then have "lower_exponent r (- dscale d + k) = (n, e)"
    using assms by (simp add: Dec_AsCanonical_def)
  from lower_exponent_value [OF this] removeBigIntFactors_value [OF f] powi_shift [of 10 k r "- dscale d"]
  show ?thesis
    by (auto simp: dval_def)
qed

lemma int64Amount_AsCanonical_value:
  assumes "int64Amount_AsCanonical a = (n, e)" and "int64 (ivalue a)"
  shows "3 dvd e \<and> of_int n * 10 powi e = aval a"
proof -
  obtain r k where f: "removeInt64Factors (ivalue a) 10 = (r, k)" by force
  note rk = removeInt64Factors_value [OF f assms(2)]
  have v: "aval a = of_int r * 10 powi (iscale a + k)"
    using rk powi_shift [of 10 k r "iscale a"] by (simp add: aval_def)
  let ?e = "iscale a + k"
  have m: "exact_product (int64MultiplyScale10 r) (r * 10)" "exact_product (int64MultiplyScale100 r) (r * 100)"
    using int64MultiplyScale_exact [of r 10] int64MultiplyScale_exact [of r 100] rk
    by (simp_all add: int64MultiplyScale_constants int64_def)
  have p: "of_int r * 10 powi ?e = (of_int (r * 10) * 10 powi (?e - 1) :: rat)"
    "of_int r * 10 powi ?e = (of_int (r * 100) * 10 powi (?e - 2) :: rat)"
    by (simp_all add: power_int_diff)
  consider (one) "?e smod 3 = 1 \<or> ?e smod 3 = - 2" | (two) "?e smod 3 = 2 \<or> ?e smod 3 = - 1" | (zero) "?e smod 3 = 0"
    using abs_smod_less [of 3 ?e] by linarith
  then show ?thesis
  proof cases
    case one
    then have d: "3 dvd ?e - 1"
      using sdiv_smod_decomp [of ?e 3] by presburger
    obtain r' ok where s: "int64MultiplyScale10 r = (r', ok)" by force
    show ?thesis
    proof (cases ok)
      case True
      then have "n = r'" "e = ?e - 1"
        using assms(1) one by (auto simp: int64Amount_AsCanonical_def f Let_def s)
      moreover have "r' = r * 10"
        using m(1) True by (simp add: s exact_product_def)
      ultimately show ?thesis
        using d p(1) v by auto
    next
      case False
      then have "Dec_AsCanonical (int64Amount_AsDec a) = (n, e)"
        using assms(1) one by (auto simp: int64Amount_AsCanonical_def f Let_def s)
      from Dec_AsCanonical_value [OF this] show ?thesis by simp
    qed
  next
    case two
    then have d: "3 dvd ?e - 2"
      using sdiv_smod_decomp [of ?e 3] by presburger
    obtain r' ok where s: "int64MultiplyScale100 r = (r', ok)" by force
    show ?thesis
    proof (cases ok)
      case True
      then have "n = r'" "e = ?e - 2"
        using assms(1) two by (auto simp: int64Amount_AsCanonical_def f Let_def s)
      moreover have "r' = r * 100"
        using m(2) True by (simp add: s exact_product_def)
      ultimately show ?thesis
        using d p(2) v by auto
    next
      case False
      then have "Dec_AsCanonical (int64Amount_AsDec a) = (n, e)"
        using assms(1) two by (auto simp: int64Amount_AsCanonical_def f Let_def s)
      from Dec_AsCanonical_value [OF this] show ?thesis by simp
    qed
  next
    case zero
    then have "n = r" "e = ?e"
      using assms(1) by (simp_all add: int64Amount_AsCanonical_def f Let_def)
    moreover have "3 dvd ?e"
      using zero by (simp add: smod_eq_0_iff)
    ultimately show ?thesis
      using v by simp
  qed
qed

lemma Dec_RoundUp_exact:
  assumes "- s \<le> - dscale x"
  shows "dval (Dec_RoundUp x s) = dval x"
  using assms powi_split [of "- s" "- dscale x"] by (simp add: Dec_RoundUp_def Let_def dval_def)

lemma dval_integer: "dval d = of_int m \<Longrightarrow> dscale d = 0 \<Longrightarrow> unscaled d = m"
  by (simp add: dval_def)

lemma Dec_AsCanonicalBase1024_value:
  assumes "Dec_AsCanonicalBase1024 d = (n, e)" and "dval (Dec_RoundUp d 0) = dval d"
  shows "0 \<le> e \<and> of_int n * 1024 ^ nat e = dval d"
proof -
  have "0 \<le> e \<and> unscaled (Dec_RoundUp d 0) = n * 1024 ^ nat e"
    using removeBigIntFactors_value [of _ 1024] assms(1) by (simp add: Dec_AsCanonicalBase1024_def)
  moreover have "dval (Dec_RoundUp d 0) = of_int (unscaled (Dec_RoundUp d 0))"
    by (simp add: dval_def Dec_RoundUp_def Let_def)
  ultimately show ?thesis
    using assms(2) by simp
qed

lemma int64Amount_AsCanonicalBase1024_value:
  assumes "int64Amount_AsCanonicalBase1024 a = (n, e)" and "int64 (ivalue a)" and "0 \<le> iscale a"
  shows "0 \<le> e \<and> of_int n * 1024 ^ nat e = aval a"
proof -
  obtain v ok where s: "positiveScaleInt64 (ivalue a) (iscale a) = (v, ok)" by force
  have p: "exact_product (v, ok) (ivalue a * 10 ^ nat (iscale a))"
    using positiveScaleInt64_exact [OF assms(2,3)] s by simp
  have A: "aval a = of_int (ivalue a * 10 ^ nat (iscale a))"
    using assms(3) by (simp add: aval_def power_int_nonneg_exp)
  show ?thesis
  proof (cases ok)
    case True
    then have "removeInt64Factors v 1024 = (n, e)" "v = ivalue a * 10 ^ nat (iscale a)" "int64 v"
      using assms(1,3) p by (auto simp: int64Amount_AsCanonicalBase1024_def int64Amount_AsScaledInt64_def s exact_product_def)
    then have "0 \<le> e" "ivalue a * 10 ^ nat (iscale a) = n * 1024 ^ nat e"
      using removeInt64Factors_value [of v 1024 n e] by simp_all
    then show ?thesis
      unfolding A by simp
  next
    case False
    then have "Dec_AsCanonicalBase1024 (int64Amount_AsDec a) = (n, e)"
      using assms(1,3) by (simp add: int64Amount_AsCanonicalBase1024_def int64Amount_AsScaledInt64_def s)
    moreover have "dval (Dec_RoundUp (int64Amount_AsDec a) 0) = dval (int64Amount_AsDec a)"
      using assms(3) by (intro Dec_RoundUp_exact) (simp add: int64Amount_AsDec_def)
    ultimately show ?thesis
      using Dec_AsCanonicalBase1024_value by simp
  qed
qed

lemma int64_factor:
  assumes "int64 (x * d)" and "1 \<le> d"
  shows "int64 x"
proof (cases "0 \<le> x")
  case True
  then have "x * 1 \<le> x * d"
    using assms(2) by (intro mult_left_mono)
  with True assms(1) show ?thesis
    by (simp add: int64_def)
next
  case False
  then have "x * d \<le> x * 1"
    using assms(2) by (intro mult_left_mono_neg) simp_all
  with False assms(1) show ?thesis
    unfolding int64_def by linarith
qed

lemma int64Amount_AsScale_value:
  assumes "int64Amount_AsScale a 0 = (b, True)" and "int64 (ivalue a)"
  shows "aval b = aval a \<and> 0 \<le> iscale b \<and> int64 (ivalue b)"
proof (cases "0 \<le> iscale a")
  case True
  then show ?thesis
    using assms by (simp add: int64Amount_AsScale_def)
next
  case False
  let ?d = "10 ^ nat (- iscale a) :: int"
  have r: "round_away (ivalue a) ?d = (ivalue b, True)" "iscale b = 0"
    using assms False negativeScaleInt64_rounds [OF assms(2), of "- iscale a"]
    by (auto simp: int64Amount_AsScale_def split: prod.splits)
  then have "ivalue a smod ?d = 0" "ivalue b = ivalue a sdiv ?d"
    by (auto simp: round_away_def split: if_splits)
  then have e: "ivalue a = ivalue b * ?d"
    using sdiv_smod_decomp [of "ivalue a" ?d] by simp
  have "int64 (ivalue b)"
    using assms(2) int64_factor [of "ivalue b" ?d] by (simp add: e)
  moreover have "aval a = aval b"
    using False r(2) powi_split [of "iscale a" 0] by (simp add: aval_def e)
  ultimately show ?thesis
    using r(2) by simp
qed

lemma powi_1024: "0 \<le> e \<Longrightarrow> (2 :: rat) powi (e * 10) = 1024 ^ nat e"
proof -
  assume "0 \<le> e"
  then have "(2 :: rat) powi (e * 10) = 2 ^ (10 * nat e)"
    by (simp add: power_int_nonneg_exp nat_mult_distrib mult.commute)
  then show ?thesis
    by (simp only: power_mult) simp
qed

lemma Quantity_AsCanonical_value:
  assumes "Quantity_AsCanonical q = (n, e)" and "quantity_ok q"
  shows "3 dvd e \<and> of_int n * 10 powi e = qval q"
  using assms Dec_AsCanonical_value int64Amount_AsCanonical_value
  by (auto simp: Quantity_AsCanonical_def qval_def quantity_ok_def split: option.splits)

text \<open>Whatever is printed, number, base and exponent are those of the exact value.\<close>

lemma canonical_value:
  assumes "canonical q = (n, b, e, f)" and "quantity_ok q"
  shows "of_int n * of_int b powi e = qval q"
    and "b = 10 \<and> 3 dvd e \<and> f \<in> {DecimalSI, DecimalExponent} \<or> b = 2 \<and> 0 \<le> e \<and> 10 dvd e \<and> f = BinarySI"
proof -
  have dec: "of_int n * of_int b powi e = qval q \<and> b = 10 \<and> 3 dvd e \<and> f = g"
    if "(case Quantity_AsCanonical q of (n, e) \<Rightarrow> (n, 10, e, g)) = (n, b, e, f)" for g
    using that Quantity_AsCanonical_value [OF _ assms(2)] by (auto split: prod.splits)
  have bin: "of_int n * of_int b powi e = qval q \<and> b = 2 \<and> 0 \<le> e \<and> 10 dvd e \<and> f = BinarySI"
    if x: "Quantity_AsScale q 0 = (rounded, True)"
      and c: "(case (case rounded of Inl a \<Rightarrow> int64Amount_AsCanonicalBase1024 a
                 | Inr d \<Rightarrow> Dec_AsCanonicalBase1024 d) of (n, e) \<Rightarrow> (n, 2, e * 10, BinarySI)) = (n, b, e, f)" for rounded
  proof -
    obtain k where k: "(case rounded of Inl a \<Rightarrow> int64Amount_AsCanonicalBase1024 a
        | Inr d \<Rightarrow> Dec_AsCanonicalBase1024 d) = (n, k)" and eq: "b = 2" "e = k * 10" "f = BinarySI"
      using c by (auto split: prod.splits)
    have "0 \<le> k \<and> of_int n * 1024 ^ nat k = qval q"
    proof (cases "qd q")
      case None
      then obtain a where a: "rounded = Inl a" "int64Amount_AsScale (qi q) 0 = (a, True)"
        using x by (cases "int64Amount_AsScale (qi q) 0") (auto simp: Quantity_AsScale_def)
      have "int64 (ivalue (qi q))"
        using assms(2) by (simp add: quantity_ok_def)
      from int64Amount_AsScale_value [OF a(2) this] int64Amount_AsCanonicalBase1024_value [of a n k] k a(1) None
      show ?thesis by (simp add: qval_def)
    next
      case (Some d)
      then have r: "rounded = Inr (Dec_RoundUp d 0)" "Dec_Cmp (Dec_RoundUp d 0) d = 0"
        using x by (auto simp: Quantity_AsScale_def Dec_AsScale_def Let_def)
      have "dval (Dec_RoundUp d 0) = dval d"
        using Dec_Cmp_sgn [of "Dec_RoundUp d 0" d] r(2) by (simp add: sgn_0_0)
      moreover have "dval (Dec_RoundUp (Dec_RoundUp d 0) 0) = dval (Dec_RoundUp d 0)"
        by (rule Dec_RoundUp_exact) (simp add: Dec_RoundUp_def Let_def)
      ultimately show ?thesis
        using Dec_AsCanonicalBase1024_value [of "Dec_RoundUp d 0" n k] k r(1) Some by (simp add: qval_def)
    qed
    with eq show ?thesis
      by (simp add: powi_1024)
  qed
  have "of_int n * of_int b powi e = qval q \<and>
    (b = 10 \<and> 3 dvd e \<and> f \<in> {DecimalSI, DecimalExponent} \<or> b = 2 \<and> 0 \<le> e \<and> 10 dvd e \<and> f = BinarySI)"
    using assms(1) dec bin unfolding canonical_def Let_def
    by (auto split: if_splits prod.splits)
  then show "of_int n * of_int b powi e = qval q"
    and "b = 10 \<and> 3 dvd e \<and> f \<in> {DecimalSI, DecimalExponent} \<or> b = 2 \<and> 0 \<le> e \<and> 10 dvd e \<and> f = BinarySI"
    by simp_all
qed

end
