(* ===== verification/Quantity_Parse.thy ===== *)
theory Quantity_Parse
  imports Quantity_Text
begin

text \<open>
  \<open>ParseQuantity\<close> of \<open>quantity.go\<close>: the scanner \<open>parseQuantityString\<close>, the suffixes
  (\<open>interpret\<close> of \<open>suffix.go\<close>), the fast path for numbers of few digits and the path over
  decimals, with its rounding up to nano and its cap. Positions in the scanned text are given
  by the rest of the text. What is printed is read back as the same number.
\<close>

section \<open>The scanner\<close>

definition ErrFormatWrong :: go_error where
  "ErrFormatWrong = Err (''quantities must match the regular expression '' @ [CHR 39] @
     ''^([+-]?[0-9.]+)([eEinumkKMGTP]*[-+]?[0-9]*)$'' @ [CHR 39])"

definition ErrNumeric :: go_error where
  "ErrNumeric = Err ''unable to parse numeric part of quantity''"

definition ErrSuffix :: go_error where
  "ErrSuffix = Err (''unable to parse quantity'' @ [CHR 39] @ ''s suffix'')"

definition is_digit :: "char \<Rightarrow> bool" where
  "is_digit c \<longleftrightarrow> 48 \<le> (of_char c :: nat) \<and> (of_char c :: nat) \<le> 57"

definition strip_sign :: "string \<Rightarrow> bool \<times> string" where
  "strip_sign s =
     (case s of [] \<Rightarrow> (True, [])
      | c # t \<Rightarrow> if c = CHR ''-'' then (False, t) else if c = CHR ''+'' then (True, t) else (True, s))"

text \<open>What is left of a text after letters of suffixes, a sign and digits.\<close>

definition suffix_char :: "char \<Rightarrow> bool" where
  "suffix_char c \<longleftrightarrow> c \<in> set ''eEinumkKMGTP''"

definition after_suffix :: "string \<Rightarrow> string" where
  "after_suffix s = dropWhile is_digit (snd (strip_sign (dropWhile suffix_char s)))"

text \<open>The results are \<open>positive\<close>, \<open>value\<close>, \<open>num\<close>, \<open>denom\<close> and \<open>suffix\<close>.\<close>

definition parseQuantityString :: "string \<Rightarrow> go_error + bool \<times> string \<times> string \<times> string \<times> string" where
  "parseQuantityString str =
     (let (positive, unsigned) = strip_sign str; s = dropWhile (\<lambda>c. c = CHR ''0'') unsigned in
      if s = [] then Inr (positive, ''0'', ''0'', [], [])
      else (let num = takeWhile is_digit s; s = dropWhile is_digit s in
        if s = [] then Inr (positive, str, num, [], [])
        else (let num = (if num = [] then ''0'' else num);
                  (denom, s) = (if hd s = CHR ''.'' then (takeWhile is_digit (tl s), dropWhile is_digit (tl s))
                                else ([], s)) in
          if s = [] then Inr (positive, str, num, denom, [])
          else (let value = take (length str - length s) str in
            if after_suffix s = [] then Inr (positive, value, num, denom, s)
            else Inl ErrFormatWrong))))"

section \<open>Numbers and suffixes\<close>

definition read_digits :: "string \<Rightarrow> int" where
  "read_digits s = foldl (\<lambda>n c. 10 * n + (of_char c - 48)) 0 s"

text \<open>\<open>strconv.ParseInt\<close> in base 10 for 64 bits; \<open>SetString\<close> of \<open>inf.Dec\<close>.\<close>

definition ParseInt :: "string \<Rightarrow> int option" where
  "ParseInt s =
     (let (positive, digits) = strip_sign s;
          v = (if positive then read_digits digits else - read_digits digits) in
      if digits \<noteq> [] \<and> list_all is_digit digits \<and> int64 v then Some v else None)"

definition Dec_SetString :: "string \<Rightarrow> Dec option" where
  "Dec_SetString s =
     (let (positive, body) = strip_sign s; digits = filter is_digit body;
          v = read_digits digits in
      if list_all (\<lambda>c. is_digit c \<or> c = CHR ''.'') body \<and> length body \<le> length digits + 1 \<and> digits \<noteq> []
      then Some \<lparr>unscaled = (if positive then v else - v),
                 dscale = int (length (tl (dropWhile is_digit body)))\<rparr>
      else None)"

text \<open>A suffix that is added twice to a table keeps its last meaning.\<close>

definition suffixToBE :: "((int \<times> int) \<times> string) list \<Rightarrow> string \<Rightarrow> (int \<times> int) option" where
  "suffixToBE table = map_of (rev (map (\<lambda>(be, s). (s, be)) table))"

definition fastSuffixes :: "(string \<times> int) list" where
  "fastSuffixes = [('''', 0), (''n'', - 9), (''u'', - 6), (''m'', - 3), (''k'', 3), (''M'', 6), (''G'', 9)]"

definition interpret_suffix :: "string \<Rightarrow> (int \<times> int \<times> string) option" where
  "interpret_suffix s =
     (case map_of fastSuffixes s of Some e \<Rightarrow> Some (10, e, DecimalSI)
      | None \<Rightarrow> (case suffixToBE decSuffixes s of Some (b, e) \<Rightarrow> Some (b, e, DecimalSI)
      | None \<Rightarrow> (case suffixToBE binSuffixes s of Some (b, e) \<Rightarrow> Some (b, e, BinarySI)
      | None \<Rightarrow>
          (if length s > 1 \<and> (hd s = CHR ''E'' \<or> hd s = CHR ''e'')
           then (case ParseInt (tl s) of None \<Rightarrow> None | Some parsed \<Rightarrow> Some (10, wrap32 parsed, DecimalExponent))
           else None))))"

definition int64Multiply :: "int \<Rightarrow> int \<Rightarrow> int \<times> bool" where
  "int64Multiply a b =
     (if a = 0 \<or> b = 0 \<or> a = 1 \<or> b = 1 then (wrap64 (a * b), True)
      else if a = mostNegative \<or> b = mostNegative then (0, False)
      else (let c = wrap64 (a * b) in (c, c sdiv b = a)))"

section \<open>Parsing\<close>

definition Dec_Neg :: "Dec \<Rightarrow> Dec" where
  "Dec_Neg d = d\<lparr>unscaled := - unscaled d\<rparr>"

definition maxAllowed :: Dec where
  "maxAllowed = \<lparr>unscaled = 2 ^ 63 - 1, dscale = 0\<rparr>"

text \<open>The suffix is moved into the decimal; a magnitude is rounded up to nano and, in binary form, capped.\<close>

definition apply_suffix :: "int \<Rightarrow> int \<Rightarrow> Dec \<Rightarrow> Dec" where
  "apply_suffix base exponent amount =
     (if base = 10 then amount\<lparr>dscale := wrap32 (dscale amount + wrap32 (- exponent))\<rparr>
      else if base = 2 then amount\<lparr>unscaled := unscaled amount * 2 ^ nat exponent\<rparr> else amount)"

definition round_and_cap :: "string \<Rightarrow> Dec \<Rightarrow> Dec" where
  "round_and_cap format amount =
     (let amount = (if unscaled amount \<noteq> 0 then Dec_RoundUp amount 9 else amount)
      in if format = BinarySI \<and> Dec_Cmp amount maxAllowed > 0 then maxAllowed else amount)"

definition parse_decimal :: "string \<Rightarrow> int \<Rightarrow> int \<Rightarrow> string \<Rightarrow> go_error + Quantity" where
  "parse_decimal value base exponent format =
     (case Dec_SetString value of
        None \<Rightarrow> Inl ErrNumeric
      | Some amount \<Rightarrow>
          (let amount = apply_suffix base exponent amount;
               negative = (unscaled amount < 0);
               amount = round_and_cap format (if negative then Dec_Neg amount else amount);
               format = (if format = BinarySI \<and> Dec_Cmp amount \<lparr>unscaled = 1, dscale = 0\<rparr> < 0 \<and>
                            Dec_Cmp amount \<lparr>unscaled = 0, dscale = 0\<rparr> > 0 then DecimalSI else format)
           in Inr \<lparr>qi = \<lparr>ivalue = 0, iscale = 0\<rparr>, qd = Some (if negative then Dec_Neg amount else amount),
                   Format = format\<rparr>))"

definition parse_small :: "bool \<Rightarrow> string \<Rightarrow> string \<Rightarrow> int \<Rightarrow> string \<Rightarrow> (go_error + Quantity) option" where
  "parse_small positive num denom exponent format =
     (let (precision, scale, mantissa) =
        (if format = BinarySI then
           (if 0 \<le> exponent \<and> denom = []
            then (15 - int (length num) - exponent * 3 div 10 - 1, 0, wrap64 (2 ^ nat exponent))
            else (- 1, 0, 1))
         else (18 - int (length num + length denom), exponent, 1));
        scale = wrap32 (scale - int (length denom)) in
      if 0 \<le> precision \<and> - 9 \<le> scale then
        (case ParseInt (num @ denom) of
           None \<Rightarrow> Some (Inl ErrNumeric)
         | Some value \<Rightarrow>
             (case int64Multiply value mantissa of (result, ok) \<Rightarrow>
                if ok then Some (Inr \<lparr>qi = \<lparr>ivalue = (if positive then result else wrap64 (- result)), iscale = scale\<rparr>,
                                      qd = None, Format = format\<rparr>)
                else None))
      else None)"

definition ParseQuantity :: "string \<Rightarrow> go_error + Quantity" where
  "ParseQuantity str =
     (if str = [] then Inl ErrFormatWrong
      else if str = ''0'' then Inr \<lparr>qi = \<lparr>ivalue = 0, iscale = 0\<rparr>, qd = None, Format = DecimalSI\<rparr>
      else (case parseQuantityString str of
          Inl e \<Rightarrow> Inl e
        | Inr (positive, value, num, denom, suffix) \<Rightarrow>
            (case interpret_suffix suffix of
               None \<Rightarrow> Inl ErrSuffix
             | Some (base, exponent, format) \<Rightarrow>
                 (case parse_small positive num denom exponent format of
                    Some result \<Rightarrow> result
                  | None \<Rightarrow> parse_decimal value base exponent format))))"

section \<open>Reading what was printed\<close>

lemma read_digits_show_nat: "read_digits (show_nat n) = int n"
proof (induction n rule: show_nat.induct)
  case (1 n)
  have d: "(of_char (digit_char d) :: int) = 48 + int d" if "d < 10" for d
    using of_char_digit_char [OF that] by (metis of_nat_of_char of_nat_add of_nat_numeral)
  show ?case
    using 1 by (subst show_nat.simps)
      (simp add: read_digits_def d, metis mult_div_mod_eq of_nat_add of_nat_mult of_nat_numeral)
qed

lemma show_nat_digits: "list_all is_digit (show_nat n)"
proof -
  have "is_digit c" if "c \<in> set (show_nat n)" for c
  proof -
    have "c \<in> digit_char ` {0..<10}"
      using that set_show_nat by blast
    then show ?thesis by (auto simp: is_digit_def)
  qed
  then show ?thesis by (simp add: list_all_iff)
qed

lemma hd_show_nat_zero: "0 < n \<Longrightarrow> hd (show_nat n) \<noteq> CHR ''0''"
  using hd_show_nat [of n] digit_char_zero by fastforce

lemma show_nat_less: "int n < 10 ^ length (show_nat n)"
proof (induction n rule: show_nat.induct)
  case (1 n)
  show ?case
  proof (cases "n < 10")
    case False
    then have "int (n div 10) < 10 ^ length (show_nat (n div 10))"
      using 1 by simp
    then have "int (n div 10) + 1 \<le> 10 ^ length (show_nat (n div 10))"
      by linarith
    moreover have "int n < 10 * (int (n div 10) + 1)"
      by presburger
    ultimately have "int n < 10 * 10 ^ length (show_nat (n div 10))"
      by linarith
    with False show ?thesis
      by (subst show_nat.simps) simp
  qed (subst show_nat.simps, simp)
qed

lemma digit_not_sign: "is_digit c \<Longrightarrow> c \<noteq> CHR ''-'' \<and> c \<noteq> CHR ''+'' \<and> c \<noteq> CHR ''.''"
  by (auto simp: is_digit_def)

lemma strip_sign_show_nat [simp]:
  "strip_sign (show_nat n @ t) = (True, show_nat n @ t)"
  "strip_sign (CHR ''-'' # t) = (False, t)"
proof -
  obtain c cs where "show_nat n = c # cs" "is_digit c"
    using show_nat_digits [of n] by (cases "show_nat n") auto
  then show "strip_sign (show_nat n @ t) = (True, show_nat n @ t)"
    using digit_not_sign by (simp add: strip_sign_def)
qed (simp add: strip_sign_def)

lemma show_int_sign: "strip_sign (show_int n @ t) = (0 \<le> n, show_nat (nat \<bar>n\<bar>) @ t)"
  by (simp add: show_int_def)

text \<open>The suffixes a canonical number can have.\<close>

definition suffix_text :: "string \<Rightarrow> bool" where
  "suffix_text s \<longleftrightarrow> s = [] \<or> \<not> is_digit (hd s) \<and> hd s \<noteq> CHR ''.'' \<and> after_suffix s = []"

lemma scan_canonical:
  assumes "n \<noteq> 0" and "suffix_text s"
  shows "parseQuantityString (show_int n @ s) =
    Inr (0 \<le> n, show_int n, show_nat (nat \<bar>n\<bar>), [], s)"
proof -
  let ?d = "show_nat (nat \<bar>n\<bar>)"
  have ne: "hd ?d \<noteq> CHR ''0''" "?d \<noteq> []"
    using assms(1) by (simp_all add: hd_show_nat_zero)
  then have z: "dropWhile (\<lambda>c. c = CHR ''0'') (?d @ s) = ?d @ s"
    by (cases ?d) auto
  have all: "\<And>c. c \<in> set ?d \<Longrightarrow> is_digit c"
    using show_nat_digits by (simp add: list_all_iff)
  have h: "s \<noteq> [] \<Longrightarrow> \<not> is_digit (hd s)" "s \<noteq> [] \<Longrightarrow> hd s \<noteq> CHR ''.''"
    using assms(2) by (auto simp: suffix_text_def)
  have t: "takeWhile is_digit (?d @ s) = ?d" "dropWhile is_digit (?d @ s) = s"
    using all h(1) by (cases s; simp add: takeWhile_append dropWhile_append)+
  show ?thesis
  proof (cases "s = []")
    case True
    then show ?thesis
      using ne(2) z t show_int_sign [of n "[]"]
      by (simp add: parseQuantityString_def Let_def del: dropWhile_eq_Nil_conv)
  next
    case False
    then have "after_suffix s = []"
      using assms(2) by (simp add: suffix_text_def)
    with False show ?thesis
      using h(2) ne(2) z t by (simp add: parseQuantityString_def Let_def show_int_sign del: dropWhile_eq_Nil_conv)
  qed
qed

text \<open>A suffix that was printed is read back with the same base and exponent.\<close>

definition same_suffix :: "int \<Rightarrow> int \<Rightarrow> string \<Rightarrow> bool" where
  "same_suffix b e s \<longleftrightarrow> suffix_text s \<and>
     (case interpret_suffix s of None \<Rightarrow> False
      | Some (b', e', f') \<Rightarrow> (of_int b' powi e' :: rat) = of_int b powi e \<and>
          (b' = 10 \<and> f' \<noteq> BinarySI \<and> - 9 \<le> e' \<and> e' < 2 ^ 31 \<or>
           b' = 2 \<and> b = 2 \<and> e' = e \<and> f' = BinarySI \<and> 0 \<le> e' \<and> e' \<le> 60))"

lemma decSuffixes_read:
  "list_all (\<lambda>((b, e), s). b = 10 \<longrightarrow> suffix_text s \<and> interpret_suffix s = Some (b, e, DecimalSI) \<and> - 9 \<le> e \<and> e \<le> 18)
     decSuffixes"
  by code_simp

lemma binSuffixes_read:
  "list_all (\<lambda>((b, e), s). suffix_text s \<and> interpret_suffix s = Some (b, e, BinarySI) \<and> b = 2 \<and> 0 \<le> e \<and> e \<le> 60)
     binSuffixes"
  by code_simp

lemma formats_differ: "DecimalSI \<noteq> BinarySI" "DecimalExponent \<noteq> BinarySI" "DecimalSI \<noteq> DecimalExponent"
  by code_simp+

lemma not_table_suffix:
  assumes "hd s = CHR ''e''" and "s \<noteq> []"
  shows "map_of fastSuffixes s = None" "suffixToBE decSuffixes s = None" "suffixToBE binSuffixes s = None"
  using assms by (cases s; simp add: fastSuffixes_def suffixToBE_def decSuffixes_def binSuffixes_def)+

lemma ParseInt_show_int: "int64 i \<Longrightarrow> ParseInt (show_int i) = Some i"
  using show_int_sign [of i "[]"] show_nat_digits [of "nat \<bar>i\<bar>"]
  by (simp add: ParseInt_def read_digits_show_nat)

lemma exponent_suffix:
  assumes "e \<noteq> 0" "- 9 \<le> e" "e < 2 ^ 31"
  shows "same_suffix 10 e (''e'' @ show_int e)"
proof -
  let ?s = "''e'' @ show_int e"
  have "int64 e" "int32 e"
    using assms by (simp_all add: int64_def int32_def)
  then have "interpret_suffix ?s = Some (10, e, DecimalExponent)"
    using not_table_suffix [of ?s] ParseInt_show_int [of e]
    by (simp add: interpret_suffix_def show_int_def split: if_splits)
  moreover have "suffix_text ?s"
  proof -
    obtain c cs where c: "show_int e = c # cs" "\<not> suffix_char c"
    proof (cases "e < 0")
      case True
      then show ?thesis
        using that by (simp add: show_int_def suffix_char_def)
    next
      case False
      obtain c cs where "show_nat (nat e) = c # cs" "is_digit c"
        using show_nat_digits [of "nat e"] by (cases "show_nat (nat e)") auto
      moreover have "\<not> suffix_char c"
        using \<open>is_digit c\<close> by (auto simp: is_digit_def suffix_char_def)
      ultimately show ?thesis
        using that False by (simp add: show_int_def)
    qed
    then have "dropWhile suffix_char ?s = show_int e"
      by (simp add: suffix_char_def)
    then have "after_suffix ?s = []"
      using show_int_sign [of e "[]"] show_nat_digits by (simp add: after_suffix_def list_all_iff)
    then show ?thesis
      by (simp add: suffix_text_def is_digit_def)
  qed
  ultimately show ?thesis
    using assms formats_differ by (simp add: same_suffix_def)
qed

lemma constructBytes_read:
  assumes c: "constructBytes b e f = Some s \<or> e = 0 \<and> s = []"
    and b: "b = 10 \<and> f \<in> {DecimalSI, DecimalExponent} \<or> b = 2 \<and> f = BinarySI"
    and e: "- 9 \<le> e" "e < 2 ^ 31"
  shows "same_suffix b e s"
proof -
  have zero: "same_suffix b 0 []"
  proof -
    have "interpret_suffix [] = Some (10, 0, DecimalSI)" "suffix_text []"
      by code_simp+
    then show ?thesis
      using formats_differ by (simp add: same_suffix_def)
  qed
  from c show ?thesis
  proof (elim disjE conjE)
    assume k: "constructBytes b e f = Some s"
    consider (si) "b = 10" "f = DecimalSI" | (exp) "b = 10" "f = DecimalExponent" | (bin) "b = 2" "f = BinarySI"
      using b by blast
    then show ?thesis
    proof cases
      case si
      then have "((10, e), s) \<in> set decSuffixes"
        using k by (auto simp: constructBytes_def dest: map_of_SomeD)
      then show ?thesis
        using decSuffixes_read formats_differ si by (auto simp: list_all_iff same_suffix_def)
    next
      case exp
      then show ?thesis
        using k formats_differ exponent_suffix [of e] zero e by (auto simp: constructBytes_def split: if_splits)
    next
      case bin
      then have "((2, e), s) \<in> set binSuffixes"
        using k formats_differ by (auto simp: constructBytes_def dest: map_of_SomeD)
      then show ?thesis
        using binSuffixes_read bin by (auto simp: list_all_iff same_suffix_def)
    qed
  qed (use zero in simp)
qed

text \<open>The two ways of reading a number with such a suffix.\<close>

lemma int64Multiply_exact:
  assumes "int64Multiply a b = (r, True)" and "int64 a" "int64 b" "0 < b"
  shows "r = a * b \<and> int64 r"
proof -
  have "wrap64 (a * b) = a * b" if "1 < b" "wrap64 (a * b) sdiv b = a"
    using that checked_product [OF assms(2) _ assms(3)] by simp
  then have "r = a * b \<and> r = wrap64 (a * b)"
    using assms by (cases "b = 1") (auto simp: int64Multiply_def Let_def split: if_splits)
  then show ?thesis
    by (metis int64_wrap64)
qed

lemma show_int_abs: "show_int \<bar>n\<bar> = show_nat (nat \<bar>n\<bar>)"
  by (simp add: show_int_def)

lemma few_digits:
  assumes "length (show_nat (nat \<bar>n\<bar>)) \<le> 18"
  shows "int64 \<bar>n\<bar>" "int64 n" "ParseInt (show_nat (nat \<bar>n\<bar>)) = Some \<bar>n\<bar>"
proof -
  have "\<bar>n\<bar> < 10 ^ length (show_nat (nat \<bar>n\<bar>))"
    using show_nat_less [of "nat \<bar>n\<bar>"] by simp
  also have "\<dots> \<le> 10 ^ 18"
    using assms by (intro power_increasing) simp_all
  finally show i: "int64 \<bar>n\<bar>" "int64 n"
    by (auto simp: int64_def abs_if split: if_splits)
  show "ParseInt (show_nat (nat \<bar>n\<bar>)) = Some \<bar>n\<bar>"
    using ParseInt_show_int [OF i(1)] by (simp add: show_int_abs)
qed

lemma parse_small_decimal:
  assumes "parse_small (0 \<le> n) (show_nat (nat \<bar>n\<bar>)) [] e f = Some r"
    and "f \<noteq> BinarySI" and "- 9 \<le> e" "e < 2 ^ 31"
  shows "\<exists>q. r = Inr q \<and> qval q = of_int n * 10 powi e"
proof -
  have w: "wrap32 e = e"
    using assms(3,4) by (simp add: int32_def)
  have "length (show_nat (nat \<bar>n\<bar>)) \<le> 18"
    using assms(1,2) by (auto simp: parse_small_def Let_def split: if_splits)
  note d = few_digits [OF this]
  have m: "int64Multiply \<bar>n\<bar> 1 = (\<bar>n\<bar>, True)"
    using d(1) by (simp add: int64Multiply_def)
  have "(if 0 \<le> n then \<bar>n\<bar> else wrap64 (- \<bar>n\<bar>)) = n"
    using d(2) by simp
  then show ?thesis
    using assms(1,2) d(3) m w
    by (auto simp: parse_small_def Let_def qval_def aval_def split: if_splits)
qed

lemma int64_between: "0 < x \<Longrightarrow> x \<le> 2 ^ 60 \<Longrightarrow> int64 x"
  by (simp add: int64_def)

lemma parse_small_binary:
  assumes "parse_small (0 \<le> n) (show_nat (nat \<bar>n\<bar>)) [] e BinarySI = Some r"
    and "0 \<le> e" "e \<le> 60"
  shows "\<exists>q. r = Inr q \<and> qval q = of_int n * 2 powi e"
proof -
  let ?m = "2 ^ nat e :: int"
  have "?m \<le> 2 ^ 60"
    using assms(2,3) by (intro power_increasing) simp_all
  then have M: "int64 ?m" "0 < ?m"
    by (rule int64_between [rotated]) simp_all
  have "length (show_nat (nat \<bar>n\<bar>)) \<le> 18"
    using assms(1,2) by (auto simp: parse_small_def Let_def split: if_splits)
  note d = few_digits [OF this]
  obtain p ok where p: "int64Multiply \<bar>n\<bar> ?m = (p, ok)" by force
  have ok: ok and r: "r = Inr \<lparr>qi = \<lparr>ivalue = (if 0 \<le> n then p else wrap64 (- p)), iscale = 0\<rparr>, qd = None, Format = BinarySI\<rparr>"
    using assms(1,2) d(3) p M(1) by (auto simp: parse_small_def Let_def wrap32_def split: if_splits)
  then have pm: "p = \<bar>n\<bar> * ?m" "int64 p"
    using int64Multiply_exact [of "\<bar>n\<bar>" ?m p] d(1) M p by auto
  have "0 \<le> p"
    using pm(1) by simp
  with pm(2) have "int64 (- p)"
    by (simp add: int64_def)
  then have "(if 0 \<le> n then p else wrap64 (- p)) = n * ?m"
    using pm(1) by (cases "0 \<le> n") simp_all
  then show ?thesis
    using r assms(2) by (simp add: qval_def aval_def power_int_nonneg_exp)
qed

lemma Dec_SetString_show_int: "Dec_SetString (show_int n) = Some \<lparr>unscaled = n, dscale = 0\<rparr>"
proof -
  have "filter is_digit (show_nat m) = show_nat m" "dropWhile is_digit (show_nat m) = []"
    "list_all (\<lambda>c. is_digit c \<or> c = CHR ''.'') (show_nat m)" for m
    using show_nat_digits [of m] by (simp_all add: list_all_iff)
  then show ?thesis
    using show_int_sign [of n "[]"]
    by (simp add: Dec_SetString_def Let_def read_digits_show_nat del: dropWhile_eq_Nil_conv)
qed

lemma dval_Neg [simp]: "dval (Dec_Neg d) = - dval d"
  by (simp add: Dec_Neg_def dval_def)

lemma dval_abs: "dval (if unscaled d < 0 then Dec_Neg d else d) = \<bar>dval d\<bar>"
proof -
  have "0 < (10 :: rat) powi (- dscale d)"
    by simp
  then show ?thesis
    by (simp add: dval_def Dec_Neg_def abs_mult)
qed

lemma Dec_Cmp_positive: "0 < Dec_Cmp x y \<longleftrightarrow> dval y < dval x"
  using Dec_Cmp_sgn [of x y] by (metis diff_gt_0_iff_gt of_int_0_less_iff sgn_greater)

lemma round_and_cap_value:
  assumes "dscale d \<le> 9" and "f = BinarySI \<Longrightarrow> dval d \<le> 2 ^ 63 - 1"
  shows "dval (round_and_cap f d) = dval d"
proof -
  let ?up = "if unscaled d \<noteq> 0 then Dec_RoundUp d 9 else d"
  have up: "dval ?up = dval d"
    using Dec_RoundUp_exact [of 9 d] assms(1) by simp
  have "dval maxAllowed = 2 ^ 63 - 1"
    by (simp add: maxAllowed_def dval_def)
  then have "\<not> (f = BinarySI \<and> 0 < Dec_Cmp ?up maxAllowed)"
    using assms(2) up Dec_Cmp_positive [of ?up maxAllowed] by auto
  then show ?thesis
    unfolding round_and_cap_def Let_def using up by (simp only: if_False)
qed

lemma apply_suffix_value:
  assumes "b = 10 \<and> - 9 \<le> e \<and> e < 2 ^ 31 \<or> b = 2 \<and> 0 \<le> e"
  shows "dval (apply_suffix b e \<lparr>unscaled = n, dscale = 0\<rparr>) = of_int n * of_int b powi e"
    and "dscale (apply_suffix b e \<lparr>unscaled = n, dscale = 0\<rparr>) \<le> 9"
proof -
  have "wrap32 (- e) = - e" if "b = 10"
    using that assms by (simp add: int32_def)
  then show "dval (apply_suffix b e \<lparr>unscaled = n, dscale = 0\<rparr>) = of_int n * of_int b powi e"
    and "dscale (apply_suffix b e \<lparr>unscaled = n, dscale = 0\<rparr>) \<le> 9"
    using assms by (auto simp: apply_suffix_def dval_def power_int_nonneg_exp int32_def)
qed

lemma parse_decimal_value:
  assumes "f \<noteq> BinarySI \<and> b = 10 \<and> - 9 \<le> e \<and> e < 2 ^ 31 \<or>
      f = BinarySI \<and> b = 2 \<and> 0 \<le> e \<and> \<bar>n\<bar> * 2 ^ nat e < 2 ^ 63"
  shows "\<exists>q. parse_decimal (show_int n) b e f = Inr q \<and> qval q = of_int n * of_int b powi e"
proof -
  define a where "a = apply_suffix b e \<lparr>unscaled = n, dscale = 0\<rparr>"
  have va: "dval a = of_int n * of_int b powi e" and sc: "dscale a \<le> 9"
    using apply_suffix_value assms by (auto simp: a_def)
  let ?abs = "if unscaled a < 0 then Dec_Neg a else a"
  let ?r = "round_and_cap f ?abs"
  have "\<bar>dval a\<bar> \<le> 2 ^ 63 - 1" if "f = BinarySI"
  proof -
    have "\<bar>dval a\<bar> = of_int (\<bar>n\<bar> * 2 ^ nat e)"
      using that assms va by (simp add: abs_mult power_int_nonneg_exp)
    moreover have "\<bar>n\<bar> * 2 ^ nat e \<le> 2 ^ 63 - 1"
      using that assms by simp
    then have "(of_int (\<bar>n\<bar> * 2 ^ nat e) :: rat) \<le> of_int (2 ^ 63 - 1)"
      by (simp only: of_int_le_iff)
    ultimately show ?thesis by simp
  qed
  then have r: "dval ?r = \<bar>dval a\<bar>"
    using sc dval_abs [of a] round_and_cap_value [of ?abs f] by (simp add: Dec_Neg_def)
  have g: "parse_decimal (show_int n) b e f =
      Inr \<lparr>qi = \<lparr>ivalue = 0, iscale = 0\<rparr>, qd = Some (if unscaled a < 0 then Dec_Neg ?r else ?r),
        Format = (if f = BinarySI \<and> Dec_Cmp ?r \<lparr>unscaled = 1, dscale = 0\<rparr> < 0 \<and>
                    Dec_Cmp ?r \<lparr>unscaled = 0, dscale = 0\<rparr> > 0 then DecimalSI else f)\<rparr>"
    by (simp only: parse_decimal_def Dec_SetString_show_int option.case a_def [symmetric] Let_def)
  have "\<not> (10 :: rat) powi (- dscale a) < 0"
    by (simp add: not_less)
  from mult_less_0_iff [of "of_int (unscaled a)" "(10 :: rat) powi (- dscale a)"] this
  have "unscaled a < 0 \<longleftrightarrow> dval a < 0"
    by (simp add: dval_def)
  then have "dval (if unscaled a < 0 then Dec_Neg ?r else ?r) = dval a"
    unfolding if_distrib [of dval] dval_Neg r by simp
  then show ?thesis
    unfolding g qval_def using va by (simp del: dval_Neg)
qed

text \<open>
  The quantities whose text says everything: the exponent has a suffix or is 0, it is not below
  nano, and a binary number is below the cap.
\<close>

definition printable :: "Quantity \<Rightarrow> bool" where
  "printable q =
     (case canonical q of (n, b, e, f) \<Rightarrow>
        (e = 0 \<or> constructBytes b e f \<noteq> None) \<and> - 9 \<le> e \<and> e < 2 ^ 31 \<and>
        (b = 2 \<longrightarrow> \<bar>n\<bar> * 2 ^ nat e < 2 ^ 63))"

lemma show_int_not_zero: "n \<noteq> 0 \<Longrightarrow> show_int n @ s \<noteq> [] \<and> show_int n @ s \<noteq> ''0''"
  using hd_show_nat_zero [of "nat \<bar>n\<bar>"]
  by (cases "show_nat (nat \<bar>n\<bar>)") (auto simp: show_int_def)

lemma ParseQuantity_show:
  assumes "n \<noteq> 0" and "same_suffix b e s" and "b = 2 \<longrightarrow> \<bar>n\<bar> * 2 ^ nat e < 2 ^ 63"
  shows "\<exists>q. ParseQuantity (show_int n @ s) = Inr q \<and> qval q = of_int n * of_int b powi e"
proof -
  obtain b' e' f' where i: "interpret_suffix s = Some (b', e', f')"
    and v: "(of_int b' powi e' :: rat) = of_int b powi e"
    and k: "b' = 10 \<and> f' \<noteq> BinarySI \<and> - 9 \<le> e' \<and> e' < 2 ^ 31 \<or>
      b' = 2 \<and> b = 2 \<and> e' = e \<and> f' = BinarySI \<and> 0 \<le> e' \<and> e' \<le> 60"
    and s: "suffix_text s"
    using assms(2) by (auto simp: same_suffix_def split: option.splits)
  let ?small = "parse_small (0 \<le> n) (show_nat (nat \<bar>n\<bar>)) [] e' f'"
  have "\<exists>q. r = Inr q \<and> qval q = of_int n * of_int b' powi e'" if "?small = Some r" for r
    using k parse_small_decimal [of n e' f' r] parse_small_binary [of n e' r] that by auto
  moreover have "\<exists>q. parse_decimal (show_int n) b' e' f' = Inr q \<and> qval q = of_int n * of_int b' powi e'"
    using k assms(3) by (intro parse_decimal_value) auto
  moreover have "ParseQuantity (show_int n @ s) =
      (case ?small of Some result \<Rightarrow> result | None \<Rightarrow> parse_decimal (show_int n) b' e' f')"
    using show_int_not_zero [OF assms(1), of s] scan_canonical [OF assms(1) s] i
    by (simp add: ParseQuantity_def del: append_is_Nil_conv)
  ultimately show ?thesis
    unfolding v [symmetric] by (cases ?small) auto
qed

lemma printable_round_trip:
  assumes "quantity_ok q" and "printable q"
  shows "\<exists>q'. ParseQuantity (Quantity_String q) = Inr q' \<and> qval q' = qval q"
proof (cases "Quantity_IsZero q")
  case True
  then show ?thesis
    by (simp add: Quantity_IsZero_iff Quantity_String_def CanonicalizeBytes_def ParseQuantity_def)
      (simp add: qval_def aval_def)
next
  case False
  obtain n b e f where c: "canonical q = (n, b, e, f)"
    by (metis prod_cases4)
  note v = canonical_value [OF c assms(1)]
  have n: "n \<noteq> 0"
  proof
    assume "n = 0"
    with v(1) have "qval q = 0" by simp
    with False show False by (simp only: Quantity_IsZero_iff)
  qed
  define s where "s = (case constructBytes b e f of None \<Rightarrow> [] | Some s \<Rightarrow> s)"
  have "Quantity_String q = show_int n @ s"
    using False c by (simp add: Quantity_String_def CanonicalizeBytes_def s_def)
  moreover have "constructBytes b e f = Some s \<or> e = 0 \<and> s = []" "- 9 \<le> e" "e < 2 ^ 31"
    using assms(2) c by (cases "constructBytes b e f"; simp add: printable_def s_def)+
  then have "same_suffix b e s"
    using v(2) by (intro constructBytes_read) auto
  ultimately show ?thesis
    using ParseQuantity_show [OF n, of b e s] assms(2) v(1) c by (simp add: printable_def)
qed

section \<open>Which quantities those are\<close>

lemma remove_loop_minimal:
  "remove_loop b r k = (r', k') \<Longrightarrow> 1 < b \<Longrightarrow> 0 < r \<Longrightarrow> \<not> b dvd r'"
proof (induction b r k rule: remove_loop.induct)
  case (1 b r k)
  show ?case
  proof (cases "b \<le> r \<and> r mod b = 0")
    case True
    then have "0 < r div b"
      using 1(3) by (simp add: pos_imp_zdiv_pos_iff)
    with 1 True show ?thesis
      by (subst (asm) (2) remove_loop.simps) simp
  next
    case False
    then have "r' = r" "r < b \<or> r mod b \<noteq> 0"
      using 1 by (subst (asm) (2) remove_loop.simps; auto)+
    then show ?thesis
      using 1(4) by (auto dest: zdvd_imp_le)
  qed
qed

lemma removeInt64Factors_minimal:
  assumes "removeInt64Factors v 10 = (r, k)" and "int64 v" and "v \<noteq> 0"
  shows "\<not> 10 dvd r"
proof (cases "v = - (2 ^ 63)")
  case True
  have "removeInt64Factors (- (2 ^ 63)) 10 = (- (2 ^ 63), 0)"
    by code_simp
  with True assms(1) have "r = - (2 ^ 63)" by simp
  then show ?thesis by simp
next
  case False
  then have a: "wrap64 (- v) = - v" "int64 \<bar>v\<bar>"
    using assms(2) by (auto simp: int64_def abs_if)
  have e: "(if v < 0 then wrap64 (- v) else v) = \<bar>v\<bar>"
    using a(1) by simp
  obtain r' where l: "remove_loop 10 \<bar>v\<bar> 0 = (r', k)" and r: "r = (if v < 0 then wrap64 (- r') else r')"
    using assms(1) by (auto simp: removeInt64Factors_def Let_def e split: prod.splits if_splits)
  have "0 \<le> r'" "r' \<le> \<bar>v\<bar>"
    using remove_loop_value [OF l] by auto
  then have "int64 (- r')"
    using a(2) by (simp add: int64_def)
  then have "r = r' \<or> r = - r'"
    using r by simp
  then show ?thesis
    using remove_loop_minimal [OF l] assms(3) by auto
qed

lemma remove_big_loop_minimal:
  "remove_big_loop b d k = (d', k') \<Longrightarrow> 1 < b \<Longrightarrow> d \<noteq> 0 \<Longrightarrow> \<not> b dvd d'"
proof (induction b d k rule: remove_big_loop.induct)
  case (1 b d k)
  show ?case
  proof (cases "d mod b = 0")
    case True
    then have "d div b \<noteq> 0"
      using 1(4) by auto
    with 1 True show ?thesis
      by (subst (asm) (2) remove_big_loop.simps) simp
  next
    case False
    then show ?thesis
      using 1 by (subst (asm) (2) remove_big_loop.simps) auto
  qed
qed

lemma lower_exponent_steps:
  "lower_exponent a e = (a', e') \<Longrightarrow> a' = a * 10 ^ nat (e mod 3)"
proof (induction a e rule: lower_exponent.induct)
  case (1 a e)
  show ?case
  proof (cases "e smod 3 = 0")
    case True
    then show ?thesis
      using 1 by (subst (asm) (2) lower_exponent.simps) (simp add: smod_eq_0_iff dvd_eq_mod_eq_0)
  next
    case False
    then have "e mod 3 \<noteq> 0"
      by (simp add: smod_eq_0_iff dvd_eq_mod_eq_0)
    then have "e mod 3 = (e - 1) mod 3 + 1" "0 \<le> (e - 1) mod 3"
      by presburger+
    then have "nat (e mod 3) = Suc (nat ((e - 1) mod 3))"
      by simp
    moreover have "lower_exponent (a * 10) (e - 1) = (a', e')"
      using False 1(2) by (subst (asm) lower_exponent.simps) simp
    ultimately show ?thesis
      using 1(1) [OF False] by simp
  qed
qed

lemma few_factors:
  fixes r :: int
  assumes "\<not> 10 dvd r" and "j \<le> 2"
  shows "\<not> 1000 dvd r * 10 ^ j"
proof
  assume d: "1000 dvd r * 10 ^ j"
  obtain k where k: "2 = j + k"
    using le_Suc_ex [OF assms(2)] by blast
  have e: "(10 ^ k * 10) * 10 ^ j = (10 :: int) ^ (2 + 1)"
    unfolding k by (simp add: power_add)
  have "(10 ^ k * 10) * 10 ^ j dvd r * 10 ^ j"
    unfolding e using d by simp
  then have "10 ^ k * 10 dvd r"
    by (simp only: dvd_mult_cancel_right) simp
  then show False
    using assms(1) dvd_mult_right by blast
qed

lemma Dec_AsCanonical_minimal:
  assumes "Dec_AsCanonical d = (n, e)" and "unscaled d \<noteq> 0"
  shows "\<not> 1000 dvd n"
proof -
  obtain r k where f: "removeBigIntFactors (unscaled d) 10 = (r, k)" by force
  then have "\<not> 10 dvd r"
    using assms(2) remove_big_loop_minimal by (simp add: removeBigIntFactors_def)
  moreover have "lower_exponent r (- dscale d + k) = (n, e)"
    using assms(1) f by (simp add: Dec_AsCanonical_def)
  then have "n = r * 10 ^ nat ((- dscale d + k) mod 3)"
    by (rule lower_exponent_steps)
  moreover have "nat ((- dscale d + k) mod 3) \<le> 2"
    using pos_mod_bound [of 3 "- dscale d + k"] by linarith
  ultimately show ?thesis
    using few_factors by blast
qed

lemma int64Amount_AsCanonical_minimal:
  assumes "int64Amount_AsCanonical a = (n, e)" and "int64 (ivalue a)" and "ivalue a \<noteq> 0"
  shows "\<not> 1000 dvd n"
proof -
  obtain r k where f: "removeInt64Factors (ivalue a) 10 = (r, k)" by force
  have r: "int64 r" "\<not> 10 dvd r"
    using removeInt64Factors_value [OF f assms(2)] removeInt64Factors_minimal [OF f assms(2,3)] by simp_all
  have m: "exact_product (int64MultiplyScale10 r) (r * 10)" "exact_product (int64MultiplyScale100 r) (r * 100)"
    using int64MultiplyScale_exact [of r 10] int64MultiplyScale_exact [of r 100] r(1)
    by (simp_all add: int64MultiplyScale_constants int64_def)
  have "unscaled (int64Amount_AsDec a) \<noteq> 0"
    using assms(3) by (simp add: int64Amount_AsDec_def)
  then have "Dec_AsCanonical (int64Amount_AsDec a) = (n, e) \<Longrightarrow> ?thesis"
    by (rule Dec_AsCanonical_minimal [rotated])
  moreover have "n = r \<or> n = r * 10 \<or> n = r * 100 \<or> Dec_AsCanonical (int64Amount_AsDec a) = (n, e)"
    using assms(1) m by (auto simp: int64Amount_AsCanonical_def f Let_def exact_product_def split: prod.splits if_splits)
  ultimately show ?thesis
    using few_factors [OF r(2), of 0] few_factors [OF r(2), of 1] few_factors [OF r(2), of 2] by auto
qed

lemma Quantity_AsCanonical_minimal:
  assumes "Quantity_AsCanonical q = (n, e)" and "quantity_ok q" and "qval q \<noteq> 0"
  shows "\<not> 1000 dvd n"
proof (cases "qd q")
  case None
  with assms show ?thesis
    by (intro int64Amount_AsCanonical_minimal [of "qi q"])
      (auto simp: Quantity_AsCanonical_def quantity_ok_def qval_def aval_def)
next
  case (Some d)
  with assms show ?thesis
    by (intro Dec_AsCanonical_minimal [of d]) (auto simp: Quantity_AsCanonical_def qval_def dval_def)
qed

text \<open>Numbers below the cap, in whole nano units.\<close>

lemma powi_less_bound:
  fixes b :: int
  assumes "\<bar>of_int n * of_int b powi e\<bar> < (of_int b ^ m :: rat)" and "n \<noteq> 0" and "1 < b"
  shows "e < int m"
proof (rule ccontr)
  assume "\<not> e < int m"
  then have "(of_int b ^ m :: rat) \<le> of_int b powi e"
    using assms(3) power_int_increasing [of "int m" e "of_int b :: rat"] by simp
  also have "\<dots> \<le> \<bar>of_int n\<bar> * of_int b powi e"
    using assms(2,3) mult_right_mono [of 1 "\<bar>of_int n\<bar> :: rat" "of_int b powi e"] by simp
  also have "\<dots> = \<bar>of_int n * of_int b powi e\<bar>"
    using assms(3) by (simp add: abs_mult)
  finally show False
    using assms(1) by simp
qed

lemma nano_multiple:
  assumes "of_int n * 10 powi e * 10 ^ 9 \<in> (\<int> :: rat set)" and "e \<le> - 12"
  shows "1000 dvd n"
proof -
  obtain m where m: "of_int n * 10 powi e * 10 ^ 9 = (of_int m :: rat)"
    using assms(1) by (auto elim: Ints_cases)
  have "(10 :: rat) powi e * 10 ^ 9 = 10 powi (e + 9)"
    by (subst power_int_add) simp_all
  then have "(of_int n :: rat) * 10 powi (e + 9) = of_int m"
    using m by (simp add: mult.assoc)
  moreover have "(10 :: rat) powi (e + 9) * 10 powi (- (e + 9)) = 1"
    by (simp only: power_int_minus) simp
  ultimately have "(of_int n :: rat) = of_int m * 10 powi (- (e + 9))"
    by (metis mult.assoc mult.right_neutral)
  also have "\<dots> = of_int (m * 10 ^ nat (- (e + 9)))"
    using assms(2) by (simp add: power_int_nonneg_exp)
  finally have "n = m * 10 ^ nat (- (e + 9))"
    by (simp only: of_int_eq_iff)
  moreover have "(10 :: int) ^ 3 dvd 10 ^ nat (- (e + 9))"
    using assms(2) by (intro le_imp_power_dvd) linarith
  ultimately show ?thesis by simp
qed

lemma within_range_printable:
  assumes "quantity_ok q" and "\<bar>qval q\<bar> < 2 ^ 63" and "qval q * 10 ^ 9 \<in> \<int>" and "qval q \<noteq> 0"
  shows "printable q"
proof -
  obtain n b e f where c: "canonical q = (n, b, e, f)"
    by (metis prod_cases4)
  note v = canonical_value [OF c assms(1)]
  have n: "n \<noteq> 0"
    using v(1) assms(4) by auto
  from v(2) show ?thesis
  proof (elim disjE conjE)
    assume b: "b = 10" and e: "3 dvd e" and f: "f \<in> {DecimalSI, DecimalExponent}"
    have "\<bar>of_int n * of_int 10 powi e\<bar> < (of_int 10 ^ 19 :: rat)"
      using v(1) b assms(2) by simp
    then have "e < 19"
      using powi_less_bound [of n 10 e 19] n by simp
    have "Quantity_AsCanonical q = (n, e)"
      using c b by (auto simp: canonical_def Let_def split: if_splits prod.splits)
    then have "\<not> 1000 dvd n"
      using assms(1,4) by (rule Quantity_AsCanonical_minimal)
    then have "\<not> e \<le> - 12"
      using nano_multiple [of n e] v(1) b assms(3) by auto
    with \<open>e < 19\<close> e have "e \<in> {- 9, - 6, - 3, 0, 3, 6, 9, 12, 15, 18}"
      unfolding insert_iff empty_iff by presburger
    then show ?thesis
      using b f formats_differ by (auto simp: printable_def c constructBytes_def decSuffixes_def)
  next
    assume b: "b = 2" and e: "10 dvd e" "0 \<le> e" and f: "f = BinarySI"
    have "\<bar>of_int n * of_int 2 powi e\<bar> < (of_int 2 ^ 63 :: rat)"
      using v(1) b assms(2) by simp
    then have "e < 63"
      using powi_less_bound [of n 2 e 63] n by simp
    with e have "e \<in> {0, 10, 20, 30, 40, 50, 60}"
      unfolding insert_iff empty_iff by presburger
    moreover have "(of_int (\<bar>n\<bar> * 2 ^ nat e) :: rat) < of_int (2 ^ 63)"
      using v(1) b e assms(2) by (simp add: power_int_nonneg_exp abs_mult flip: v(1))
    then have "\<bar>n\<bar> * 2 ^ nat e < 2 ^ 63"
      by (simp only: of_int_less_iff)
    ultimately show ?thesis
      using b f formats_differ by (auto simp: printable_def c constructBytes_def binSuffixes_def)
  qed
qed

lemma quantity_round_trip:
  assumes "quantity_ok q" and "\<bar>qval q\<bar> < 2 ^ 63" and "qval q * 10 ^ 9 \<in> \<int>"
  shows "\<exists>q'. ParseQuantity (Quantity_String q) = Inr q' \<and> qval q' = qval q"
proof (cases "qval q = 0")
  case True
  then show ?thesis
    by (simp add: Quantity_String_def CanonicalizeBytes_def Quantity_IsZero_iff ParseQuantity_def)
      (simp add: qval_def aval_def)
next
  case False
  then show ?thesis
    using printable_round_trip within_range_printable assms by blast
qed

text \<open>C40: what \<open>String\<close> prints of a quantity, \<open>ParseQuantity\<close> reads as the same number, whatever the
  representation (scaled integer or decimal) and the format, for every quantity in the range the
  package documents: a magnitude below 2^63 and no fraction of a nano unit.\<close>

theorem quantity_text_round_trip:
  assumes "quantity_ok q" and "\<bar>qval q\<bar> < 2 ^ 63" and "qval q * 10 ^ 9 \<in> \<int>"
  shows "\<exists>q'. ParseQuantity (Quantity_String q) = Inr q' \<and> qval q' = qval q"
  using assms by (rule quantity_round_trip)

theorem quantity_text_round_trip_witness:
  "\<exists>q'. ParseQuantity (Quantity_String \<lparr>qi = \<lparr>ivalue = 1536, iscale = 0\<rparr>, qd = None, Format = BinarySI\<rparr>) = Inr q' \<and>
     qval q' = 1536"
  using quantity_text_round_trip [of "\<lparr>qi = \<lparr>ivalue = 1536, iscale = 0\<rparr>, qd = None, Format = BinarySI\<rparr>"]
  by (simp add: quantity_ok_def qval_def aval_def int64_def)

text \<open>
  Two places where the package does not do what the comment of the type \<open>Quantity\<close> says: a number
  above the cap with a decimal suffix is kept, and since \<open>10^21\<close> has no suffix its text is that
  of 1; a number below milli is not rounded up to milli.
\<close>

lemma large_quantity_text:
  "ParseQuantity ''1000E'' = Inr \<lparr>qi = \<lparr>ivalue = 1000, iscale = 18\<rparr>, qd = None, Format = DecimalSI\<rparr> \<and>
   Quantity_String \<lparr>qi = \<lparr>ivalue = 1000, iscale = 18\<rparr>, qd = None, Format = DecimalSI\<rparr> = ''1''"
  by code_simp

lemma small_quantity_text:
  "ParseQuantity ''0.1m'' = Inr \<lparr>qi = \<lparr>ivalue = 1, iscale = - 4\<rparr>, qd = None, Format = DecimalSI\<rparr> \<and>
   Quantity_String \<lparr>qi = \<lparr>ivalue = 1, iscale = - 4\<rparr>, qd = None, Format = DecimalSI\<rparr> = ''100u''"
  by code_simp

end
