(* ===== verification/Report_Print.thy ===== *)
theory Report_Print
  imports Labels Report Quantity_Parse
begin

text \<open>
  The printing functions of \<open>pkg/framework/report.go\<close>. What a call writes to standard output
  is its result. The JSON and YAML encoders are arguments (\<open>json\<close>, \<open>yaml\<close>).
\<close>

definition show_map :: "int dict \<Rightarrow> string" where
  "show_map m = ''map['' @ join '' '' (map (\<lambda>(k, v). k @ '':'' @ show_int v) (entries m)) @ '']''"

abbreviation nl :: string where
  "nl \<equiv> [newline]"

abbreviation tab :: string where
  "tab \<equiv> [CHR 9]"

definition print_requirements :: "Requirements \<Rightarrow> string" where
  "print_requirements req =
     (let primary = PrimaryResources (ReqResources req) in
      ReqPodName req @ '' pod requirements:'' @ nl @
      tab @ ''- CPU: '' @ Quantity_String (list_quantity primary ResourceCPU DecimalSI) @ nl @
      tab @ ''- Memory: '' @ Quantity_String (list_quantity primary ResourceMemory BinarySI) @ nl @
      (case ScalarResources (ReqResources req) of None \<Rightarrow> []
       | Some m \<Rightarrow> tab @ ''- ScalarResources: '' @ show_map m @ nl) @
      (case ReqNodeSelectors req of None \<Rightarrow> []
       | Some m \<Rightarrow> tab @ ''- NodeSelector: '' @ SelectorString (entries m) @ nl) @
      nl)"

definition print_instances :: "bool \<Rightarrow> ReviewResult \<Rightarrow> string" where
  "print_instances verbose pod =
     (let n = show_int (instancesSum (ReplicasOnNodes pod)) in
      if verbose
      then ''The cluster can schedule '' @ n @ '' instance(s) of the pod '' @ PodName pod @ ''.'' @ nl
      else n @ nl)"

definition print_fail_summary :: "ReviewResult \<Rightarrow> string" where
  "print_fail_summary pod =
     (case FailSummary pod of None \<Rightarrow> []
      | Some summary \<Rightarrow> ''fit failure summary on nodes: '' @
          concat (map (\<lambda>fs. SummaryReason fs @ '' ('' @ show_int (SummaryCount fs) @ ''), '') summary) @ nl)"

definition print_distribution :: "ReviewResult \<Rightarrow> string" where
  "print_distribution pod =
     PodName pod @ nl @
     concat (map (\<lambda>ron. tab @ ''- '' @ RonNode ron @ '': '' @ show_int (RonReplicas ron) @
         '' instance(s)'' @ nl) (ReplicasOnNodes pod))"

definition clusterCapacityReviewPrettyPrint :: "ClusterCapacityReview \<Rightarrow> bool \<Rightarrow> string" where
  "clusterCapacityReviewPrettyPrint r verbose =
     (let st = ReviewStatusOf r in
      (if verbose then concat (map print_requirements (PodRequirements (ReviewSpecOf r))) else []) @
      concat (map (print_instances verbose) (StatusPods st)) @
      (if verbose then nl @ ''Termination reason: '' @ FailType (FailReason st) @ '': '' @
         FailMessage (FailReason st) @ nl else []) @
      (if verbose \<and> 0 < StatusReplicas st
       then concat (map print_fail_summary (StatusPods st)) @
         nl @ ''Pod distribution among nodes:'' @ nl @
         concat (map print_distribution (StatusPods st))
       else []))"

definition clusterCapacityReviewPrintJson ::
  "(ClusterCapacityReview \<Rightarrow> go_error + string) \<Rightarrow> ClusterCapacityReview \<Rightarrow> go_error + string" where
  "clusterCapacityReviewPrintJson json r =
     (case json r of Inl err \<Rightarrow> Inl (Errorf ''Failed to create json'' err) | Inr s \<Rightarrow> Inr (s @ nl))"

definition clusterCapacityReviewPrintYaml ::
  "(ClusterCapacityReview \<Rightarrow> go_error + string) \<Rightarrow> ClusterCapacityReview \<Rightarrow> go_error + string" where
  "clusterCapacityReviewPrintYaml yaml r =
     (case yaml r of Inl err \<Rightarrow> Inl (Errorf ''Failed to create yaml'' err) | Inr s \<Rightarrow> Inr s)"

record printers =
  json :: "ClusterCapacityReview \<Rightarrow> go_error + string"
  yaml :: "ClusterCapacityReview \<Rightarrow> go_error + string"

definition ClusterCapacityReviewPrint ::
  "printers \<Rightarrow> ClusterCapacityReview \<Rightarrow> bool \<Rightarrow> string \<Rightarrow> go_error + string" where
  "ClusterCapacityReviewPrint pr r verbose format =
     (if format = ''json'' then clusterCapacityReviewPrintJson (json pr) r
      else if format = ''yaml'' then clusterCapacityReviewPrintYaml (yaml pr) r
      else if format = '''' then Inr (clusterCapacityReviewPrettyPrint r verbose)
      else Inl (Err (''output format '' @ go_quote format @ '' not recognized'')))"

section \<open>What is printed of a report\<close>

text \<open>Numbers can be read back.\<close>

lemma digit_not_minus: "d < 10 \<Longrightarrow> digit_char d \<noteq> CHR ''-''"
  using of_char_digit_char [of d] by fastforce

lemma show_nat_no_sign: "hd (show_nat n) \<noteq> CHR ''-''"
  using set_show_nat [of n] hd_in_set [of "show_nat n"] digit_not_minus by fastforce

lemma show_int_inject [simp]: "show_int i = show_int j \<longleftrightarrow> i = j"
proof
  have *: "CHR ''-'' # t \<noteq> show_nat n" for t n
    using show_nat_no_sign [of n] by (metis list.sel(1))
  show "show_int i = show_int j \<Longrightarrow> i = j"
    using * * [symmetric] by (auto simp: show_int_def split: if_splits)
qed simp

text \<open>The terse form of a report with one template is the number of its instances.\<close>

lemma print_one_template:
  "StatusPods (ReviewStatusOf r) = [x] \<Longrightarrow>
     clusterCapacityReviewPrettyPrint r False = show_int (instancesSum (ReplicasOnNodes x)) @ nl"
  by (simp add: clusterCapacityReviewPrettyPrint_def print_instances_def Let_def)

text \<open>C32:
  The verbose report of an analysis of one template: its requirements, the number of instances,
  the reason the analysis stopped and, when the 32-bit count of replicas is positive, for each
  node in the order of first use the number of pods bound to it. The summary of failures that
  the code would print between the last two never appears.\<close>

theorem verbose_report:
  assumes "getMainFailReason (StopReason status) = Inr \<lparr>FailType = ty, FailMessage = msg\<rparr>"
  defines "nodes \<equiv> map pod_node (Pods status)"
  shows "map_sum id (\<lambda>r. clusterCapacityReviewPrettyPrint r True) (GetReport now [t] status) = Inr
    (concat (map print_requirements (getPodsRequirements [t])) @
     ''The cluster can schedule '' @ show_int (int (length (Pods status))) @
     '' instance(s) of the pod '' @ pod_name t @ ''.'' @ nl @
     nl @ ''Termination reason: '' @ ty @ '': '' @ msg @ nl @
     (if 0 < wrap32 (int (length (Pods status)))
      then nl @ ''Pod distribution among nodes:'' @ nl @ pod_name t @ nl @
        concat (map (\<lambda>n. tab @ ''- '' @ n @ '': '' @ show_int (int (count_list nodes n)) @ '' instance(s)'' @ nl)
          (first_uses nodes))
      else []))"
proof -
  have d: "concat (map (\<lambda>ron. tab @ ''- '' @ RonNode ron @ '': '' @ show_int (RonReplicas ron) @ '' instance(s)'' @ nl)
      (tally nodes)) =
    concat (map (\<lambda>n. tab @ ''- '' @ n @ '': '' @ show_int (int (count_list nodes n)) @ '' instance(s)'' @ nl)
      (first_uses nodes))"
    by (simp add: tally_def comp_def)
  show ?thesis
    unfolding GetReport_one_template [OF assms(1)] nodes_def [symmetric] clusterCapacityReviewPrettyPrint_def
      print_instances_def print_fail_summary_def print_distribution_def getReviewSpec_def
    by (simp add: Let_def instancesSum_tally nodes_def d [unfolded nodes_def, simplified])
qed

theorem verbose_report_witness:
  "map_sum id (\<lambda>r. clusterCapacityReviewPrettyPrint r True)
     (GetReport 0 [bound_to []]
       \<lparr>Pods = map bound_to [''a'', ''b'', ''a''], StopReason = ''LimitReached: Maximum''\<rparr>) = Inr
    (concat (map print_requirements (getPodsRequirements [bound_to []])) @
     ''The cluster can schedule 3 instance(s) of the pod p.'' @ nl @
     nl @ ''Termination reason: LimitReached: Maximum'' @ nl @
     nl @ ''Pod distribution among nodes:'' @ nl @ ''p'' @ nl @
     tab @ ''- a: 2 instance(s)'' @ nl @ tab @ ''- b: 1 instance(s)'' @ nl)"
proof -
  let ?status = "\<lparr>Pods = map bound_to [''a'', ''b'', ''a''], StopReason = ''LimitReached: Maximum''\<rparr>"
  have "getMainFailReason (StopReason ?status) = Inr \<lparr>FailType = ''LimitReached'', FailMessage = ''Maximum''\<rparr>"
    by code_simp
  moreover have "show_int 3 = ''3''" "show_int 2 = ''2''" "show_int 1 = ''1''" "wrap32 3 = 3"
    by code_simp+
  moreover have "first_uses [''a'', ''b'', ''a''] = [''a'', ''b'']"
    by (simp add: first_uses_def)
  ultimately show ?thesis
    using verbose_report [of ?status "''LimitReached''" "''Maximum''" 0 "bound_to []"]
    by (simp add: bound_to_def comp_def)
qed

section \<open>The printed requirements\<close>

lemma primary_quantities:
  assumes "\<forall>(n, q) \<in> set (all_requests pod). quantity_ok q" and "name \<in> {ResourceCPU, ResourceMemory}"
  shows "quantity_ok (list_quantity (PrimaryResources (getResourceRequest pod)) name format)"
    and "qval (list_quantity (PrimaryResources (getResourceRequest pod)) name format) =
      requested name (all_requests pod)"
proof -
  have "resources_ok (getResourceRequest pod)"
    using fold_add_request [OF resources_ok_initial assms] by (simp add: getResourceRequest_fold)
  then obtain q where q: "PrimaryResources (getResourceRequest pod) name = Some q" "quantity_ok q"
    using assms(2) by (auto simp: resources_ok_def)
  then show "quantity_ok (list_quantity (PrimaryResources (getResourceRequest pod)) name format)"
    by (simp add: list_quantity_def)
  show "qval (list_quantity (PrimaryResources (getResourceRequest pod)) name format) =
      requested name (all_requests pod)"
    using request_amounts [OF assms] q(1) by (simp add: list_quantity_def)
qed

text \<open>C33: The two amounts a verbose report prints for a template, cpu and memory, are texts that
  \<open>ParseQuantity\<close> reads as the exact sums requested by the containers, when these are below
  2^63 and in whole nano units.\<close>

theorem printed_requirements_exact:
  assumes "\<forall>(n, q) \<in> set (all_requests pod). quantity_ok q"
    and "\<forall>name \<in> {ResourceCPU, ResourceMemory}.
      \<bar>requested name (all_requests pod)\<bar> < 2 ^ 63 \<and> requested name (all_requests pod) * 10 ^ 9 \<in> \<int>"
  shows "\<exists>cpu memory rest c m.
    concat (map print_requirements (getPodsRequirements [pod])) =
      pod_name pod @ '' pod requirements:'' @ nl @
      tab @ ''- CPU: '' @ cpu @ nl @ tab @ ''- Memory: '' @ memory @ nl @ rest \<and>
    ParseQuantity cpu = Inr c \<and> qval c = requested ResourceCPU (all_requests pod) \<and>
    ParseQuantity memory = Inr m \<and> qval m = requested ResourceMemory (all_requests pod)"
proof -
  let ?text = "\<lambda>name format. Quantity_String (list_quantity (PrimaryResources (getResourceRequest pod)) name format)"
  have read: "\<exists>q. ParseQuantity (?text name format) = Inr q \<and> qval q = requested name (all_requests pod)"
    if "name \<in> {ResourceCPU, ResourceMemory}" for name format
    using quantity_round_trip [of "list_quantity (PrimaryResources (getResourceRequest pod)) name format"]
      primary_quantities [OF assms(1) that, of format] assms(2) that by auto
  show ?thesis
    using read [of ResourceCPU DecimalSI] read [of ResourceMemory BinarySI]
    by (auto simp: getPodsRequirements_def print_requirements_def Let_def)
qed

theorem printed_requirements_exact_witness:
  "\<exists>cpu memory rest c m.
    concat (map print_requirements (getPodsRequirements [bound_to ''a''])) =
      ''p'' @ '' pod requirements:'' @ nl @
      tab @ ''- CPU: '' @ cpu @ nl @ tab @ ''- Memory: '' @ memory @ nl @ rest \<and>
    ParseQuantity cpu = Inr c \<and> qval c = requested ResourceCPU (all_requests (bound_to ''a'')) \<and>
    ParseQuantity memory = Inr m \<and> qval m = requested ResourceMemory (all_requests (bound_to ''a''))"
proof -
  have "pod_name (bound_to ''a'') = ''p''"
    by (simp add: bound_to_def)
  then show ?thesis
    using printed_requirements_exact [of "bound_to ''a''"]
    by (simp add: all_requests_def bound_to_def quantity_ok_def NewMilliQuantity_def NewQuantity_def int64_def
        requested_def qval_def aval_def)
qed

end
