(* ===== verification/Version.thy ===== *)
theory Version
  imports Regex
begin

text \<open>
  \<open>pkg/version/version.go\<close>: the version information of a build. The variables set by the
  linker and the values of package \<open>runtime\<close> are the arguments of \<open>Get\<close>; an index into the
  pieces of a split is checked, as Go does.
\<close>

record Info =
  Major :: string
  Minor :: string
  GitVersion :: string
  GitBranch :: string
  GitSha1 :: string
  BuildDate :: string
  GoVersion :: string
  Compiler :: string
  Platform :: string

definition digits :: "char list" where
  "digits = ''0123456789''"

definition word_chars :: "char list" where
  "word_chars = digits @ ''ABCDEFGHIJKLMNOPQRSTUVWXYZabcdefghijklmnopqrstuvwxyz_''"

abbreviation numbers :: rexp where
  "numbers \<equiv> Plus (Class digits)"

abbreviation date :: rexp where
  "date \<equiv> Repeat 8 (Class digits)"

definition tag_regex :: rexp where
  "tag_regex = Cat [Lit ''v'', date, Lit ''-v'', numbers, Lit ''.'', numbers, Lit ''.'', numbers]"

definition dirty_regex :: rexp where
  "dirty_regex = Cat [Lit ''v'', date, Lit ''-v'', numbers, Lit ''.'', numbers, Lit ''.'', numbers,
     Lit ''-'', Plus (Class word_chars), Lit ''-'', Plus (Class word_chars)]"

definition helm_regex :: rexp where
  "helm_regex = Cat [Lit ''v'', date, Lit ''-descheduler-helm-chart-'',
     numbers, Lit ''.'', numbers, Lit ''.'', numbers]"

definition helm_dirty_regex :: rexp where
  "helm_dirty_regex = Cat [Lit ''v'', date, Lit ''-descheduler-helm-chart-'',
     numbers, Lit ''.'', numbers, Lit ''.'', numbers,
     Lit ''-'', Plus (Class word_chars), Lit ''-'', Plus (Class word_chars)]"

definition splitVersion :: "string \<Rightarrow> panic + string \<times> string" where
  "splitVersion version =
     (if version = [] then Inr ([], [])
      else if MatchString tag_regex version \<or> MatchString dirty_regex version then
        (case index (split_char (CHR ''-'') version) 1 of Inl p \<Rightarrow> Inl p | Inr semVer \<Rightarrow>
         (case index (split_char (CHR ''.'') semVer) 0 of Inl p \<Rightarrow> Inl p | Inr major \<Rightarrow>
          (case index (split_char (CHR ''.'') semVer) 1 of Inl p \<Rightarrow> Inl p | Inr minor \<Rightarrow>
           (case index (split_char (CHR ''.'') semVer) 2 of Inl p \<Rightarrow> Inl p | Inr patch \<Rightarrow>
            Inr (trim_char (CHR ''v'') major, minor @ ''.'' @ patch)))))
      else if MatchString helm_regex version \<or> MatchString helm_dirty_regex version then
        (case index (split_char (CHR ''-'') version) 4 of Inl p \<Rightarrow> Inl p | Inr semVer \<Rightarrow>
         (case index (split_char (CHR ''.'') semVer) 0 of Inl p \<Rightarrow> Inl p | Inr major \<Rightarrow>
          (case index (split_char (CHR ''.'') semVer) 1 of Inl p \<Rightarrow> Inl p | Inr minor \<Rightarrow>
           (case index (split_char (CHR ''.'') semVer) 2 of Inl p \<Rightarrow> Inl p | Inr patch \<Rightarrow>
            Inr (major, minor @ ''.'' @ patch)))))
      else Inr ([], []))"

definition Get ::
  "string \<Rightarrow> string \<Rightarrow> string \<Rightarrow> string \<Rightarrow> string \<Rightarrow> string \<Rightarrow> string \<Rightarrow> string \<Rightarrow> panic + Info" where
  "Get version gitbranch gitsha1 buildDate goVersion compiler goos goarch =
     (case splitVersion version of Inl p \<Rightarrow> Inl p | Inr (majorVersion, minorVersion) \<Rightarrow>
      Inr \<lparr>Major = majorVersion, Minor = minorVersion, GitVersion = version, GitBranch = gitbranch,
           GitSha1 = gitsha1, BuildDate = buildDate, GoVersion = goVersion, Compiler = compiler,
           Platform = goos @ ''/'' @ goarch\<rparr>)"

section \<open>The four forms of a version\<close>

definition number :: "string \<Rightarrow> bool" where
  "number s \<longleftrightarrow> s \<noteq> [] \<and> set s \<subseteq> set digits"

text \<open>What may follow the version proper: nothing, or two words, each after a dash.\<close>

definition suffix :: "string \<Rightarrow> bool" where
  "suffix s \<longleftrightarrow> s = [] \<or> (\<exists>x y. s = ''-'' @ x @ ''-'' @ y \<and>
     x \<noteq> [] \<and> y \<noteq> [] \<and> set x \<subseteq> set word_chars \<and> set y \<subseteq> set word_chars)"

abbreviation release :: "string \<Rightarrow> string \<Rightarrow> string \<Rightarrow> string \<Rightarrow> string \<Rightarrow> bool" where
  "release d a b c t \<equiv> length d = 8 \<and> set d \<subseteq> set digits \<and> number a \<and> number b \<and> number c \<and> suffix t"

text \<open>The common parts of the four expressions.\<close>

lemma release_regex:
  "v \<in> lang (Cat [numbers, Lit ''.'', numbers, Lit ''.'', numbers]) \<longleftrightarrow>
     (\<exists>a b c. v = a @ ''.'' @ b @ ''.'' @ c \<and> number a \<and> number b \<and> number c)"
  unfolding mem_Cat_Lit mem_Cat lang_classes number_def lang_Lit singleton_iff by blast

lemma words_regex:
  "v \<in> lang (Cat [Lit ''-'', Plus (Class word_chars), Lit ''-'', Plus (Class word_chars)]) \<longleftrightarrow>
     (\<exists>x y. v = ''-'' @ x @ ''-'' @ y \<and> x \<noteq> [] \<and> y \<noteq> [] \<and>
        set x \<subseteq> set word_chars \<and> set y \<subseteq> set word_chars)"
  unfolding mem_Cat_Lit mem_Cat lang_classes lang_Lit singleton_iff by blast

lemma prefix_regex:
  "v \<in> lang (Cat [Lit ''v'', date, Lit s]) \<longleftrightarrow>
     (\<exists>d. v = ''v'' @ d @ s \<and> length d = 8 \<and> set d \<subseteq> set digits)"
  unfolding mem_Cat_Lit mem_Cat lang_classes lang_Lit singleton_iff by blast

lemma version_regex:
  "MatchString tag_regex v \<or> MatchString dirty_regex v \<longleftrightarrow>
     (\<exists>d a b c t. v = (''v'' @ d @ ''-v'') @ (a @ ''.'' @ b @ ''.'' @ c) @ t \<and> release d a b c t)"
  "MatchString helm_regex v \<or> MatchString helm_dirty_regex v \<longleftrightarrow>
     (\<exists>d a b c t. v = (''v'' @ d @ ''-descheduler-helm-chart-'') @ (a @ ''.'' @ b @ ''.'' @ c) @ t \<and> release d a b c t)"
proof -
  let ?n = "[numbers, Lit ''.'', numbers, Lit ''.'', numbers]"
  let ?w = "[Lit ''-'', Plus (Class word_chars), Lit ''-'', Plus (Class word_chars)]"
  have "v \<in> lang (Cat ([Lit ''v'', date, Lit s] @ ?n)) \<or> v \<in> lang (Cat ([Lit ''v'', date, Lit s] @ ?n @ ?w)) \<longleftrightarrow>
      (\<exists>d a b c t. v = (''v'' @ d @ s) @ (a @ ''.'' @ b @ ''.'' @ c) @ t \<and> release d a b c t)" for s
  proof -
    have 1: "v \<in> lang (Cat ([Lit ''v'', date, Lit s] @ ?n)) \<longleftrightarrow>
        (\<exists>d a b c. v = (''v'' @ d @ s) @ (a @ ''.'' @ b @ ''.'' @ c) @ [] \<and> release d a b c [])"
      unfolding Cat_append prefix_regex release_regex append_Nil2
      by (simp only: suffix_def simp_thms) blast
    have 2: "v \<in> lang (Cat ([Lit ''v'', date, Lit s] @ ?n @ ?w)) \<longleftrightarrow>
        (\<exists>d a b c x y. v = (''v'' @ d @ s) @ (a @ ''.'' @ b @ ''.'' @ c) @ (''-'' @ x @ ''-'' @ y) \<and>
          length d = 8 \<and> set d \<subseteq> set digits \<and> number a \<and> number b \<and> number c \<and>
          x \<noteq> [] \<and> y \<noteq> [] \<and> set x \<subseteq> set word_chars \<and> set y \<subseteq> set word_chars)"
      unfolding Cat_append prefix_regex release_regex words_regex by blast
    show ?thesis
      unfolding 1 2 suffix_def by blast
  qed
  from this [of "''-v''"] this [of "''-descheduler-helm-chart-''"] show
    "MatchString tag_regex v \<or> MatchString dirty_regex v \<longleftrightarrow>
     (\<exists>d a b c t. v = (''v'' @ d @ ''-v'') @ (a @ ''.'' @ b @ ''.'' @ c) @ t \<and> release d a b c t)"
    "MatchString helm_regex v \<or> MatchString helm_dirty_regex v \<longleftrightarrow>
     (\<exists>d a b c t. v = (''v'' @ d @ ''-descheduler-helm-chart-'') @ (a @ ''.'' @ b @ ''.'' @ c) @ t \<and> release d a b c t)"
    by (simp_all only: MatchString_lang tag_regex_def dirty_regex_def helm_regex_def helm_dirty_regex_def
        append_Cons append_Nil)
qed

section \<open>The pieces of a version\<close>

lemma digits_no_char: "number a \<Longrightarrow> c \<notin> set digits \<Longrightarrow> c \<notin> set a"
  by (auto simp: number_def)

lemma separators: "CHR ''-'' \<notin> set digits" "CHR ''.'' \<notin> set digits" "CHR ''v'' \<notin> set digits"
  "CHR ''.'' \<notin> set word_chars" "CHR ''-'' \<notin> set word_chars"
  by code_simp+

lemma split_release:
  assumes "number a" "number b" "number c"
  shows "split_char (CHR ''.'') (a @ ''.'' @ b @ ''.'' @ c) = [a, b, c]"
  using assms by (simp add: digits_no_char separators)

lemma split_suffix:
  assumes "suffix t" and "CHR ''-'' \<notin> set r"
  shows "\<exists>ts. split_char (CHR ''-'') (r @ t) = r # ts"
  using assms by (auto simp: suffix_def)

lemma release_no_dash:
  "number a \<Longrightarrow> number b \<Longrightarrow> number c \<Longrightarrow> CHR ''-'' \<notin> set (a @ ''.'' @ b @ ''.'' @ c)"
  by (auto simp: digits_no_char separators)

lemma trim_v: "number a \<Longrightarrow> trim_char (CHR ''v'') a = a"
  by (simp add: trim_char_absent digits_no_char separators)

lemma split_tag:
  assumes "release d a b c t"
  shows "\<exists>ts. split_char (CHR ''-'') ((''v'' @ d @ ''-v'') @ (a @ ''.'' @ b @ ''.'' @ c) @ t) =
    (''v'' @ d) # (''v'' @ a @ ''.'' @ b @ ''.'' @ c) # ts"
proof -
  have "CHR ''-'' \<notin> set (''v'' @ d)"
    using assms separators(1) by auto
  moreover have "CHR ''-'' \<notin> set (''v'' @ a @ ''.'' @ b @ ''.'' @ c)"
    using assms release_no_dash [of a b c] by auto
  then obtain ts where "split_char (CHR ''-'') ((''v'' @ a @ ''.'' @ b @ ''.'' @ c) @ t) =
      (''v'' @ a @ ''.'' @ b @ ''.'' @ c) # ts"
    using split_suffix assms by blast
  ultimately show ?thesis
    using split_char_append [of "CHR ''-''" "''v'' @ d" "(''v'' @ a @ ''.'' @ b @ ''.'' @ c) @ t"] by simp
qed

lemma split_helm:
  assumes "release d a b c t"
  shows "\<exists>ts. split_char (CHR ''-'') ((''v'' @ d @ ''-descheduler-helm-chart-'') @ (a @ ''.'' @ b @ ''.'' @ c) @ t) =
    (''v'' @ d) # ''descheduler'' # ''helm'' # ''chart'' # (a @ ''.'' @ b @ ''.'' @ c) # ts"
proof -
  have d: "CHR ''-'' \<notin> set (''v'' @ d)"
    using assms separators(1) by auto
  obtain ts where ts: "split_char (CHR ''-'') ((a @ ''.'' @ b @ ''.'' @ c) @ t) = (a @ ''.'' @ b @ ''.'' @ c) # ts"
    using split_suffix [OF _ release_no_dash] assms by blast
  have "split_char (CHR ''-'') (''v'' @ d @ CHR ''-'' # ''descheduler'' @ CHR ''-'' # ''helm'' @
      CHR ''-'' # ''chart'' @ CHR ''-'' # (a @ ''.'' @ b @ ''.'' @ c) @ t) =
    (''v'' @ d) # ''descheduler'' # ''helm'' # ''chart'' # (a @ ''.'' @ b @ ''.'' @ c) # ts"
    using split_char_append [OF d] ts by simp
  then show ?thesis by auto
qed

section \<open>The result of splitting\<close>

lemma splitVersion_tag:
  assumes "release d a b c t"
  shows "splitVersion ((''v'' @ d @ ''-v'') @ (a @ ''.'' @ b @ ''.'' @ c) @ t) = Inr (a, b @ ''.'' @ c)"
    (is "splitVersion ?v = _")
proof -
  have m: "MatchString tag_regex ?v \<or> MatchString dirty_regex ?v"
    using assms version_regex(1) by blast
  obtain ts where "split_char (CHR ''-'') ?v = (''v'' @ d) # (''v'' @ a @ ''.'' @ b @ ''.'' @ c) # ts"
    using split_tag [OF assms] by blast
  moreover have "split_char (CHR ''.'') (''v'' @ a @ ''.'' @ b @ ''.'' @ c) = [''v'' @ a, b, c]"
    using assms split_char_append [of "CHR ''.''" "''v'' @ a" "b @ ''.'' @ c"]
    by (simp add: digits_no_char separators)
  ultimately show ?thesis
    using assms m by (simp add: splitVersion_def trim_v)
qed

lemma splitVersion_helm:
  assumes "release d a b c t"
  shows "splitVersion ((''v'' @ d @ ''-descheduler-helm-chart-'') @ (a @ ''.'' @ b @ ''.'' @ c) @ t) =
    Inr (a, b @ ''.'' @ c)" (is "splitVersion ?v = _")
proof -
  have m: "MatchString helm_regex ?v \<or> MatchString helm_dirty_regex ?v"
    using assms version_regex(2) by blast
  obtain ts where s: "split_char (CHR ''-'') ?v =
      (''v'' @ d) # ''descheduler'' # ''helm'' # ''chart'' # (a @ ''.'' @ b @ ''.'' @ c) # ts"
    using split_helm [OF assms] by blast
  have "\<not> (MatchString tag_regex ?v \<or> MatchString dirty_regex ?v)"
  proof
    assume "MatchString tag_regex ?v \<or> MatchString dirty_regex ?v"
    then obtain d' a' b' c' t' where v: "?v = (''v'' @ d' @ ''-v'') @ (a' @ ''.'' @ b' @ ''.'' @ c') @ t'"
      "release d' a' b' c' t'"
      unfolding version_regex by blast
    from split_tag [OF v(2)] v(1) s show False by auto
  qed
  then show ?thesis
    using assms m s split_release [of a b c] by (simp add: splitVersion_def)
qed

text \<open>A version of a build: \<open>v\<close>, the date, one of the two infixes, the three numbers.\<close>

definition build_of :: "string \<Rightarrow> string \<Rightarrow> string \<Rightarrow> string \<Rightarrow> bool" where
  "build_of v a b c \<longleftrightarrow> (\<exists>d t. release d a b c t \<and>
     (v = (''v'' @ d @ ''-v'') @ (a @ ''.'' @ b @ ''.'' @ c) @ t \<or>
      v = (''v'' @ d @ ''-descheduler-helm-chart-'') @ (a @ ''.'' @ b @ ''.'' @ c) @ t))"

lemma splitVersion_build: "build_of v a b c \<Longrightarrow> splitVersion v = Inr (a, b @ ''.'' @ c)"
  unfolding build_of_def using splitVersion_tag splitVersion_helm by blast

lemma splitVersion_other:
  assumes "\<not> (\<exists>a b c. build_of v a b c)"
  shows "splitVersion v = Inr ([], [])"
proof -
  have "\<not> (MatchString tag_regex v \<or> MatchString dirty_regex v)"
    "\<not> (MatchString helm_regex v \<or> MatchString helm_dirty_regex v)"
    using assms unfolding version_regex build_of_def by blast+
  then show ?thesis by (simp add: splitVersion_def)
qed

lemma splitVersion_total: "\<exists>major minor. splitVersion v = Inr (major, minor)"
  using splitVersion_build splitVersion_other by (cases "\<exists>a b c. build_of v a b c") blast+

text \<open>
  \<open>splitVersion\<close> never indexes outside the pieces of a split. Of the version of a build it returns
  the first number as major version and the second and third, with the dot between them, as
  minor version, whatever words follow; of every other string it returns two empty strings.\<close>

lemma splitVersion_result:
  "splitVersion v \<noteq> Inl p \<and>
   (splitVersion v = Inr (major, minor) \<longleftrightarrow>
     (if \<exists>a b c. build_of v a b c
      then \<exists>a b c. build_of v a b c \<and> major = a \<and> minor = b @ ''.'' @ c
      else major = [] \<and> minor = []))"
proof (cases "\<exists>a b c. build_of v a b c")
  case True
  then have "splitVersion v \<noteq> Inl p" and
    "splitVersion v = Inr (major, minor) \<longleftrightarrow> (\<exists>a b c. build_of v a b c \<and> major = a \<and> minor = b @ ''.'' @ c)"
    using splitVersion_build by fastforce+
  with True show ?thesis by simp
next
  case False
  then show ?thesis using splitVersion_other by auto
qed

end
