(* ===== verification/Options.thy ===== *)
theory Options
  imports Objects
begin

text \<open>
  \<open>cmd/cluster-capacity/app/options/options.go\<close> and \<open>cmd/genpod/app/options/options.go\<close>: the
  options of the two commands and \<open>ParseAPISpec\<close>, which reads the pod to simulate. The network,
  the file system and the decoding, defaulting and validation of the Kubernetes API are given by
  their answers (\<open>spec_source\<close>).
\<close>

record ClusterCapacityOptions =
  Kubeconfig :: string
  DefaultSchedulerConfigFile :: string
  MaxLimit :: int
  ExcludeNodes :: "string list"
  Verbose :: bool
  PodSpecFile :: string
  OutputFormat :: string

definition NewClusterCapacityOptions :: ClusterCapacityOptions where
  "NewClusterCapacityOptions = \<lparr>Kubeconfig = [], DefaultSchedulerConfigFile = [], MaxLimit = 0,
     ExcludeNodes = [], Verbose = False, PodSpecFile = [], OutputFormat = []\<rparr>"

record GenPodOptions =
  GenKubeconfig :: string
  GenVerbose :: bool
  GenNamespace :: string
  GenFormat :: string

definition NewGenPodOptions :: GenPodOptions where
  "NewGenPodOptions = \<lparr>GenKubeconfig = [], GenVerbose = False, GenNamespace = ''default'', GenFormat = []\<rparr>"

record http_response =
  HttpStatus :: string
  StatusCode :: int
  Body :: string

record field_error =
  ErrorType :: string
  ErrorField :: string

record spec_source =
  http_get :: "string \<Rightarrow> go_error + http_response"
  absolute :: "string \<Rightarrow> string"
  open_file :: "string \<Rightarrow> go_error + string"
  decode_pod :: "string \<Rightarrow> go_error + Pod"
  SetObjectDefaults_Pod :: "Pod \<Rightarrow> Pod"
  convert_pod :: "Pod \<Rightarrow> go_error option"
  ValidatePodCreate :: "Pod \<Rightarrow> field_error list"

text \<open>The text of the specification, from a URL or from a file.\<close>

definition read_spec :: "spec_source \<Rightarrow> string \<Rightarrow> go_error + string" where
  "read_spec src file =
     (if has_prefix ''http://'' file \<or> has_prefix ''https://'' file then
        (case http_get src file of Inl err \<Rightarrow> Inl err
         | Inr response \<Rightarrow>
             if StatusCode response \<noteq> 200
             then Inl (Err (''unable to read URL '' @ go_quote file @ '', server reported '' @
               HttpStatus response @ '', status code='' @ show_int (StatusCode response)))
             else Inr (Body response))
      else
        (case open_file src (absolute src file) of
           Inl err \<Rightarrow> Inl (Errorf ''Failed to open config file'' err)
         | Inr content \<Rightarrow> Inr content))"

text \<open>What the program itself fills in.\<close>

definition spec_defaults :: "string \<Rightarrow> Pod \<Rightarrow> Pod" where
  "spec_defaults schedulerName pod =
     (let pod = (if pod_ns pod = [] then pod\<lparr>Meta := (Meta pod)\<lparr>Namespace := ''default''\<rparr>\<rparr> else pod) in
      if SchedulerName (Spec pod) = [] then pod\<lparr>Spec := (Spec pod)\<lparr>SchedulerName := schedulerName\<rparr>\<rparr> else pod)"

definition ParseAPISpec :: "spec_source \<Rightarrow> ClusterCapacityOptions \<Rightarrow> string \<Rightarrow> go_error + Pod" where
  "ParseAPISpec src opt schedulerName =
     (case read_spec src (PodSpecFile opt) of Inl err \<Rightarrow> Inl err | Inr spec \<Rightarrow>
      (case decode_pod src spec of Inl err \<Rightarrow> Inl (Errorf ''Failed to decode config file'' err)
       | Inr decoded \<Rightarrow>
        (let pod = SetObjectDefaults_Pod src (spec_defaults schedulerName decoded) in
         case convert_pod src pod of Some err \<Rightarrow> Inl (Errorf ''unable to convert to internal version'' err)
         | None \<Rightarrow>
            (let errs = ValidatePodCreate src pod in
             if errs \<noteq> []
             then Inl (Err (''Invalid pod: '' @
               go_quote (join '', '' (map (\<lambda>e. ErrorType e @ '': '' @ ErrorField e) errs))))
             else Inr pod))))"

text \<open>
  The documented behaviour of the defaulting of the API: it fills in what is missing and keeps
  what is given.
\<close>

definition keeps_given :: "(Pod \<Rightarrow> Pod) \<Rightarrow> bool" where
  "keeps_given f \<longleftrightarrow> (\<forall>p. Name (Meta (f p)) = Name (Meta p) \<and>
     (pod_ns p \<noteq> [] \<longrightarrow> pod_ns (f p) = pod_ns p) \<and>
     (SchedulerName (Spec p) \<noteq> [] \<longrightarrow> SchedulerName (Spec (f p)) = SchedulerName (Spec p)))"

lemma spec_defaults_given:
  "Name (Meta (spec_defaults s p)) = Name (Meta p)"
  "pod_ns (spec_defaults s p) = (if pod_ns p = [] then ''default'' else pod_ns p)"
  "SchedulerName (Spec (spec_defaults s p)) = (if SchedulerName (Spec p) = [] then s else SchedulerName (Spec p))"
  by (simp_all add: spec_defaults_def Let_def)

text \<open>
  A pod that \<open>ParseAPISpec\<close> accepts passed the validation, has the name of the specification, and
  has its namespace and scheduler or, where the specification has none, the namespace
  \<open>default\<close> and the given scheduler: it never lacks either.\<close>

lemma parsed_pod:
  assumes "ParseAPISpec src opt s = Inr pod" and "keeps_given (SetObjectDefaults_Pod src)" and "s \<noteq> []"
  shows "\<exists>spec p. read_spec src (PodSpecFile opt) = Inr spec \<and> decode_pod src spec = Inr p \<and>
    ValidatePodCreate src pod = [] \<and> convert_pod src pod = None \<and>
    Name (Meta pod) = Name (Meta p) \<and>
    pod_ns pod = (if pod_ns p = [] then ''default'' else pod_ns p) \<and>
    SchedulerName (Spec pod) = (if SchedulerName (Spec p) = [] then s else SchedulerName (Spec p))"
proof -
  obtain spec p where p: "read_spec src (PodSpecFile opt) = Inr spec" "decode_pod src spec = Inr p"
      "pod = SetObjectDefaults_Pod src (spec_defaults s p)" "convert_pod src pod = None"
      "ValidatePodCreate src pod = []"
    using assms(1) by (auto simp: ParseAPISpec_def Let_def split: sum.splits option.splits if_splits)
  have "Name (Meta pod) = Name (Meta (spec_defaults s p))"
    "pod_ns pod = pod_ns (spec_defaults s p)"
    "SchedulerName (Spec pod) = SchedulerName (Spec (spec_defaults s p))"
    using assms(2,3) unfolding p(3) keeps_given_def by (simp_all add: spec_defaults_given)
  with p show ?thesis
    by (simp add: spec_defaults_given)
qed

definition sample_pod :: Pod where
  "sample_pod = \<lparr>Meta = \<lparr>Name = ''p'', Namespace = [], UID = [], Annotations = None\<rparr>,
     Spec = \<lparr>NodeName = [], SchedulerName = [], NodeSelector = None, Containers = [],
       RestartPolicy = [], DNSPolicy = []\<rparr>,
     PStatus = \<lparr>Phase = [], Conditions = []\<rparr>\<rparr>"

definition sample_source :: spec_source where
  "sample_source = \<lparr>http_get = \<lambda>_. Inr \<lparr>HttpStatus = ''404 Not Found'', StatusCode = 404, Body = []\<rparr>,
     absolute = \<lambda>f. ''/'' @ f, open_file = \<lambda>_. Inr ''pod'', decode_pod = \<lambda>_. Inr sample_pod,
     SetObjectDefaults_Pod = \<lambda>p. p\<lparr>Spec := (Spec p)\<lparr>DNSPolicy := ''ClusterFirst''\<rparr>\<rparr>,
     convert_pod = \<lambda>_. None, ValidatePodCreate = \<lambda>_. []\<rparr>"

lemma parsed_pod_witness:
  "\<exists>pod. ParseAPISpec sample_source (NewClusterCapacityOptions\<lparr>PodSpecFile := ''pod.yaml''\<rparr>) ''default-scheduler'' = Inr pod \<and>
     pod_ns pod = ''default'' \<and> SchedulerName (Spec pod) = ''default-scheduler''"
proof -
  let ?opt = "NewClusterCapacityOptions\<lparr>PodSpecFile := ''pod.yaml''\<rparr>"
  obtain pod where pod: "ParseAPISpec sample_source ?opt ''default-scheduler'' = Inr pod"
    by (simp add: ParseAPISpec_def read_spec_def sample_source_def has_prefix_def NewClusterCapacityOptions_def Let_def)
  moreover have "keeps_given (SetObjectDefaults_Pod sample_source)"
    by (simp add: keeps_given_def sample_source_def)
  ultimately obtain p spec where "decode_pod sample_source spec = Inr p"
    "pod_ns pod = (if pod_ns p = [] then ''default'' else pod_ns p)"
    "SchedulerName (Spec pod) = (if SchedulerName (Spec p) = [] then ''default-scheduler'' else SchedulerName (Spec p))"
    using parsed_pod [OF pod] by blast
  with pod show ?thesis
    by (auto simp: sample_source_def sample_pod_def)
qed

end
