(* ===== verification/Sched_Config.thy ===== *)
theory Sched_Config
  imports Objects
begin

text \<open>
  \<open>pkg/utils/utils.go\<close>: the address of the API server in a kubeconfig file, and the scheduler
  configuration of an analysis. A profile and a configuration carry the parts the program does
  not touch as an opaque text. Defaulting a configuration, and building the completed one from
  the options, is code of the scheduler: it is an argument (\<open>defaults\<close>, \<open>ApplyTo\<close>).
\<close>

section \<open>The kubeconfig file\<close>

record kubeconfig =
  CurrentContext :: string
  Contexts :: "string \<rightharpoonup> string"
  Clusters :: "string \<rightharpoonup> string"

definition GetMasterFromKubeConfig :: "go_error + kubeconfig \<Rightarrow> go_error + string" where
  "GetMasterFromKubeConfig loaded =
     (case loaded of Inl err \<Rightarrow> Inl (Errorf ''can not load kubeconfig file'' err)
      | Inr config \<Rightarrow>
        (case Contexts config (CurrentContext config) of
           None \<Rightarrow> Inl (Err ''Failed to get master address from kubeconfig'')
         | Some cluster \<Rightarrow>
            (case Clusters config cluster of
               Some server \<Rightarrow> Inr server
             | None \<Rightarrow> Inl (Err ''Failed to get master address from kubeconfig''))))"

section \<open>The scheduler configuration\<close>

record PluginSet =
  Enabled :: "string list"
  Disabled :: "string list"

record Plugins =
  BindPlugins :: PluginSet
  MultiPoint :: PluginSet
  OtherPlugins :: string

record KubeSchedulerProfile =
  ProfileScheduler :: string
  ProfilePlugins :: "Plugins option"
  ProfileRest :: string

record KubeSchedulerConfiguration =
  APIVersion :: string
  Profiles :: "KubeSchedulerProfile list"
  ConfigRest :: string

record scheduler_options =
  ComponentConfig :: KubeSchedulerConfiguration
  Master :: string

definition empty_plugins :: Plugins where
  "empty_plugins = \<lparr>BindPlugins = \<lparr>Enabled = [], Disabled = []\<rparr>, MultiPoint = \<lparr>Enabled = [], Disabled = []\<rparr>, OtherPlugins = []\<rparr>"

definition empty_profile :: KubeSchedulerProfile where
  "empty_profile = \<lparr>ProfileScheduler = [], ProfilePlugins = None, ProfileRest = []\<rparr>"

definition capacity_profile :: "KubeSchedulerProfile \<Rightarrow> KubeSchedulerProfile" where
  "capacity_profile p =
     (let plugins = (case ProfilePlugins p of None \<Rightarrow> empty_plugins | Some ps \<Rightarrow> ps) in
      p\<lparr>ProfileScheduler := DefaultSchedulerName,
        ProfilePlugins := Some (plugins\<lparr>BindPlugins :=
          \<lparr>Enabled = [''ClusterCapacityBinder''], Disabled = [''DefaultBinder'']\<rparr>\<rparr>)\<rparr>)"

definition capacity_config :: "KubeSchedulerConfiguration \<Rightarrow> KubeSchedulerConfiguration" where
  "capacity_config kcfg =
     (let profiles = (if Profiles kcfg = [] then [empty_profile] else Profiles kcfg)
      in kcfg\<lparr>Profiles := profiles[0 := capacity_profile (profiles ! 0)]\<rparr>)"

definition BuildKubeSchedulerCompletedConfig ::
  "go_error + KubeSchedulerConfiguration \<Rightarrow> (scheduler_options \<Rightarrow> go_error + 'completed) \<Rightarrow>
   KubeSchedulerConfiguration option \<Rightarrow> go_error + 'completed" where
  "BuildKubeSchedulerCompletedConfig defaults ApplyTo kcfg =
     (case (case kcfg of None \<Rightarrow> defaults | Some k \<Rightarrow> Inr k) of Inl err \<Rightarrow> Inl err
      | Inr k \<Rightarrow>
        (case ApplyTo \<lparr>ComponentConfig = capacity_config k, Master = ''fakemaster''\<rparr> of
           Inl err \<Rightarrow> Inl (Errorf ''unable to get scheduler config'' err)
         | Inr c \<Rightarrow> Inr c))"

text \<open>
  Whatever configuration is given, the first profile that answers for the default scheduler binds
  with the program's plugin and with nothing else; its other plugins and every other profile are
  the given ones. A configuration built twice is built once.\<close>

lemma capacity_binder_configured:
  "\<exists>p ps. find (\<lambda>p. ProfileScheduler p = DefaultSchedulerName) (Profiles (capacity_config k)) = Some p \<and>
     ProfilePlugins p = Some ps \<and>
     BindPlugins ps = \<lparr>Enabled = [''ClusterCapacityBinder''], Disabled = [''DefaultBinder'']\<rparr> \<and>
     OtherPlugins ps =
       (case Profiles k of q # _ \<Rightarrow> (case ProfilePlugins q of Some qs \<Rightarrow> OtherPlugins qs | None \<Rightarrow> []) | [] \<Rightarrow> []) \<and>
     MultiPoint ps =
       (case Profiles k of q # _ \<Rightarrow> (case ProfilePlugins q of Some qs \<Rightarrow> MultiPoint qs | None \<Rightarrow> MultiPoint empty_plugins) | [] \<Rightarrow> MultiPoint empty_plugins) \<and>
     tl (Profiles (capacity_config k)) = tl (Profiles k) \<and>
     ConfigRest (capacity_config k) = ConfigRest k \<and>
     BuildKubeSchedulerCompletedConfig defaults ApplyTo (Some (capacity_config k)) =
       BuildKubeSchedulerCompletedConfig defaults ApplyTo (Some k)"
proof -
  have idem: "capacity_config (capacity_config k) = capacity_config k"
    by (cases "Profiles k") (auto simp: capacity_config_def capacity_profile_def Let_def)
  show ?thesis
  proof (cases "Profiles k")
    case Nil
    then show ?thesis
      using idem by (simp add: BuildKubeSchedulerCompletedConfig_def)
        (simp add: capacity_config_def capacity_profile_def empty_profile_def empty_plugins_def)
  next
    case (Cons q qs)
    then show ?thesis
      using idem by (simp add: BuildKubeSchedulerCompletedConfig_def)
        (simp add: capacity_config_def capacity_profile_def empty_plugins_def split: option.splits)
  qed
qed

end
