(* ===== verification/Nspod.thy ===== *)
theory Nspod
  imports Labels Objects
begin

text \<open>
  \<open>pkg/client/nspod.go\<close>: a pod built from the limits of a namespace. The API client is given
  by the answers of its two calls, \<open>getNs\<close> and \<open>listLimits\<close>; \<open>order\<close> is the order in which Go
  iterates over the map \<open>resources\<close>. Each round of that loop reads and writes only the entry of
  its own key. The choice of the smallest limit is stated once, for any type with such a
  choice, in the locale \<open>minimum_choice\<close>.
\<close>

definition ResourceMemory :: string where
  "ResourceMemory = ''memory''"

definition ResourceCPU :: string where
  "ResourceCPU = ''cpu''"

definition ResourceGPU :: string where
  "ResourceGPU = ''nvdia.com/gpu''"

record LimitRangeItem =
  LimitType :: string
  ItemMax :: ResourceList

record LimitRange =
  LimitItems :: "LimitRangeItem list"

record Namespace_object =
  NsAnnotations :: "string \<rightharpoonup> string"

definition pick_minimum :: "Quantity option \<Rightarrow> Quantity option \<Rightarrow> Quantity option" where
  "pick_minimum current amount =
     (case amount of None \<Rightarrow> current
      | Some a \<Rightarrow> (case current of None \<Rightarrow> Some a
          | Some q \<Rightarrow> if Quantity_Cmp q a = 1 then Some a else Some (Cmp_receiver q a)))"

definition consider_item ::
  "LimitRangeItem \<Rightarrow> (string \<times> Quantity option) list \<Rightarrow> (string \<times> Quantity option) list" where
  "consider_item item resources =
     (if LimitType item \<noteq> ''Pod'' then resources
      else map (\<lambda>(resourceType, current).
             (resourceType, pick_minimum current (map_of (ItemMax item) resourceType))) resources)"

definition limit_resources :: "LimitRange list \<Rightarrow> string list \<Rightarrow> (string \<times> Quantity option) list" where
  "limit_resources limits order =
     fold (\<lambda>limit. fold consider_item (LimitItems limit)) limits (map (\<lambda>k. (k, None)) order)"

definition nonzero :: "(string \<times> Quantity option) list \<Rightarrow> bool" where
  "nonzero resources =
     list_ex (\<lambda>(k, quantity). case quantity of None \<Rightarrow> False | Some q \<Rightarrow> \<not> Quantity_IsZero q) resources"

definition resource_list :: "(string \<times> Quantity option) list \<Rightarrow> ResourceList" where
  "resource_list resources =
     concat (map (\<lambda>(key, val). case val of None \<Rightarrow> [] | Some q \<Rightarrow> [(key, q)]) resources)"

definition stub_container :: Container where
  "stub_container = \<lparr>ContainerName = ''cluster-capacity-stub-container'',
     Image = ''gcr.io/google_containers/pause:2.0'', ImagePullPolicy = ''Always'',
     Limits = [], Requests = []\<rparr>"

definition stub_pod :: "string \<Rightarrow> Pod" where
  "stub_pod namespace =
     \<lparr>Meta = \<lparr>Name = ''cluster-capacity-stub-container'', Namespace = namespace, UID = [],
        Annotations = None\<rparr>,
      Spec = \<lparr>NodeName = [], SchedulerName = [], NodeSelector = None,
        Containers = [stub_container], RestartPolicy = ''OnFailure'', DNSPolicy = ''Default''\<rparr>,
      PStatus = \<lparr>Phase = [], Conditions = []\<rparr>\<rparr>"

definition with_resources :: "(string \<times> Quantity option) list \<Rightarrow> Pod \<Rightarrow> Pod" where
  "with_resources resources pod =
     (if nonzero resources
      then pod\<lparr>Spec := (Spec pod)\<lparr>Containers := map (\<lambda>c. c\<lparr>Limits := resource_list resources,
             Requests := resource_list resources\<rparr>) (Containers (Spec pod))\<rparr>\<rparr>
      else pod)"

definition RetrieveNamespacePod ::
  "go_error + Namespace_object \<Rightarrow> go_error + LimitRange list \<Rightarrow> string list \<Rightarrow> string \<Rightarrow>
   go_error + Pod" where
  "RetrieveNamespacePod getNs listLimits order namespace =
     (case getNs of Inl err \<Rightarrow> Inl (Errorf (''Namespace '' @ namespace @ '' not found'') err)
      | Inr ns \<Rightarrow>
     (case listLimits of
        Inl err \<Rightarrow> Inl (Errorf (''Could not retrieve limit ranges for '' @ namespace @ '' namespaces'') err)
      | Inr limits \<Rightarrow>
        (let namespacePod = with_resources (limit_resources limits order) (stub_pod namespace) in
         case NsAnnotations ns ''openshift.io/node-selector'' of
           None \<Rightarrow> Inr namespacePod
         | Some key \<Rightarrow>
             (case ConvertSelectorToLabelsMap key of
                Inl err \<Rightarrow> Inl (Errorf (''Unable to parse openshift.io/node-selector in '' @ key @ '' namespace'') err)
              | Inr nodeSelector \<Rightarrow>
                  Inr (namespacePod\<lparr>Spec := (Spec namespacePod)\<lparr>NodeSelector := Some nodeSelector\<rparr>\<rparr>)))))"

section \<open>Choosing the smallest\<close>

locale minimum_choice =
  fixes pick :: "'q option \<Rightarrow> 'q option \<Rightarrow> 'q option"
    and val :: "'q \<Rightarrow> 'v :: linorder"
  assumes pick_None_left: "pick None b = b"
    and pick_None_right: "pick c None = c"
    and pick_smaller: "\<exists>r. pick (Some q) (Some a) = Some r \<and> val r = min (val q) (val a)"
begin

definition smallest :: "'q option list \<Rightarrow> 'v option" where
  "smallest qs = (if \<exists>q. Some q \<in> set qs then Some (Min {val q |q. Some q \<in> set qs}) else None)"

lemma finite_values: "finite {val q |q. Some q \<in> set qs}"
proof -
  have "{val q |q. Some q \<in> set qs} \<subseteq> (val \<circ> the) ` set qs" by force
  then show ?thesis by (rule finite_subset) simp
qed

lemma smallest_Cons:
  "smallest (a # qs) = (case (map_option val a, smallest qs) of
     (None, m) \<Rightarrow> m | (Some v, None) \<Rightarrow> Some v | (Some v, Some m) \<Rightarrow> Some (min v m))"
proof (cases a)
  case None
  then show ?thesis by (simp add: smallest_def)
next
  case (Some x)
  then have "{val q |q. Some q \<in> set (a # qs)} = insert (val x) {val q |q. Some q \<in> set qs}" by auto
  moreover have "{val q |q. Some q \<in> set qs} = {} \<longleftrightarrow> (\<nexists>q. Some q \<in> set qs)" by auto
  ultimately show ?thesis
    using Some finite_values by (auto simp: smallest_def)
qed

lemma fold_pick:
  "map_option val (fold (\<lambda>a q. pick q a) as q) = smallest (q # as)"
proof (induction as arbitrary: q)
  case Nil
  then show ?case by (cases q) (auto simp: smallest_Cons smallest_def)
next
  case (Cons a as)
  have "smallest (pick q a # as) = smallest (q # a # as)"
  proof (cases "(q, a)" rule: prod.exhaust)
    case (Pair x y)
    show ?thesis
    proof (cases x; cases y)
      fix u w
      assume "x = Some u" "y = Some w"
      with Pair pick_smaller [of u w] show ?thesis
        by (auto simp: smallest_Cons min.assoc split: option.splits)
    qed (use Pair in \<open>auto simp: pick_None_left pick_None_right smallest_Cons split: option.splits\<close>)
  qed
  with Cons show ?case by simp
qed

text \<open>The order of the choices does not matter.\<close>

lemma fold_pick_cong:
  "set as = set bs \<Longrightarrow>
   map_option val (fold (\<lambda>a q. pick q a) as None) = map_option val (fold (\<lambda>a q. pick q a) bs None)"
  unfolding fold_pick by (simp add: smallest_def)

end

interpretation limit: minimum_choice pick_minimum qval
proof unfold_locales
  show "pick_minimum None a = a" for a
    by (simp add: pick_minimum_def split: option.splits)
  show "pick_minimum q None = q" for q
    by (simp add: pick_minimum_def)
  show "\<exists>r. pick_minimum (Some q) (Some a) = Some r \<and> qval r = min (qval q) (qval a)" for q a
    by (auto simp: pick_minimum_def Quantity_Cmp_greater)
qed

section \<open>The limits of the pod\<close>

text \<open>The limits on pods that the limit ranges of a namespace give for a resource.\<close>

definition pod_items :: "LimitRange list \<Rightarrow> LimitRangeItem list" where
  "pod_items limits = filter (\<lambda>item. LimitType item = ''Pod'') (concat (map LimitItems limits))"

definition pod_limits :: "LimitRange list \<Rightarrow> string \<Rightarrow> Quantity set" where
  "pod_limits limits k = {q. Some q \<in> (\<lambda>item. map_of (ItemMax item) k) ` set (pod_items limits)}"

lemma fold_consider_limits:
  "fold (\<lambda>limit. fold consider_item (LimitItems limit)) limits rs =
   fold consider_item (concat (map LimitItems limits)) rs"
  by (induction limits arbitrary: rs) simp_all

lemma fold_consider_items:
  "fold consider_item items (map (\<lambda>k. (k, f k)) ks) =
   map (\<lambda>k. (k, fold (\<lambda>a q. pick_minimum q a)
      (map (\<lambda>item. map_of (ItemMax item) k) (filter (\<lambda>item. LimitType item = ''Pod'') items)) (f k))) ks"
  by (induction items arbitrary: f) (simp_all add: consider_item_def comp_def)

definition chosen :: "LimitRange list \<Rightarrow> string \<Rightarrow> Quantity option" where
  "chosen limits k = fold (\<lambda>a q. pick_minimum q a)
     (map (\<lambda>item. map_of (ItemMax item) k) (pod_items limits)) None"

lemma limit_resources_chosen: "limit_resources limits order = map (\<lambda>k. (k, chosen limits k)) order"
  unfolding limit_resources_def fold_consider_limits fold_consider_items chosen_def pod_items_def by (rule refl)

lemma chosen_value:
  "map_option qval (chosen limits k) =
     (if pod_limits limits k = {} then None else Some (Min (qval ` pod_limits limits k)))"
proof -
  have "{qval q |q. Some q \<in> set (None # map (\<lambda>item. map_of (ItemMax item) k) (pod_items limits))} =
      qval ` pod_limits limits k"
    by (auto simp: pod_limits_def)
  moreover have "(\<exists>q. Some q \<in> set (None # map (\<lambda>item. map_of (ItemMax item) k) (pod_items limits))) \<longleftrightarrow>
      pod_limits limits k \<noteq> {}"
    by (auto simp: pod_limits_def)
  ultimately show ?thesis
    unfolding chosen_def limit.fold_pick limit.smallest_def by simp
qed

lemma map_of_resource_list:
  "map_of (resource_list (map (\<lambda>k. (k, f k)) ks)) k = (if k \<in> set ks then f k else None)"
  by (induction ks) (auto simp: resource_list_def split: option.splits)

lemma nonzero_chosen:
  "nonzero (limit_resources limits order) \<longleftrightarrow>
     list_ex (\<lambda>k. pod_limits limits k \<noteq> {} \<and> Min (qval ` pod_limits limits k) \<noteq> 0) order"
proof -
  have "(case chosen limits k of None \<Rightarrow> False | Some q \<Rightarrow> \<not> Quantity_IsZero q) \<longleftrightarrow>
      pod_limits limits k \<noteq> {} \<and> Min (qval ` pod_limits limits k) \<noteq> 0" for k
    using chosen_value [of limits k]
    by (cases "chosen limits k") (auto simp: Quantity_IsZero_iff split: if_splits)
  then show ?thesis
    by (simp add: nonzero_def limit_resources_chosen list_ex_iff)
qed

text \<open>The container, and the pod without its node selector.\<close>

lemma stub_containers:
  "Containers (Spec (with_resources rs (stub_pod namespace))) =
     (let l = (if nonzero rs then resource_list rs else []) in [stub_container\<lparr>Limits := l, Requests := l\<rparr>])"
  by (simp add: with_resources_def stub_pod_def stub_container_def Let_def)

lemma RetrieveNamespacePod_Inr:
  assumes "RetrieveNamespacePod getNs (Inr limits) order namespace = Inr pod"
  shows "\<exists>s. pod = (let p = with_resources (limit_resources limits order) (stub_pod namespace)
    in p\<lparr>Spec := (Spec p)\<lparr>NodeSelector := s\<rparr>\<rparr>)"
proof -
  let ?p = "with_resources (limit_resources limits order) (stub_pod namespace)"
  have "NodeSelector (Spec ?p) = None"
    by (simp add: with_resources_def stub_pod_def)
  then have "?p = ?p\<lparr>Spec := (Spec ?p)\<lparr>NodeSelector := None\<rparr>\<rparr>" by simp
  with assms show ?thesis
    by (auto simp: RetrieveNamespacePod_def Let_def split: sum.splits option.splits)
qed

text \<open>C38:
  The pod of a namespace has one container, whose limits are its requests. A resource that is
  considered is requested with the smallest of the limits on pods the namespace gives for it,
  unless every such smallest limit is zero: then nothing is requested. The order in which Go
  iterates over the map of resources does not appear in the result.\<close>

theorem namespace_requests:
  assumes "RetrieveNamespacePod getNs (Inr limits) order namespace = Inr pod"
  shows "\<exists>c. Containers (Spec pod) = [c] \<and> Limits c = Requests c \<and>
    map_option qval (map_of (Requests c) k) =
      (if k \<in> set order \<and> pod_limits limits k \<noteq> {} \<and>
          list_ex (\<lambda>k. pod_limits limits k \<noteq> {} \<and> Min (qval ` pod_limits limits k) \<noteq> 0) order
       then Some (Min (qval ` pod_limits limits k)) else None)"
proof -
  let ?rs = "limit_resources limits order"
  let ?some = "list_ex (\<lambda>k. pod_limits limits k \<noteq> {} \<and> Min (qval ` pod_limits limits k) \<noteq> 0) order"
  have requested: "map_option qval (map_of (resource_list ?rs) k) =
      (if k \<in> set order \<and> pod_limits limits k \<noteq> {} then Some (Min (qval ` pod_limits limits k)) else None)"
    unfolding limit_resources_chosen map_of_resource_list using chosen_value [of limits k] by auto
  obtain s where "pod = (let p = with_resources ?rs (stub_pod namespace)
      in p\<lparr>Spec := (Spec p)\<lparr>NodeSelector := s\<rparr>\<rparr>)"
    using RetrieveNamespacePod_Inr [OF assms] by blast
  then obtain c where c: "Containers (Spec pod) = [c]" "Limits c = Requests c"
      "Requests c = (if ?some then resource_list ?rs else [])"
    unfolding nonzero_chosen [of limits order, symmetric] by (simp add: Let_def stub_containers)
  have "map_option qval (map_of (Requests c) k) =
      (if k \<in> set order \<and> pod_limits limits k \<noteq> {} \<and> ?some
       then Some (Min (qval ` pod_limits limits k)) else None)"
  proof (cases ?some)
    case True
    then have "Requests c = resource_list ?rs" using c(3) by (simp only: if_True)
    with requested True show ?thesis by (simp only: simp_thms)
  next
    case False
    then have "Requests c = []" using c(3) by (simp only: if_False)
    with False show ?thesis by (simp only: simp_thms if_False map_of.simps option.map)
  qed
  with c(1,2) show ?thesis by blast
qed

theorem namespace_requests_witness:
  "\<exists>c. (\<exists>pod. RetrieveNamespacePod (Inr \<lparr>NsAnnotations = Map.empty\<rparr>)
        (Inr [\<lparr>LimitItems = [\<lparr>LimitType = ''Pod'', ItemMax = [(''cpu'', NewQuantity 3 ''DecimalSI'')]\<rparr>,
            \<lparr>LimitType = ''Pod'', ItemMax = [(''cpu'', NewMilliQuantity 2000 ''DecimalSI'')]\<rparr>]\<rparr>])
        [''memory'', ''cpu'', ''nvdia.com/gpu''] ''n'' = Inr pod \<and> Containers (Spec pod) = [c]) \<and>
     map_option qval (map_of (Requests c) ''cpu'') = Some (2)"
proof -
  let ?limits = "[\<lparr>LimitItems = [\<lparr>LimitType = ''Pod'', ItemMax = [(''cpu'', NewQuantity 3 ''DecimalSI'')]\<rparr>,
            \<lparr>LimitType = ''Pod'', ItemMax = [(''cpu'', NewMilliQuantity 2000 ''DecimalSI'')]\<rparr>]\<rparr>]"
  let ?order = "[''memory'', ''cpu'', ''nvdia.com/gpu'']"
  obtain pod where pod: "RetrieveNamespacePod (Inr \<lparr>NsAnnotations = Map.empty\<rparr>) (Inr ?limits) ?order ''n'' = Inr pod"
    by (simp add: RetrieveNamespacePod_def)
  have limits: "pod_limits ?limits ''cpu'' = {NewQuantity 3 ''DecimalSI'', NewMilliQuantity 2000 ''DecimalSI''}"
    by (auto simp: pod_limits_def pod_items_def)
  have "qval (NewQuantity 3 f) = 3" "qval (NewMilliQuantity 2000 f) = 2" for f
    by (simp_all add: NewQuantity_def NewMilliQuantity_def qval_def aval_def power_int_def power3_eq_cube)
  with limits show ?thesis
    using namespace_requests [OF pod, of "''cpu''"] pod by auto
qed

section \<open>Errors and the node selector\<close>

text \<open>
  A failing call is reported with the namespace, in the order of the calls; without the
  annotation for the node selector the pod has none; with it the pod has the labels of the
  selector, or the call fails and names the text of the selector in place of the namespace.\<close>

lemma namespace_selector:
  "RetrieveNamespacePod (Inl e) listLimits order namespace =
     Inl (Errorf (''Namespace '' @ namespace @ '' not found'') e) \<and>
   RetrieveNamespacePod (Inr ns) (Inl e) order namespace =
     Inl (Errorf (''Could not retrieve limit ranges for '' @ namespace @ '' namespaces'') e) \<and>
   map_sum id (NodeSelector \<circ> Spec) (RetrieveNamespacePod (Inr ns) (Inr limits) order namespace) =
     (case NsAnnotations ns ''openshift.io/node-selector'' of
        None \<Rightarrow> Inr None
      | Some s \<Rightarrow> map_sum (Errorf (''Unable to parse openshift.io/node-selector in '' @ s @ '' namespace'')) Some
          (ConvertSelectorToLabelsMap s))"
proof -
  have "NodeSelector (Spec (with_resources rs (stub_pod namespace))) = None" for rs
    by (simp add: with_resources_def stub_pod_def)
  then show ?thesis
    by (simp add: RetrieveNamespacePod_def Let_def split: option.splits sum.splits)
qed

text \<open>A node selector written by \<open>String()\<close> of valid labels into the annotation of the namespace is
  the node selector of the pod.\<close>

lemma namespace_selector_round_trip:
  assumes "NsAnnotations ns ''openshift.io/node-selector'' = Some (SelectorString kvs)"
    and "list_all valid_label kvs" and "distinct (map fst kvs)"
  shows "map_sum id (NodeSelector \<circ> Spec) (RetrieveNamespacePod (Inr ns) (Inr limits) order namespace) =
    Inr (Some (Mapping.of_alist kvs))"
proof -
  have "ConvertSelectorToLabelsMap (SelectorString kvs) = Inr (Mapping.of_alist kvs)"
    using assms(2,3) by (rule written_selector_read)
  with assms(1) show ?thesis
    by (simp add: RetrieveNamespacePod_def Let_def)
qed

lemma namespace_selector_round_trip_witness:
  "map_sum id (NodeSelector \<circ> Spec) (RetrieveNamespacePod
      (Inr \<lparr>NsAnnotations = [''openshift.io/node-selector'' \<mapsto> SelectorString [(''zone'', ''a''), (''disk'', ''ssd'')]]\<rparr>)
      (Inr []) [''memory'', ''cpu'', ''nvdia.com/gpu''] ''n'') =
    Inr (Some (Mapping.of_alist [(''zone'', ''a''), (''disk'', ''ssd'')]))"
proof (rule namespace_selector_round_trip)
  show "list_all valid_label [(''zone'', ''a''), (''disk'', ''ssd'')]" by code_simp
qed simp_all

end
