(* ===== verification/Commands.thy ===== *)
theory Commands
  imports Watcher Report_Print Version Options Sched_Config Nspod
begin

text \<open>
  The commands: \<open>cmd/cluster-capacity/app/server.go\<close>, \<open>cmd/genpod/app/server.go\<close>, the dispatch of
  \<open>cmd/hypercc\<close> and \<open>PrintPod\<close> of \<open>pkg/utils/utils.go\<close>. Everything outside the repository that a
  command asks (environment, files, API clients, the scheduler) is a field of the record
  \<open>world\<close>. A command may panic, fail with an error or give a result (\<open>go_result\<close>); what it writes
  is a list of outputs. \<open>simulate\<close> is the outcome of the method \<open>Run\<close> of the simulator, whose steps
  are the relation of theory \<open>Sim_Steps\<close>: a panic of one of its goroutines, or the error it returns and the state it leaves (a
  world in which \<open>Run\<close> never returns has no outcome). \<open>informers\<close> says how fast the informers read while the cluster is copied.
\<close>

type_synonym 'a go_result = "panic + (go_error + 'a)"

definition bind :: "go_error + 'a \<Rightarrow> ('a \<Rightarrow> 'b go_result) \<Rightarrow> 'b go_result" where
  "bind r f = (case r of Inl err \<Rightarrow> Inr (Inl err) | Inr x \<Rightarrow> f x)"

definition may_panic :: "panic + 'a \<Rightarrow> ('a \<Rightarrow> 'b go_result) \<Rightarrow> 'b go_result" where
  "may_panic r f = (case r of Inl p \<Rightarrow> Inl p | Inr x \<Rightarrow> f x)"

definition wrap_error :: "(go_error \<Rightarrow> go_error) \<Rightarrow> go_error + 'a \<Rightarrow> go_error + 'a" where
  "wrap_error f r = map_sum f id r"

definition check :: "go_error option \<Rightarrow> go_error + unit" where
  "check e = (case e of None \<Rightarrow> Inr () | Some err \<Rightarrow> Inl err)"

record build =
  build_version :: string
  gitbranch :: string
  gitsha1 :: string
  buildDate :: string
  runtimeVersion :: string
  runtimeCompiler :: string
  goos :: string
  goarch :: string

record decoded_config =
  AsConfig :: "KubeSchedulerConfiguration option"
  GroupVersion :: string
  GvkString :: string

record world =
  CC_INCLUSTER :: bool
  default_rules :: "go_error + string"
  ReadFile :: "string \<Rightarrow> go_error + string"
  decode_config :: "string \<Rightarrow> go_error + decoded_config"
  validate_config :: "KubeSchedulerConfiguration \<Rightarrow> go_error option"
  config_defaults :: "go_error + KubeSchedulerConfiguration"
  ApplyTo :: "scheduler_options \<Rightarrow> go_error + scheduler_options"
  specs :: spec_source
  LoadKubeconfig :: "string \<Rightarrow> go_error + kubeconfig"
  BuildConfigFromFlags :: "string \<Rightarrow> string \<Rightarrow> go_error + string"
  InClusterConfig :: "go_error + string"
  NewForConfig :: "string \<Rightarrow> go_error option"
  dynamic_error :: "string \<Rightarrow> go_error option"
  scheduler_error :: "scheduler_options \<Rightarrow> go_error option"
  snapshot :: remote
  informers :: "string \<Rightarrow> (nat \<Rightarrow> nat) option"
  simulate :: "ClusterCapacity \<Rightarrow> panic + go_error option \<times> ClusterCapacity"
  clock :: int
  printing :: printers
  get_namespace :: "string \<Rightarrow> go_error + Namespace_object"
  list_limits :: "string \<Rightarrow> go_error + LimitRange list"
  map_order :: "string list"
  pod_encoder :: "string \<Rightarrow> (Pod \<Rightarrow> go_error + string) option"
  built :: build

section \<open>cluster-capacity\<close>

definition Validate :: "world \<Rightarrow> ClusterCapacityOptions \<Rightarrow> go_error + ClusterCapacityOptions" where
  "Validate w opt =
     (if PodSpecFile opt = [] then Inl (Err ''Pod spec file is missing'')
      else if \<not> CC_INCLUSTER w \<and> Kubeconfig opt = [] then
        (case default_rules w of Inl err \<Rightarrow> Inl err
         | Inr file \<Rightarrow> Inr (opt\<lparr>Kubeconfig := file\<rparr>))
      else Inr opt)"

definition loadConfig :: "world \<Rightarrow> string \<Rightarrow> go_error + KubeSchedulerConfiguration" where
  "loadConfig w data =
     (case decode_config w data of Inl err \<Rightarrow> Inl err
      | Inr d \<Rightarrow>
        (case AsConfig d of
           Some cfg \<Rightarrow> Inr (cfg\<lparr>APIVersion := GroupVersion d\<rparr>)
         | None \<Rightarrow> Inl (Err (''couldn'' @ [CHR 0x27] @ ''t decode as KubeSchedulerConfiguration, got '' @
             GvkString d @ '': ''))))"

definition loadConfigFromFile :: "world \<Rightarrow> string \<Rightarrow> go_error + KubeSchedulerConfiguration" where
  "loadConfigFromFile w file =
     (case ReadFile w file of Inl err \<Rightarrow> Inl err | Inr data \<Rightarrow> loadConfig w data)"

definition scheduler_file :: "world \<Rightarrow> string \<Rightarrow> go_error + KubeSchedulerConfiguration option" where
  "scheduler_file w file =
     (if file = [] then Inr None
      else (case loadConfigFromFile w file of Inl err \<Rightarrow> Inl err
        | Inr cfg \<Rightarrow> (case validate_config w cfg of Some err \<Rightarrow> Inl err | None \<Rightarrow> Inr (Some cfg))))"

definition client_config :: "world \<Rightarrow> string \<Rightarrow> go_error + string" where
  "client_config w file =
     (if file \<noteq> [] then
        (case GetMasterFromKubeConfig (LoadKubeconfig w file) of
           Inl err \<Rightarrow> Inl (Errorf_around ''Failed to parse kubeconfig file: '' err '' '')
         | Inr master \<Rightarrow> wrap_error (Errorf ''Unable to build config'') (BuildConfigFromFlags w master file))
      else wrap_error (Errorf ''Unable to build in cluster config'') (InClusterConfig w))"

definition runSimulator ::
  "world \<Rightarrow> string \<Rightarrow> scheduler_options \<Rightarrow> Pod \<Rightarrow> ClusterCapacityOptions \<Rightarrow> ClusterCapacityReview go_result" where
  "runSimulator w cfg config pod opt =
     may_panic (New_or_die (dynamic_error w cfg) (scheduler_error w config) pod (MaxLimit opt) (ExcludeNodes opt)) (\<lambda>r.
     bind r (\<lambda>c.
     may_panic (SyncWithClient_watched (informers w) (snapshot w) c) (\<lambda>(c, err).
     bind (check err) (\<lambda>_.
     may_panic (simulate w c) (\<lambda>(err, c).
     bind (check err) (\<lambda>_.
     may_panic (Report (clock w) c) (\<lambda>(c, r). Inr (Inr r))))))))"

definition Run :: "world \<Rightarrow> ClusterCapacityOptions \<Rightarrow> string go_result" where
  "Run w opt =
     bind (scheduler_file w (DefaultSchedulerConfigFile opt)) (\<lambda>kcfg.
     bind (wrap_error (\<lambda>e. Errorf_around ''failed to init kube scheduler configuration: '' e '' '')
       (BuildKubeSchedulerCompletedConfig (config_defaults w) (ApplyTo w) kcfg)) (\<lambda>config.
     bind (wrap_error (\<lambda>e. Errorf_around ''Failed to parse pod spec file: '' e '' '')
       (ParseAPISpec (specs w) opt DefaultSchedulerName)) (\<lambda>pod.
     bind (client_config w (Kubeconfig opt)) (\<lambda>cfg.
     bind (check (NewForConfig w cfg)) (\<lambda>_.
     may_panic (runSimulator w cfg config pod opt) (\<lambda>r.
     bind r (\<lambda>review. Inr (wrap_error (Errorf ''Error while printing'')
       (ClusterCapacityReviewPrint (printing w) review (Verbose opt) (OutputFormat opt))))))))))"

datatype written =
    Text string
  | Error_line go_error
  | Help
  | Fatal go_error

definition show_info :: "Info \<Rightarrow> string" where
  "show_info i = ''{Major:'' @ Major i @ '' Minor:'' @ Minor i @ '' GitVersion:'' @ GitVersion i @
     '' GitBranch:'' @ GitBranch i @ '' GitSha1:'' @ GitSha1 i @ '' BuildDate:'' @ BuildDate i @
     '' GoVersion:'' @ GoVersion i @ '' Compiler:'' @ Compiler i @ '' Platform:'' @ Platform i @ ''}''"

definition build_info :: "build \<Rightarrow> panic + Info" where
  "build_info b = Get (build_version b) (gitbranch b) (gitsha1 b) (buildDate b) (runtimeVersion b)
     (runtimeCompiler b) (goos b) (goarch b)"

definition cluster_capacity_command :: "world \<Rightarrow> ClusterCapacityOptions \<Rightarrow> panic + written list" where
  "cluster_capacity_command w opt =
     (case Validate w opt of Inl err \<Rightarrow> Inr [Error_line err, Help]
      | Inr opt \<Rightarrow>
        (case build_info (built w) of Inl p \<Rightarrow> Inl p
         | Inr info \<Rightarrow>
           (case Run w opt of Inl p \<Rightarrow> Inl p
            | Inr r \<Rightarrow> Inr (Text (''Cluster capacity version '' @ show_info info @ nl) #
                (case r of Inl err \<Rightarrow> [Error_line err] | Inr s \<Rightarrow> [Text s])))))"

section \<open>genpod\<close>

definition ValidateGenPod :: "GenPodOptions \<Rightarrow> go_error option" where
  "ValidateGenPod opt =
     (if GenNamespace opt = [] then Some (Err ''Cluster namespace missing'')
      else if GenFormat opt \<noteq> [] \<and> GenFormat opt \<noteq> ''json'' \<and> GenFormat opt \<noteq> ''yaml''
      then Some (Err (''Output format '' @ GenFormat opt @ '' not recognized: only json and yaml are allowed''))
      else None)"

definition PrintPod :: "(string \<Rightarrow> (Pod \<Rightarrow> go_error + string) option) \<Rightarrow> Pod \<Rightarrow> string \<Rightarrow> go_error + string" where
  "PrintPod encoder pod format =
     (let contentType = (if format = ''json'' then ''application/json'' else ''application/yaml'') in
      case encoder contentType of
        None \<Rightarrow> Inl (Err (''serializer for '' @ contentType @ '' not registered''))
      | Some encode \<Rightarrow> wrap_error (Errorf ''Failed to create pod'') (encode pod))"

text \<open>A namespace that cannot be read ends the process (\<open>log.Fatalf\<close>).\<close>

definition RunGenPod :: "world \<Rightarrow> GenPodOptions \<Rightarrow> written list" where
  "RunGenPod w opt =
     (case (if CC_INCLUSTER w then wrap_error (Errorf ''Unable to build in cluster config'') (InClusterConfig w)
            else (case GetMasterFromKubeConfig (LoadKubeconfig w (GenKubeconfig opt)) of
                Inl err \<Rightarrow> Inl (Errorf_around ''Failed to parse kubeconfig file: '' err '' '')
              | Inr master \<Rightarrow> wrap_error (Errorf ''Unable to build config'')
                  (BuildConfigFromFlags w master (GenKubeconfig opt)))) of
        Inl err \<Rightarrow> [Error_line err]
      | Inr cfg \<Rightarrow>
        (case NewForConfig w cfg of Some err \<Rightarrow> [Error_line err]
         | None \<Rightarrow>
           (case RetrieveNamespacePod (get_namespace w (GenNamespace opt)) (list_limits w (GenNamespace opt))
                   (map_order w) (GenNamespace opt) of
              Inl err \<Rightarrow> [Fatal (Errorf ''Error'' err)]
            | Inr pod \<Rightarrow>
                (case PrintPod (pod_encoder w) pod (GenFormat opt) of
                   Inl err \<Rightarrow> [Error_line err]
                 | Inr s \<Rightarrow> [Text s]))))"

definition genpod_command :: "world \<Rightarrow> GenPodOptions \<Rightarrow> written list" where
  "genpod_command w opt =
     (case ValidateGenPod opt of Some err \<Rightarrow> [Error_line err, Help] | None \<Rightarrow> RunGenPod w opt)"

section \<open>hypercc\<close>

datatype command = Cluster_capacity | Genpod | Hypercc

text \<open>\<open>path.Base\<close>: the last element of a path, without trailing slashes.\<close>

definition path_base :: "string \<Rightarrow> string" where
  "path_base p =
     (if p = [] then ''.''
      else (let q = rev (dropWhile (\<lambda>c. c = CHR ''/'') (rev p)) in
        if q = [] then ''/'' else last (split_char (CHR ''/'') q)))"

definition hypercc_main :: "string \<Rightarrow> command" where
  "hypercc_main arg0 =
     (if path_base arg0 = ''cluster-capacity'' then Cluster_capacity
      else if path_base arg0 = ''genpod'' then Genpod
      else Hypercc)"

section \<open>A run that succeeds\<close>

lemma bind_Inr [simp]: "bind r f = Inr (Inr y) \<longleftrightarrow> (\<exists>x. r = Inr x \<and> f x = Inr (Inr y))"
  by (simp add: bind_def split: sum.splits)

lemma wrap_error_Inr [simp]: "wrap_error f r = Inr x \<longleftrightarrow> r = Inr x"
  by (cases r) (simp_all add: wrap_error_def)

lemma check_Inr [simp]: "check e = Inr u \<longleftrightarrow> e = None"
  by (simp add: check_def split: option.splits)

lemma may_panic_Inr [simp]: "may_panic r f = Inr y \<longleftrightarrow> (\<exists>x. r = Inr x \<and> f x = Inr y)"
  by (simp add: may_panic_def split: sum.splits)

lemma New_Inr: "New e t m exclude = Inr c \<Longrightarrow> e = None"
  by (simp add: New_def split: option.splits)

lemma New_or_die_Inr [simp]:
  "New_or_die dynErr e t m exclude = Inr r \<longleftrightarrow> dynErr = None \<and> r = New e t m exclude"
  by (auto simp: New_or_die_def split: option.split)

lemma runSimulator_result:
  assumes "runSimulator w cfg config pod opt = Inr (Inr r)"
  obtains c c1 c2 c3 where "New None pod (MaxLimit opt) (ExcludeNodes opt) = Inr c"
    "SyncWithClient (snapshot w) c = (c1, None)" "simulate w c1 = Inr (None, c2)"
    "Report (clock w) c2 = Inr (c3, r)"
proof -
  obtain c c1 c2 c3 where "New (scheduler_error w config) pod (MaxLimit opt) (ExcludeNodes opt) = Inr c"
    "SyncWithClient_watched (informers w) (snapshot w) c = Inr (c1, None)" "simulate w c1 = Inr (None, c2)"
    "Report (clock w) c2 = Inr (c3, r)"
    using assms by (auto simp: runSimulator_def)
  then show thesis
    using that New_Inr copy_result by metis
qed

lemma Run_result:
  assumes "Run w opt = Inr (Inr out)"
  obtains cfg config pod review where "ParseAPISpec (specs w) opt DefaultSchedulerName = Inr pod"
    "runSimulator w cfg config pod opt = Inr (Inr review)"
    "ClusterCapacityReviewPrint (printing w) review (Verbose opt) (OutputFormat opt) = Inr out"
  using assms unfolding Run_def bind_Inr wrap_error_Inr may_panic_Inr by auto

section \<open>A run that panics\<close>

lemma bind_Inl [simp]: "bind r f = Inl p \<longleftrightarrow> (\<exists>x. r = Inr x \<and> f x = Inl p)"
  by (simp add: bind_def split: sum.splits)

lemma may_panic_Inl [simp]: "may_panic r f = Inl p \<longleftrightarrow> r = Inl p \<or> (\<exists>x. r = Inr x \<and> f x = Inl p)"
  by (auto simp: may_panic_def split: sum.splits)

lemma New_or_die_Inl [simp]: "New_or_die dynErr e t m exclude = Inl p \<longleftrightarrow> (\<exists>err. dynErr = Some err \<and> p = Panic_with err)"
  by (auto simp: New_or_die_def split: option.split)

text \<open>The calls of the command that can panic: the dynamic client, the copying, the simulation, and the report after it.\<close>

lemma runSimulator_panic:
  assumes "runSimulator w cfg config pod opt = Inl p"
  obtains (dynamic) err where "dynamic_error w cfg = Some err" "p = Panic_with err"
    | (copy) c where "New None pod (MaxLimit opt) (ExcludeNodes opt) = Inr c"
        "SyncWithClient_watched (informers w) (snapshot w) c = Inl p"
    | (run) c c1 where "New None pod (MaxLimit opt) (ExcludeNodes opt) = Inr c"
        "SyncWithClient (snapshot w) c = (c1, None)" "simulate w c1 = Inl p"
    | (report) c c1 c2 where "New None pod (MaxLimit opt) (ExcludeNodes opt) = Inr c"
        "SyncWithClient (snapshot w) c = (c1, None)" "simulate w c1 = Inr (None, c2)" "Report (clock w) c2 = Inl p"
proof -
  let ?new = "New (scheduler_error w config) pod (MaxLimit opt) (ExcludeNodes opt)"
  consider "\<exists>err. dynamic_error w cfg = Some err \<and> p = Panic_with err"
    | c where "?new = Inr c" "SyncWithClient_watched (informers w) (snapshot w) c = Inl p"
    | c c1 where "?new = Inr c" "SyncWithClient_watched (informers w) (snapshot w) c = Inr (c1, None)"
        "simulate w c1 = Inl p"
    | c c1 c2 where "?new = Inr c" "SyncWithClient_watched (informers w) (snapshot w) c = Inr (c1, None)"
        "simulate w c1 = Inr (None, c2)" "Report (clock w) c2 = Inl p"
    using assms by (auto simp: runSimulator_def)
  then show thesis
    using dynamic copy run report New_Inr copy_result by cases metis+
qed

lemma Run_panic:
  assumes "Run w opt = Inl p"
  obtains cfg config pod where "ParseAPISpec (specs w) opt DefaultSchedulerName = Inr pod"
    "client_config w (Kubeconfig opt) = Inr cfg" "runSimulator w cfg config pod opt = Inl p"
  using assms unfolding Run_def bind_Inl wrap_error_Inr may_panic_Inl by auto

section \<open>The name a binary is called by\<close>

lemma strip_slashes:
  "\<exists>n. p = rev (dropWhile (\<lambda>c. c = x) (rev p)) @ replicate n x"
proof -
  have "rev p = takeWhile (\<lambda>c. c = x) (rev p) @ dropWhile (\<lambda>c. c = x) (rev p)"
    by simp
  moreover have "takeWhile (\<lambda>c. c = x) s = replicate (length (takeWhile (\<lambda>c. c = x) s)) x" for s
    by (induction s) auto
  ultimately have "rev p = replicate (length (takeWhile (\<lambda>c. c = x) (rev p))) x @ dropWhile (\<lambda>c. c = x) (rev p)"
    by metis
  then have "p = rev (replicate (length (takeWhile (\<lambda>c. c = x) (rev p))) x @ dropWhile (\<lambda>c. c = x) (rev p))"
    by (metis rev_rev_ident)
  then show ?thesis
    unfolding rev_append rev_replicate by blast
qed

lemma path_base_iff:
  assumes "name \<noteq> []" "CHR ''/'' \<notin> set name" "name \<noteq> ''.''"
  shows "path_base p = name \<longleftrightarrow>
    (\<exists>dir n. p = dir @ name @ replicate n (CHR ''/'') \<and> (dir = [] \<or> last dir = CHR ''/''))"
proof
  assume b: "path_base p = name"
  define q where "q = rev (dropWhile (\<lambda>c. c = CHR ''/'') (rev p))"
  have "last (split_char (CHR ''/'') q) = name"
    using b assms unfolding path_base_def Let_def q_def [symmetric] by (auto split: if_splits)
  then obtain dir where dir: "q = dir @ name" "dir = [] \<or> last dir = CHR ''/''"
    using last_split_char_prefix [of q "CHR ''/''"] by auto
  obtain n where "p = q @ replicate n (CHR ''/'')"
    using strip_slashes [of p "CHR ''/''"] unfolding q_def by blast
  with dir have "p = dir @ name @ replicate n (CHR ''/'')" "dir = [] \<or> last dir = CHR ''/''"
    by simp_all
  then show "\<exists>dir n. p = dir @ name @ replicate n (CHR ''/'') \<and> (dir = [] \<or> last dir = CHR ''/'')"
    by blast
next
  assume "\<exists>dir n. p = dir @ name @ replicate n (CHR ''/'') \<and> (dir = [] \<or> last dir = CHR ''/'')"
  then obtain dir n where p: "p = dir @ name @ replicate n (CHR ''/'')" "dir = [] \<or> last dir = CHR ''/''"
    by blast
  obtain t z where "name = t @ [z]" "z \<noteq> CHR ''/''"
    using assms(1,2) by (cases name rule: rev_cases) auto
  then have "rev (dropWhile (\<lambda>c. c = CHR ''/'') (rev p)) = dir @ name"
    by (simp add: p dropWhile_append)
  with assms p show "path_base p = name"
    by (simp add: path_base_def last_split_char_append)
qed

text \<open>
  The combined binary acts as \<open>cluster-capacity\<close> or as \<open>genpod\<close> exactly when it is called under that
  name, in any directory and with any number of slashes after it; otherwise it offers both.\<close>

lemma hypercc_dispatch:
  "(hypercc_main arg0 = Cluster_capacity \<longleftrightarrow>
      (\<exists>dir n. arg0 = dir @ ''cluster-capacity'' @ replicate n (CHR ''/'') \<and> (dir = [] \<or> last dir = CHR ''/''))) \<and>
   (hypercc_main arg0 = Genpod \<longleftrightarrow>
      (\<exists>dir n. arg0 = dir @ ''genpod'' @ replicate n (CHR ''/'') \<and> (dir = [] \<or> last dir = CHR ''/'')))"
proof -
  have "hypercc_main arg0 = Cluster_capacity \<longleftrightarrow> path_base arg0 = ''cluster-capacity''"
    "hypercc_main arg0 = Genpod \<longleftrightarrow> path_base arg0 = ''genpod''"
    by (auto simp: hypercc_main_def)
  then show ?thesis
    by (simp add: path_base_iff)
qed

end
