(* ===== verification/Command_Line.thy ===== *)
theory Command_Line
  imports Flags Commands
begin

text \<open>
  From the arguments of a process to its output and exit status: the flags of the two commands
  (\<open>AddFlags\<close> of the two files \<open>options.go\<close>), what the vendored package cobra does with a command line
  (\<open>Find\<close>, \<open>execute\<close> and \<open>ExecuteC\<close> of \<open>command.go\<close>) and the mains of \<open>cmd/cluster-capacity\<close>,
  \<open>cmd/genpod\<close> and \<open>cmd/hypercc\<close>. The flags that other packages register with the standard library
  (\<open>flag.CommandLine\<close>) are an argument, \<open>go\<close>; no package of the repository registers flags with pflag.
  The commands that cobra adds itself (\<open>help\<close>, \<open>completion\<close> and the completion requests) are named
  in the result, not modelled.
\<close>

section \<open>The flags\<close>

definition StringVarP :: "(string \<Rightarrow> 'o \<Rightarrow> 'o) \<Rightarrow> string \<Rightarrow> string \<Rightarrow> 'o Flag" where
  "StringVarP store name shorthand = \<lparr>FlagName = name, Shorthand = shorthand, NoOptDefVal = [],
     Set_value = (\<lambda>s v. Inr (store s v))\<rparr>"

definition BoolVarP :: "(bool \<Rightarrow> 'o \<Rightarrow> 'o) \<Rightarrow> string \<Rightarrow> string \<Rightarrow> 'o Flag" where
  "BoolVarP store name shorthand = \<lparr>FlagName = name, Shorthand = shorthand, NoOptDefVal = ''true'',
     Set_value = (\<lambda>s v. map_sum id (\<lambda>b. store b v) (ParseBool s))\<rparr>"

definition IntVar :: "(int \<Rightarrow> 'o \<Rightarrow> 'o) \<Rightarrow> string \<Rightarrow> 'o Flag" where
  "IntVar store name = \<lparr>FlagName = name, Shorthand = [], NoOptDefVal = [],
     Set_value = (\<lambda>s v. map_sum id (\<lambda>i. store i v) (ParseInt0 s))\<rparr>"

text \<open>
  A list of strings has the value and whether it was set before (\<open>stringSliceValue\<close>): the first
  time replaces the default, every other time appends.
\<close>

definition set_slice :: "string list \<Rightarrow> bool \<times> string list \<Rightarrow> bool \<times> string list" where
  "set_slice v old = (True, if fst old then snd old @ v else v)"

definition StringSliceVar ::
    "('o \<Rightarrow> bool \<times> string list) \<Rightarrow> (bool \<times> string list \<Rightarrow> 'o \<Rightarrow> 'o) \<Rightarrow> string \<Rightarrow> 'o Flag" where
  "StringSliceVar current store name = \<lparr>FlagName = name, Shorthand = [], NoOptDefVal = [],
     Set_value = (\<lambda>s v. map_sum id (\<lambda>xs. store (set_slice xs (current v)) v) (readAsCSV s))\<rparr>"

record 'a parsed =
  cmd_options :: 'a
  slice_changed :: bool
  help_requested :: bool

abbreviation on_options :: "('a \<Rightarrow> 'a) \<Rightarrow> 'a parsed \<Rightarrow> 'a parsed" where
  "on_options g v \<equiv> v\<lparr>cmd_options := g (cmd_options v)\<rparr>"

definition AddFlags :: "ClusterCapacityOptions parsed Flag list" where
  "AddFlags =
     [StringVarP (\<lambda>s. on_options (\<lambda>opt. opt\<lparr>Kubeconfig := s\<rparr>)) ''kubeconfig'' [],
      StringVarP (\<lambda>s. on_options (\<lambda>opt. opt\<lparr>PodSpecFile := s\<rparr>)) ''podspec'' [],
      IntVar (\<lambda>i. on_options (\<lambda>opt. opt\<lparr>MaxLimit := i\<rparr>)) ''max-limit'',
      StringSliceVar (\<lambda>v. (slice_changed v, ExcludeNodes (cmd_options v)))
        (\<lambda>(changed, names) v. (on_options (\<lambda>opt. opt\<lparr>ExcludeNodes := names\<rparr>) v)\<lparr>slice_changed := changed\<rparr>)
        ''exclude-nodes'',
      StringVarP (\<lambda>s. on_options (\<lambda>opt. opt\<lparr>DefaultSchedulerConfigFile := s\<rparr>)) ''default-config'' [],
      BoolVarP (\<lambda>b. on_options (\<lambda>opt. opt\<lparr>Verbose := b\<rparr>)) ''verbose'' [],
      StringVarP (\<lambda>s. on_options (\<lambda>opt. opt\<lparr>OutputFormat := s\<rparr>)) ''output'' ''o'']"

definition AddFlagsGenPod :: "GenPodOptions parsed Flag list" where
  "AddFlagsGenPod =
     [StringVarP (\<lambda>s. on_options (\<lambda>opt. opt\<lparr>GenKubeconfig := s\<rparr>)) ''kubeconfig'' [],
      BoolVarP (\<lambda>b. on_options (\<lambda>opt. opt\<lparr>GenVerbose := b\<rparr>)) ''verbose'' [],
      StringVarP (\<lambda>s. on_options (\<lambda>opt. opt\<lparr>GenNamespace := s\<rparr>)) ''namespace'' [],
      StringVarP (\<lambda>s. on_options (\<lambda>opt. opt\<lparr>GenFormat := s\<rparr>)) ''output'' []]"

text \<open>\<open>AddFlags\<close> also stores the defaults: \<open>MaxLimit\<close> becomes 0, the rest stays.\<close>

definition start_parsed :: "'a \<Rightarrow> 'a parsed" where
  "start_parsed opt = \<lparr>cmd_options = opt, slice_changed = False, help_requested = False\<rparr>"

definition cluster_capacity_start :: "ClusterCapacityOptions parsed" where
  "cluster_capacity_start = start_parsed (NewClusterCapacityOptions\<lparr>MaxLimit := 0\<rparr>)"

definition cluster_capacity_flags :: "go_flag list \<Rightarrow> flag_panic + ClusterCapacityOptions parsed FlagSet" where
  "cluster_capacity_flags go =
     (case AddGoFlagSet go (NewFlagSet WordSepNormalizeFunc) of Inl p \<Rightarrow> Inl p | Inr f \<Rightarrow> add_flags AddFlags f)"

definition genpod_flags :: "flag_panic + GenPodOptions parsed FlagSet" where
  "genpod_flags = add_flags AddFlagsGenPod (NewFlagSet (\<lambda>name. name))"

declare StringVarP_def [registration] BoolVarP_def [registration] IntVar_def [registration]
  StringSliceVar_def [registration] AddFlags_def [registration] AddFlagsGenPod_def [registration]
  WordSepNormalizeFunc_def [registration]

section \<open>Cobra\<close>

definition help_flag :: "'a parsed Flag" where
  "help_flag = BoolVarP (\<lambda>b v. v\<lparr>help_requested := b\<rparr>) ''help'' ''h''"

definition InitDefaultHelpFlag :: "'a parsed FlagSet \<Rightarrow> flag_panic + 'a parsed FlagSet" where
  "InitDefaultHelpFlag f = (if Lookup f ''help'' = None then AddFlag help_flag f else Inr f)"

text \<open>\<open>takes_next\<close> says which arguments \<open>stripFlags\<close> and \<open>argsMinusFirstX\<close> take for a flag with a value.\<close>

definition takes_next :: "'o FlagSet \<Rightarrow> string \<Rightarrow> bool" where
  "takes_next f s \<longleftrightarrow>
     (has_prefix ''--'' s \<and> CHR ''='' \<notin> set s \<and> \<not> optional_value (Lookup f (drop 2 s))) \<or>
     (has_prefix ''-'' s \<and> CHR ''='' \<notin> set s \<and> length s = 2 \<and> \<not> optional_value (map_of (shorthands f) (s ! 1)))"

function stripFlags :: "'o FlagSet \<Rightarrow> string list \<Rightarrow> string list" where
  "stripFlags f [] = []"
| "stripFlags f (s # args) =
     (if s = ''--'' then []
      else if takes_next f s then (if length args \<le> 1 then [] else stripFlags f (tl args))
      else if s \<noteq> [] \<and> \<not> has_prefix ''-'' s then s # stripFlags f args
      else stripFlags f args)"
  by pat_completeness auto
termination
  by (relation "measure (\<lambda>(f, args). length args)") auto

function argsMinusFirstX :: "'o FlagSet \<Rightarrow> string \<Rightarrow> string list \<Rightarrow> string list" where
  "argsMinusFirstX f x [] = []"
| "argsMinusFirstX f x (s # args) =
     (if s = ''--'' then s # args
      else if takes_next f s then s # take 1 args @ argsMinusFirstX f x (drop 1 args)
      else if \<not> has_prefix ''-'' s \<and> s = x then args
      else s # argsMinusFirstX f x args)"
  by pat_completeness auto
termination
  by (relation "measure (\<lambda>(f, x, args). length args)") auto

datatype 'a executed =
    Help_shown
  | Flag_failure flag_error
  | Called 'a "string list"
  | Unknown_command string
  | Builtin string "string list"

definition execute :: "'a parsed FlagSet \<Rightarrow> 'a parsed \<Rightarrow> bool \<Rightarrow> string list \<Rightarrow> 'a executed" where
  "execute f v runnable a =
     (case Parse f a v of
        Inl ErrHelp \<Rightarrow> Help_shown
      | Inl e \<Rightarrow> Flag_failure e
      | Inr (args, v) \<Rightarrow> if help_requested v \<or> \<not> runnable then Help_shown else Called (cmd_options v) args)"

text \<open>A command without commands of its own: only a call of cobra's own commands goes elsewhere.\<close>

definition completion_commands :: "string list" where
  "completion_commands = [''completion'', ''__complete'', ''__completeNoDesc'']"

definition execute_command :: "'a parsed FlagSet \<Rightarrow> 'a parsed \<Rightarrow> bool \<Rightarrow> string list \<Rightarrow> flag_panic + 'a executed" where
  "execute_command f v runnable a = map_sum id (\<lambda>f. execute f v runnable a) (InitDefaultHelpFlag f)"

definition ExecuteC :: "'a parsed FlagSet \<Rightarrow> 'a parsed \<Rightarrow> string list \<Rightarrow> flag_panic + 'a executed" where
  "ExecuteC f v args =
     (case stripFlags f args of
        x # _ \<Rightarrow>
          if x \<in> set completion_commands then Inr (Builtin x (argsMinusFirstX f x args))
          else execute_command f v True args
      | [] \<Rightarrow> execute_command f v True args)"

section \<open>The programs\<close>

datatype printed =
    Written written
  | Flag_error_line flag_error
  | Unknown_command_line string
  | Usage_hint
  | Usage
  | Help_text
  | Cobra_output string "string list"

datatype crash =
    Flag_crash flag_panic
  | Run_crash panic

text \<open>
  What a process prints and its exit status; \<open>log.Fatalf\<close> exits with 1 too. The status of cobra's own
  commands is an argument, \<open>builtin\<close>.
\<close>

type_synonym exit = "crash + printed list \<times> int"

definition status_of :: "written list \<Rightarrow> int" where
  "status_of ws = (if \<exists>e. Fatal e \<in> set ws then 1 else 0)"

definition cmdExecute ::
    "(string \<Rightarrow> string list \<Rightarrow> int) \<Rightarrow> ('a \<Rightarrow> panic + written list) \<Rightarrow> flag_panic + 'a executed \<Rightarrow> exit" where
  "cmdExecute builtin run executed =
     (case executed of
        Inl p \<Rightarrow> Inl (Flag_crash p)
      | Inr Help_shown \<Rightarrow> Inr ([Help_text], 0)
      | Inr (Flag_failure e) \<Rightarrow> Inr ([Flag_error_line e, Usage, Flag_error_line e], 1)
      | Inr (Unknown_command x) \<Rightarrow> Inr ([Unknown_command_line x, Usage_hint, Unknown_command_line x], 1)
      | Inr (Builtin x args) \<Rightarrow> Inr ([Cobra_output x args], builtin x args)
      | Inr (Called opt args) \<Rightarrow>
          (case run opt of Inl p \<Rightarrow> Inl (Run_crash p) | Inr ws \<Rightarrow> Inr (map Written ws, status_of ws)))"

definition NewClusterCapacityCommand :: "go_flag list \<Rightarrow> string list \<Rightarrow> flag_panic + ClusterCapacityOptions executed" where
  "NewClusterCapacityCommand go args =
     (case cluster_capacity_flags go of Inl p \<Rightarrow> Inl p | Inr f \<Rightarrow> ExecuteC f cluster_capacity_start args)"

definition NewGenPodCommand :: "string list \<Rightarrow> flag_panic + GenPodOptions executed" where
  "NewGenPodCommand args =
     (case genpod_flags of Inl p \<Rightarrow> Inl p | Inr f \<Rightarrow> ExecuteC f (start_parsed NewGenPodOptions) args)"

definition cluster_capacity_main ::
    "world \<Rightarrow> (string \<Rightarrow> string list \<Rightarrow> int) \<Rightarrow> go_flag list \<Rightarrow> string list \<Rightarrow> exit" where
  "cluster_capacity_main w builtin go args =
     cmdExecute builtin (cluster_capacity_command w) (NewClusterCapacityCommand go args)"

definition genpod_main :: "world \<Rightarrow> (string \<Rightarrow> string list \<Rightarrow> int) \<Rightarrow> string list \<Rightarrow> exit" where
  "genpod_main w builtin args = cmdExecute builtin (\<lambda>opt. Inr (genpod_command w opt)) (NewGenPodCommand args)"

text \<open>
  The combined binary (\<open>NewHyperCCCommand\<close>) has no flags of its own and finds the command by the first
  argument that is neither a flag nor, as it seems without flags, the value of one.
\<close>

definition NewHyperCCCommand ::
    "world \<Rightarrow> (string \<Rightarrow> string list \<Rightarrow> int) \<Rightarrow> go_flag list \<Rightarrow> string list \<Rightarrow> exit" where
  "NewHyperCCCommand w builtin go args =
     (case cluster_capacity_flags go of Inl p \<Rightarrow> Inl (Flag_crash p) | Inr fc \<Rightarrow>
     (case genpod_flags of Inl p \<Rightarrow> Inl (Flag_crash p) | Inr fg \<Rightarrow>
       (let root = NewFlagSet (\<lambda>name. name) :: unit parsed FlagSet in
        case stripFlags root args of
          [] \<Rightarrow> cmdExecute builtin (\<lambda>_. Inr []) (execute_command root (start_parsed ()) False args)
        | x # _ \<Rightarrow>
            (let a = argsMinusFirstX root x args in
             if x = ''cluster-capacity'' then
               cmdExecute builtin (cluster_capacity_command w) (execute_command fc cluster_capacity_start True a)
             else if x = ''genpod'' then
               cmdExecute builtin (\<lambda>opt. Inr (genpod_command w opt))
                 (execute_command fg (start_parsed NewGenPodOptions) True a)
             else if x = ''help'' \<or> x \<in> set completion_commands then Inr ([Cobra_output x a], builtin x a)
             else cmdExecute builtin (\<lambda>_ :: unit. Inr []) (Inr (Unknown_command x))))))"

definition hypercc_process ::
    "world \<Rightarrow> (string \<Rightarrow> string list \<Rightarrow> int) \<Rightarrow> go_flag list \<Rightarrow> string \<Rightarrow> string list \<Rightarrow> exit" where
  "hypercc_process w builtin go arg0 args =
     (case hypercc_main arg0 of
        Cluster_capacity \<Rightarrow> cluster_capacity_main w builtin go args
      | Genpod \<Rightarrow> genpod_main w builtin args
      | Hypercc \<Rightarrow> NewHyperCCCommand w builtin go args)"

end
