(* ===== verification/Line_Properties.thy ===== *)
theory Line_Properties
  imports Command_Line
begin

text \<open>
  The properties of the command lines of theory \<open>Command_Line\<close>: what a line of settings does, that every
  choice of options can be written and is read back, repeated and misspelled flags, the exit
  status, and that the combined binary \<open>hypercc\<close> does what the two binaries do.
\<close>

section \<open>The flags of cluster-capacity\<close>

lemma AddFlag_keeps: "AddFlag flag f = Inr g \<Longrightarrow> Lookup f n = Some x \<Longrightarrow> Lookup g n = Some x"
  by (auto simp: AddFlag_def Lookup_def Let_def split: if_splits list.splits)

lemma add_flags_keeps: "add_flags flags f = Inr g \<Longrightarrow> Lookup f n = Some x \<Longrightarrow> Lookup g n = Some x"
  by (induction flags arbitrary: f) (auto dest: AddFlag_keeps split: sum.splits)

lemma add_flags_preserves:
  "add_flags flags f = Inr g \<Longrightarrow> normalizeNameFunc g = normalizeNameFunc f \<and> interspersed g = interspersed f \<and>
    UnknownFlags g = UnknownFlags f"
  by (induction flags arbitrary: f) (auto dest: AddFlag_Inr(2-4) split: sum.splits)

lemma add_flags_member:
  "add_flags flags f = Inr g \<Longrightarrow> flag \<in> set flags \<Longrightarrow> normalizeNameFunc f n = normalizeNameFunc f (FlagName flag) \<Longrightarrow>
    Lookup g n = Some (flag\<lparr>FlagName := normalizeNameFunc f (FlagName flag)\<rparr>)"
proof (induction flags arbitrary: f)
  case (Cons fl flags)
  then obtain h where h: "AddFlag fl f = Inr h" "add_flags flags h = Inr g"
    by (auto split: sum.splits)
  show ?case
  proof (cases "flag = fl")
    case True
    with Cons.prems(3) AddFlag_Inr(1) [OF h(1)] have "Lookup h n = Some (flag\<lparr>FlagName := normalizeNameFunc f (FlagName flag)\<rparr>)"
      by simp
    with h(2) show ?thesis
      by (rule add_flags_keeps)
  next
    case False
    with Cons h AddFlag_Inr(2) [OF h(1)] show ?thesis
      by simp
  qed
qed simp

lemma add_flags_absent:
  "add_flags flags f = Inr g \<Longrightarrow> \<forall>flag \<in> set flags. normalizeNameFunc f n \<noteq> normalizeNameFunc f (FlagName flag) \<Longrightarrow>
    Lookup g n = Lookup f n"
proof (induction flags arbitrary: f)
  case (Cons fl flags)
  then obtain h where h: "AddFlag fl f = Inr h" "add_flags flags h = Inr g"
    by (auto split: sum.splits)
  with Cons AddFlag_Inr(1,2) [OF h(1)] show ?case
    by simp
qed simp

lemma AddGoFlagSet_preserves:
  "AddGoFlagSet gs f = Inr g \<Longrightarrow> normalizeNameFunc g = normalizeNameFunc f \<and> interspersed g = interspersed f \<and>
    UnknownFlags g = UnknownFlags f"
  by (induction gs arbitrary: f) (auto dest: AddFlag_Inr(2-4) split: sum.splits if_splits)

text \<open>The flags of a call of \<open>cluster-capacity\<close>, with the flag for help.\<close>

definition call_flags :: "go_flag list \<Rightarrow> ClusterCapacityOptions parsed FlagSet \<Rightarrow> bool" where
  "call_flags go g \<longleftrightarrow> (\<exists>f. cluster_capacity_flags go = Inr f \<and> InitDefaultHelpFlag f = Inr g)"

lemma WordSep_names: "flag \<in> set AddFlags \<Longrightarrow> WordSepNormalizeFunc (FlagName flag) = FlagName flag"
  by (auto simp: registration)

lemma cluster_flags_normal: "cluster_capacity_flags go = Inr f \<Longrightarrow> normalizeNameFunc f = WordSepNormalizeFunc"
  by (auto simp: cluster_capacity_flags_def NewFlagSet_def dest!: AddGoFlagSet_preserves add_flags_preserves
      split: sum.splits)

lemma call_flags_facts:
  assumes "call_flags go g"
  shows "normalizeNameFunc g = WordSepNormalizeFunc" "interspersed g" "\<not> UnknownFlags g"
    and "flag \<in> set AddFlags \<Longrightarrow> WordSepNormalizeFunc n = FlagName flag \<Longrightarrow> Lookup g n = Some flag"
proof -
  obtain f0 f where f: "AddGoFlagSet go (NewFlagSet WordSepNormalizeFunc) = Inr f0" "add_flags AddFlags f0 = Inr f"
    "InitDefaultHelpFlag f = Inr g"
    using assms by (auto simp: call_flags_def cluster_capacity_flags_def split: sum.splits)
  have n: "normalizeNameFunc f = WordSepNormalizeFunc" "interspersed f" "\<not> UnknownFlags f"
    "normalizeNameFunc f0 = WordSepNormalizeFunc"
    using AddGoFlagSet_preserves [OF f(1)] add_flags_preserves [OF f(2)] by (simp_all add: NewFlagSet_def)
  show "normalizeNameFunc g = WordSepNormalizeFunc" "interspersed g" "\<not> UnknownFlags g"
    using f(3) n(1-3) AddFlag_Inr(2-4) [of help_flag f g] by (auto simp: InitDefaultHelpFlag_def split: if_splits)
  show "Lookup g m = Some flag" if "flag \<in> set AddFlags" "WordSepNormalizeFunc m = FlagName flag" for m
  proof -
    have "Lookup f m = Some flag"
      using add_flags_member [OF f(2) that(1), of m] that WordSep_names [OF that(1)] n(4) by simp
    then show ?thesis
      using f(3) AddFlag_keeps [of help_flag f g m flag] by (auto simp: InitDefaultHelpFlag_def split: if_splits)
  qed
qed

lemma call_flags_set:
  assumes "call_flags go g" "flag \<in> set AddFlags" "WordSepNormalizeFunc n = FlagName flag"
  shows "set_named g n x v =
    (let x = (case x of None \<Rightarrow> NoOptDefVal flag | Some x \<Rightarrow> x) in
     case Set_value flag x v of Inl e \<Rightarrow> Inl (InvalidValue (FlagName flag) x e) | Inr v \<Rightarrow> Inr v)"
  using call_flags_facts(4) [OF assms(1,2), of n] call_flags_facts(4) [OF assms(1,2), of "FlagName flag"]
    WordSep_names [OF assms(2)] assms(3)
  by (simp add: set_named_def Set_flag_def Let_def)

lemmas call_flags_sets =
  call_flags_set [of _ _ "AddFlags ! 0" "''kubeconfig''"] call_flags_set [of _ _ "AddFlags ! 1" "''podspec''"]
  call_flags_set [of _ _ "AddFlags ! 2" "''max-limit''"] call_flags_set [of _ _ "AddFlags ! 3" "''exclude-nodes''"]
  call_flags_set [of _ _ "AddFlags ! 4" "''default-config''"] call_flags_set [of _ _ "AddFlags ! 5" "''verbose''"]
  call_flags_set [of _ _ "AddFlags ! 6" "''output''"]

lemma ParseBool_texts: "ParseBool ''true'' = Inr True" "ParseBool ''false'' = Inr False"
  by (simp_all add: ParseBool_def)

lemma flag_values:
  assumes "call_flags go g"
  shows "set_named g ''kubeconfig'' (Some x) v = Inr (on_options (\<lambda>opt. opt\<lparr>Kubeconfig := x\<rparr>) v)"
    "set_named g ''podspec'' (Some x) v = Inr (on_options (\<lambda>opt. opt\<lparr>PodSpecFile := x\<rparr>) v)"
    "ParseInt0 x = Inr i \<Longrightarrow> set_named g ''max-limit'' (Some x) v = Inr (on_options (\<lambda>opt. opt\<lparr>MaxLimit := i\<rparr>) v)"
    "readAsCSV x = Inr names \<Longrightarrow> set_named g ''exclude-nodes'' (Some x) v =
       Inr ((on_options (\<lambda>opt. opt\<lparr>ExcludeNodes := (if slice_changed v then ExcludeNodes (cmd_options v) @ names else names)\<rparr>) v)
         \<lparr>slice_changed := True\<rparr>)"
    "set_named g ''default-config'' (Some x) v = Inr (on_options (\<lambda>opt. opt\<lparr>DefaultSchedulerConfigFile := x\<rparr>) v)"
    "ParseBool x = Inr b \<Longrightarrow> set_named g ''verbose'' (Some x) v = Inr (on_options (\<lambda>opt. opt\<lparr>Verbose := b\<rparr>) v)"
    "set_named g ''verbose'' None v = Inr (on_options (\<lambda>opt. opt\<lparr>Verbose := True\<rparr>) v)"
    "set_named g ''output'' (Some x) v = Inr (on_options (\<lambda>opt. opt\<lparr>OutputFormat := x\<rparr>) v)"
  using call_flags_sets [OF assms]
  by (simp_all add: registration set_slice_def ParseBool_texts Let_def nth_Cons')

section \<open>Reading back a command line\<close>

definition line_of :: "ClusterCapacityOptions \<Rightarrow> setting list" where
  "line_of opt =
     [Assigned ''kubeconfig'' (Kubeconfig opt), Assigned ''podspec'' (PodSpecFile opt),
      Assigned ''max-limit'' (show_int (MaxLimit opt)), Assigned ''exclude-nodes'' (join '','' (ExcludeNodes opt)),
      Assigned ''default-config'' (DefaultSchedulerConfigFile opt),
      Assigned ''verbose'' (if Verbose opt then ''true'' else ''false''), Assigned ''output'' (OutputFormat opt)]"

fun mentions_help :: "setting \<Rightarrow> bool" where
  "mentions_help (Followed n x) = (WordSepNormalizeFunc n = ''help'')"
| "mentions_help (Switched n) = (WordSepNormalizeFunc n = ''help'')"
| "mentions_help (Short c x) = (c = CHR ''h'')"
| "mentions_help _ = False"

lemma fits_before_help:
  assumes "InitDefaultHelpFlag f = Inr g" "normalizeNameFunc f = WordSepNormalizeFunc" "\<not> mentions_help s" "fits g s"
  shows "fits f s"
proof (cases "f = g")
  case False
  then have added: "AddFlag help_flag f = Inr g"
    using assms(1) by (simp add: InitDefaultHelpFlag_def split: if_splits)
  have names: "WordSepNormalizeFunc (FlagName help_flag) = ''help''" "Shorthand help_flag = [CHR ''h'']"
    by (simp_all add: help_flag_def BoolVarP_def WordSepNormalizeFunc_def)
  show ?thesis
    using assms(3,4) by (cases s) (simp_all add: AddFlag_Inr [OF added] assms(2) names split: if_splits)
qed (use assms in simp)

text \<open>The arguments that \<open>stripFlags\<close> leaves.\<close>

definition command_words :: "setting list \<Rightarrow> string list" where
  "command_words ss = filter (\<lambda>s. s \<noteq> [] \<and> hd s \<noteq> CHR ''-'') (arguments ss)"

lemma has_prefix_dash:
  "has_prefix ''-'' s \<longleftrightarrow> s \<noteq> [] \<and> hd s = CHR ''-''"
  "has_prefix ''--'' (CHR ''-'' # CHR ''-'' # s)" "has_prefix ''--'' [CHR ''-'', c] \<longleftrightarrow> c = CHR ''-''"
  "has_prefix ''--'' s \<Longrightarrow> s \<noteq> [] \<and> hd s = CHR ''-'' \<and> 2 \<le> length s"
  by (cases s; auto simp: has_prefix_def dest: arg_cong [of _ _ length])+

lemma stripFlags_one:
  assumes "fits f s"
  shows "stripFlags f (written_as s @ rest) =
    filter (\<lambda>s. s \<noteq> [] \<and> hd s \<noteq> CHR ''-'') (argument_of s) @ stripFlags f rest"
proof (cases s)
  case (Assigned n x)
  with assms show ?thesis
    by (simp add: takes_next_def has_prefix_dash)
next
  case (Followed n x)
  with assms flag_word_parts [of n] show ?thesis
    by (cases rest) (simp_all add: takes_next_def has_prefix_dash)
next
  case (Switched n)
  with assms flag_word_parts [of n] show ?thesis
    by (cases n) (simp_all add: takes_next_def has_prefix_dash)
next
  case (Short c x)
  with assms have "takes_next f [CHR ''-'', c]" "c \<noteq> CHR ''-''"
    by (auto simp: takes_next_def has_prefix_dash(1))
  with Short show ?thesis
    by (cases rest) simp_all
next
  case (Argument t)
  with assms have "\<not> takes_next f t" "t \<noteq> ''--''"
    using has_prefix_dash(4) [of t] by (auto simp: takes_next_def plain_argument_def has_prefix_dash(1))
  with Argument show ?thesis
    by (auto simp: has_prefix_dash(1))
qed

lemma stripFlags_settings: "list_all (fits f) ss \<Longrightarrow> stripFlags f (written_all ss @ rest) = command_words ss @ stripFlags f rest"
  by (induction ss) (simp_all add: stripFlags_one written_all_def command_words_def arguments_def)

lemma run_settings:
  assumes "call_flags go g" "list_all (fits g) ss" "list_all (\<lambda>s. \<not> mentions_help s) ss"
    and "take 1 (command_words ss) \<notin> (\<lambda>x. [x]) ` set completion_commands"
    and "rest = [] \<or> (\<exists>more. rest = ''--'' # more)"
  shows "NewClusterCapacityCommand go (written_all ss @ rest) =
    Inr (case set_all g ss cluster_capacity_start of
           Inl ErrHelp \<Rightarrow> Help_shown
         | Inl e \<Rightarrow> Flag_failure e
         | Inr v \<Rightarrow> if help_requested v then Help_shown else Called (cmd_options v) (arguments ss @ tl rest))"
proof -
  obtain f where f: "cluster_capacity_flags go = Inr f" "InitDefaultHelpFlag f = Inr g"
    using assms(1) by (auto simp: call_flags_def)
  have "list_all (fits f) ss"
    using fits_before_help [OF f(2) cluster_flags_normal [OF f(1)]] assms(2,3) by (auto simp: list_all_iff)
  then have "stripFlags f (written_all ss @ rest) = command_words ss"
    using assms(5) by (auto simp: stripFlags_settings)
  then have "ExecuteC f cluster_capacity_start (written_all ss @ rest) =
      Inr (execute g cluster_capacity_start True (written_all ss @ rest))"
    using assms(4) f(2) by (cases "command_words ss") (auto simp: ExecuteC_def execute_command_def)
  moreover have "parseArgs g (written_all ss @ rest) [] v =
      (case set_all g ss v of Inl e \<Rightarrow> Inl e | Inr v \<Rightarrow> Inr (arguments ss @ tl rest, v))" for v
    using parse_settings [OF assms(2) call_flags_facts(2,3) [OF assms(1)], of rest "[]" v] assms(5)
    by (auto simp: parseArgs.simps(2) split: sum.split)
  ultimately show ?thesis
    using f(1) by (simp add: NewClusterCapacityCommand_def execute_def Parse_def split: sum.split flag_error.split)
qed

text \<open>C19:
  What a command line means: settings written in these four ways (\<open>--name=value\<close>, \<open>--name value\<close>,
  \<open>--name\<close> for a switch, \<open>-o value\<close>; not \<open>-ovalue\<close>, \<open>-o=value\<close> or grouped switches) with arguments between them, and anything after \<open>--\<close>, make
  \<open>cluster-capacity\<close> apply the settings one after the other to the default options and run with the result,
  or fail at the first setting that cannot be applied; the scanner never confuses a value with a flag or a
  command. The only condition is that the first word is none of cobra's completion commands.\<close>

theorem command_line_meaning:
  assumes "call_flags go g" "list_all (fits g) ss" "list_all (\<lambda>s. \<not> mentions_help s) ss"
    and "take 1 (command_words ss) \<notin> (\<lambda>x. [x]) ` set completion_commands"
    and "rest = [] \<or> (\<exists>more. rest = ''--'' # more)"
  shows "NewClusterCapacityCommand go (written_all ss @ rest) =
    Inr (case set_all g ss cluster_capacity_start of
           Inl ErrHelp \<Rightarrow> Help_shown
         | Inl e \<Rightarrow> Flag_failure e
         | Inr v \<Rightarrow> if help_requested v then Help_shown else Called (cmd_options v) (arguments ss @ tl rest))"
  using assms by (rule run_settings)

lemma line_of_settings:
  assumes "call_flags go g" "int64 (MaxLimit opt)" "list_all csv_plain (ExcludeNodes opt)" "ExcludeNodes opt \<noteq> [[]]"
  shows "list_all (fits g) (line_of opt)" "list_all (\<lambda>s. \<not> mentions_help s) (line_of opt)" "arguments (line_of opt) = []"
    and "take 1 (command_words (line_of opt)) \<notin> (\<lambda>x. [x]) ` set completion_commands"
    and "\<exists>v. set_all g (line_of opt) cluster_capacity_start = Inr v \<and> \<not> help_requested v \<and> cmd_options v = opt"
proof -
  show "list_all (fits g) (line_of opt)" "list_all (\<lambda>s. \<not> mentions_help s) (line_of opt)" "arguments (line_of opt) = []"
    "take 1 (command_words (line_of opt)) \<notin> (\<lambda>x. [x]) ` set completion_commands"
    by (auto simp: line_of_def flag_word_def command_words_def arguments_def)
  show "\<exists>v. set_all g (line_of opt) cluster_capacity_start = Inr v \<and> \<not> help_requested v \<and> cmd_options v = opt"
    using flag_values [OF assms(1)] ParseInt0_show_int [OF assms(2)] readAsCSV_join [OF assms(3,4)]
    by (simp add: line_of_def cluster_capacity_start_def start_parsed_def NewClusterCapacityOptions_def ParseBool_texts)
qed

text \<open>C22:
  Every choice of options can be written as a command line, and \<open>cluster-capacity\<close> called with it runs
  with exactly these options, whatever flags other packages registered (as long as none is registered
  twice): the limit may be any 64-bit number, file names any text; the names of nodes must not hold a comma,
  a quote or a line break, as no name of a node does.\<close>

theorem command_line_round_trip:
  assumes "call_flags go g" "int64 (MaxLimit opt)" "list_all csv_plain (ExcludeNodes opt)" "ExcludeNodes opt \<noteq> [[]]"
  shows "NewClusterCapacityCommand go (written_all (line_of opt)) = Inr (Called opt [])"
  using run_settings [OF assms(1) line_of_settings(1,2,4) [OF assms], of "[]"] line_of_settings(3,5) [OF assms] by auto

definition sample_flags :: "ClusterCapacityOptions parsed FlagSet" where
  "sample_flags = projr (InitDefaultHelpFlag (projr (cluster_capacity_flags [])))"

lemma call_sample_flags: "call_flags [] sample_flags"
  by (simp add: call_flags_def sample_flags_def cluster_capacity_flags_def NewFlagSet_def AddFlag_def registration
      InitDefaultHelpFlag_def Lookup_def help_flag_def Let_def)

lemma sample_flags_facts:
  "Lookup sample_flags ''podspec'' = Some (AddFlags ! 1)" "Lookup sample_flags ''verbose'' = Some (AddFlags ! 5)"
  "map_of (shorthands sample_flags) (CHR ''o'') = Some (AddFlags ! 6)"
  "Lookup sample_flags ''output'' = Some (AddFlags ! 6)" "Lookup sample_flags ''master'' = None"
  by (simp_all add: sample_flags_def cluster_capacity_flags_def NewFlagSet_def AddFlag_def registration
      InitDefaultHelpFlag_def Lookup_def help_flag_def Let_def)

theorem command_line_round_trip_witness:
  "NewClusterCapacityCommand []
     [''--kubeconfig='', ''--podspec=a b.yaml'', ''--max-limit=-5'', ''--exclude-nodes=n1,n2'', ''--default-config='',
      ''--verbose=true'', ''--output=json''] =
   Inr (Called \<lparr>Kubeconfig = [], DefaultSchedulerConfigFile = [], MaxLimit = - 5, ExcludeNodes = [''n1'', ''n2''],
     Verbose = True, PodSpecFile = ''a b.yaml'', OutputFormat = ''json''\<rparr> [])"
proof -
  let ?opt = "\<lparr>Kubeconfig = [], DefaultSchedulerConfigFile = [], MaxLimit = - 5, ExcludeNodes = [''n1'', ''n2''],
     Verbose = True, PodSpecFile = ''a b.yaml'', OutputFormat = ''json''\<rparr>"
  have "show_nat 5 = ''5''"
    using digit_char_eq_iff [of 5 "CHR ''5''"] by (subst show_nat.simps) simp
  then have "written_all (line_of ?opt) = [''--kubeconfig='', ''--podspec=a b.yaml'', ''--max-limit=-5'',
      ''--exclude-nodes=n1,n2'', ''--default-config='', ''--verbose=true'', ''--output=json'']"
    by (simp add: line_of_def written_all_def show_int_def)
  then show ?thesis
    using command_line_round_trip [OF call_sample_flags, of ?opt] by (simp add: int64_def csv_plain_def)
qed

theorem command_line_meaning_witness:
  "NewClusterCapacityCommand [] [''--podspec'', ''pod.yaml'', ''word'', ''-o'', ''-'', ''--verbose'', ''--'', ''-o''] =
     Inr (Called (NewClusterCapacityOptions\<lparr>PodSpecFile := ''pod.yaml'', OutputFormat := ''-'', Verbose := True\<rparr>)
       [''word'', ''-o''])"
proof -
  let ?ss = "[Followed ''podspec'' ''pod.yaml'', Argument ''word'', Short (CHR ''o'') ''-'', Switched ''verbose'']"
  have v: "FlagName (AddFlags ! 6) = ''output''" "NoOptDefVal (AddFlags ! 6) = []" "NoOptDefVal (AddFlags ! Suc 0) = []"
    "NoOptDefVal (AddFlags ! 5) = ''true''" "Set_value (AddFlags ! 6) x v = Inr (on_options (\<lambda>opt. opt\<lparr>OutputFormat := x\<rparr>) v)" for x v
    by (simp_all add: registration)
  have "list_all (fits sample_flags) ?ss"
    by (simp add: sample_flags_facts optional_value_def v flag_word_def plain_argument_def)
  moreover have "list_all (\<lambda>s. \<not> mentions_help s) ?ss"
    by (simp add: WordSepNormalizeFunc_def)
  moreover have "take 1 (command_words ?ss) \<notin> (\<lambda>x. [x]) ` set completion_commands"
    by (auto simp: command_words_def arguments_def completion_commands_def)
  moreover have "set_all sample_flags ?ss cluster_capacity_start = Inr (start_parsed
      (NewClusterCapacityOptions\<lparr>PodSpecFile := ''pod.yaml'', OutputFormat := ''-'', Verbose := True\<rparr>))"
    using flag_values [OF call_sample_flags]
    by (simp add: Set_flag_def sample_flags_facts v cluster_capacity_start_def start_parsed_def NewClusterCapacityOptions_def)
  ultimately show ?thesis
    using command_line_meaning [OF call_sample_flags, of ?ss "[''--'', ''-o'']"]
    by (simp add: start_parsed_def written_all_def arguments_def)
qed

section \<open>Flags that do not exist, lists, spelling\<close>

text \<open>C23:
  A flag that the program does not have, such as \<open>--master\<close>, \<open>--period\<close> or \<open>--max-limits\<close>, makes the process print
  the error and the usage and exit with status 1, after whatever valid settings and before whatever other
  settings it stands and whatever the cluster is: no analysis is run.\<close>

theorem unknown_flag_stops:
  assumes "call_flags go g" "list_all (fits g) (ss @ s # ts)" "list_all (\<lambda>s. \<not> mentions_help s) (ss @ s # ts)"
    and "take 1 (command_words (ss @ s # ts)) \<notin> (\<lambda>x. [x]) ` set completion_commands"
    and "set_all g ss cluster_capacity_start = Inr v"
    and "s = Assigned n x \<or> s = Followed n x" "Lookup g n = None" "n \<noteq> ''help''"
  shows "cluster_capacity_main w builtin go (written_all (ss @ s # ts)) =
    Inr ([Flag_error_line (NotExist n []), Usage, Flag_error_line (NotExist n [])], 1)"
proof -
  have "set_one g s v = Inl (NotExist n [])"
    using assms(6-8) by (auto simp: set_named_def)
  then have "set_all g (ss @ s # ts) cluster_capacity_start = Inl (NotExist n [])"
    using assms(5) by (simp add: set_all_append)
  then show ?thesis
    using run_settings [OF assms(1-4), of "[]"] by (simp add: cluster_capacity_main_def cmdExecute_def)
qed

theorem unknown_flag_stops_witness:
  "\<forall>w builtin. cluster_capacity_main w builtin [] [''--podspec=examples/pod.yaml'', ''--master'', ''localhost'', ''--verbose''] =
    Inr ([Flag_error_line (NotExist ''master'' []), Usage, Flag_error_line (NotExist ''master'' [])], 1)"
proof (intro allI)
  fix w :: world and builtin :: "string \<Rightarrow> string list \<Rightarrow> int"
  let ?ss = "[Assigned ''podspec'' ''examples/pod.yaml'']" and ?s = "Followed ''master'' ''localhost''"
  have "NoOptDefVal (AddFlags ! 5) = ''true''"
    by (simp add: AddFlags_def BoolVarP_def)
  then have "list_all (fits sample_flags) (?ss @ ?s # [Switched ''verbose''])"
    by (simp add: sample_flags_facts optional_value_def flag_word_def)
  moreover have "list_all (\<lambda>s. \<not> mentions_help s) (?ss @ ?s # [Switched ''verbose''])"
    by (simp add: WordSepNormalizeFunc_def)
  moreover have "take 1 (command_words (?ss @ ?s # [Switched ''verbose''])) \<notin> (\<lambda>x. [x]) ` set completion_commands"
    by (auto simp: command_words_def arguments_def)
  moreover have "\<exists>v. set_all sample_flags ?ss cluster_capacity_start = Inr v"
    using flag_values [OF call_sample_flags] by simp
  moreover have "Lookup sample_flags ''master'' = None"
    by (rule sample_flags_facts)
  ultimately show "cluster_capacity_main w builtin [] [''--podspec=examples/pod.yaml'', ''--master'', ''localhost'', ''--verbose''] =
      Inr ([Flag_error_line (NotExist ''master'' []), Usage, Flag_error_line (NotExist ''master'' [])], 1)"
    using unknown_flag_stops [OF call_sample_flags, of ?ss ?s "[Switched ''verbose'']" _ "''master''" "''localhost''" w builtin]
    by (auto simp: written_all_def)
qed

text \<open>
  The list of excluded nodes may be given at once or in parts: repeated \<open>--exclude-nodes\<close> flags add up in the
  order they are given.\<close>

lemma exclude_nodes_add_up:
  assumes "call_flags go g" "list_all (\<lambda>names. list_all csv_plain names \<and> names \<noteq> [[]]) nss"
  shows "NewClusterCapacityCommand go (map (\<lambda>names. ''--exclude-nodes='' @ join '','' names) nss) =
    Inr (Called (NewClusterCapacityOptions\<lparr>ExcludeNodes := concat nss\<rparr>) [])"
proof -
  let ?ss = "map (\<lambda>names. Assigned ''exclude-nodes'' (join '','' names)) nss"
  have set: "(slice_changed v \<or> ExcludeNodes (cmd_options v) = []) \<Longrightarrow> \<exists>changed. set_all g ?ss v =
      Inr (v\<lparr>cmd_options := (cmd_options v)\<lparr>ExcludeNodes := ExcludeNodes (cmd_options v) @ concat nss\<rparr>,
        slice_changed := changed\<rparr>)" for v
    using assms(2)
  proof (induction nss arbitrary: v)
    case Nil
    then show ?case
      by (auto intro: exI [of _ "slice_changed v"])
  next
    case (Cons names nss)
    let ?v = "v\<lparr>cmd_options := (cmd_options v)\<lparr>ExcludeNodes := ExcludeNodes (cmd_options v) @ names\<rparr>, slice_changed := True\<rparr>"
    have "readAsCSV (join '','' names) = Inr names"
      using Cons.prems(2) by (intro readAsCSV_join) simp_all
    then have "set_one g (Assigned ''exclude-nodes'' (join '','' names)) v = Inr ?v"
      using flag_values(4) [OF assms(1)] Cons.prems(1) by auto
    with Cons.IH [of ?v] Cons.prems show ?case
      by simp
  qed
  have settings: "list_all (fits g) ?ss" "list_all (\<lambda>s. \<not> mentions_help s) ?ss" "arguments ?ss = []"
    "written_all ?ss = map (\<lambda>names. ''--exclude-nodes='' @ join '','' names) nss"
    by (induction nss) (simp_all add: flag_word_def arguments_def written_all_def)
  moreover have "take 1 (command_words ?ss) \<notin> (\<lambda>x. [x]) ` set completion_commands"
    by (auto simp: command_words_def settings(3))
  ultimately show ?thesis
    using run_settings [OF assms(1) settings(1,2), of "[]"] set [of cluster_capacity_start]
    by (auto simp: cluster_capacity_start_def start_parsed_def NewClusterCapacityOptions_def)
qed

lemma exclude_nodes_add_up_witness:
  "NewClusterCapacityCommand [] [''--exclude-nodes=a,b'', ''--exclude-nodes=c''] =
    Inr (Called (NewClusterCapacityOptions\<lparr>ExcludeNodes := [''a'', ''b'', ''c'']\<rparr>) [])"
  using exclude_nodes_add_up [OF call_sample_flags, of "[[''a'', ''b''], [''c'']]"] by (simp add: csv_plain_def)

text \<open>Two ways of writing the same settings, up to dashes and underscores in the names of flags.\<close>

fun same_spelling :: "setting \<Rightarrow> setting \<Rightarrow> bool" where
  "same_spelling (Assigned n x) (Assigned m y) = (x = y \<and> flag_word m \<and> WordSepNormalizeFunc n = WordSepNormalizeFunc m)"
| "same_spelling (Followed n x) (Followed m y) = (x = y \<and> flag_word m \<and> WordSepNormalizeFunc n = WordSepNormalizeFunc m)"
| "same_spelling (Switched n) (Switched m) = (flag_word m \<and> WordSepNormalizeFunc n = WordSepNormalizeFunc m)"
| "same_spelling s t = (s = t)"

lemma same_spelling_one:
  assumes "same_spelling s t" "call_flags go g" "fits g s"
  shows "fits g t" "mentions_help t = mentions_help s" "argument_of t = argument_of s"
    and "set_one g s v = Inr u \<Longrightarrow> set_one g t v = Inr u"
proof -
  have look: "Lookup g n = map_of (formal g) (WordSepNormalizeFunc n)" for n
    using call_flags_facts(1) [OF assms(2)] by (simp add: Lookup_def)
  show "fits g t" "mentions_help t = mentions_help s" "argument_of t = argument_of s"
    using assms(1,3) by (cases s; cases t; simp add: look)+
  have named: "set_named g n x v = Inr u \<Longrightarrow> set_named g m x v = Inr u" if "WordSepNormalizeFunc n = WordSepNormalizeFunc m" for n m x
    using that by (auto simp: set_named_def look split: option.splits)
  show "set_one g t v = Inr u" if "set_one g s v = Inr u"
    using assms(1) that by (cases s; cases t) (auto intro: named)
qed

text \<open>
  Underscores in the names of the flags mean dashes: a command line that \<open>cluster-capacity\<close> accepts is
  accepted with the same options when any of its flags is written with underscores, in whatever way it takes
  its value.\<close>

lemma spelling_irrelevant:
  assumes "call_flags go g" "list_all (fits g) ss" "list_all (\<lambda>s. \<not> mentions_help s) ss"
    and "take 1 (command_words ss) \<notin> (\<lambda>x. [x]) ` set completion_commands"
    and "list_all2 same_spelling ss ts" "set_all g ss cluster_capacity_start = Inr v"
  shows "NewClusterCapacityCommand go (written_all ts) = NewClusterCapacityCommand go (written_all ss)"
proof -
  have ts: "list_all (fits g) ts \<and> list_all (\<lambda>s. \<not> mentions_help s) ts \<and> arguments ts = arguments ss"
    using assms(5,2,3)
  proof (induction rule: list_all2_induct)
    case (Cons s ss t ts)
    then show ?case
      using same_spelling_one [OF Cons.hyps(1) assms(1)] by (simp add: arguments_def)
  qed (simp add: arguments_def)
  have "set_all g ts u = Inr v" if "set_all g ss u = Inr v" for u
    using assms(5,2) that
  proof (induction arbitrary: u rule: list_all2_induct)
    case (Cons s ss t ts)
    from Cons.prems obtain u' where u: "set_one g s u = Inr u'" "set_all g ss u' = Inr v"
      by (auto split: sum.splits)
    then show ?case
      using same_spelling_one(4) [OF Cons.hyps(1) assms(1) _ u(1)] Cons by simp
  qed simp
  from this [OF assms(6)] ts assms(4) show ?thesis
    using run_settings [OF assms(1-4), of "[]"] run_settings [OF assms(1), of ts "[]"] assms(6)
    by (simp add: command_words_def)
qed

lemma spelling_irrelevant_witness:
  "NewClusterCapacityCommand [] [''--max_limit=7''] = NewClusterCapacityCommand [] [''--max-limit=7'']"
proof -
  have "show_nat 7 = ''7''"
    using digit_char_eq_iff [of 7 "CHR ''7''"] by (subst show_nat.simps) simp
  then have "ParseInt0 ''7'' = Inr 7"
    using ParseInt0_show_int [of 7] by (simp add: show_int_def int64_def)
  then have "\<exists>v. set_all sample_flags [Assigned ''max-limit'' ''7''] cluster_capacity_start = Inr v"
    using flag_values(3) [OF call_sample_flags] by simp
  moreover have "take 1 (command_words [Assigned ''max-limit'' ''7'']) \<notin> (\<lambda>x. [x]) ` set completion_commands"
    by (auto simp: command_words_def arguments_def)
  ultimately show ?thesis
    using spelling_irrelevant [OF call_sample_flags, of "[Assigned ''max-limit'' ''7'']" "[Assigned ''max_limit'' ''7'']"]
    by (auto simp: flag_word_def WordSepNormalizeFunc_def written_all_def)
qed

section \<open>Exit status and the combined binary\<close>

lemma execute_outcome: "execute f v r a \<noteq> Unknown_command x \<and> execute f v r a \<noteq> Builtin x b"
  by (auto simp: execute_def split: sum.splits flag_error.splits)

lemma execute_command_outcome:
  "execute_command f v r a \<noteq> Inr (Unknown_command x) \<and> execute_command f v r a \<noteq> Inr (Builtin x b)"
  by (cases "InitDefaultHelpFlag f") (simp_all add: execute_command_def execute_outcome)

lemma cluster_capacity_no_fatal: "cluster_capacity_command w opt = Inr ws \<Longrightarrow> status_of ws = 0"
  by (auto simp: cluster_capacity_command_def status_of_def split: sum.splits)

text \<open>C24:
  The exit status of \<open>cluster-capacity\<close> does not say whether the analysis worked: once the command line is
  accepted the status is 0, whatever the outcome, an unreadable pod specification, an unreachable
  cluster or a failed simulation included (unless the process panics). The status is 1 exactly for a flag that
  cannot be applied.\<close>

theorem exit_status:
  assumes "\<forall>x args. NewClusterCapacityCommand go args0 \<noteq> Inr (Builtin x args)"
    and "cluster_capacity_main w builtin go args0 = Inr (out, exit_code)"
  shows "exit_code = (if \<exists>e. NewClusterCapacityCommand go args0 = Inr (Flag_failure e) then 1 else 0)"
proof -
  have no: "NewClusterCapacityCommand go args0 \<noteq> Inr (Unknown_command x)" for x
    by (auto simp: NewClusterCapacityCommand_def ExecuteC_def execute_command_outcome
        split: sum.splits list.splits)
  show ?thesis
  proof (cases "NewClusterCapacityCommand go args0")
    case (Inr r)
    show ?thesis
    proof (cases r)
      case (Called opt args)
      then show ?thesis
        using Inr assms(2) cluster_capacity_no_fatal [of w opt]
        by (auto simp: cluster_capacity_main_def cmdExecute_def split: sum.splits)
    qed (use Inr assms no in \<open>auto simp: cluster_capacity_main_def cmdExecute_def\<close>)
  qed (use assms(2) in \<open>simp add: cluster_capacity_main_def cmdExecute_def\<close>)
qed

lemma cluster_capacity_without_arguments:
  "NewClusterCapacityCommand [] [] = Inr (Called NewClusterCapacityOptions [])"
  using run_settings [OF call_sample_flags, of "[]" "[]"]
  by (auto simp: written_all_def arguments_def command_words_def cluster_capacity_start_def start_parsed_def
      NewClusterCapacityOptions_def)

theorem exit_status_witness:
  "\<forall>w builtin. cluster_capacity_main w builtin [] [] = Inr ([Written (Error_line (Err ''Pod spec file is missing'')), Written Help], 0) \<and>
   (0 :: int) = (if \<exists>e. NewClusterCapacityCommand [] [] = Inr (Flag_failure e) then 1 else 0)"
proof (intro allI)
  fix w :: world and builtin :: "string \<Rightarrow> string list \<Rightarrow> int"
  have out: "cluster_capacity_main w builtin [] [] = Inr ([Written (Error_line (Err ''Pod spec file is missing'')), Written Help], 0)"
    by (simp add: cluster_capacity_main_def cmdExecute_def cluster_capacity_without_arguments
        cluster_capacity_command_def Validate_def NewClusterCapacityOptions_def status_of_def)
  have "\<forall>x args. NewClusterCapacityCommand [] [] \<noteq> Inr (Builtin x args)"
    by (simp add: cluster_capacity_without_arguments)
  from exit_status [OF this out] out show "cluster_capacity_main w builtin [] [] = Inr ([Written (Error_line (Err ''Pod spec file is missing'')), Written Help], 0) \<and>
   (0 :: int) = (if \<exists>e. NewClusterCapacityCommand [] [] = Inr (Flag_failure e) then 1 else 0)"
    by simp
qed

lemma genpod_flags_total: "\<exists>f. genpod_flags = Inr f"
  by (simp add: genpod_flags_def NewFlagSet_def AddFlag_def registration Let_def)

lemma root_first: "takes_next f ''cluster-capacity'' = False" "takes_next f ''genpod'' = False"
  by (simp_all add: takes_next_def has_prefix_def)

lemma ExecuteC_command:
  "\<forall>x args'. ExecuteC f v args \<noteq> Inr (Builtin x args') \<Longrightarrow> ExecuteC f v args = execute_command f v True args"
  by (cases "stripFlags f args") (simp_all add: ExecuteC_def split: if_splits)

text \<open>
  The combined binary is equivalent to the two binaries: called under the name of one it is that one, and
  under any other name with \<open>cluster-capacity\<close> or \<open>genpod\<close> as the first argument it does to the
  output and the exit status what that binary does with the rest (but for cobra's completion commands, which the
  combined binary has itself).\<close>

lemma hypercc_equivalent:
  assumes "\<forall>x args'. NewClusterCapacityCommand go args \<noteq> Inr (Builtin x args')"
    and "\<forall>x args'. NewGenPodCommand args \<noteq> Inr (Builtin x args')"
    and "\<exists>f. cluster_capacity_flags go = Inr f"
  shows "hypercc_process w builtin go arg0
      (case hypercc_main arg0 of Hypercc \<Rightarrow> ''cluster-capacity'' # args | _ \<Rightarrow> args) =
    (if hypercc_main arg0 = Genpod then genpod_main w builtin args else cluster_capacity_main w builtin go args) \<and>
   NewHyperCCCommand w builtin go (''genpod'' # args) = genpod_main w builtin args"
proof -
  obtain fc fg where f: "cluster_capacity_flags go = Inr fc" "genpod_flags = Inr fg"
    using assms(3) genpod_flags_total by blast
  have cc: "NewClusterCapacityCommand go args = execute_command fc cluster_capacity_start True args"
    using assms(1) ExecuteC_command [of fc cluster_capacity_start args] unfolding NewClusterCapacityCommand_def f by simp
  have gp: "NewGenPodCommand args = execute_command fg (start_parsed NewGenPodOptions) True args"
    using assms(2) ExecuteC_command [of fg "start_parsed NewGenPodOptions" args] unfolding NewGenPodCommand_def f by simp
  have "NewHyperCCCommand w builtin go (''cluster-capacity'' # args) = cluster_capacity_main w builtin go args"
    by (simp add: NewHyperCCCommand_def f Let_def root_first has_prefix_dash(1) cluster_capacity_main_def cc)
  moreover have "NewHyperCCCommand w builtin go (''genpod'' # args) = genpod_main w builtin args"
    by (simp add: NewHyperCCCommand_def f Let_def root_first has_prefix_dash(1) genpod_main_def gp)
  ultimately show ?thesis
    by (cases "hypercc_main arg0") (simp_all add: hypercc_process_def)
qed

lemma hypercc_equivalent_witness:
  "\<forall>w builtin. NewHyperCCCommand w builtin [] [''genpod''] = genpod_main w builtin []"
proof (intro allI)
  fix w :: world and builtin :: "string \<Rightarrow> string list \<Rightarrow> int"
  have "\<forall>x args'. NewGenPodCommand [] \<noteq> Inr (Builtin x args')"
    by (auto simp: NewGenPodCommand_def ExecuteC_def execute_command_outcome split: sum.splits)
  moreover have "\<exists>f. cluster_capacity_flags [] = Inr f"
    using call_sample_flags by (auto simp: call_flags_def)
  ultimately show "NewHyperCCCommand w builtin [] [''genpod''] = genpod_main w builtin []"
    using hypercc_equivalent [of "[]" "[]" w builtin "''hypercc''"] cluster_capacity_without_arguments by simp
qed

end
