(* ===== verification/Sim_Steps.thy ===== *)
theory Sim_Steps
  imports Simulator
begin

text \<open>
  The analysis as a system of concurrent goroutines, a step relation on \<open>system\<close>: the
  goroutine of \<open>Run\<close>, the scheduler, which binds pods (each binding in a goroutine of its own)
  or records that a pod is unschedulable, and the informer, which delivers the pod events and
  runs \<open>Update\<close> on their conditions. The scheduler library is not modelled: it may pick any
  pod it is responsible for and any node of the simulated cluster, in any order.

  Each step is one handler up to the point where it parks or returns. The parameter \<open>retry\<close>
  says whether the scheduler may take up a pod again after it recorded a failure for it;
  \<open>marked\<close> remembers the pods it has given up. A panic ends the process (\<open>crashed\<close>).
\<close>

datatype main_pc = Starting | Receiving | Returned "go_error option"

record system =
  cc :: ClusterCapacity
  main :: main_pc
  cache :: "string \<times> string \<rightharpoonup> Pod"
  seen :: nat
  todo :: "(Pod \<times> PodCondition) list"
  parked :: bool
  marked :: "(string \<times> string) set"
  crashed :: "panic option"

definition initial_system :: "ClusterCapacity \<Rightarrow> system" where
  "initial_system c =
     \<lparr>cc = c, main = Starting, cache = Map.empty, seen = 0, todo = [], parked = False,
      marked = {}, crashed = None\<rparr>"

abbreviation pods_of :: "system \<Rightarrow> ((string \<times> string) \<times> Pod) list" where
  "pods_of s \<equiv> objects (cs_pods (client (cc s)))"

abbreviation events_of :: "system \<Rightarrow> Pod watch_event list" where
  "events_of s \<equiv> watches (cs_pods (client (cc s)))"

definition crash_or :: "system \<Rightarrow> panic + 'a \<Rightarrow> ('a \<Rightarrow> system) \<Rightarrow> system" where
  "crash_or s r f = (case r of Inl p \<Rightarrow> s\<lparr>crashed := Some p\<rparr> | Inr x \<Rightarrow> f x)"

section \<open>The transitions\<close>

definition do_create :: "string \<Rightarrow> system \<Rightarrow> system" where
  "do_create uuid s =
     crash_or s (run_create uuid (cc s)) (\<lambda>(c, err).
       s\<lparr>cc := c, main := (case err of None \<Rightarrow> Receiving | Some e \<Rightarrow> Returned (Some e))\<rparr>)"

text \<open>The receive from \<open>stop\<close> takes the goroutine that waits longest; then \<open>close(c.stop)\<close>.\<close>

definition do_receive :: "system \<Rightarrow> system" where
  "do_receive s =
     (let c = cc s; who = hd (senders (stop c));
          c' = c\<lparr>stop := (stop c)\<lparr>senders := tl (senders (stop c))\<rparr>\<rparr>;
          s' = (if who = Informer_goroutine then s\<lparr>parked := False\<rparr> else s) in
      crash_or s' (close_stop c') (\<lambda>c''. s'\<lparr>cc := c'', main := Returned None\<rparr>))"

definition do_bind :: "string \<Rightarrow> Pod \<Rightarrow> string \<Rightarrow> system \<Rightarrow> system" where
  "do_bind uuid p nodeName s = crash_or s (Bind uuid p nodeName (cc s)) (\<lambda>(c, err). s\<lparr>cc := c\<rparr>)"

text \<open>The scheduler gives a pod up: it patches the pod's \<open>PodScheduled\<close> condition.\<close>

definition failure_condition :: "string \<Rightarrow> string \<Rightarrow> PodCondition" where
  "failure_condition r m =
     \<lparr>CondType = ''PodScheduled'', CondStatus = ''False'', Reason = r, Message = m\<rparr>"

definition mark_pod :: "PodCondition \<Rightarrow> Pod \<Rightarrow> Pod" where
  "mark_pod cond p = p\<lparr>PStatus := (PStatus p)\<lparr>Conditions := set_condition cond (Conditions (PStatus p))\<rparr>\<rparr>"

definition do_mark :: "PodCondition \<Rightarrow> Pod \<Rightarrow> system \<Rightarrow> system" where
  "do_mark cond p s =
     (let c = cc s; (t, _) = pod_update (mark_pod cond p) (pod_ns p) (cs_pods (client c))
      in s\<lparr>cc := c\<lparr>client := (client c)\<lparr>cs_pods := t\<rparr>\<rparr>,
           marked := insert (object_key Meta p) (marked s)\<rparr>)"

text \<open>
  The informer takes the next watch event, updates its cache and, when it knew the object
  before, hands the conditions of the new object to the handler (\<open>processDeltas\<close>).
\<close>

fun event_object :: "'a watch_event \<Rightarrow> 'a" where
  "event_object (Added x) = x"
| "event_object (Modified x) = x"

definition do_deliver :: "system \<Rightarrow> system" where
  "do_deliver s =
     (let pod = event_object (events_of s ! seen s); k = object_key Meta pod in
      s\<lparr>cache := (cache s)(k \<mapsto> pod), seen := Suc (seen s),
        todo := (case cache s k of None \<Rightarrow> []
                 | Some old \<Rightarrow> map (Pair pod) (update_conditions DefaultSchedulerName old pod))\<rparr>)"

definition do_update :: "system \<Rightarrow> system" where
  "do_update s =
     (case hd (todo s) of (pod, cond) \<Rightarrow>
       crash_or s (Update pod cond DefaultSchedulerName (cc s)) (\<lambda>c.
         s\<lparr>cc := c, todo := tl (todo s),
           parked := (stop_condition cond \<and> HasAnnotation (Meta pod) podProvisioner)\<rparr>))"

section \<open>The step relation\<close>

text \<open>A pod the scheduler is responsible for: not assigned, with the scheduler's name.\<close>

definition unassigned_pod :: "Pod \<Rightarrow> bool" where
  "unassigned_pod p \<longleftrightarrow> pod_node p = [] \<and> SchedulerName (Spec p) = DefaultSchedulerName"

definition schedulable :: "bool \<Rightarrow> system \<Rightarrow> Pod \<Rightarrow> bool" where
  "schedulable retry s p \<longleftrightarrow>
     (object_key Meta p, p) \<in> set (pods_of s) \<and> unassigned_pod p \<and>
     (retry \<or> object_key Meta p \<notin> marked s)"

definition has_node :: "system \<Rightarrow> string \<Rightarrow> bool" where
  "has_node s n \<longleftrightarrow> n \<noteq> [] \<and> tracker_lookup (cs_nodes (client (cc s))) ([], n) \<noteq> None"

inductive sim_step :: "bool \<Rightarrow> system \<Rightarrow> system \<Rightarrow> bool" for retry where
  create: "crashed s = None \<Longrightarrow> main s = Starting \<Longrightarrow> sim_step retry s (do_create uuid s)"
| receive: "crashed s = None \<Longrightarrow> main s = Receiving \<Longrightarrow> senders (stop (cc s)) \<noteq> [] \<Longrightarrow>
    sim_step retry s (do_receive s)"
| bind: "crashed s = None \<Longrightarrow> schedulable retry s p \<Longrightarrow> has_node s n \<Longrightarrow>
    sim_step retry s (do_bind uuid p n s)"
| mark: "crashed s = None \<Longrightarrow> schedulable retry s p \<Longrightarrow>
    sim_step retry s (do_mark (failure_condition r m) p s)"
| deliver: "crashed s = None \<Longrightarrow> todo s = [] \<Longrightarrow> \<not> parked s \<Longrightarrow> seen s < length (events_of s) \<Longrightarrow>
    sim_step retry s (do_deliver s)"
| update: "crashed s = None \<Longrightarrow> todo s \<noteq> [] \<Longrightarrow> \<not> parked s \<Longrightarrow> sim_step retry s (do_update s)"

inductive reachable :: "bool \<Rightarrow> ClusterCapacity \<Rightarrow> system \<Rightarrow> bool" for retry c0 where
  start: "reachable retry c0 (initial_system c0)"
| step: "reachable retry c0 s \<Longrightarrow> sim_step retry s s' \<Longrightarrow> reachable retry c0 s'"

text \<open>
  An invariant of a transition system holds in every reachable state. The locale is the
  obligation of an invariant proof; its one consequence is used for every invariant below.
\<close>

locale sim_invariant =
  fixes retry :: bool and c0 :: ClusterCapacity and I :: "system \<Rightarrow> bool"
  assumes initially: "I (initial_system c0)"
    and preserved: "I s \<Longrightarrow> sim_step retry s s' \<Longrightarrow> I s'"
begin

lemma invariant_reachable: "reachable retry c0 s \<Longrightarrow> I s"
  by (induction rule: reachable.induct) (auto intro: initially preserved)

end

section \<open>What each operation does\<close>

text \<open>The pod the generator makes, as the simulator submits it, and the pod once bound.\<close>

definition sim_pod :: "Pod \<Rightarrow> string \<Rightarrow> nat \<Rightarrow> Pod" where
  "sim_pod t uuid i =
     t\<lparr>Meta := (Meta t)\<lparr>Name := simulated_name (pod_name t) i, UID := uuid,
         Annotations := Some ((case Annotations (Meta t) of None \<Rightarrow> Map.empty | Some a \<Rightarrow> a)
           (podProvisioner \<mapsto> DefaultSchedulerName))\<rparr>,
       Spec := (Spec t)\<lparr>NodeName := [], SchedulerName := DefaultSchedulerName\<rparr>\<rparr>"

definition bound_pod :: "string \<Rightarrow> Pod \<Rightarrow> Pod" where
  "bound_pod n p = p\<lparr>Spec := (Spec p)\<lparr>NodeName := n\<rparr>, PStatus := (PStatus p)\<lparr>Phase := ''Running''\<rparr>\<rparr>"

definition with_pods :: "Pod tracker \<Rightarrow> ClusterCapacity \<Rightarrow> ClusterCapacity" where
  "with_pods t c = c\<lparr>client := (client c)\<lparr>cs_pods := t\<rparr>\<rparr>"

definition next_pod :: "string \<Rightarrow> ClusterCapacity \<Rightarrow> Pod" where
  "next_pod uuid c = sim_pod (podTemplate (podGenerator c)) uuid (unat (counter (podGenerator c)))"

lemma Generate_eq:
  "Generate uuid g = (let t = podTemplate g in
     (t\<lparr>Meta := (Meta t)\<lparr>Name := simulated_name (pod_name t) (unat (counter g)), UID := uuid,
         Annotations := Some (case Annotations (Meta t) of None \<Rightarrow> Map.empty | Some a \<Rightarrow> a)\<rparr>,
       Spec := (Spec t)\<lparr>NodeName := []\<rparr>\<rparr>,
      g\<lparr>counter := counter g + 1\<rparr>))"
  by (cases g; cases "podTemplate g"; cases "Meta (podTemplate g)")
     (simp add: Generate_def Let_def split: option.splits)

lemma createNextPod_eq:
  assumes "defaultSchedulerName c = DefaultSchedulerName"
  shows "createNextPod uuid c =
    (let p = next_pod uuid c;
         c' = c\<lparr>podGenerator := (podGenerator c)\<lparr>counter := counter (podGenerator c) + 1\<rparr>,
                simulated := wrap64 (simulated c + 1), lastSimulatedPod := Some p\<rparr>;
         w = pod_create p (pod_ns p) (cs_pods (client c))
     in Inr (with_pods (fst w) c', snd w))"
proof -
  obtain m sp st where t: "podTemplate (podGenerator c) = \<lparr>Meta = m, Spec = sp, PStatus = st\<rparr>"
    by (cases "podTemplate (podGenerator c)")
  show ?thesis
    using assms
    by (simp add: createNextPod_def Generate_eq next_pod_def sim_pod_def with_pods_def Let_def t
        case_prod_beta)
qed

text \<open>\<open>submit\<close> and \<open>signal\<close>: the effect of \<open>createNextPod\<close>, and of closing and sending.\<close>

definition submit :: "string \<Rightarrow> ClusterCapacity \<Rightarrow> ClusterCapacity \<times> go_error option" where
  "submit uuid c =
    (let p = next_pod uuid c;
         c' = c\<lparr>podGenerator := (podGenerator c)\<lparr>counter := counter (podGenerator c) + 1\<rparr>,
                simulated := wrap64 (simulated c + 1), lastSimulatedPod := Some p\<rparr>;
         w = pod_create p (pod_ns p) (cs_pods (client c))
     in (with_pods (fst w) c', snd w))"

lemma createNextPod_submit:
  "defaultSchedulerName c = DefaultSchedulerName \<Longrightarrow> createNextPod uuid c = Inr (submit uuid c)"
  by (simp add: createNextPod_eq submit_def Let_def)

definition signal :: "sender \<Rightarrow> string \<Rightarrow> ClusterCapacity \<Rightarrow> ClusterCapacity" where
  "signal who r c =
     c\<lparr>status := (status c)\<lparr>StopReason := r\<rparr>, informerStopped := True, contextCancelled := True,
       stop := (stop c)\<lparr>senders := senders (stop c) @ [who]\<rparr>, closed := True\<rparr>"

definition flags_ok :: "ClusterCapacity \<Rightarrow> bool" where
  "flags_ok c \<longleftrightarrow> informerStopped c = closed c \<and> contextCancelled c = closed c"

lemma Close_eq:
  "flags_ok c \<Longrightarrow> Close c = Inr (c\<lparr>contextCancelled := True, informerStopped := True, closed := True\<rparr>)"
  by (cases c) (auto simp: Close_def flags_ok_def)

lemma signal_eq:
  assumes "flags_ok c" and "\<not> chan_closed (stop c)"
  obtains c' where "Close (set_stop_reason r c) = Inr c'" "send_stop who c' = Inr (signal who r c)"
  using assms by (cases c) (auto simp: Close_def flags_ok_def set_stop_reason_def signal_def send_stop_def)

lemma postBindHook_eq:
  fixes q :: Pod
  assumes c: "flags_ok c" "\<not> chan_closed (stop c)" "defaultSchedulerName c = DefaultSchedulerName"
  defines "c1 \<equiv> c\<lparr>status := (status c)\<lparr>Pods := Pods (status c) @ [q]\<rparr>\<rparr>"
  shows "postBindHook uuid q c =
    (if 0 < maxSimulated c \<and> maxSimulated c \<le> simulated c
     then Inr (signal Binder_goroutine (limit_reached (maxSimulated c)) c1, None)
     else Inr (fst (submit uuid c1),
       map_option (Errorf ''Unable to create next pod for simulated scheduling'') (snd (submit uuid c1))))"
proof -
  have c1: "flags_ok c1" "\<not> chan_closed (stop c1)" "defaultSchedulerName c1 = DefaultSchedulerName"
    "maxSimulated c1 = maxSimulated c" "simulated c1 = simulated c"
    using c by (simp_all add: c1_def flags_ok_def)
  obtain c' where "Close (set_stop_reason (limit_reached (maxSimulated c)) c1) = Inr c'"
    "send_stop Binder_goroutine c' = Inr (signal Binder_goroutine (limit_reached (maxSimulated c)) c1)"
    using signal_eq [OF c1(1,2)] .
  then show ?thesis
    unfolding postBindHook_def c1_def [symmetric]
    by (cases "submit uuid c1"; cases "snd (submit uuid c1)")
       (simp_all add: c1 Let_def createNextPod_submit)
qed

definition record_binding :: "Pod \<Rightarrow> ClusterCapacity \<Rightarrow> ClusterCapacity" where
  "record_binding q c =
     (let T = cs_pods (client c)
      in with_pods (T\<lparr>objects := alist_put (object_key Meta q) q (objects T),
                      watches := watches T @ [Modified q]\<rparr>)
           (c\<lparr>status := (status c)\<lparr>Pods := Pods (status c) @ [q]\<rparr>\<rparr>))"

lemma bound_pod_simps [simp]:
  "Meta (bound_pod n p) = Meta p" "pod_node (bound_pod n p) = n"
  "Conditions (PStatus (bound_pod n p)) = Conditions (PStatus p)"
  "object_key Meta (bound_pod n p) = object_key Meta p"
  by (simp_all add: bound_pod_def object_key_def)

lemma Bind_eq:
  fixes n :: string
  assumes p: "map_of (objects (cs_pods (client c))) (object_key Meta p) = Some p"
    and c: "flags_ok c" "\<not> chan_closed (stop c)" "defaultSchedulerName c = DefaultSchedulerName"
  defines "c1 \<equiv> record_binding (bound_pod n p) c"
  shows "Bind uuid p n c =
    (if 0 < maxSimulated c \<and> maxSimulated c \<le> simulated c
     then Inr (signal Binder_goroutine (limit_reached (maxSimulated c)) c1, None)
     else Inr (fst (submit uuid c1), map_option (\<lambda>e. Errorf ''Invoking postBindHook gives an error''
         (Errorf ''Unable to create next pod for simulated scheduling'' e)) (snd (submit uuid c1))))"
proof -
  let ?T = "cs_pods (client c)"
  have get: "tracker_get (pod_ns p) (pod_name p) ?T = Inr p"
    using p by (simp add: tracker_get_def object_key_def)
  have upd: "pod_update (bound_pod n p) (pod_ns p) ?T =
      (?T\<lparr>objects := alist_put (object_key Meta p) (bound_pod n p) (objects ?T),
         watches := watches ?T @ [Modified (bound_pod n p)]\<rparr>, None)"
    using pod_store.update_exists_eq [of ?T "bound_pod n p"] p by simp
  have c1: "flags_ok c1" "\<not> chan_closed (stop c1)" "defaultSchedulerName c1 = DefaultSchedulerName"
    "maxSimulated c1 = maxSimulated c" "simulated c1 = simulated c"
    using c by (simp_all add: c1_def record_binding_def with_pods_def flags_ok_def Let_def)
  have hook: "c1 = (with_pods (fst (pod_update (bound_pod n p) (pod_ns p) ?T)) c)
      \<lparr>status := (status c)\<lparr>Pods := Pods (status c) @ [bound_pod n p]\<rparr>\<rparr>"
    by (simp add: upd c1_def record_binding_def with_pods_def Let_def)
  let ?c = "with_pods (fst (pod_update (bound_pod n p) (pod_ns p) ?T)) c"
  have c': "flags_ok ?c" "\<not> chan_closed (stop ?c)" "defaultSchedulerName ?c = DefaultSchedulerName"
    "maxSimulated ?c = maxSimulated c" "simulated ?c = simulated c" "status ?c = status c"
    using c by (simp_all add: with_pods_def flags_ok_def)
  have bind: "Bind uuid p n c =
      (case postBindHook uuid (bound_pod n p) ?c of
         Inl p \<Rightarrow> Inl p
       | Inr (c, Some e) \<Rightarrow> Inr (c, Some (Errorf ''Invoking postBindHook gives an error'' e))
       | Inr (c, None) \<Rightarrow> Inr (c, None))"
    unfolding Bind_def get by (simp add: upd bound_pod_def [symmetric] with_pods_def Let_def)
  show ?thesis
    unfolding bind postBindHook_eq [OF c'(1-3)] c'(4-6) hook [symmetric]
    by (cases "snd (submit uuid c1)") simp_all
qed

text \<open>The two outcomes of a submission.\<close>

definition generated :: "string \<Rightarrow> ClusterCapacity \<Rightarrow> ClusterCapacity" where
  "generated uuid c = c\<lparr>podGenerator := (podGenerator c)\<lparr>counter := counter (podGenerator c) + 1\<rparr>,
     simulated := wrap64 (simulated c + 1), lastSimulatedPod := Some (next_pod uuid c)\<rparr>"

definition with_new_pod :: "Pod \<Rightarrow> ClusterCapacity \<Rightarrow> ClusterCapacity" where
  "with_new_pod p c =
     (let T = cs_pods (client c)
      in with_pods (T\<lparr>objects := alist_put (object_key Meta p) p (objects T),
                      watches := watches T @ [Added p]\<rparr>) c)"

lemma submit_fresh:
  assumes "map_of (objects (cs_pods (client c))) (object_key Meta (next_pod uuid c)) = None"
  shows "submit uuid c = (with_new_pod (next_pod uuid c) (generated uuid c), None)"
  using pod_store.create_fresh_eq [OF assms]
  by (simp add: submit_def with_new_pod_def generated_def with_pods_def Let_def)

lemma submit_taken:
  assumes "map_of (objects (cs_pods (client c))) (object_key Meta (next_pod uuid c)) = Some q"
  shows "submit uuid c = (generated uuid c, Some (Already_exists (pod_name (next_pod uuid c))))"
  using pod_store.create_exists_eq [OF assms]
  by (simp add: submit_def generated_def with_pods_def Let_def)

lemma with_pods_simps [simp]:
  "cs_pods (client (with_pods T c)) = T" "cs_nodes (client (with_pods T c)) = cs_nodes (client c)"
  "stop (with_pods T c) = stop c" "flags_ok (with_pods T c) = flags_ok c"
  "defaultSchedulerName (with_pods T c) = defaultSchedulerName c"
  "podGenerator (with_pods T c) = podGenerator c" "status (with_pods T c) = status c"
  "simulated (with_pods T c) = simulated c" "maxSimulated (with_pods T c) = maxSimulated c"
  "simulatedPod (with_pods T c) = simulatedPod c" "report (with_pods T c) = report c"
  by (simp_all add: with_pods_def flags_ok_def)

lemma status_update_flags [simp]: "flags_ok (c\<lparr>status := s\<rparr>) = flags_ok c"
  by (simp add: flags_ok_def)

lemma record_binding_simps [simp]:
  "objects (cs_pods (client (record_binding q c))) =
     alist_put (object_key Meta q) q (objects (cs_pods (client c)))"
  "watches (cs_pods (client (record_binding q c))) = watches (cs_pods (client c)) @ [Modified q]"
  "cs_pods (client (record_binding q c)) = (cs_pods (client c))
     \<lparr>objects := alist_put (object_key Meta q) q (objects (cs_pods (client c))),
       watches := watches (cs_pods (client c)) @ [Modified q]\<rparr>"
  "cs_nodes (client (record_binding q c)) = cs_nodes (client c)"
  "stop (record_binding q c) = stop c" "flags_ok (record_binding q c) = flags_ok c"
  "defaultSchedulerName (record_binding q c) = defaultSchedulerName c"
  "podGenerator (record_binding q c) = podGenerator c"
  "Pods (status (record_binding q c)) = Pods (status c) @ [q]"
  "StopReason (status (record_binding q c)) = StopReason (status c)"
  "simulated (record_binding q c) = simulated c" "maxSimulated (record_binding q c) = maxSimulated c"
  "simulatedPod (record_binding q c) = simulatedPod c" "report (record_binding q c) = report c"
  by (simp_all add: record_binding_def Let_def)

lemma with_new_pod_simps [simp]:
  "objects (cs_pods (client (with_new_pod q c))) =
     alist_put (object_key Meta q) q (objects (cs_pods (client c)))"
  "watches (cs_pods (client (with_new_pod q c))) = watches (cs_pods (client c)) @ [Added q]"
  "cs_pods (client (with_new_pod q c)) = (cs_pods (client c))
     \<lparr>objects := alist_put (object_key Meta q) q (objects (cs_pods (client c))),
       watches := watches (cs_pods (client c)) @ [Added q]\<rparr>"
  "cs_nodes (client (with_new_pod q c)) = cs_nodes (client c)"
  "stop (with_new_pod q c) = stop c" "flags_ok (with_new_pod q c) = flags_ok c"
  "defaultSchedulerName (with_new_pod q c) = defaultSchedulerName c"
  "podGenerator (with_new_pod q c) = podGenerator c" "status (with_new_pod q c) = status c"
  "simulated (with_new_pod q c) = simulated c" "maxSimulated (with_new_pod q c) = maxSimulated c"
  "simulatedPod (with_new_pod q c) = simulatedPod c" "report (with_new_pod q c) = report c"
  by (simp_all add: with_new_pod_def Let_def)

lemma signal_simps [simp]:
  "client (signal w r c) = client c" "flags_ok (signal w r c)" "chan_closed (stop (signal w r c)) = chan_closed (stop c)"
  "senders (stop (signal w r c)) = senders (stop c) @ [w]"
  "defaultSchedulerName (signal w r c) = defaultSchedulerName c"
  "podGenerator (signal w r c) = podGenerator c" "Pods (status (signal w r c)) = Pods (status c)"
  "StopReason (status (signal w r c)) = r"
  "simulated (signal w r c) = simulated c" "maxSimulated (signal w r c) = maxSimulated c"
  "simulatedPod (signal w r c) = simulatedPod c" "report (signal w r c) = report c"
  by (simp_all add: signal_def flags_ok_def)

lemma generated_simps [simp]:
  "client (generated u c) = client c" "stop (generated u c) = stop c"
  "flags_ok (generated u c) = flags_ok c" "defaultSchedulerName (generated u c) = defaultSchedulerName c"
  "counter (podGenerator (generated u c)) = counter (podGenerator c) + 1"
  "podTemplate (podGenerator (generated u c)) = podTemplate (podGenerator c)"
  "status (generated u c) = status c" "simulated (generated u c) = wrap64 (simulated c + 1)"
  "maxSimulated (generated u c) = maxSimulated c"
  "simulatedPod (generated u c) = simulatedPod c" "report (generated u c) = report c"
  by (simp_all add: generated_def flags_ok_def)

lemma sim_pod_simps [simp]:
  "pod_node (sim_pod t u i) = []" "SchedulerName (Spec (sim_pod t u i)) = DefaultSchedulerName"
  "PStatus (sim_pod t u i) = PStatus t" "pod_name (sim_pod t u i) = simulated_name (pod_name t) i"
  "pod_ns (sim_pod t u i) = pod_ns t"
  "object_key Meta (sim_pod t u i) = (pod_ns t, simulated_name (pod_name t) i)"
  "unassigned_pod (sim_pod t u i)" "HasAnnotation (Meta (sim_pod t u i)) podProvisioner"
  "Containers (Spec (sim_pod t u i)) = Containers (Spec t)"
  by (simp_all add: sim_pod_def object_key_def unassigned_pod_def HasAnnotation_def)

end
