(* ===== verification/Sim_Control.thy ===== *)
theory Sim_Control
  imports Sim_Steps
begin

text \<open>
  Why an analysis never panics. The unbuffered channel \<open>stop\<close> is safe only if at most one
  goroutine ever sends on it before \<open>Run\<close> closes it. The argument counts tokens: a pod the
  scheduler may still take up, a stop condition that is on its way to \<open>Update\<close> (in a watch
  event or in the handler), a parked send and the closed channel are one token each. Every
  step but the creation of the first pod keeps the number of tokens or lowers it, so there is
  at most one, and the panics of \<open>Close\<close>, of a send and of \<open>close(c.stop)\<close> need two.
\<close>

section \<open>Tokens\<close>

definition stop_conditions :: "Pod \<Rightarrow> nat" where
  "stop_conditions p =
     (if HasAnnotation (Meta p) podProvisioner
      then count_if stop_condition (Conditions (PStatus p)) else 0)"

definition active_pods :: "(string \<times> string) set \<Rightarrow> Pod tracker \<Rightarrow> nat" where
  "active_pods M T = count_if (\<lambda>(k, p). unassigned_pod p \<and> k \<notin> M) (objects T)"

definition stop_events :: "nat \<Rightarrow> Pod tracker \<Rightarrow> nat" where
  "stop_events i T = sum_list (map (stop_conditions \<circ> event_object) (drop i (watches T)))"

definition stopping :: "Pod \<times> PodCondition \<Rightarrow> bool" where
  "stopping = (\<lambda>(p, c). stop_condition c \<and> HasAnnotation (Meta p) podProvisioner)"

definition tokens :: "system \<Rightarrow> nat" where
  "tokens s =
     active_pods (marked s) (cs_pods (client (cc s))) +
     stop_events (seen s) (cs_pods (client (cc s))) +
     count_if stopping (todo s) +
     length (senders (stop (cc s))) + truth (chan_closed (stop (cc s)))"

lemma stop_conditions_bound [simp]: "stop_conditions (bound_pod n p) = stop_conditions p"
  by (simp add: stop_conditions_def)

lemma count_if_set_condition: "count_if P (set_condition c cs) \<le> Suc (count_if P cs)"
  by (induction cs) (auto intro: le_SucI)

lemma mark_pod_simps [simp]:
  "Meta (mark_pod c p) = Meta p" "Spec (mark_pod c p) = Spec p"
  "object_key Meta (mark_pod c p) = object_key Meta p"
  "Conditions (PStatus (mark_pod c p)) = set_condition c (Conditions (PStatus p))"
  by (simp_all add: mark_pod_def object_key_def)

lemma stop_conditions_mark: "stop_conditions (mark_pod c p) \<le> Suc (stop_conditions p)"
  by (simp add: stop_conditions_def count_if_set_condition)

lemma stop_events_append:
  assumes "i \<le> length (watches T)" and "watches T' = watches T @ [e]"
  shows "stop_events i T' = stop_events i T + stop_conditions (event_object e)"
  using assms by (simp add: stop_events_def)

lemma stop_events_deliver:
  assumes "i < length (watches T)"
  shows "stop_events i T = stop_conditions (event_object (watches T ! i)) + stop_events (Suc i) T"
  using assms by (simp add: stop_events_def Cons_nth_drop_Suc [symmetric])

lemma stopping_event:
  "count_if stopping (map (Pair p) (filter P (Conditions (PStatus p)))) \<le> stop_conditions p"
proof -
  have 1: "count_if stopping (map (Pair p) cs) =
      (if HasAnnotation (Meta p) podProvisioner then count_if stop_condition cs else 0)" for cs
    by (induction cs) (auto simp: stopping_def)
  have 2: "count_if stop_condition (filter P cs) \<le> count_if stop_condition cs" for cs
    by (induction cs) auto
  show ?thesis
    by (simp add: 1 2 stop_conditions_def)
qed

lemma active_pods_bind:
  assumes "map_of (objects T) k = Some p" "unassigned_pod p" "k \<notin> M" "n \<noteq> []"
    and "objects T' = alist_put k (bound_pod n p) (objects T)"
  shows "Suc (active_pods M T') = active_pods M T"
  using count_if_alist_put [OF assms(1), of "\<lambda>(k, p). unassigned_pod p \<and> k \<notin> M" "bound_pod n p"] assms
  by (simp add: active_pods_def unassigned_pod_def)

lemma active_pods_mark:
  assumes "map_of (objects T) k = Some p" "unassigned_pod p" "k \<notin> M" "tracker_ok Meta T"
    and "objects T' = alist_put k q (objects T)"
  shows "Suc (active_pods (insert k M) T') = active_pods M T"
proof -
  have "active_pods (insert k M) T' = active_pods (insert k M) T"
    using count_if_alist_put [OF assms(1), of "\<lambda>(k', p). unassigned_pod p \<and> k' \<notin> insert k M" q]
    by (simp add: active_pods_def assms(5))
  then show ?thesis
    using count_if_insert_key [of "objects T" k p M unassigned_pod] assms
    by (simp add: active_pods_def tracker_ok_def)
qed

lemma active_pods_pos:
  assumes "map_of (objects T) k = Some p" "unassigned_pod p" "k \<notin> M"
  shows "0 < active_pods M T"
  unfolding active_pods_def
  by (rule count_if_pos [where x = "(k, p)"]) (use assms in \<open>auto dest: map_of_SomeD\<close>)

lemma active_pods_unique:
  assumes "active_pods M T \<le> 1"
    and "map_of (objects T) k = Some p" "unassigned_pod p" "k \<notin> M"
    and "map_of (objects T) k' = Some p'" "unassigned_pod p'" "k' \<notin> M"
  shows "(k', p') = (k, p)"
proof (rule count_if_one_unique [where P = "\<lambda>(k, p). unassigned_pod p \<and> k \<notin> M"])
  show "count_if (\<lambda>(k, p). unassigned_pod p \<and> k \<notin> M) (objects T) = 1"
    using assms(1) active_pods_pos [OF assms(2-4)] by (simp add: active_pods_def)
qed (use assms in \<open>auto dest: map_of_SomeD\<close>)

section \<open>The invariant\<close>

abbreviation template_of :: "ClusterCapacity \<Rightarrow> Pod" where
  "template_of c \<equiv> podTemplate (podGenerator c)"

definition clean_template :: "Pod \<Rightarrow> bool" where
  "clean_template t \<longleftrightarrow> (\<forall>cond \<in> set (Conditions (PStatus t)). \<not> stop_condition cond)"

text \<open>A pod the scheduler may still take up carries no stop condition.\<close>

definition quiet_pods :: "(string \<times> string) set \<Rightarrow> Pod tracker \<Rightarrow> bool" where
  "quiet_pods M T \<longleftrightarrow>
     (\<forall>k p. map_of (objects T) k = Some p \<and> unassigned_pod p \<and> k \<notin> M \<longrightarrow> stop_conditions p = 0)"

lemma quiet_put:
  assumes "quiet_pods M T" and "M \<subseteq> M'" and "objects T' = alist_put k p (objects T)"
    and "unassigned_pod p \<Longrightarrow> k \<notin> M' \<Longrightarrow> stop_conditions p = 0"
  shows "quiet_pods M' T'"
  using assms unfolding quiet_pods_def by auto

definition client_ok :: "(string \<times> string) set \<Rightarrow> nat \<Rightarrow> ClusterCapacity \<Rightarrow> bool" where
  "client_ok M i c \<longleftrightarrow>
     flags_ok c \<and> defaultSchedulerName c = DefaultSchedulerName \<and> clean_template (template_of c) \<and>
     tracker_ok Meta (cs_pods (client c)) \<and> i \<le> length (watches (cs_pods (client c))) \<and>
     quiet_pods M (cs_pods (client c))"

lemma client_ok_quiet:
  "client_ok M i c \<Longrightarrow> map_of (objects (cs_pods (client c))) k = Some p \<Longrightarrow> unassigned_pod p \<Longrightarrow>
     k \<notin> M \<Longrightarrow> stop_conditions p = 0"
  unfolding client_ok_def quiet_pods_def by blast

definition control_ok :: "system \<Rightarrow> bool" where
  "control_ok s \<longleftrightarrow>
     crashed s = None \<and> client_ok (marked s) (seen s) (cc s) \<and> tokens s \<le> 1 \<and>
     (main s = Starting \<longrightarrow> tokens s = 0) \<and>
     (chan_closed (stop (cc s)) \<longleftrightarrow> main s \<noteq> Starting \<and> main s \<noteq> Receiving)"

lemma stop_conditions_clean: "clean_template t \<Longrightarrow> stop_conditions (sim_pod t u i) = 0"
  by (simp add: stop_conditions_def clean_template_def count_if_zero)

definition cc_tokens :: "(string \<times> string) set \<Rightarrow> nat \<Rightarrow> ClusterCapacity \<Rightarrow> nat" where
  "cc_tokens M i c =
     active_pods M (cs_pods (client c)) + stop_events i (cs_pods (client c)) +
     length (senders (stop c)) + truth (chan_closed (stop c))"

lemma tokens_eq: "tokens s = cc_tokens (marked s) (seen s) (cc s) + count_if stopping (todo s)"
  by (simp add: tokens_def cc_tokens_def)

lemma tracker_ok_put:
  "tracker_ok Meta T \<Longrightarrow>
     tracker_ok Meta (T\<lparr>objects := alist_put (object_key Meta x) x (objects T), watches := w\<rparr>)"
  by (auto simp: tracker_ok_def set_alist_put object_key_def)

lemma submit_ok:
  assumes "client_ok M i c"
  shows "client_ok M i (fst (submit u c))" "stop (fst (submit u c)) = stop c"
    "cc_tokens M i (fst (submit u c)) \<le> Suc (cc_tokens M i c)"
proof -
  let ?T = "cs_pods (client c)" and ?p = "next_pod u c"
  have z: "stop_conditions ?p = 0"
    using assms by (simp add: next_pod_def stop_conditions_clean client_ok_def)
  consider "map_of (objects ?T) (object_key Meta ?p) = None"
    | q where "map_of (objects ?T) (object_key Meta ?p) = Some q" by fastforce
  then have "client_ok M i (fst (submit u c)) \<and> stop (fst (submit u c)) = stop c \<and>
      cc_tokens M i (fst (submit u c)) \<le> Suc (cc_tokens M i c)"
  proof cases
    case 1
    have "stop_events i (cs_pods (client (fst (submit u c)))) = stop_events i ?T"
      using assms z by (simp add: submit_fresh [OF 1] stop_events_def client_ok_def)
    moreover have "active_pods M (cs_pods (client (fst (submit u c)))) \<le> Suc (active_pods M ?T)"
      by (simp add: submit_fresh [OF 1] active_pods_def
          count_if_alist_put_fresh [OF 1])
    ultimately show ?thesis
      using assms z tracker_ok_put [where T = ?T and x = ?p]
        quiet_put [of M ?T M "cs_pods (client (fst (submit u c)))" "object_key Meta ?p" ?p]
      by (auto simp: submit_fresh [OF 1] client_ok_def cc_tokens_def
          split: if_splits)
  next
    case 2
    then show ?thesis
      using assms by (simp add: submit_taken [OF 2] client_ok_def cc_tokens_def)
  qed
  then show "client_ok M i (fst (submit u c))" "stop (fst (submit u c)) = stop c"
    "cc_tokens M i (fst (submit u c)) \<le> Suc (cc_tokens M i c)"
    by simp_all
qed

lemma record_binding_ok:
  assumes "client_ok M i c" and "n \<noteq> []" and "unassigned_pod p" and "object_key Meta p \<notin> M"
    and "map_of (objects (cs_pods (client c))) (object_key Meta p) = Some p"
  shows "client_ok M i (record_binding (bound_pod n p) c)"
    "stop (record_binding (bound_pod n p) c) = stop c"
    "Suc (cc_tokens M i (record_binding (bound_pod n p) c)) = cc_tokens M i c"
proof -
  let ?T = "cs_pods (client c)" and ?c = "record_binding (bound_pod n p) c"
  have z: "stop_conditions p = 0"
    using client_ok_quiet [OF assms(1,5,3,4)] .
  have e: "stop_events i (cs_pods (client ?c)) = stop_events i ?T"
    using assms z by (simp add: stop_events_def client_ok_def)
  have a: "Suc (active_pods M (cs_pods (client ?c))) = active_pods M ?T"
    using assms by (intro active_pods_bind [where k = "object_key Meta p" and p = p and n = n])
      (simp_all)
  show s: "stop ?c = stop c"
    by simp
  show "Suc (cc_tokens M i ?c) = cc_tokens M i c"
    using a e by (simp add: cc_tokens_def)
  have "\<not> unassigned_pod (bound_pod n p)"
    using assms(2) by (simp add: unassigned_pod_def)
  then show "client_ok M i ?c"
    using assms tracker_ok_put [where T = ?T and x = "bound_pod n p"]
      quiet_put [of M ?T M "cs_pods (client ?c)" "object_key Meta p" "bound_pod n p"]
    by (simp add: client_ok_def)
qed

section \<open>Every step keeps the invariant\<close>

lemma client_ok_signal:
  assumes "client_ok M i c"
  shows "client_ok M i (signal w r c)" "cc_tokens M i (signal w r c) = Suc (cc_tokens M i c)"
  using assms by (simp_all add: client_ok_def cc_tokens_def)

lemma schedulable_lookup:
  assumes "schedulable retry s p" and "client_ok M i (cc s)"
  shows "map_of (objects (cs_pods (client (cc s)))) (object_key Meta p) = Some p"
  using assms by (simp add: schedulable_def client_ok_def tracker_ok_def)

text \<open>What each handler does in a state that satisfies the invariant.\<close>

lemma create_cases:
  assumes "control_ok s" and "main s = Starting"
  shows "snd (submit u (cc s)) = None \<Longrightarrow> do_create u s = s\<lparr>cc := fst (submit u (cc s)), main := Receiving\<rparr>"
    and "snd (submit u (cc s)) = Some e \<Longrightarrow> do_create u s = s\<lparr>cc := (fst (submit u (cc s)))
      \<lparr>contextCancelled := True, informerStopped := True, closed := True,
        stop := (stop (fst (submit u (cc s))))\<lparr>chan_closed := True\<rparr>\<rparr>,
      main := Returned (Some (Errorf ''Unable to create next pod to schedule'' e))\<rparr>"
proof -
  have c: "client_ok (marked s) (seen s) (cc s)" "\<not> chan_closed (stop (cc s))" "senders (stop (cc s)) = []"
    using assms by (auto simp: control_ok_def tokens_def)
  then have "defaultSchedulerName (cc s) = DefaultSchedulerName" "flags_ok (fst (submit u (cc s)))"
    "stop (fst (submit u (cc s))) = stop (cc s)"
    using submit_ok [OF c(1), of u] by (auto simp: client_ok_def)
  with c(2,3) show "snd (submit u (cc s)) = None \<Longrightarrow> do_create u s = s\<lparr>cc := fst (submit u (cc s)), main := Receiving\<rparr>"
    and "snd (submit u (cc s)) = Some e \<Longrightarrow> do_create u s = s\<lparr>cc := (fst (submit u (cc s)))
      \<lparr>contextCancelled := True, informerStopped := True, closed := True,
        stop := (stop (fst (submit u (cc s))))\<lparr>chan_closed := True\<rparr>\<rparr>,
      main := Returned (Some (Errorf ''Unable to create next pod to schedule'' e))\<rparr>"
    by (cases "submit u (cc s)";
        simp add: do_create_def run_create_def createNextPod_submit crash_or_def Close_eq close_stop_def)+
qed

lemma receive_cases:
  assumes "control_ok s" and "main s = Receiving" and "senders (stop (cc s)) \<noteq> []"
  obtains w where "senders (stop (cc s)) = [w]"
    "do_receive s = (if w = Informer_goroutine then s\<lparr>parked := False\<rparr> else s)
      \<lparr>cc := (cc s)\<lparr>stop := \<lparr>senders = [], chan_closed = True\<rparr>\<rparr>, main := Returned None\<rparr>"
proof -
  have o: "\<not> chan_closed (stop (cc s))" and "length (senders (stop (cc s))) \<le> 1"
    using assms by (auto simp: control_ok_def tokens_def)
  then obtain w where w: "senders (stop (cc s)) = [w]"
    using assms(3) by (cases "senders (stop (cc s))") auto
  have "close_stop ((cc s)\<lparr>stop := (stop (cc s))\<lparr>senders := []\<rparr>\<rparr>) =
      Inr ((cc s)\<lparr>stop := \<lparr>senders = [], chan_closed = True\<rparr>\<rparr>)"
    using o by (cases "stop (cc s)") (simp add: close_stop_def)
  with w show thesis
    by (intro that [of w]) (simp_all add: do_receive_def crash_or_def)
qed

lemma update_stops:
  assumes "control_ok s" and "todo s = (pod, cond) # xs" and "stopping (pod, cond)"
  shows "do_update s = s\<lparr>cc := (signal Informer_goroutine (Reason cond @ '': '' @ Message cond) (cc s))
      \<lparr>stopped := True\<rparr>, todo := xs, parked := True\<rparr>"
    and "\<not> chan_closed (stop (cc s))" and "senders (stop (cc s)) = []" and "flags_ok (cc s)"
    and "active_pods (marked s) (cs_pods (client (cc s))) = 0"
proof -
  show o: "\<not> chan_closed (stop (cc s))" and "senders (stop (cc s)) = []" and f: "flags_ok (cc s)"
    and "active_pods (marked s) (cs_pods (client (cc s))) = 0"
    using assms by (auto simp: control_ok_def client_ok_def tokens_def)
  show "do_update s = s\<lparr>cc := (signal Informer_goroutine (Reason cond @ '': '' @ Message cond) (cc s))
      \<lparr>stopped := True\<rparr>, todo := xs, parked := True\<rparr>"
    using assms(2,3) o f
    by (cases "cc s") (auto simp: do_update_def Update_def stopping_def Close_def set_stop_reason_def
        flags_ok_def send_stop_def signal_def crash_or_def)
qed

lemma update_ignores:
  "todo s = (pod, cond) # xs \<Longrightarrow> \<not> stopping (pod, cond) \<Longrightarrow> do_update s = s\<lparr>todo := xs, parked := False\<rparr>"
  by (auto simp: do_update_def Update_def stopping_def crash_or_def)

lemma control_create:
  assumes "control_ok s" and "main s = Starting"
  shows "control_ok (do_create u s)"
proof -
  let ?c = "fst (submit u (cc s))"
  have c: "client_ok (marked s) (seen s) (cc s)" and t0: "tokens s = 0"
    and cr: "crashed s = None" and open0: "\<not> chan_closed (stop (cc s))"
    using assms by (auto simp: control_ok_def)
  note sub = submit_ok [OF c, of u]
  have d: "defaultSchedulerName (cc s) = DefaultSchedulerName" "flags_ok ?c"
    using c sub(1) by (auto simp: client_ok_def)
  have z: "cc_tokens (marked s) (seen s) (cc s) = 0" "count_if stopping (todo s) = 0"
    using t0 by (simp_all add: tokens_eq)
  show ?thesis
  proof (cases "snd (submit u (cc s))")
    case None
    then have "do_create u s = s\<lparr>cc := ?c, main := Receiving\<rparr>"
      by (rule create_cases(1) [OF assms])
    with c sub z cr open0 show ?thesis
      by (simp add: control_ok_def tokens_eq)
  next
    case (Some e)
    let ?c' = "?c\<lparr>contextCancelled := True, informerStopped := True, closed := True,
      stop := (stop ?c)\<lparr>chan_closed := True\<rparr>\<rparr>"
    have s0: "senders (stop ?c) = []"
      using z sub(2) by (simp add: cc_tokens_def)
    have "do_create u s = s\<lparr>cc := ?c',
        main := Returned (Some (Errorf ''Unable to create next pod to schedule'' e))\<rparr>"
      using Some by (rule create_cases(2) [OF assms])
    moreover have "snd (submit u (cc s)) = None \<or> cs_pods (client ?c) = cs_pods (client (cc s))"
      by (cases "map_of (objects (cs_pods (client (cc s)))) (object_key Meta (next_pod u (cc s)))")
         (simp_all add: submit_fresh submit_taken)
    ultimately show ?thesis
      using c sub z cr open0 Some
      by (simp add: control_ok_def tokens_eq cc_tokens_def client_ok_def flags_ok_def)
  qed
qed

lemma control_receive:
  assumes "control_ok s" and "main s = Receiving" and "senders (stop (cc s)) \<noteq> []"
  shows "control_ok (do_receive s)"
proof -
  have c: "client_ok (marked s) (seen s) (cc s)" "tokens s \<le> 1" "crashed s = None"
    and o: "\<not> chan_closed (stop (cc s))"
    using assms by (auto simp: control_ok_def)
  obtain w where w: "senders (stop (cc s)) = [w]" and
    "do_receive s = (if w = Informer_goroutine then s\<lparr>parked := False\<rparr> else s)
      \<lparr>cc := (cc s)\<lparr>stop := \<lparr>senders = [], chan_closed = True\<rparr>\<rparr>, main := Returned None\<rparr>"
    by (rule receive_cases [OF assms])
  then show ?thesis
    using c o w by (simp add: control_ok_def tokens_def client_ok_def flags_ok_def)
qed

text \<open>The situation in which a pod is bound: the pod is the only token.\<close>

lemma bind_facts:
  assumes "control_ok s" and "schedulable False s p" and "has_node s n"
  defines "c1 \<equiv> record_binding (bound_pod n p) (cc s)"
  shows "map_of (objects (cs_pods (client (cc s)))) (object_key Meta p) = Some p"
    and "client_ok (marked s) (seen s) c1"
    and "cc_tokens (marked s) (seen s) c1 = 0" and "count_if stopping (todo s) = 0"
    and "main s = Receiving" and "\<not> chan_closed (stop (cc s))"
    and "do_bind u p n s = s\<lparr>cc :=
      (if 0 < maxSimulated (cc s) \<and> maxSimulated (cc s) \<le> simulated (cc s)
       then signal Binder_goroutine (limit_reached (maxSimulated (cc s))) c1
       else fst (submit u c1))\<rparr>"
proof -
  have c: "client_ok (marked s) (seen s) (cc s)" "tokens s \<le> 1"
    using assms by (auto simp: control_ok_def)
  have p: "map_of (objects (cs_pods (client (cc s)))) (object_key Meta p) = Some p"
      "unassigned_pod p" "object_key Meta p \<notin> marked s"
    using schedulable_lookup [OF assms(2) c(1)] assms(2) by (simp_all add: schedulable_def)
  then show "map_of (objects (cs_pods (client (cc s)))) (object_key Meta p) = Some p"
    by simp
  have n: "n \<noteq> []"
    using assms(3) by (simp add: has_node_def)
  note b = record_binding_ok [OF c(1) n p(2,3,1), folded c1_def]
  show "client_ok (marked s) (seen s) c1"
    by (rule b(1))
  show z: "cc_tokens (marked s) (seen s) c1 = 0" "count_if stopping (todo s) = 0"
    using b(3) c(2) by (simp_all add: tokens_eq)
  have t: "tokens s = 1"
    using b(3) c(2) by (simp add: tokens_eq)
  show o: "\<not> chan_closed (stop (cc s))"
    using z(1) by (auto simp: cc_tokens_def c1_def)
  show "main s = Receiving"
    using t o assms(1) by (cases "main s") (auto simp: control_ok_def)
  have fd: "flags_ok (cc s)" "defaultSchedulerName (cc s) = DefaultSchedulerName"
    using c(1) by (simp_all add: client_ok_def)
  show "do_bind u p n s = s\<lparr>cc :=
      (if 0 < maxSimulated (cc s) \<and> maxSimulated (cc s) \<le> simulated (cc s)
       then signal Binder_goroutine (limit_reached (maxSimulated (cc s))) c1
       else fst (submit u c1))\<rparr>"
    unfolding do_bind_def Bind_eq [OF p(1) fd(1) o fd(2)] c1_def [symmetric] crash_or_def by simp
qed

lemma control_bind:
  assumes "control_ok s" and "schedulable False s p" and "has_node s n"
  shows "control_ok (do_bind u p n s)"
proof -
  note b = bind_facts [OF assms]
  have "crashed s = None"
    using assms(1) by (simp add: control_ok_def)
  then show ?thesis
    using b(3-6) submit_ok [OF b(2), of u] client_ok_signal [OF b(2)]
    by (simp add: b(7) control_ok_def tokens_eq)
qed

lemma do_mark_eq:
  assumes "map_of (objects (cs_pods (client (cc s)))) (object_key Meta p) = Some p"
  shows "do_mark cond p s =
    s\<lparr>cc := with_pods ((cs_pods (client (cc s)))
        \<lparr>objects := alist_put (object_key Meta p) (mark_pod cond p) (objects (cs_pods (client (cc s)))),
          watches := watches (cs_pods (client (cc s))) @ [Modified (mark_pod cond p)]\<rparr>) (cc s),
      marked := insert (object_key Meta p) (marked s)\<rparr>"
  using pod_store.update_exists_eq [of "cs_pods (client (cc s))" "mark_pod cond p"] assms
  by (simp add: do_mark_def with_pods_def Let_def)

lemma control_mark:
  assumes "control_ok s" and "schedulable False s p"
  shows "control_ok (do_mark cond p s)"
proof -
  let ?T = "cs_pods (client (cc s))" and ?q = "mark_pod cond p" and ?k = "object_key Meta p"
  let ?T' = "?T\<lparr>objects := alist_put ?k ?q (objects ?T), watches := watches ?T @ [Modified ?q]\<rparr>"
  have c: "client_ok (marked s) (seen s) (cc s)" "tokens s \<le> 1" "crashed s = None"
    using assms by (auto simp: control_ok_def)
  then have T: "tracker_ok Meta ?T" "quiet_pods (marked s) ?T" "seen s \<le> length (watches ?T)"
    by (auto simp: client_ok_def)
  have p: "map_of (objects ?T) ?k = Some p" "unassigned_pod p" "?k \<notin> marked s"
    using schedulable_lookup [OF assms(2) c(1)] assms(2) by (simp_all add: schedulable_def)
  have a: "Suc (active_pods (insert ?k (marked s)) ?T') = active_pods (marked s) ?T"
    using active_pods_mark [OF p T(1), of ?T' ?q] by simp
  have "stop_events (seen s) ?T' = stop_events (seen s) ?T + stop_conditions ?q"
    using stop_events_append [OF T(3), of ?T' "Modified ?q"] by simp
  moreover have "stop_conditions ?q \<le> 1"
    using stop_conditions_mark [of cond p] client_ok_quiet [OF c(1) p] by simp
  ultimately have e: "stop_events (seen s) ?T' \<le> Suc (stop_events (seen s) ?T)"
    by simp
  have t: "tokens (do_mark cond p s) \<le> tokens s"
    using a e by (simp add: do_mark_eq [OF p(1)] tokens_def)
  have m: "main s \<noteq> Starting"
    using assms(1) active_pods_pos [OF p] by (auto simp: control_ok_def tokens_def)
  have "client_ok (insert ?k (marked s)) (seen s) (with_pods ?T' (cc s))"
    using c(1) T tracker_ok_put [OF T(1), where x = ?q] quiet_put [OF T(2), of "insert ?k (marked s)" ?T' ?k ?q]
    by (auto simp: client_ok_def)
  with t c m assms(1) show ?thesis
    by (simp add: control_ok_def do_mark_eq [OF p(1)])
qed

lemma deliver_same [simp]: "cc (do_deliver s) = cc s" "main (do_deliver s) = main s"
  "marked (do_deliver s) = marked s" "crashed (do_deliver s) = crashed s"
  "seen (do_deliver s) = Suc (seen s)"
  by (simp_all add: do_deliver_def Let_def)

text \<open>A delivery hands on at most the stop conditions of the event.\<close>

lemma deliver_stops:
  assumes "todo s = []" and "seen s < length (events_of s)"
  shows "stop_events (Suc (seen s)) (cs_pods (client (cc s))) + count_if stopping (todo (do_deliver s)) \<le>
    stop_events (seen s) (cs_pods (client (cc s)))"
proof -
  let ?pod = "event_object (events_of s ! seen s)"
  have "count_if stopping (map (Pair ?pod) (update_conditions DefaultSchedulerName old ?pod))
      \<le> stop_conditions ?pod" for old
    by (simp add: update_conditions_def stopping_event)
  then show ?thesis
    using stop_events_deliver [OF assms(2)]
    by (simp add: do_deliver_def Let_def split: option.split)
qed

lemma control_deliver:
  assumes "control_ok s" and "todo s = []" and "seen s < length (events_of s)"
  shows "control_ok (do_deliver s)"
proof -
  have "tokens (do_deliver s) \<le> tokens s"
    using deliver_stops [OF assms(2,3)] assms(2) by (simp add: tokens_def)
  with assms show ?thesis
    by (auto simp: control_ok_def client_ok_def)
qed

lemma control_update:
  assumes "control_ok s" and "todo s \<noteq> []"
  shows "control_ok (do_update s)"
proof -
  obtain pod cond xs where x: "todo s = (pod, cond) # xs"
    using assms(2) by (metis list.exhaust surj_pair)
  have c: "client_ok (marked s) (seen s) (cc s)" "tokens s \<le> 1" "crashed s = None"
    using assms by (auto simp: control_ok_def)
  show ?thesis
  proof (cases "stopping (pod, cond)")
    case True
    then have o: "\<not> chan_closed (stop (cc s))"
      using c(2) by (auto simp: tokens_def x)
    let ?r = "Reason cond @ '': '' @ Message cond"
    have f: "flags_ok (cc s)"
      using c(1) by (simp add: client_ok_def)
    have "do_update s = s\<lparr>cc := (signal Informer_goroutine ?r (cc s))\<lparr>stopped := True\<rparr>,
        todo := xs, parked := True\<rparr>"
      using update_stops(1) [OF assms(1) x True] by simp
    moreover have "client_ok (marked s) (seen s) ((signal Informer_goroutine ?r (cc s))\<lparr>stopped := True\<rparr>)"
      using client_ok_signal(1) [OF c(1), of Informer_goroutine ?r]
      by (simp add: client_ok_def flags_ok_def)
    ultimately show ?thesis
      using c True o assms(1) by (auto simp: control_ok_def tokens_def x)
  next
    case False
    then have "do_update s = s\<lparr>todo := xs, parked := False\<rparr>"
      using update_ignores [OF x] by simp
    with False c assms(1) show ?thesis
      by (simp add: control_ok_def tokens_def x)
  qed
qed

section \<open>Every reachable state satisfies it\<close>

text \<open>
  The analysis starts on a cluster in which no pod waits for the default scheduler and no pod
  carries the annotation of the program's own pods, with a template that carries no stop
  condition.
\<close>

definition quiet_start :: "ClusterCapacity \<Rightarrow> bool" where
  "quiet_start c \<longleftrightarrow>
     flags_ok c \<and> defaultSchedulerName c = DefaultSchedulerName \<and> clean_template (template_of c) \<and>
     tracker_ok Meta (cs_pods (client c)) \<and> stop c = \<lparr>senders = [], chan_closed = False\<rparr> \<and>
     list_all (\<lambda>(k, p). \<not> unassigned_pod p) (objects (cs_pods (client c))) \<and>
     list_all (\<lambda>e. \<not> HasAnnotation (Meta (event_object e)) podProvisioner) (watches (cs_pods (client c)))"

lemma control_initially: "quiet_start c \<Longrightarrow> control_ok (initial_system c)"
proof -
  assume q: "quiet_start c"
  have "active_pods {} (cs_pods (client c)) = 0"
    using q by (auto simp: quiet_start_def active_pods_def count_if_zero list_all_iff)
  moreover have "stop_events 0 (cs_pods (client c)) = 0"
    using q by (auto simp: quiet_start_def stop_events_def list_all_iff stop_conditions_def)
  moreover have "quiet_pods {} (cs_pods (client c))"
    using q by (auto simp: quiet_start_def quiet_pods_def list_all_iff dest!: map_of_SomeD)
  ultimately show ?thesis
    using q by (simp add: quiet_start_def control_ok_def initial_system_def client_ok_def tokens_def)
qed

lemma control_step: "control_ok s \<Longrightarrow> sim_step False s s' \<Longrightarrow> control_ok s'"
  by (erule sim_step.cases)
     (simp_all add: control_create control_receive control_bind control_mark control_deliver control_update)

end
