(* ===== verification/Sim_Results.thy ===== *)
theory Sim_Results
  imports Sim_Control
begin

text \<open>
  What an analysis reports. \<open>progress_ok\<close> relates a state of the system to the number of
  pods bound so far: the bound pods are the first pods of the generator, in order, each on a
  node of the simulated cluster; the pod that waits is the next one; the limit is kept; and
  the stop reason is set before \<open>Run\<close> can return.
\<close>

definition pods_bound :: "ClusterCapacity \<Rightarrow> nat" where
  "pods_bound c = length (Pods (status c))"

definition frame :: "ClusterCapacity \<Rightarrow> ClusterCapacity \<Rightarrow> bool" where
  "frame c0 c \<longleftrightarrow>
     template_of c = template_of c0 \<and> maxSimulated c = maxSimulated c0 \<and>
     cs_nodes (client c) = cs_nodes (client c0) \<and> simulatedPod c = simulatedPod c0 \<and>
     report c = report c0"

definition nth_sim_pod :: "Pod \<Rightarrow> string \<Rightarrow> nat \<Rightarrow> Pod" where
  "nth_sim_pod t u i = sim_pod t u (unat (of_nat i :: 64 word))"

definition placed :: "ClusterCapacity \<Rightarrow> nat \<Rightarrow> Pod \<Rightarrow> bool" where
  "placed c0 i q \<longleftrightarrow>
     (\<exists>u n. n \<noteq> [] \<and> tracker_lookup (cs_nodes (client c0)) ([], n) \<noteq> None \<and>
        q = bound_pod n (nth_sim_pod (template_of c0) u i))"

definition within_limit :: "ClusterCapacity \<Rightarrow> nat \<Rightarrow> bool" where
  "within_limit c0 k \<longleftrightarrow> (0 < maxSimulated c0 \<longrightarrow> int k \<le> maxSimulated c0)"

definition pending_ok :: "ClusterCapacity \<Rightarrow> ClusterCapacity \<Rightarrow> Pod \<Rightarrow> bool" where
  "pending_ok c0 c p \<longleftrightarrow>
     (\<exists>u. p = nth_sim_pod (template_of c0) u (pods_bound c)) \<and>
     counter (podGenerator c) = of_nat (Suc (pods_bound c)) \<and>
     simulated c = wrap64 (int (Suc (pods_bound c))) \<and> within_limit c0 (Suc (pods_bound c))"

definition reason_ok :: "ClusterCapacity \<Rightarrow> ClusterCapacity \<Rightarrow> bool" where
  "reason_ok c0 c \<longleftrightarrow>
     0 < maxSimulated c0 \<and> int (pods_bound c) = maxSimulated c0 \<and>
       StopReason (status c) = limit_reached (maxSimulated c0) \<or>
     within_limit c0 (Suc (pods_bound c)) \<and>
       (\<exists>msg. StopReason (status c) = ''Unschedulable: '' @ msg)"

text \<open>The pods placed so far, and the pods the scheduler may still take up.\<close>

definition all_placed :: "ClusterCapacity \<Rightarrow> ClusterCapacity \<Rightarrow> bool" where
  "all_placed c0 c \<longleftrightarrow> (\<forall>i < pods_bound c. placed c0 i (Pods (status c) ! i))"

definition pending_pods :: "ClusterCapacity \<Rightarrow> (string \<times> string) set \<Rightarrow> ClusterCapacity \<Rightarrow> bool" where
  "pending_pods c0 M c \<longleftrightarrow>
     (\<forall>k p. map_of (objects (cs_pods (client c))) k = Some p \<and> unassigned_pod p \<and> k \<notin> M \<longrightarrow>
        pending_ok c0 c p)"

lemma pending_podsI:
  "(\<And>k p. map_of (objects (cs_pods (client c))) k = Some p \<Longrightarrow> unassigned_pod p \<Longrightarrow> k \<notin> M \<Longrightarrow>
     pending_ok c0 c p) \<Longrightarrow> pending_pods c0 M c"
  unfolding pending_pods_def by blast

lemma pending_podsD:
  "pending_pods c0 M c \<Longrightarrow> map_of (objects (cs_pods (client c))) k = Some p \<Longrightarrow> unassigned_pod p \<Longrightarrow>
     k \<notin> M \<Longrightarrow> pending_ok c0 c p"
  unfolding pending_pods_def by blast

lemma pending_pods_none:
  "active_pods M (cs_pods (client c)) = 0 \<Longrightarrow> pending_pods c0 M c"
  by (rule pending_podsI) (use active_pods_pos in fastforce)

definition progress_ok :: "ClusterCapacity \<Rightarrow> system \<Rightarrow> bool" where
  "progress_ok c0 s \<longleftrightarrow>
     frame c0 (cc s) \<and>
     all_placed c0 (cc s) \<and> within_limit c0 (pods_bound (cc s)) \<and>
     (main s = Starting \<longrightarrow>
        counter (podGenerator (cc s)) = 0 \<and> simulated (cc s) = 0 \<and> pods_bound (cc s) = 0) \<and>
     pending_pods c0 (marked s) (cc s) \<and>
     (0 < stop_events (seen s) (cs_pods (client (cc s))) + count_if stopping (todo s) \<longrightarrow>
        within_limit c0 (Suc (pods_bound (cc s)))) \<and>
     (senders (stop (cc s)) \<noteq> [] \<or> main s = Returned None \<longrightarrow> reason_ok c0 (cc s))"

definition start_ok :: "ClusterCapacity \<Rightarrow> bool" where
  "start_ok c \<longleftrightarrow>
     quiet_start c \<and> int64 (maxSimulated c) \<and> counter (podGenerator c) = 0 \<and>
     simulated c = 0 \<and> Pods (status c) = []"

lemma pods_bound_simps [simp]:
  "pods_bound (record_binding q c) = Suc (pods_bound c)"
  "pods_bound (signal w r c) = pods_bound c" "pods_bound (generated u c) = pods_bound c"
  "pods_bound (with_new_pod p c) = pods_bound c" "pods_bound (with_pods T c) = pods_bound c"
  by (simp_all add: pods_bound_def)

text \<open>Nothing of this depends on the channels.\<close>

lemma closing_simps [simp]:
  "pods_bound (c\<lparr>stop := e\<rparr>) = pods_bound c" "pods_bound (c\<lparr>closed := b\<rparr>) = pods_bound c"
  "pods_bound (c\<lparr>informerStopped := b\<rparr>) = pods_bound c"
  "pods_bound (c\<lparr>contextCancelled := b\<rparr>) = pods_bound c" "pods_bound (c\<lparr>stopped := b\<rparr>) = pods_bound c"
  "frame c0 (c\<lparr>stop := e\<rparr>) = frame c0 c" "frame c0 (c\<lparr>closed := b\<rparr>) = frame c0 c"
  "frame c0 (c\<lparr>informerStopped := b\<rparr>) = frame c0 c"
  "frame c0 (c\<lparr>contextCancelled := b\<rparr>) = frame c0 c" "frame c0 (c\<lparr>stopped := b\<rparr>) = frame c0 c"
  "pending_ok c0 (c\<lparr>stop := e\<rparr>) = pending_ok c0 c" "pending_ok c0 (c\<lparr>closed := b\<rparr>) = pending_ok c0 c"
  "pending_ok c0 (c\<lparr>informerStopped := b\<rparr>) = pending_ok c0 c"
  "pending_ok c0 (c\<lparr>contextCancelled := b\<rparr>) = pending_ok c0 c"
  "pending_ok c0 (c\<lparr>stopped := b\<rparr>) = pending_ok c0 c"
  by (simp_all add: pods_bound_def frame_def pending_ok_def fun_eq_iff)

lemma closing_simps' [simp]:
  "all_placed c0 (c\<lparr>stop := e\<rparr>) = all_placed c0 c" "all_placed c0 (c\<lparr>closed := b\<rparr>) = all_placed c0 c"
  "all_placed c0 (c\<lparr>informerStopped := b\<rparr>) = all_placed c0 c"
  "all_placed c0 (c\<lparr>contextCancelled := b\<rparr>) = all_placed c0 c"
  "all_placed c0 (c\<lparr>stopped := b\<rparr>) = all_placed c0 c"
  "pending_pods c0 M (c\<lparr>stop := e\<rparr>) = pending_pods c0 M c"
  "pending_pods c0 M (c\<lparr>closed := b\<rparr>) = pending_pods c0 M c"
  "pending_pods c0 M (c\<lparr>informerStopped := b\<rparr>) = pending_pods c0 M c"
  "pending_pods c0 M (c\<lparr>contextCancelled := b\<rparr>) = pending_pods c0 M c"
  "pending_pods c0 M (c\<lparr>stopped := b\<rparr>) = pending_pods c0 M c"
  "reason_ok c0 (c\<lparr>stop := e\<rparr>) = reason_ok c0 c" "reason_ok c0 (c\<lparr>stopped := b\<rparr>) = reason_ok c0 c"
  by (simp_all add: all_placed_def pending_pods_def reason_ok_def)

lemma submit_frame:
  "all_placed c0 (fst (submit u c)) = all_placed c0 c" "pods_bound (fst (submit u c)) = pods_bound c"
  "frame c0 (fst (submit u c)) = frame c0 c"
  by (cases "map_of (objects (cs_pods (client c))) (object_key Meta (next_pod u c))";
      simp add: submit_fresh submit_taken frame_def all_placed_def)+

text \<open>After a submission, the new pod is the only pod that waits.\<close>

lemma submit_pending:
  assumes none: "active_pods M (cs_pods (client c)) = 0"
    and gen: "template_of c = template_of c0" "counter (podGenerator c) = of_nat (pods_bound c)"
      "simulated c = wrap64 (int (pods_bound c))" "within_limit c0 (Suc (pods_bound c))"
  shows "pending_pods c0 M (fst (submit u c))"
proof (rule pending_podsI)
  fix k p
  assume p: "map_of (objects (cs_pods (client (fst (submit u c))))) k = Some p"
    "unassigned_pod p" "k \<notin> M"
  let ?T = "cs_pods (client c)" and ?p = "next_pod u c"
  have other: "map_of (objects ?T) k \<noteq> Some p"
    using active_pods_pos [of ?T k p M] none p by auto
  then have fresh: "map_of (objects ?T) (object_key Meta ?p) = None"
    using p(1) by (cases "map_of (objects ?T) (object_key Meta ?p)") (auto simp: submit_taken)
  then have "p = ?p"
    using p(1) other by (auto simp: submit_fresh split: if_splits)
  moreover have "wrap64 (wrap64 (int (pods_bound c)) + 1) = wrap64 (int (Suc (pods_bound c)))"
    by (simp only: wrap64_wrap64_add of_nat_Suc add.commute [of 1])
  ultimately show "pending_ok c0 (fst (submit u c)) p"
    using gen fresh
    by (auto simp: pending_ok_def submit_fresh next_pod_def nth_sim_pod_def add.commute)
qed

section \<open>Every step keeps it\<close>

lemma progress_create:
  assumes "control_ok s" and P: "progress_ok c0 s" and "main s = Starting"
    and "int64 (maxSimulated c0)"
  shows "progress_ok c0 (do_create u s)"
proof -
  let ?c = "fst (submit u (cc s))"
  have c: "client_ok (marked s) (seen s) (cc s)" and z: "tokens s = 0"
    and o: "\<not> chan_closed (stop (cc s))"
    using assms(1,3) by (auto simp: control_ok_def)
  note sub = submit_ok [OF c, of u]
  have d: "defaultSchedulerName (cc s) = DefaultSchedulerName" "flags_ok ?c"
    using c sub(1) by (auto simp: client_ok_def)
  have P': "frame c0 (cc s)" "counter (podGenerator (cc s)) = of_nat (pods_bound (cc s))"
    "simulated (cc s) = wrap64 (int (pods_bound (cc s)))" "pods_bound (cc s) = 0"
    using P assms(3) by (auto simp: progress_ok_def wrap64_id int64_def)
  have lim: "within_limit c0 (Suc (pods_bound (cc s)))"
    using P'(4) by (simp add: within_limit_def)
  have pl: "all_placed c0 (cc s)" "within_limit c0 (pods_bound (cc s))"
    using P by (simp_all add: progress_ok_def)
  have pend: "pending_pods c0 (marked s) ?c"
    using submit_pending [OF _ _ P'(2,3) lim] z P'(1) by (simp add: tokens_def frame_def)
  show ?thesis
  proof (cases "snd (submit u (cc s))")
    case None
    then have "do_create u s = s\<lparr>cc := ?c, main := Receiving\<rparr>"
      by (rule create_cases(1) [OF assms(1,3)])
    then show ?thesis
      using P' pend pl lim z sub(2)
      by (simp add: progress_ok_def submit_frame tokens_def)
  next
    case (Some e)
    then obtain q where q: "map_of (objects (cs_pods (client (cc s)))) (object_key Meta (next_pod u (cc s))) = Some q"
      by (cases "map_of (objects (cs_pods (client (cc s)))) (object_key Meta (next_pod u (cc s)))")
         (auto simp: submit_fresh)
    have eq: "do_create u s = s\<lparr>cc := ?c\<lparr>contextCancelled := True, informerStopped := True, closed := True,
        stop := (stop ?c)\<lparr>chan_closed := True\<rparr>\<rparr>,
        main := Returned (Some (Errorf ''Unable to create next pod to schedule'' e))\<rparr>"
      using Some by (rule create_cases(2) [OF assms(1,3)])
    show ?thesis
      using P' pend pl lim z sub(2)
      by (simp add: eq progress_ok_def submit_frame tokens_def)
  qed
qed

lemma progress_receive:
  assumes "control_ok s" and "progress_ok c0 s" and "main s = Receiving"
    and "senders (stop (cc s)) \<noteq> []"
  shows "progress_ok c0 (do_receive s)"
proof -
  obtain w where w: "senders (stop (cc s)) = [w]" and
    "do_receive s = (if w = Informer_goroutine then s\<lparr>parked := False\<rparr> else s)
      \<lparr>cc := (cc s)\<lparr>stop := \<lparr>senders = [], chan_closed = True\<rparr>\<rparr>, main := Returned None\<rparr>"
    by (rule receive_cases [OF assms(1,3,4)])
  then show ?thesis
    using assms(2) w by (simp add: progress_ok_def)
qed

lemma nth_append_one: "i < Suc (length xs) \<Longrightarrow> (xs @ [x]) ! i = (if i = length xs then x else xs ! i)"
  by (simp add: nth_append)

lemma progress_bind:
  assumes "control_ok s" and P: "progress_ok c0 s" and sch: "schedulable False s p"
    and "has_node s n" and "int64 (maxSimulated c0)"
  shows "progress_ok c0 (do_bind u p n s)"
proof -
  let ?c1 = "record_binding (bound_pod n p) (cc s)" and ?n = "pods_bound (cc s)"
  note b = bind_facts [OF assms(1,3,4)]
  have P': "frame c0 (cc s)" "all_placed c0 (cc s)" "pending_ok c0 (cc s) p"
    using P sch pending_podsD [OF _ b(1)] by (auto simp: progress_ok_def schedulable_def)
  have "placed c0 ?n (bound_pod n p)"
    using P'(1,3) assms(4) by (auto simp: placed_def pending_ok_def has_node_def frame_def)
  then have pl: "all_placed c0 ?c1"
    using P'(2) by (simp add: all_placed_def nth_append_one pods_bound_def)
  have lim: "within_limit c0 (Suc ?n)" and cnt: "counter (podGenerator ?c1) = of_nat (pods_bound ?c1)"
    and sim: "simulated ?c1 = wrap64 (int (pods_bound ?c1))"
    using P'(3) by (simp_all add: pending_ok_def)
  have fr: "frame c0 ?c1"
    using P'(1) by (simp add: frame_def)
  have z: "active_pods (marked s) (cs_pods (client ?c1)) = 0"
    "stop_events (seen s) (cs_pods (client ?c1)) = 0" "senders (stop (cc s)) = []"
    using b(3) by (simp_all add: cc_tokens_def)
  have pos: "simulated (cc s) = int (Suc ?n)" if "0 < maxSimulated c0"
    using that lim assms(5) sim by (simp add: within_limit_def int64_def)
  show ?thesis
  proof (cases "0 < maxSimulated (cc s) \<and> maxSimulated (cc s) \<le> simulated (cc s)")
    case True
    let ?c2 = "signal Binder_goroutine (limit_reached (maxSimulated (cc s))) ?c1"
    have "reason_ok c0 ?c2"
      using True P'(1) pos lim by (simp add: reason_ok_def frame_def within_limit_def)
    moreover have "frame c0 ?c2" "all_placed c0 ?c2"
      using fr pl by (simp_all add: frame_def all_placed_def)
    moreover have "pending_pods c0 (marked s) ?c2"
      using z(1) by (intro pending_pods_none) simp
    ultimately show ?thesis
      using True z(2,3) b(4-6) lim by (simp add: b(7) progress_ok_def)
  next
    case False
    have lim2: "within_limit c0 (Suc (pods_bound ?c1))"
      using False pos lim P'(1) by (auto simp: within_limit_def frame_def)
    have gen: "template_of ?c1 = template_of c0"
      using fr by (simp add: frame_def)
    have eq: "do_bind u p n s = s\<lparr>cc := fst (submit u ?c1)\<rparr>"
      by (simp only: b(7) False if_False)
    have "stop (fst (submit u ?c1)) = stop (cc s)"
      using submit_ok(2) [OF b(2)] by simp
    then show ?thesis
      using pl z(2,3) b(4-6) fr lim lim2 submit_pending [OF z(1) gen cnt sim lim2, of u]
      by (simp add: eq progress_ok_def submit_frame)
  qed
qed

lemma pending_ok_with_pods [simp]: "pending_ok c0 (with_pods T c) = pending_ok c0 c"
  by (simp add: fun_eq_iff pending_ok_def)

lemma progress_mark:
  assumes "control_ok s" and P: "progress_ok c0 s" and sch: "schedulable False s p"
  shows "progress_ok c0 (do_mark cond p s)"
proof -
  have c: "client_ok (marked s) (seen s) (cc s)" and t: "tokens s \<le> 1"
    using assms(1) by (auto simp: control_ok_def)
  have p: "map_of (objects (cs_pods (client (cc s)))) (object_key Meta p) = Some p"
    "unassigned_pod p" "object_key Meta p \<notin> marked s"
    using schedulable_lookup [OF sch c] sch by (simp_all add: schedulable_def)
  have lim: "within_limit c0 (Suc (pods_bound (cc s)))"
    using pending_podsD [OF _ p] P by (auto simp: progress_ok_def pending_ok_def)
  have act: "0 < active_pods (marked s) (cs_pods (client (cc s)))"
    by (rule active_pods_pos [OF p])
  then have z: "senders (stop (cc s)) = []" "\<not> chan_closed (stop (cc s))"
    using t by (cases "senders (stop (cc s))"; simp add: tokens_def split: if_splits)+
  then have m: "main s \<noteq> Starting" "main s \<noteq> Returned None"
    using assms(1) act by (auto simp: control_ok_def tokens_def)
  let ?k = "object_key Meta p" and ?c = "cc (do_mark cond p s)"
  have "pending_pods c0 (insert ?k (marked s)) ?c"
  proof (rule pending_podsI)
    fix k q
    assume q: "map_of (objects (cs_pods (client ?c))) k = Some q" "unassigned_pod q"
      "k \<notin> insert ?k (marked s)"
    then have "map_of (objects (cs_pods (client (cc s)))) k = Some q"
      by (simp add: do_mark_eq [OF p(1)] split: if_splits)
    then show "pending_ok c0 ?c q"
      using P q(2,3) by (auto simp: do_mark_eq [OF p(1)] progress_ok_def intro: pending_podsD)
  qed
  then show ?thesis
    using P lim z m
    by (simp add: do_mark_eq [OF p(1)] progress_ok_def frame_def all_placed_def)
qed

lemma progress_deliver:
  assumes P: "progress_ok c0 s" and "todo s = []" and "seen s < length (events_of s)"
  shows "progress_ok c0 (do_deliver s)"
  using P deliver_stops [OF assms(2,3)] by (simp add: progress_ok_def)

lemma progress_update:
  assumes "control_ok s" and P: "progress_ok c0 s" and "todo s \<noteq> []"
  shows "progress_ok c0 (do_update s)"
proof -
  obtain pod cond xs where x: "todo s = (pod, cond) # xs"
    using assms(3) by (metis list.exhaust surj_pair)
  show ?thesis
  proof (cases "stopping (pod, cond)")
    case True
    then have o: "\<not> chan_closed (stop (cc s))" and f: "flags_ok (cc s)"
      and a: "active_pods (marked s) (cs_pods (client (cc s))) = 0"
      using assms(1) by (auto simp: control_ok_def client_ok_def tokens_def x)
    let ?c = "signal Informer_goroutine (Reason cond @ '': '' @ Message cond) (cc s)"
    have eq: "do_update s = s\<lparr>cc := ?c\<lparr>stopped := True\<rparr>, todo := xs, parked := True\<rparr>"
      using update_stops(1) [OF assms(1) x True] by simp
    have lim: "within_limit c0 (Suc (pods_bound (cc s)))"
      using P True by (simp add: progress_ok_def x)
    have "reason_ok c0 ?c"
      using True lim by (simp add: reason_ok_def stopping_def stop_condition_def)
    moreover have "pending_pods c0 (marked s) ?c"
      using a by (intro pending_pods_none) simp
    moreover have "main s \<noteq> Starting"
      using True assms(1) by (auto simp: control_ok_def tokens_def x)
    ultimately show ?thesis
      using P lim by (simp add: eq progress_ok_def frame_def all_placed_def)
  next
    case False
    then have eq: "do_update s = s\<lparr>todo := xs, parked := False\<rparr>"
      using update_ignores [OF x] by simp
    show ?thesis
      using P False by (simp add: eq progress_ok_def x)
  qed
qed

lemma progress_initially: "start_ok c0 \<Longrightarrow> progress_ok c0 (initial_system c0)"
proof -
  assume s: "start_ok c0"
  have "control_ok (initial_system c0)"
    using s by (simp add: start_ok_def control_initially)
  then have "tokens (initial_system c0) = 0"
    by (simp add: control_ok_def initial_system_def)
  then have "active_pods {} (cs_pods (client c0)) = 0" "stop_events 0 (cs_pods (client c0)) = 0"
    by (simp_all add: tokens_def initial_system_def)
  with s show ?thesis
    by (simp add: progress_ok_def initial_system_def start_ok_def pods_bound_def frame_def
        all_placed_def pending_pods_none quiet_start_def within_limit_def)
qed

lemma progress_step:
  assumes "int64 (maxSimulated c0)" and "control_ok s" and "progress_ok c0 s" and "sim_step False s s'"
  shows "progress_ok c0 s'"
  using assms(4)
  by (cases rule: sim_step.cases)
     (use assms(1-3) in \<open>simp_all add: progress_create progress_receive progress_bind progress_mark
        progress_deliver progress_update\<close>)

text \<open>Both invariants together hold in every reachable state.\<close>

definition analysis_ok :: "ClusterCapacity \<Rightarrow> system \<Rightarrow> bool" where
  "analysis_ok c0 s \<longleftrightarrow> control_ok s \<and> progress_ok c0 s"

interpretation analysis: sim_invariant False c0 "\<lambda>s. start_ok c0 \<longrightarrow> analysis_ok c0 s" for c0
proof
  show "start_ok c0 \<longrightarrow> analysis_ok c0 (initial_system c0)"
    by (simp add: analysis_ok_def progress_initially control_initially start_ok_def)
  show "start_ok c0 \<longrightarrow> analysis_ok c0 s'"
    if "start_ok c0 \<longrightarrow> analysis_ok c0 s" "sim_step False s s'" for s s'
    using that control_step progress_step by (auto simp: analysis_ok_def start_ok_def)
qed

lemma analysis_invariant:
  assumes "start_ok c0" and "reachable False c0 s"
  shows "crashed s = None" "progress_ok c0 s"
  using analysis.invariant_reachable [OF assms(2)] assms(1)
  by (simp_all add: analysis_ok_def control_ok_def)

section \<open>What holds of the pods placed so far\<close>

lemma placed_nth:
  assumes "start_ok c0" and "reachable False c0 s" and "i < length (Pods (status (cc s)))"
  shows "placed c0 i (Pods (status (cc s)) ! i)"
  using analysis_invariant(2) [OF assms(1,2)] assms(3)
  by (simp add: progress_ok_def all_placed_def pods_bound_def)

lemma pods_below_limit:
  assumes "start_ok c0" and "reachable False c0 s" and "0 < maxSimulated c0"
  shows "int (length (Pods (status (cc s)))) \<le> maxSimulated c0"
  using analysis_invariant(2) [OF assms(1,2)] assms(3)
  by (simp add: progress_ok_def within_limit_def pods_bound_def)

lemma unat_of_nat_id: "i < 2 ^ 64 \<Longrightarrow> unat (of_nat i :: 64 word) = i"
  by (simp add: unat_of_nat)

lemma placed_names:
  assumes "start_ok c0" and "reachable False c0 s" and "length (Pods (status (cc s))) \<le> 2 ^ 64"
  shows "map pod_name (Pods (status (cc s))) =
    map (simulated_name (pod_name (template_of c0))) [0..<length (Pods (status (cc s)))]"
proof (rule nth_equalityI)
  fix i
  assume i: "i < length (map pod_name (Pods (status (cc s))))"
  then obtain u n where "Pods (status (cc s)) ! i = bound_pod n (nth_sim_pod (template_of c0) u i)"
    using placed_nth [OF assms(1,2), of i] by (auto simp: placed_def)
  with i assms(3) show "map pod_name (Pods (status (cc s))) ! i =
      map (simulated_name (pod_name (template_of c0))) [0..<length (Pods (status (cc s)))] ! i"
    by (simp add: nth_sim_pod_def unat_of_nat_id)
qed simp

lemma finished_reason:
  assumes "start_ok c0" and "reachable False c0 s" and "main s = Returned None"
  shows "reason_ok c0 (cc s)" "frame c0 (cc s)"
  using analysis_invariant(2) [OF assms(1,2)] assms(3) by (simp_all add: progress_ok_def)

lemma show_int_no_newline: "newline \<notin> set (show_int i)"
  using show_nat_no_char [of newline] by (simp add: show_int_def newline_def)

text \<open>Both stop reasons split into a type and a message.\<close>

lemma stop_reason_parts:
  assumes "reason_ok c0 c"
  obtains msg where "getMainFailReason (StopReason (status c)) =
      Inr \<lparr>FailType = (if int (pods_bound c) = maxSimulated c0 \<and> 0 < maxSimulated c0
        then ''LimitReached'' else ''Unschedulable''), FailMessage = msg\<rparr>"
proof -
  consider "0 < maxSimulated c0" "int (pods_bound c) = maxSimulated c0"
      "StopReason (status c) = limit_reached (maxSimulated c0)"
    | msg where "within_limit c0 (Suc (pods_bound c))" "StopReason (status c) = ''Unschedulable: '' @ msg"
    using assms by (auto simp: reason_ok_def)
  then show thesis
  proof cases
    case 1
    have "getMainFailReason (''LimitReached'' @ '': '' @
        ''Maximum number of pods simulated: '' @ show_int (maxSimulated c0)) =
        Inr \<lparr>FailType = ''LimitReached'', FailMessage = trim_char (CHR '' '')
          (first_line (''Maximum number of pods simulated: '' @ show_int (maxSimulated c0)))\<rparr>"
      by (rule getMainFailReason_parts) (simp_all add: newline_def)
    with 1 that show thesis by (simp add: limit_reached_def)
  next
    case 2
    have "getMainFailReason (''Unschedulable'' @ '': '' @ msg) =
        Inr \<lparr>FailType = ''Unschedulable'', FailMessage = trim_char (CHR '' '') (first_line msg)\<rparr>"
      by (rule getMainFailReason_parts) (simp_all add: newline_def)
    with 2 that show thesis by (auto simp: within_limit_def)
  qed
qed

end
