(* ===== verification/Sim_Liveness.thy ===== *)
theory Sim_Liveness
  imports Sim_Results
begin

text \<open>
  Why an analysis comes to an end. First the token of \<open>Sim_Control\<close> is never lost: while
  \<open>Run\<close> waits there is exactly one, unless the scheduler gave the pod up for another reason
  than \<open>Unschedulable\<close>; so some goroutine can always move. For this the informer's view has
  to be followed: a stop condition reaches \<open>Update\<close> only if the informer had seen the pod
  before, with the scheduler's name. Second, a weight bounds the number of steps by the
  number of bound pods, so there is no infinite run with finitely many pods.
\<close>

section \<open>The informer's view\<close>

definition log_of :: "ClusterCapacity \<Rightarrow> Pod list" where
  "log_of c = map event_object (watches (cs_pods (client c)))"

definition known_before :: "Pod list \<Rightarrow> Pod \<Rightarrow> bool" where
  "known_before xs p \<longleftrightarrow>
     (\<exists>q \<in> set xs. object_key Meta q = object_key Meta p) \<and>
     (\<forall>q \<in> set xs. object_key Meta q = object_key Meta p \<longrightarrow> handler_filter DefaultSchedulerName q)"

definition log_ok :: "Pod list \<Rightarrow> bool" where
  "log_ok xs \<longleftrightarrow> (\<forall>i < length xs. 0 < stop_conditions (xs ! i) \<longrightarrow>
     handler_filter DefaultSchedulerName (xs ! i) \<and> known_before (take i xs) (xs ! i))"

definition cache_ok :: "(string \<times> string \<rightharpoonup> Pod) \<Rightarrow> Pod list \<Rightarrow> bool" where
  "cache_ok m xs \<longleftrightarrow> (\<forall>p \<in> set xs. \<exists>q \<in> set xs.
     m (object_key Meta p) = Some q \<and> object_key Meta q = object_key Meta p)"

lemma log_ok_snoc:
  "log_ok (xs @ [x]) \<longleftrightarrow> log_ok xs \<and>
     (0 < stop_conditions x \<longrightarrow> handler_filter DefaultSchedulerName x \<and> known_before xs x)"
  by (auto simp: log_ok_def nth_append less_Suc_eq)

lemma cache_ok_snoc: "cache_ok m xs \<Longrightarrow> cache_ok (m(object_key Meta x \<mapsto> x)) (xs @ [x])"
  by (fastforce simp: cache_ok_def)

lemma stop_updates_all:
  "count_if stopping (map (Pair p)
     (filter (\<lambda>cond. CondType cond = ''PodScheduled'') (Conditions (PStatus p)))) = stop_conditions p"
proof -
  have 1: "count_if stopping (map (Pair p) cs) =
      (if HasAnnotation (Meta p) podProvisioner then count_if stop_condition cs else 0)" for cs
    by (induction cs) (auto simp: stopping_def)
  have 2: "count_if stop_condition (filter (\<lambda>cond. CondType cond = ''PodScheduled'') cs) =
      count_if stop_condition cs" for cs
    by (induction cs) (auto simp: stop_condition_def)
  show ?thesis
    by (simp add: 1 2 stop_conditions_def)
qed

text \<open>Delivering an event loses no stop condition.\<close>

lemma deliver_keeps_stops:
  assumes "log_ok (log_of (cc s))" and "cache_ok (cache s) (take (seen s) (log_of (cc s)))"
    and "seen s < length (events_of s)"
  shows "stop_events (seen (do_deliver s)) (cs_pods (client (cc (do_deliver s)))) +
      count_if stopping (todo (do_deliver s)) = stop_events (seen s) (cs_pods (client (cc s)))"
proof -
  let ?p = "event_object (events_of s ! seen s)"
  have p: "log_of (cc s) ! seen s = ?p" "seen s < length (log_of (cc s))"
    using assms(3) by (simp_all add: log_of_def)
  have "count_if stopping (todo (do_deliver s)) = stop_conditions ?p"
  proof (cases "stop_conditions ?p = 0")
    case True
    then have "count_if stopping (map (Pair ?p) (update_conditions DefaultSchedulerName old ?p)) = 0" for old
      using stopping_event [of ?p "\<lambda>cond. CondType cond = ''PodScheduled''"]
      by (simp add: update_conditions_def)
    with True show ?thesis
      by (simp add: do_deliver_def Let_def split: option.split)
  next
    case False
    then have f: "handler_filter DefaultSchedulerName ?p" "known_before (take (seen s) (log_of (cc s))) ?p"
      using assms(1) p by (auto simp: log_ok_def)
    then obtain old where "cache s (object_key Meta ?p) = Some old"
      "handler_filter DefaultSchedulerName old"
      using assms(2) unfolding known_before_def cache_ok_def by metis
    with f(1) show ?thesis
      by (simp add: do_deliver_def Let_def update_conditions_def stop_updates_all)
  qed
  then show ?thesis
    using stop_events_deliver [OF assms(3)] by (simp add: do_deliver_def Let_def)
qed

section \<open>Fresh names\<close>

text \<open>No pod of the cluster has a name that begins like the simulated pods' names.\<close>

definition names_free :: "ClusterCapacity \<Rightarrow> bool" where
  "names_free c \<longleftrightarrow> list_all (\<lambda>(k, p). fst k = pod_ns (template_of c) \<longrightarrow>
     \<not> has_prefix (pod_name (template_of c) @ ''-'') (snd k)) (objects (cs_pods (client c)))"

definition pod_keys :: "ClusterCapacity \<Rightarrow> (string \<times> string) set" where
  "pod_keys c = dom (map_of (objects (cs_pods (client c))))"

definition names_ok :: "ClusterCapacity \<Rightarrow> ClusterCapacity \<Rightarrow> nat \<Rightarrow> bool" where
  "names_ok c0 c g \<longleftrightarrow>
     template_of c = template_of c0 \<and> counter (podGenerator c) = of_nat g \<and>
     pod_keys c \<subseteq> pod_keys c0 \<union>
       (\<lambda>i. (pod_ns (template_of c0), simulated_name (pod_name (template_of c0)) i)) ` {..<g}"

lemma next_pod_key:
  "object_key Meta (next_pod u c) =
     (pod_ns (template_of c), simulated_name (pod_name (template_of c)) (unat (counter (podGenerator c))))"
  by (simp add: next_pod_def)

lemma next_fresh:
  assumes "names_ok c0 c g" and "names_free c0" and "g < 2 ^ 64"
  shows "object_key Meta (next_pod u c) \<notin> pod_keys c"
proof
  let ?k = "object_key Meta (next_pod u c)"
  have k: "?k = (pod_ns (template_of c0), simulated_name (pod_name (template_of c0)) g)"
    using assms(1,3) by (simp add: next_pod_key names_ok_def unat_of_nat_id)
  assume "?k \<in> pod_keys c"
  then consider "?k \<in> pod_keys c0" | i where "i < g" "?k = (pod_ns (template_of c0), simulated_name (pod_name (template_of c0)) i)"
    using assms(1) by (auto simp: names_ok_def)
  then show False
  proof cases
    case 1
    then have "\<not> has_prefix (pod_name (template_of c0) @ ''-'') (snd ?k)"
      using assms(2) k by (auto simp: names_free_def list_all_iff pod_keys_def dest!: map_of_SomeD)
    moreover have "snd ?k = (pod_name (template_of c0) @ ''-'') @ show_nat g"
      by (simp add: k simulated_name_def)
    ultimately show False
      by (metis has_prefix_append)
  next
    case 2
    with k show False by simp
  qed
qed

lemma submit_fresh':
  "object_key Meta (next_pod u c) \<notin> pod_keys c \<Longrightarrow>
     submit u c = (with_new_pod (next_pod u c) (generated u c), None)"
  by (rule submit_fresh) (auto simp: pod_keys_def)

lemma names_ok_submit:
  assumes "names_ok c0 c g" and "object_key Meta (next_pod u c) \<notin> pod_keys c" and "g < 2 ^ 64"
  shows "names_ok c0 (fst (submit u c)) (Suc g)"
proof -
  have "object_key Meta (next_pod u c) =
      (pod_ns (template_of c0), simulated_name (pod_name (template_of c0)) g)"
    using assms by (simp add: next_pod_key names_ok_def unat_of_nat_id)
  then show ?thesis
    using assms(1) by (auto simp: names_ok_def submit_fresh' [OF assms(2)] pod_keys_def add.commute)
qed

lemma cc_tokens_submit:
  assumes "client_ok M i c" and "object_key Meta (next_pod u c) \<notin> pod_keys c" and "M \<subseteq> pod_keys c"
  shows "cc_tokens M i (fst (submit u c)) = Suc (cc_tokens M i c)"
proof -
  let ?p = "next_pod u c"
  have fresh: "map_of (objects (cs_pods (client c))) (object_key Meta ?p) = None"
    and m: "object_key Meta ?p \<notin> M"
    using assms(2,3) by (auto simp: pod_keys_def)
  have z: "stop_conditions ?p = 0"
    using assms(1) by (simp add: next_pod_def stop_conditions_clean client_ok_def)
  have u: "unassigned_pod ?p"
    by (simp add: next_pod_def)
  have "active_pods M (cs_pods (client (fst (submit u c)))) = Suc (active_pods M (cs_pods (client c)))"
    using u m by (simp add: submit_fresh' [OF assms(2)] active_pods_def count_if_alist_put_fresh [OF fresh])
  moreover have "stop_events i (cs_pods (client (fst (submit u c)))) = stop_events i (cs_pods (client c))"
    using assms(1) z by (simp add: submit_fresh' [OF assms(2)] stop_events_def client_ok_def)
  ultimately show ?thesis
    by (simp add: cc_tokens_def submit_ok(2) [OF assms(1)])
qed

section \<open>What the informer will have seen\<close>

definition known_pods :: "(string \<times> string) set \<Rightarrow> ClusterCapacity \<Rightarrow> bool" where
  "known_pods M c \<longleftrightarrow>
     (\<forall>k p. map_of (objects (cs_pods (client c))) k = Some p \<and> unassigned_pod p \<and> k \<notin> M \<longrightarrow>
        known_before (log_of c) p)"

definition view_ok :: "(string \<times> string) set \<Rightarrow> ClusterCapacity \<Rightarrow> bool" where
  "view_ok M c \<longleftrightarrow>
     M \<subseteq> pod_keys c \<and> object_key Meta ` set (log_of c) \<subseteq> pod_keys c \<and>
     known_pods M c \<and> log_ok (log_of c)"

lemma view_ok_cong:
  "cs_pods (client c') = cs_pods (client c) \<Longrightarrow> view_ok M c' = view_ok M c"
  by (simp add: view_ok_def log_of_def known_pods_def pod_keys_def)

lemma known_podsD:
  "known_pods M c \<Longrightarrow> map_of (objects (cs_pods (client c))) k = Some p \<Longrightarrow> unassigned_pod p \<Longrightarrow>
     k \<notin> M \<Longrightarrow> known_before (log_of c) p"
  unfolding known_pods_def by blast

lemma known_before_snoc:
  "known_before xs q \<Longrightarrow> handler_filter DefaultSchedulerName x \<Longrightarrow> known_before (xs @ [x]) q"
  by (auto simp: known_before_def)

text \<open>A write of an object with the scheduler's name.\<close>

lemma view_write:
  assumes v: "view_ok M c" and M: "M \<subseteq> M'" "M' \<subseteq> insert k M" "M' \<subseteq> pod_keys c'"
    and k: "k = object_key Meta x" and f: "handler_filter DefaultSchedulerName x"
    and o: "objects (cs_pods (client c')) = alist_put k x (objects (cs_pods (client c)))"
    and l: "log_of c' = log_of c @ [x]"
    and stop: "0 < stop_conditions x \<Longrightarrow> known_before (log_of c) x"
    and act: "unassigned_pod x \<Longrightarrow> k \<notin> M' \<Longrightarrow> known_before (log_of c') x"
  shows "view_ok M' c'"
proof -
  have keys: "pod_keys c' = insert k (pod_keys c)"
    by (auto simp: pod_keys_def o)
  have "known_pods M' c'"
    unfolding known_pods_def
  proof (intro allI impI, elim conjE)
    fix k' p
    assume p: "map_of (objects (cs_pods (client c'))) k' = Some p" "unassigned_pod p" "k' \<notin> M'"
    show "known_before (log_of c') p"
    proof (cases "k' = k")
      case True
      with p act show ?thesis by (simp add: o)
    next
      case False
      with p M(1) have "known_before (log_of c) p"
        using v by (auto simp: o view_ok_def intro: known_podsD)
      then show ?thesis
        unfolding l by (rule known_before_snoc) (rule f)
    qed
  qed
  moreover have "log_ok (log_of c')"
    using v stop f by (simp add: l log_ok_snoc view_ok_def)
  moreover have "object_key Meta ` set (log_of c') \<subseteq> pod_keys c'"
    using v k by (auto simp: l keys view_ok_def)
  ultimately show ?thesis
    using M(3) by (simp add: view_ok_def)
qed

lemma sim_pod_filter [simp]: "handler_filter DefaultSchedulerName (sim_pod t u i)"
  by (simp add: handler_filter_def)

lemma view_submit:
  assumes v: "view_ok M c" and c: "client_ok M i c" and fresh: "object_key Meta (next_pod u c) \<notin> pod_keys c"
  shows "view_ok M (fst (submit u c))"
proof (rule view_write [OF v])
  let ?p = "next_pod u c"
  show "M \<subseteq> pod_keys (fst (submit u c))"
    using v by (auto simp: submit_fresh' [OF fresh] view_ok_def pod_keys_def)
  show "objects (cs_pods (client (fst (submit u c)))) =
      alist_put (object_key Meta ?p) ?p (objects (cs_pods (client c)))"
    by (simp add: submit_fresh' [OF fresh])
  show l: "log_of (fst (submit u c)) = log_of c @ [?p]"
    by (simp add: submit_fresh' [OF fresh] log_of_def)
  show "handler_filter DefaultSchedulerName ?p"
    by (simp add: next_pod_def)
  show "known_before (log_of c) ?p" if "0 < stop_conditions ?p"
    using that c by (simp add: next_pod_def stop_conditions_clean client_ok_def)
  show "known_before (log_of (fst (submit u c))) ?p"
    using v fresh by (auto simp: l known_before_def view_ok_def next_pod_def)
qed auto

lemma view_bind:
  assumes v: "view_ok M c" and c: "client_ok M i c"
    and p: "map_of (objects (cs_pods (client c))) (object_key Meta p) = Some p" "unassigned_pod p"
      "object_key Meta p \<notin> M"
    and n: "n \<noteq> []"
  shows "view_ok M (record_binding (bound_pod n p) c)"
proof (rule view_write [OF v, where k = "object_key Meta p" and x = "bound_pod n p"])
  show "M \<subseteq> pod_keys (record_binding (bound_pod n p) c)"
    using v by (auto simp: view_ok_def pod_keys_def)
  show "handler_filter DefaultSchedulerName (bound_pod n p)"
    using p(2) by (simp add: handler_filter_def unassigned_pod_def bound_pod_def)
  show "known_before (log_of c) (bound_pod n p)" if "0 < stop_conditions (bound_pod n p)"
    using that client_ok_quiet [OF c p] by simp
  show "known_before (log_of (record_binding (bound_pod n p) c)) (bound_pod n p)"
    if "unassigned_pod (bound_pod n p)"
    using that n by (simp add: unassigned_pod_def)
qed (auto simp: log_of_def)

lemma view_mark:
  assumes v: "view_ok (marked s) (cc s)"
    and p: "map_of (objects (cs_pods (client (cc s)))) (object_key Meta p) = Some p" "unassigned_pod p"
      "object_key Meta p \<notin> marked s"
  shows "view_ok (marked (do_mark cond p s)) (cc (do_mark cond p s))"
proof (rule view_write [OF v, where k = "object_key Meta p" and x = "mark_pod cond p"])
  show "marked (do_mark cond p s) \<subseteq> pod_keys (cc (do_mark cond p s))"
    using v by (auto simp: do_mark_eq [OF p(1)] view_ok_def pod_keys_def)
  show "handler_filter DefaultSchedulerName (mark_pod cond p)"
    using p(2) by (simp add: handler_filter_def unassigned_pod_def)
  show "known_before (log_of (cc s)) (mark_pod cond p)"
    using v known_podsD [OF _ p] by (simp add: view_ok_def known_before_def)
qed (use p in \<open>auto simp: do_mark_eq [OF p(1)] log_of_def\<close>)

section \<open>The token is never lost\<close>

definition given_up_otherwise :: "system \<Rightarrow> bool" where
  "given_up_otherwise s \<longleftrightarrow>
     (\<exists>k \<in> marked s. \<exists>p. map_of (pods_of s) k = Some p \<and> stop_conditions p = 0)"

definition live_ok :: "ClusterCapacity \<Rightarrow> system \<Rightarrow> bool" where
  "live_ok c0 s \<longleftrightarrow>
     view_ok (marked s) (cc s) \<and> cache_ok (cache s) (take (seen s) (log_of (cc s))) \<and>
     (parked s \<longrightarrow> senders (stop (cc s)) = [Informer_goroutine]) \<and>
     (pods_bound (cc s) < 2 ^ 64 - 1 \<longrightarrow>
        (\<exists>g \<le> Suc (pods_bound (cc s)). names_ok c0 (cc s) g) \<and>
        (main s = Receiving \<longrightarrow> tokens s = 1 \<or> given_up_otherwise s))"

lemma tokens_one_cases:
  assumes "control_ok s" and "tokens s = 1"
  obtains "0 < active_pods (marked s) (cs_pods (client (cc s)))"
  | "0 < stop_events (seen s) (cs_pods (client (cc s)))" | "0 < count_if stopping (todo s)"
  | "senders (stop (cc s)) \<noteq> []" | "chan_closed (stop (cc s))"
proof -
  have "\<not> (active_pods (marked s) (cs_pods (client (cc s))) = 0 \<and>
      stop_events (seen s) (cs_pods (client (cc s))) = 0 \<and> count_if stopping (todo s) = 0 \<and>
      senders (stop (cc s)) = [] \<and> \<not> chan_closed (stop (cc s)))"
    using assms(2) by (auto simp: tokens_def)
  then show thesis
    using that by blast
qed

lemma first_create:
  assumes "control_ok s" and P: "progress_ok c0 s" and L: "live_ok c0 s"
    and m: "main s = Starting" and free: "names_free c0"
  shows "names_ok c0 (cc s) 0" "object_key Meta (next_pod u (cc s)) \<notin> pod_keys (cc s)"
    "do_create u s = s\<lparr>cc := fst (submit u (cc s)), main := Receiving\<rparr>"
proof -
  have c: "client_ok (marked s) (seen s) (cc s)"
    using assms(1) by (simp add: control_ok_def)
  have n: "counter (podGenerator (cc s)) = 0" "pods_bound (cc s) = 0"
    using P m by (auto simp: progress_ok_def)
  then obtain g where "g \<le> 1" "names_ok c0 (cc s) g"
    using L by (auto simp: live_ok_def)
  moreover have "g = 0"
    using calculation n(1) by (auto simp: names_ok_def le_Suc_eq)
  ultimately show g: "names_ok c0 (cc s) 0"
    by simp
  show fresh: "object_key Meta (next_pod u (cc s)) \<notin> pod_keys (cc s)"
    using next_fresh [OF g free] by simp
  have "snd (submit u (cc s)) = None"
    by (simp add: submit_fresh' [OF fresh])
  then show "do_create u s = s\<lparr>cc := fst (submit u (cc s)), main := Receiving\<rparr>"
    by (rule create_cases(1) [OF assms(1) m])
qed

lemma live_create:
  assumes "control_ok s" and P: "progress_ok c0 s" and L: "live_ok c0 s"
    and m: "main s = Starting" and free: "names_free c0"
  shows "live_ok c0 (do_create u s)"
proof -
  let ?c = "fst (submit u (cc s))"
  have c: "client_ok (marked s) (seen s) (cc s)" and z: "tokens s = 0"
    using assms(1) m by (auto simp: control_ok_def)
  have n: "pods_bound (cc s) = 0"
    using P m by (auto simp: progress_ok_def)
  note g = first_create(1) [OF assms] and fresh = first_create(2) [OF assms]
    and eq = first_create(3) [OF assms]
  have v: "view_ok (marked s) (cc s)"
    using L by (simp add: live_ok_def)
  have "tokens (do_create u s) = 1"
    using z cc_tokens_submit [OF c fresh] v by (simp add: eq tokens_eq view_ok_def)
  moreover have "take (seen s) (log_of ?c) = take (seen s) (log_of (cc s))"
    using c by (simp add: submit_fresh' [OF fresh] log_of_def client_ok_def)
  moreover have "\<not> parked s"
    using z L by (auto simp: live_ok_def tokens_def)
  moreover have "names_ok c0 ?c 1"
    using names_ok_submit [OF g fresh] by simp
  ultimately show ?thesis
    using L view_submit [OF v c fresh] n by (auto simp: eq live_ok_def submit_frame)
qed

lemma live_receive:
  assumes "control_ok s" and L: "live_ok c0 s" and "main s = Receiving" and "senders (stop (cc s)) \<noteq> []"
  shows "live_ok c0 (do_receive s)"
proof -
  obtain w where w: "senders (stop (cc s)) = [w]" and
    "do_receive s = (if w = Informer_goroutine then s\<lparr>parked := False\<rparr> else s)
      \<lparr>cc := (cc s)\<lparr>stop := \<lparr>senders = [], chan_closed = True\<rparr>\<rparr>, main := Returned None\<rparr>"
    by (rule receive_cases [OF assms(1,3,4)])
  moreover have "view_ok M (c\<lparr>stop := x\<rparr>) = view_ok M c" "log_of (c\<lparr>stop := x\<rparr>) = log_of c"
    "names_ok c0 (c\<lparr>stop := x\<rparr>) g = names_ok c0 c g" for M c x g
    by (simp_all add: view_ok_def log_of_def known_pods_def names_ok_def pod_keys_def)
  ultimately show ?thesis
    using L w by (auto simp: live_ok_def)
qed

lemma submit_log:
  assumes "i \<le> length (watches (cs_pods (client c)))"
  shows "take i (log_of (fst (submit u (record_binding q c)))) = take i (log_of c)"
proof -
  let ?c = "record_binding q c"
  obtain zs where "log_of (fst (submit u ?c)) = log_of ?c @ zs"
    by (cases "map_of (objects (cs_pods (client ?c))) (object_key Meta (next_pod u ?c))")
       (auto simp: submit_taken submit_fresh log_of_def simp del: record_binding_simps)
  then show ?thesis
    using assms by (simp add: log_of_def)
qed

lemma live_bind:
  assumes C: "control_ok s" and P: "progress_ok c0 s" and L: "live_ok c0 s"
    and sch: "schedulable False s p" and n: "has_node s n" and free: "names_free c0"
  shows "live_ok c0 (do_bind u p n s)"
proof -
  let ?c1 = "record_binding (bound_pod n p) (cc s)" and ?n = "pods_bound (cc s)"
  note b = bind_facts [OF C sch n]
  have p: "unassigned_pod p" "object_key Meta p \<notin> marked s"
    using sch by (simp_all add: schedulable_def)
  have c: "client_ok (marked s) (seen s) (cc s)"
    using C by (simp add: control_ok_def)
  have v: "view_ok (marked s) ?c1"
    using view_bind [OF _ c b(1) p, of n] L n by (simp add: live_ok_def has_node_def)
  have i: "seen s \<le> length (watches (cs_pods (client (cc s))))"
    using c by (simp add: client_ok_def)
  have np: "\<not> parked s" and z: "senders (stop (cc s)) = []"
    using b(3) L by (auto simp: live_ok_def cc_tokens_def)
  have pend: "counter (podGenerator (cc s)) = of_nat (Suc ?n)"
    using pending_podsD [OF _ b(1) p] P by (auto simp: progress_ok_def pending_ok_def)
  have names: "names_ok c0 ?c1 (Suc ?n)" if "Suc ?n < 2 ^ 64"
  proof -
    have "?n < 2 ^ 64 - 1"
      using that by simp
    then obtain g where g: "g \<le> Suc ?n" "names_ok c0 (cc s) g"
      using L unfolding live_ok_def by blast
    then have "(of_nat g :: 64 word) = of_nat (Suc ?n)"
      using pend by (simp add: names_ok_def)
    then have "unat (of_nat g :: 64 word) = unat (of_nat (Suc ?n) :: 64 word)"
      by simp
    then have "g = Suc ?n"
      using g(1) that by (simp only: unat_of_nat_id)
    moreover have "pod_keys ?c1 = pod_keys (cc s)"
      using b(1) by (auto simp: pod_keys_def)
    ultimately show ?thesis
      using g(2) by (simp add: names_ok_def)
  qed
  show ?thesis
  proof (cases "0 < maxSimulated (cc s) \<and> maxSimulated (cc s) \<le> simulated (cc s)")
    case True
    let ?c2 = "signal Binder_goroutine (limit_reached (maxSimulated (cc s))) ?c1"
    have eq: "do_bind u p n s = s\<lparr>cc := ?c2\<rparr>"
      by (simp only: b(7) True if_True simp_thms)
    have t: "tokens (do_bind u p n s) = 1"
      using b(3,4) client_ok_signal(2) [OF b(2)] by (simp add: eq tokens_eq)
    have same: "view_ok M (signal w r c) = view_ok M c" "log_of (signal w r c) = log_of c"
      "names_ok c0 (signal w r c) g = names_ok c0 c g" for M w r c g
      by (simp_all add: view_ok_def log_of_def known_pods_def names_ok_def pod_keys_def)
    have names': "\<exists>g \<le> Suc (Suc ?n). names_ok c0 ?c1 g" if "Suc ?n < 2 ^ 64 - 1"
      using names that by (intro exI [of _ "Suc ?n"]) simp
    have "cache_ok (cache s) (take (seen s) (log_of (cc s)))"
      using L by (simp add: live_ok_def)
    then show ?thesis
      using t v i np names' by (simp add: eq live_ok_def same log_of_def)
  next
    case False
    let ?c2 = "fst (submit u ?c1)"
    have eq: "do_bind u p n s = s\<lparr>cc := ?c2\<rparr>"
      by (simp only: b(7) False if_False)
    show ?thesis
    proof (cases "Suc ?n < 2 ^ 64")
      case True
      note fresh = next_fresh [OF names [OF True] free True, of u]
      have "tokens (do_bind u p n s) = 1"
        using b(3,4) cc_tokens_submit [OF b(2) fresh] v by (simp add: eq tokens_eq view_ok_def)
      then show ?thesis
        using L view_submit [OF v b(2) fresh] np names_ok_submit [OF names [OF True] fresh True] i
        by (auto simp: eq live_ok_def submit_frame submit_fresh' [OF fresh] log_of_def)
    next
      case False
      have "view_ok (marked s) ?c2"
      proof (cases "object_key Meta (next_pod u ?c1) \<in> pod_keys ?c1")
        case True
        then obtain q where q: "map_of (objects (cs_pods (client ?c1))) (object_key Meta (next_pod u ?c1)) = Some q"
          unfolding pod_keys_def by blast
        have "cs_pods (client ?c2) = cs_pods (client ?c1)"
          by (simp only: submit_taken [OF q] fst_conv generated_simps)
        then show ?thesis
          using v view_ok_cong by blast
      next
        case False
        then show ?thesis
          by (rule view_submit [OF v b(2)])
      qed
      moreover have "take (seen s) (log_of ?c2) = take (seen s) (log_of (cc s))"
        using i by (rule submit_log)
      ultimately show ?thesis
        using False L np by (auto simp: eq live_ok_def submit_frame)
    qed
  qed
qed

lemma live_mark:
  assumes C: "control_ok s" and P: "progress_ok c0 s" and L: "live_ok c0 s"
    and sch: "schedulable False s p"
  shows "live_ok c0 (do_mark cond p s)"
proof -
  let ?k = "object_key Meta p" and ?q = "mark_pod cond p" and ?T = "cs_pods (client (cc s))"
  let ?s = "do_mark cond p s"
  have c: "client_ok (marked s) (seen s) (cc s)"
    using C by (simp add: control_ok_def)
  have p: "map_of (objects ?T) ?k = Some p" "unassigned_pod p" "?k \<notin> marked s"
    using schedulable_lookup [OF sch c] sch by (simp_all add: schedulable_def)
  note eq = do_mark_eq [OF p(1), of cond]
  have v: "view_ok (marked s) (cc s)"
    using L by (simp add: live_ok_def)
  have keys: "pod_keys (cc ?s) = pod_keys (cc s)"
    using p(1) by (auto simp: eq pod_keys_def)
  have i: "seen s \<le> length (watches ?T)"
    using c by (simp add: client_ok_def)
  have act: "0 < active_pods (marked s) ?T"
    by (rule active_pods_pos [OF p])
  have t1: "tokens s = 1"
    using act C by (auto simp: control_ok_def tokens_def)
  have a: "Suc (active_pods (insert ?k (marked s)) (cs_pods (client (cc ?s)))) = active_pods (marked s) ?T"
    using active_pods_mark [OF p, of "cs_pods (client (cc ?s))" ?q] c by (simp add: eq client_ok_def)
  have e: "stop_events (seen s) (cs_pods (client (cc ?s))) = stop_events (seen s) ?T + stop_conditions ?q"
    using stop_events_append [OF i, of "cs_pods (client (cc ?s))" "Modified ?q"] by (simp add: eq)
  have "tokens ?s + 1 = tokens s + stop_conditions ?q"
    using a e by (simp add: tokens_def) (simp add: eq)
  moreover have "control_ok ?s"
    by (rule control_mark [OF C sch])
  ultimately have "tokens ?s = 1 \<or> stop_conditions ?q = 0"
    using t1 by (auto simp: control_ok_def)
  then have "tokens ?s = 1 \<or> given_up_otherwise ?s"
    by (auto simp: given_up_otherwise_def eq)
  moreover have "pods_bound (cc ?s) = pods_bound (cc s)" "parked ?s = parked s" "cache ?s = cache s"
    "seen ?s = seen s" "main ?s = main s" "stop (cc ?s) = stop (cc s)"
    "names_ok c0 (cc ?s) g = names_ok c0 (cc s) g" for g
    using keys by (simp_all add: eq names_ok_def)
  moreover have "take (seen s) (log_of (cc ?s)) = take (seen s) (log_of (cc s))"
    using i by (simp add: eq log_of_def)
  ultimately show ?thesis
    using L view_mark [OF v p, of cond] by (simp add: live_ok_def)
qed

lemma live_deliver:
  assumes L: "live_ok c0 s" and "todo s = []" "\<not> parked s" "seen s < length (events_of s)"
  shows "live_ok c0 (do_deliver s)"
proof -
  let ?p = "event_object (events_of s ! seen s)"
  have same: "cc (do_deliver s) = cc s" "main (do_deliver s) = main s" "marked (do_deliver s) = marked s"
    "parked (do_deliver s) = parked s" "seen (do_deliver s) = Suc (seen s)"
    "cache (do_deliver s) = (cache s)(object_key Meta ?p \<mapsto> ?p)"
    by (simp_all add: do_deliver_def Let_def)
  have L': "log_ok (log_of (cc s))" "cache_ok (cache s) (take (seen s) (log_of (cc s)))"
    using L by (simp_all add: live_ok_def view_ok_def)
  have "tokens (do_deliver s) = tokens s"
    using deliver_keeps_stops [OF L' assms(4)] assms(2) by (simp add: tokens_def same)
  moreover have "given_up_otherwise (do_deliver s) = given_up_otherwise s"
    by (simp add: given_up_otherwise_def same)
  moreover have "take (Suc (seen s)) (log_of (cc s)) = take (seen s) (log_of (cc s)) @ [?p]"
    using assms(4) by (simp add: log_of_def take_Suc_conv_app_nth)
  ultimately show ?thesis
    using L cache_ok_snoc [OF L'(2), of ?p] by (simp add: live_ok_def same)
qed

lemma live_update:
  assumes C: "control_ok s" and L: "live_ok c0 s" and "todo s \<noteq> []" "\<not> parked s"
  shows "live_ok c0 (do_update s)"
proof -
  obtain pod cond xs where x: "todo s = (pod, cond) # xs"
    using assms(3) by (metis list.exhaust surj_pair)
  show ?thesis
  proof (cases "stopping (pod, cond)")
    case True
    then have o: "\<not> chan_closed (stop (cc s))" and f: "flags_ok (cc s)"
      and z: "senders (stop (cc s)) = []"
      using C by (auto simp: control_ok_def client_ok_def tokens_def x)
    let ?c = "(signal Informer_goroutine (Reason cond @ '': '' @ Message cond) (cc s))\<lparr>stopped := True\<rparr>"
    have eq: "do_update s = s\<lparr>cc := ?c, todo := xs, parked := True\<rparr>"
      using update_stops(1) [OF C x True] by simp
    have "tokens (do_update s) = tokens s"
      using True by (simp add: eq tokens_def x)
    moreover have "given_up_otherwise (do_update s) = given_up_otherwise s"
      by (simp add: given_up_otherwise_def eq)
    moreover have "view_ok M ?c = view_ok M (cc s)" "log_of ?c = log_of (cc s)"
      "names_ok c0 ?c g = names_ok c0 (cc s) g" "pods_bound ?c = pods_bound (cc s)" for M g
      by (simp_all add: view_ok_def log_of_def known_pods_def names_ok_def pod_keys_def)
    ultimately show ?thesis
      using L z by (simp add: live_ok_def) (simp add: eq)
  next
    case False
    then have eq: "do_update s = s\<lparr>todo := xs, parked := False\<rparr>"
      using update_ignores [OF x] by simp
    have "tokens (do_update s) = tokens s" "given_up_otherwise (do_update s) = given_up_otherwise s"
      using False by (simp_all add: eq tokens_def x given_up_otherwise_def)
    with L show ?thesis
      by (simp add: live_ok_def) (simp add: eq)
  qed
qed

text \<open>
  The start of an analysis that will end: also, no pod of the cluster is named like a simulated
  pod, and the watch events so far are of pods of the cluster.
\<close>

definition live_start :: "ClusterCapacity \<Rightarrow> bool" where
  "live_start c \<longleftrightarrow> start_ok c \<and> names_free c \<and>
     list_all (\<lambda>e. map_of (objects (cs_pods (client c))) (object_key Meta (event_object e)) \<noteq> None)
       (watches (cs_pods (client c)))"

lemma live_initially: "live_start c0 \<Longrightarrow> live_ok c0 (initial_system c0)"
  by (auto simp: live_ok_def initial_system_def view_ok_def cache_ok_def live_start_def start_ok_def
      quiet_start_def known_pods_def list_all_iff log_ok_def log_of_def stop_conditions_def names_ok_def
      pod_keys_def dest!: map_of_SomeD intro!: exI [of _ 0])

lemma live_step:
  assumes "control_ok s" and "progress_ok c0 s" and "live_ok c0 s" and "names_free c0"
    and "sim_step False s s'"
  shows "live_ok c0 s'"
  using assms(5)
  by (cases rule: sim_step.cases)
     (use assms(1-4) in \<open>simp_all add: live_create live_receive live_bind live_mark live_deliver live_update\<close>)

text \<open>Nor does \<open>Run\<close> return an error.\<close>

lemma no_error_step:
  assumes "control_ok s" and "progress_ok c0 s" and "live_ok c0 s" and "names_free c0"
    and "sim_step False s s'" and "\<forall>e. main s \<noteq> Returned (Some e)"
  shows "\<forall>e. main s' \<noteq> Returned (Some e)"
  using assms(5)
proof cases
  case (create u)
  then show ?thesis
    using first_create(3) [OF assms(1-3) _ assms(4)] by simp
next
  case receive
  then show ?thesis
    using assms(6) by (auto simp: do_receive_def crash_or_def Let_def split: sum.split)
next
  case bind
  then show ?thesis
    using assms(6) by (auto simp: do_bind_def crash_or_def split: sum.split)
next
  case mark
  then show ?thesis
    using assms(6) by (auto simp: do_mark_def Let_def split: prod.split)
next
  case deliver
  then show ?thesis
    using assms(6) by (auto simp: do_deliver_def Let_def)
next
  case update
  then show ?thesis
    using assms(6) by (auto simp: do_update_def crash_or_def split: sum.split prod.split)
qed

definition lively :: "ClusterCapacity \<Rightarrow> system \<Rightarrow> bool" where
  "lively c0 s \<longleftrightarrow> control_ok s \<and> progress_ok c0 s \<and> live_ok c0 s \<and> (\<forall>e. main s \<noteq> Returned (Some e))"

interpretation liveness: sim_invariant False c0 "\<lambda>s. live_start c0 \<longrightarrow> lively c0 s" for c0
proof
  have "main (initial_system c0) = Starting"
    by (simp add: initial_system_def)
  then show "live_start c0 \<longrightarrow> lively c0 (initial_system c0)"
    by (auto simp: lively_def live_start_def start_ok_def progress_initially control_initially
        intro: live_initially)
  show "live_start c0 \<longrightarrow> lively c0 s'"
    if "live_start c0 \<longrightarrow> lively c0 s" "sim_step False s s'" for s s'
    using that control_step progress_step live_step no_error_step
    unfolding lively_def live_start_def start_ok_def by meson
qed

text \<open>While \<open>Run\<close> waits, some goroutine can move.\<close>

lemma can_move:
  assumes l: "lively c0 s" and m: "main s = Receiving" and n: "pods_bound (cc s) < 2 ^ 64 - 1"
    and g: "\<not> given_up_otherwise s"
  shows "\<exists>s'. sim_step False s s'"
proof -
  have C: "control_ok s" and L: "live_ok c0 s"
    using l by (simp_all add: lively_def)
  have cr: "crashed s = None" and o: "\<not> chan_closed (stop (cc s))"
    and c: "client_ok (marked s) (seen s) (cc s)"
    using C m by (auto simp: control_ok_def)
  show ?thesis
  proof (cases "senders (stop (cc s)) = []")
    case False
    then show ?thesis using sim_step.receive cr m by blast
  next
    case True
    then have np: "\<not> parked s"
      using L by (auto simp: live_ok_def)
    have "tokens s = 1"
      using L m n g by (auto simp: live_ok_def)
    then consider "0 < active_pods (marked s) (cs_pods (client (cc s)))"
      | "0 < stop_events (seen s) (cs_pods (client (cc s)))" | "0 < count_if stopping (todo s)"
      using tokens_one_cases [OF C] True o by metis
    then show ?thesis
    proof cases
      case 1
      then obtain k p where "(k, p) \<in> set (pods_of s)" "unassigned_pod p" "k \<notin> marked s"
        by (auto simp: active_pods_def count_if_zero neq0_conv [symmetric] simp del: neq0_conv)
      then have "schedulable False s p"
        using c by (auto simp: schedulable_def client_ok_def tracker_ok_def object_key_def)
      then show ?thesis using sim_step.mark cr by blast
    next
      case 2
      then have "seen s < length (events_of s)"
        by (cases "seen s < length (events_of s)") (auto simp: stop_events_def)
      then show ?thesis
        using sim_step.deliver sim_step.update cr np by (cases "todo s = []") blast+
    next
      case 3
      then have "todo s \<noteq> []" by auto
      then show ?thesis using sim_step.update cr np by blast
    qed
  qed
qed

end
