(* ===== verification/Sim_Bound.thy ===== *)
theory Sim_Bound
  imports Sim_Liveness
begin

text \<open>
  A bound on the number of steps of an analysis: a weight that every step lowers, as long as
  at most \<open>K\<close> pods are bound. With it, an analysis that can bind only finitely many pods
  runs only finitely long, whatever the order of the steps.
\<close>

definition conds :: "Pod \<Rightarrow> nat" where
  "conds p = length (Conditions (PStatus p))"

definition events_weight :: "nat \<Rightarrow> ClusterCapacity \<Rightarrow> nat" where
  "events_weight i c = (\<Sum>p\<leftarrow>drop i (log_of c). 1 + 2 * conds p)"

definition pod_weight :: "nat \<Rightarrow> nat \<Rightarrow> nat" where
  "pod_weight L n = n * (4 * L + 3) + 2 * L + 4"

definition weight :: "ClusterCapacity \<Rightarrow> nat \<Rightarrow> system \<Rightarrow> nat" where
  "weight c0 K s =
     (let L = conds (template_of c0) in
      (if main s = Starting then pod_weight L K + 2 * L + 2 else 0) +
      (if 0 < active_pods (marked s) (cs_pods (client (cc s)))
       then pod_weight L (K - pods_bound (cc s)) else 0) +
      events_weight (seen s) (cc s) + 2 * length (todo s) + length (senders (stop (cc s))) +
      (if main s = Starting \<or> main s = Receiving then 1 else 0))"

lemma pod_weight_Suc: "pod_weight L (Suc n) = pod_weight L n + 4 * L + 3"
  by (simp add: pod_weight_def)

lemma events_weight_append:
  assumes "i \<le> length (log_of c)" and "log_of c' = log_of c @ xs"
  shows "events_weight i c' = events_weight i c + (\<Sum>p\<leftarrow>xs. 1 + 2 * conds p)"
  using assms by (simp add: events_weight_def)

lemma events_weight_deliver:
  assumes "i < length (log_of c)"
  shows "events_weight i c = 1 + 2 * conds (log_of c ! i) + events_weight (Suc i) c"
  using assms by (simp add: events_weight_def Cons_nth_drop_Suc [symmetric])

lemma seen_log: "client_ok M i c \<Longrightarrow> i \<le> length (log_of c)"
  by (simp add: client_ok_def log_of_def)

lemma submit_log_cases:
  obtains "log_of (fst (submit u c)) = log_of c" "cs_pods (client (fst (submit u c))) = cs_pods (client c)"
  | "log_of (fst (submit u c)) = log_of c @ [next_pod u c]"
proof (cases "map_of (objects (cs_pods (client c))) (object_key Meta (next_pod u c))")
  case None
  then show thesis using that(2) by (simp add: submit_fresh log_of_def)
next
  case (Some q)
  then show thesis using that(1) by (simp add: submit_taken log_of_def)
qed

lemma conds_simps [simp]:
  "conds (next_pod u c) = conds (template_of c)" "conds (bound_pod n p) = conds p"
  by (simp_all add: conds_def next_pod_def)

lemma submit_events_weight:
  assumes "i \<le> length (log_of c)"
  shows "events_weight i (fst (submit u c)) \<le> events_weight i c + 1 + 2 * conds (template_of c)"
proof (rule submit_log_cases [of u c])
  assume "log_of (fst (submit u c)) = log_of c"
  then show ?thesis by (simp add: events_weight_def)
next
  assume "log_of (fst (submit u c)) = log_of c @ [next_pod u c]"
  from events_weight_append [OF assms this] show ?thesis by simp
qed

lemma conds_mark: "conds (mark_pod cond p) \<le> Suc (conds p)"
proof -
  have "length (set_condition cond cs) \<le> Suc (length cs)" for cs
    by (induction cs) auto
  then show ?thesis by (simp add: conds_def)
qed

lemma weight_create:
  assumes C: "control_ok s" and P: "progress_ok c0 s" and m: "main s = Starting"
  shows "weight c0 K (do_create u s) < weight c0 K s"
proof -
  let ?c = "fst (submit u (cc s))" and ?L = "conds (template_of c0)"
  have c: "client_ok (marked s) (seen s) (cc s)" and z: "tokens s = 0"
    and o: "\<not> chan_closed (stop (cc s))"
    using C m by (auto simp: control_ok_def)
  have t: "template_of (cc s) = template_of c0" and n: "pods_bound (cc s) = 0"
    using P m by (auto simp: progress_ok_def frame_def)
  have d: "defaultSchedulerName (cc s) = DefaultSchedulerName" "flags_ok ?c"
    using c submit_ok(1) [OF c, of u] by (auto simp: client_ok_def)
  have s0: "senders (stop ?c) = []" "stop ?c = stop (cc s)"
    using z submit_ok(2) [OF c, of u] by (simp_all add: tokens_def)
  have "\<exists>c' m'. do_create u s = s\<lparr>cc := c', main := m'\<rparr> \<and> m' \<noteq> Starting \<and>
      cs_pods (client c') = cs_pods (client ?c) \<and> senders (stop c') = [] \<and> pods_bound c' = pods_bound ?c"
  proof (cases "snd (submit u (cc s))")
    case None
    then have "do_create u s = s\<lparr>cc := ?c, main := Receiving\<rparr>"
      by (rule create_cases(1) [OF C m])
    then show ?thesis using s0 by blast
  next
    case (Some e)
    have eq: "do_create u s = s\<lparr>cc := ?c\<lparr>contextCancelled := True, informerStopped := True, closed := True,
        stop := (stop ?c)\<lparr>chan_closed := True\<rparr>\<rparr>,
        main := Returned (Some (Errorf ''Unable to create next pod to schedule'' e))\<rparr>"
      using Some by (rule create_cases(2) [OF C m])
    show ?thesis
      by (rule exI, rule exI, rule conjI [OF eq]) (use s0 in simp)
  qed
  then obtain c' m' where eq: "do_create u s = s\<lparr>cc := c', main := m'\<rparr>" "m' \<noteq> Starting"
    "cs_pods (client c') = cs_pods (client ?c)" "senders (stop c') = []" "pods_bound c' = pods_bound ?c"
    by blast
  have "events_weight (seen s) c' \<le> events_weight (seen s) (cc s) + 1 + 2 * ?L"
  proof -
    have "log_of c' = log_of ?c"
      by (simp add: log_of_def eq(3))
    then have "events_weight (seen s) c' = events_weight (seen s) ?c"
      by (simp add: events_weight_def)
    moreover have "events_weight (seen s) ?c \<le> events_weight (seen s) (cc s) + 1 + 2 * ?L"
      using submit_events_weight [OF seen_log [OF c], of u] t by simp
    ultimately show ?thesis by simp
  qed
  then show ?thesis
    using m n z eq(4,5) by (simp add: eq(1,2) weight_def Let_def submit_frame tokens_def)
qed

lemma pending_conds:
  assumes "progress_ok c0 s" and "map_of (objects (cs_pods (client (cc s)))) k = Some p"
    and "unassigned_pod p" and "k \<notin> marked s"
  shows "conds p = conds (template_of c0)" "within_limit c0 (Suc (pods_bound (cc s)))"
proof -
  have "pending_pods c0 (marked s) (cc s)"
    using assms(1) by (simp add: progress_ok_def)
  then have "pending_ok c0 (cc s) p"
    by (rule pending_podsD) (rule assms)+
  then show "conds p = conds (template_of c0)" "within_limit c0 (Suc (pods_bound (cc s)))"
    by (auto simp: pending_ok_def conds_def nth_sim_pod_def)
qed

lemma weight_receive:
  assumes "control_ok s" and "main s = Receiving" and "senders (stop (cc s)) \<noteq> []"
  shows "weight c0 K (do_receive s) < weight c0 K s"
proof -
  obtain w where w: "senders (stop (cc s)) = [w]" and
    "do_receive s = (if w = Informer_goroutine then s\<lparr>parked := False\<rparr> else s)
      \<lparr>cc := (cc s)\<lparr>stop := \<lparr>senders = [], chan_closed = True\<rparr>\<rparr>, main := Returned None\<rparr>"
    by (rule receive_cases [OF assms])
  then show ?thesis
    using w assms(2) by (simp add: weight_def Let_def events_weight_def log_of_def)
qed

lemma weight_bind:
  assumes C: "control_ok s" and P: "progress_ok c0 s" and sch: "schedulable False s p"
    and n: "has_node s n" and K: "pods_bound (cc (do_bind u p n s)) \<le> K"
  shows "weight c0 K (do_bind u p n s) < weight c0 K s"
proof -
  let ?c1 = "record_binding (bound_pod n p) (cc s)" and ?L = "conds (template_of c0)"
    and ?n = "pods_bound (cc s)"
  note b = bind_facts [OF C sch n]
  have p: "unassigned_pod p" "object_key Meta p \<notin> marked s"
    using sch by (simp_all add: schedulable_def)
  have t: "template_of ?c1 = template_of c0"
    using P by (simp add: progress_ok_def frame_def)
  note pc = pending_conds [OF P b(1) p]
  have act: "0 < active_pods (marked s) (cs_pods (client (cc s)))"
    by (rule active_pods_pos [OF b(1) p])
  have c: "client_ok (marked s) (seen s) (cc s)"
    using C by (simp add: control_ok_def)
  have e1: "events_weight (seen s) ?c1 = events_weight (seen s) (cc s) + 1 + 2 * ?L"
    using events_weight_append [OF seen_log [OF c], of ?c1 "[bound_pod n p]"] pc(1)
    by (simp add: log_of_def)
  have z: "active_pods (marked s) (cs_pods (client ?c1)) = 0" "senders (stop (cc s)) = []"
    using b(3) by (simp_all add: cc_tokens_def)
  show ?thesis
  proof (cases "0 < maxSimulated (cc s) \<and> maxSimulated (cc s) \<le> simulated (cc s)")
    case True
    let ?c2 = "signal Binder_goroutine (limit_reached (maxSimulated (cc s))) ?c1"
    have eq: "do_bind u p n s = s\<lparr>cc := ?c2\<rparr>"
      by (simp only: b(7) True if_True simp_thms)
    have "events_weight (seen s) ?c2 = events_weight (seen s) ?c1"
      by (simp add: events_weight_def log_of_def)
    then show ?thesis
      using act z e1 b(5)
      by (simp add: eq weight_def Let_def pod_weight_def del: record_binding_simps)
         (simp add: z(2))
  next
    case False
    let ?c2 = "fst (submit u ?c1)"
    have eq: "do_bind u p n s = s\<lparr>cc := ?c2\<rparr>"
      by (simp only: b(7) False if_False)
    have n2: "pods_bound ?c2 = Suc ?n"
      by (simp add: submit_frame)
    have "Suc ?n \<le> K"
      using K by (simp add: eq n2)
    then have drop: "pod_weight ?L (K - ?n) = pod_weight ?L (K - Suc ?n) + 4 * ?L + 3"
      by (simp add: Suc_diff_Suc [symmetric] pod_weight_Suc)
    have e2: "events_weight (seen s) ?c2 \<le> events_weight (seen s) ?c1 + 1 + 2 * ?L"
      using submit_events_weight [OF seen_log [OF b(2)], of u] t by simp
    have "stop ?c2 = stop (cc s)"
      using submit_ok(2) [OF b(2)] by simp
    then show ?thesis
      using act e1 e2 drop b(5) by (simp add: eq weight_def Let_def n2)
  qed
qed

lemma weight_mark:
  assumes C: "control_ok s" and P: "progress_ok c0 s" and sch: "schedulable False s p"
  shows "weight c0 K (do_mark cond p s) < weight c0 K s"
proof -
  let ?T = "cs_pods (client (cc s))" and ?k = "object_key Meta p" and ?s = "do_mark cond p s"
  have c: "client_ok (marked s) (seen s) (cc s)" and t: "tokens s \<le> 1"
    using C by (auto simp: control_ok_def)
  have p: "map_of (objects ?T) ?k = Some p" "unassigned_pod p" "?k \<notin> marked s"
    using schedulable_lookup [OF sch c] sch by (simp_all add: schedulable_def)
  note eq = do_mark_eq [OF p(1), of cond]
  have act: "0 < active_pods (marked s) ?T"
    by (rule active_pods_pos [OF p])
  have "Suc (active_pods (insert ?k (marked s)) (cs_pods (client (cc ?s)))) = active_pods (marked s) ?T"
    using active_pods_mark [OF p, of "cs_pods (client (cc ?s))"] c by (simp add: eq client_ok_def)
  then have a: "active_pods (insert ?k (marked s)) (cs_pods (client (cc ?s))) = 0"
    using t by (simp add: tokens_def)
  have "events_weight (seen s) (cc ?s) = events_weight (seen s) (cc s) + 1 + 2 * conds (mark_pod cond p)"
    using events_weight_append [OF seen_log [OF c], of "cc ?s" "[mark_pod cond p]"]
    by (simp add: eq log_of_def)
  then have e: "events_weight (seen s) (cc ?s) \<le> events_weight (seen s) (cc s) + 3 + 2 * conds (template_of c0)"
    using conds_mark [of cond p] pending_conds(1) [OF P p] by simp
  have same: "main ?s = main s" "todo ?s = todo s" "stop (cc ?s) = stop (cc s)" "seen ?s = seen s"
    "marked ?s = insert ?k (marked s)"
    by (simp_all add: eq)
  show ?thesis
    using act a e by (simp add: weight_def Let_def same pod_weight_def)
qed

lemma weight_deliver:
  assumes "todo s = []" and "seen s < length (events_of s)"
  shows "weight c0 K (do_deliver s) < weight c0 K s"
proof -
  let ?p = "event_object (events_of s ! seen s)"
  have "length (update_conditions DefaultSchedulerName old ?p) \<le> conds ?p" for old
    by (simp add: update_conditions_def conds_def)
  then have "length (todo (do_deliver s)) \<le> conds ?p"
    by (simp add: do_deliver_def Let_def split: option.split)
  moreover have "events_weight (seen s) (cc s) = 1 + 2 * conds ?p + events_weight (Suc (seen s)) (cc s)"
    using events_weight_deliver [of "seen s" "cc s"] assms(2) by (simp add: log_of_def)
  moreover have "cc (do_deliver s) = cc s" "main (do_deliver s) = main s"
    "marked (do_deliver s) = marked s" "seen (do_deliver s) = Suc (seen s)"
    by (simp_all add: do_deliver_def Let_def)
  ultimately show ?thesis
    using assms(1) by (simp add: weight_def Let_def)
qed

lemma weight_update:
  assumes C: "control_ok s" and "todo s \<noteq> []"
  shows "weight c0 K (do_update s) < weight c0 K s"
proof -
  obtain pod cond xs where x: "todo s = (pod, cond) # xs"
    using assms(2) by (metis list.exhaust surj_pair)
  show ?thesis
  proof (cases "stopping (pod, cond)")
    case True
    then have o: "\<not> chan_closed (stop (cc s))" and f: "flags_ok (cc s)"
      using C by (auto simp: control_ok_def client_ok_def tokens_def x)
    let ?c = "(signal Informer_goroutine (Reason cond @ '': '' @ Message cond) (cc s))\<lparr>stopped := True\<rparr>"
    have eq: "do_update s = s\<lparr>cc := ?c, todo := xs, parked := True\<rparr>"
      using update_stops(1) [OF C x True] by simp
    have "events_weight i ?c = events_weight i (cc s)" "pods_bound ?c = pods_bound (cc s)" for i
      by (simp_all add: events_weight_def log_of_def)
    then show ?thesis
      by (simp add: eq weight_def Let_def x)
  next
    case False
    then have eq: "do_update s = s\<lparr>todo := xs, parked := False\<rparr>"
      using update_ignores [OF x] by simp
    then show ?thesis
      by (simp add: eq weight_def Let_def x)
  qed
qed

section \<open>Counting steps\<close>

inductive steps :: "bool \<Rightarrow> nat \<Rightarrow> system \<Rightarrow> system \<Rightarrow> bool" for retry where
  here: "steps retry 0 s s"
| more: "steps retry k s s' \<Longrightarrow> sim_step retry s' s'' \<Longrightarrow> steps retry (Suc k) s s''"

lemma steps_reachable:
  assumes "steps retry k (initial_system c0) s"
  shows "reachable retry c0 s"
proof -
  have "steps retry k s0 s \<Longrightarrow> s0 = initial_system c0 \<Longrightarrow> reachable retry c0 s" for s0
    by (induction rule: steps.induct) (auto intro: reachable.intros)
  with assms show ?thesis by blast
qed

lemma reachable_steps: "reachable retry c0 s \<Longrightarrow> \<exists>k. steps retry k (initial_system c0) s"
  by (induction rule: reachable.induct) (blast intro: steps.intros)+

lemma weight_step:
  assumes "control_ok s" and "progress_ok c0 s" and "sim_step False s s'"
    and "pods_bound (cc s') \<le> K"
  shows "weight c0 K s' < weight c0 K s"
  using assms(3)
  by (cases rule: sim_step.cases)
     (use assms(1,2,4) in \<open>simp_all add: weight_create weight_receive weight_bind weight_mark
        weight_deliver weight_update\<close>)

lemma pods_bound_Close [simp]: "Close c = Inr c' \<Longrightarrow> pods_bound c' = pods_bound c"
  by (auto simp: Close_def pods_bound_def split: if_splits)

lemma pods_bound_create [simp]: "createNextPod u c = Inr (c', e) \<Longrightarrow> pods_bound c' = pods_bound c"
  by (auto simp: createNextPod_def Let_def pods_bound_def split: prod.splits option.splits)

lemma pods_bound_mono:
  assumes "control_ok s" and "sim_step False s s'"
  shows "pods_bound (cc s) \<le> pods_bound (cc s')"
  using assms(2)
proof cases
  case (create u)
  then show ?thesis
    by (auto simp: do_create_def run_create_def crash_or_def close_stop_def split: sum.splits option.splits if_splits)
next
  case receive
  then show ?thesis
    by (auto simp: do_receive_def crash_or_def Let_def close_stop_def)
next
  case (bind p n u)
  then show ?thesis
    using bind_facts(7) [OF assms(1) bind(3,4), of u] by (simp add: submit_frame)
next
  case mark
  then show ?thesis
    by (auto simp: do_mark_def Let_def pods_bound_def split: prod.split)
next
  case deliver
  then show ?thesis
    by (auto simp: do_deliver_def Let_def)
next
  case update
  then show ?thesis
    by (auto simp: do_update_def crash_or_def Update_def send_stop_def set_stop_reason_def pods_bound_def
        dest!: pods_bound_Close split: sum.splits prod.splits if_splits)
qed

lemma steps_weight:
  assumes "start_ok c0" and "steps False k (initial_system c0) s"
  shows "pods_bound (cc s) \<le> K \<Longrightarrow> k + weight c0 K s \<le> weight c0 K (initial_system c0)"
  using assms(2)
proof (induction k arbitrary: s)
  case 0
  then show ?case by (auto elim: steps.cases)
next
  case (Suc k)
  from Suc.prems(2) obtain s1 where s1: "steps False k (initial_system c0) s1" "sim_step False s1 s"
    by cases auto
  have ok: "control_ok s1" "progress_ok c0 s1"
    using analysis.invariant_reachable [OF steps_reachable [OF s1(1)]] assms(1)
    by (simp_all add: analysis_ok_def)
  have "pods_bound (cc s1) \<le> K"
    using pods_bound_mono [OF ok(1) s1(2)] Suc.prems(1) by simp
  from Suc.IH [OF this s1(1)] weight_step [OF ok s1(2) Suc.prems(1)] show ?case
    by simp
qed

text \<open>The bound, spelled out.\<close>

definition step_bound :: "ClusterCapacity \<Rightarrow> nat \<Rightarrow> nat" where
  "step_bound c0 n =
     (let L = length (Conditions (PStatus (podTemplate (podGenerator c0)))) in
      n * (4 * L + 3) + 4 * L + 7 +
      (\<Sum>e\<leftarrow>watches (cs_pods (client c0)). 1 + 2 * length (Conditions (PStatus (event_object e)))))"

lemma weight_initial:
  "start_ok c0 \<Longrightarrow> weight c0 K (initial_system c0) = step_bound c0 K"
  by (auto simp: weight_def initial_system_def step_bound_def pod_weight_def Let_def conds_def
      events_weight_def log_of_def comp_def start_ok_def quiet_start_def active_pods_def count_if_zero
      list_all_iff neq0_conv [symmetric] simp del: neq0_conv)

end
