(* ===== verification/Placement.thy ===== *)
theory Placement
  imports Sim_Results
begin

text \<open>
  What an analysis promises, without goroutines, channels, API server and events: copies of a
  pod are placed one after the other, each on some node, until the limit is reached or there is
  no room for another. The analysis refines this abstract machine: \<open>placement_of\<close> reads the
  abstract state off the concrete one, and each step of a goroutine either leaves it alone or
  is one step of the machine. The obligations of such a refinement are the locale
  \<open>forward_simulation\<close>.
\<close>

section \<open>The abstract machine\<close>

datatype outcome = Limit | No_room

record placement =
  placed_on :: "string list"
  outcome :: "outcome option"

definition no_placement :: placement where
  "no_placement = \<lparr>placed_on = [], outcome = None\<rparr>"

text \<open>With a limit \<open>m\<close> (none when it is not positive) on the nodes \<open>N\<close>.\<close>

inductive place_step :: "int \<Rightarrow> string set \<Rightarrow> placement \<Rightarrow> placement \<Rightarrow> bool" for m N where
  place: "outcome P = None \<Longrightarrow> n \<in> N \<Longrightarrow>
    place_step m N P (P\<lparr>placed_on := placed_on P @ [n],
      outcome := (if 0 < m \<and> m \<le> int (length (placed_on P)) + 1 then Some Limit else None)\<rparr>)"
| give_up: "outcome P = None \<Longrightarrow> place_step m N P (P\<lparr>outcome := Some No_room\<rparr>)"

inductive_cases place_stepE: "place_step m N P Q"

section \<open>Refinement\<close>

locale forward_simulation =
  fixes step :: "'s \<Rightarrow> 's \<Rightarrow> bool" and astep :: "'a \<Rightarrow> 'a \<Rightarrow> bool"
    and abs :: "'s \<Rightarrow> 'a" and I :: "'s \<Rightarrow> bool"
  assumes invariant: "I s \<Longrightarrow> step s s' \<Longrightarrow> I s'"
    and simulates: "I s \<Longrightarrow> step s s' \<Longrightarrow> abs s' = abs s \<or> astep (abs s) (abs s')"
begin

lemma simulates_run: "step\<^sup>*\<^sup>* s s' \<Longrightarrow> I s \<Longrightarrow> I s' \<and> astep\<^sup>*\<^sup>* (abs s) (abs s')"
proof (induction rule: rtranclp_induct)
  case base
  then show ?case by simp
next
  case (step s1 s2)
  then have "I s1" "astep\<^sup>*\<^sup>* (abs s) (abs s1)" by simp_all
  with step.hyps(2) show ?case
    using invariant simulates by (metis rtranclp.rtrancl_into_rtrancl)
qed

end

section \<open>The placement of a state of the analysis\<close>

definition outcome_of :: "string \<Rightarrow> outcome option" where
  "outcome_of reason =
     (if reason = [] then None
      else if has_prefix ''LimitReached'' reason then Some Limit else Some No_room)"

definition placement_of :: "system \<Rightarrow> placement" where
  "placement_of s =
     \<lparr>placed_on = map pod_node (ScheduledPods (cc s)), outcome = outcome_of (StopReason (status (cc s)))\<rparr>"

definition node_names :: "ClusterCapacity \<Rightarrow> string set" where
  "node_names c = {n. n \<noteq> [] \<and> tracker_lookup (cs_nodes (client c)) ([], n) \<noteq> None}"

lemma outcome_of_reasons [simp]:
  "outcome_of [] = None"
  "outcome_of (limit_reached m) = Some Limit"
  "outcome_of (CHR ''U'' # msg) = Some No_room"
  by (simp_all add: outcome_of_def limit_reached_def has_prefix_def)

text \<open>A stop reason is only set together with a send on the channel.\<close>

definition reason_sent :: "system \<Rightarrow> bool" where
  "reason_sent s \<longleftrightarrow>
     (StopReason (status (cc s)) = [] \<or> senders (stop (cc s)) \<noteq> [] \<or> chan_closed (stop (cc s)))"

definition placement_inv :: "ClusterCapacity \<Rightarrow> system \<Rightarrow> bool" where
  "placement_inv c0 s \<longleftrightarrow> control_ok s \<and> progress_ok c0 s \<and> reason_sent s"

lemma submit_status [simp]: "status (fst (submit u c)) = status c"
  by (cases "map_of (objects (cs_pods (client c))) (object_key Meta (next_pod u c))")
    (simp_all add: submit_fresh submit_taken)

lemma status_flags [simp]:
  "status (c\<lparr>contextCancelled := a, informerStopped := b, closed := d, stop := e\<rparr>) = status c"
  "status (c\<lparr>stop := e\<rparr>) = status c"
  by simp_all

text \<open>What each step does to the status and the channel.\<close>

lemma create_placement:
  assumes "control_ok s" and "main s = Starting"
  shows "status (cc (do_create u s)) = status (cc s)"
  by (cases "snd (submit u (cc s))") (simp_all add: create_cases [OF assms])

lemma receive_placement:
  assumes "control_ok s" and "main s = Receiving" and "senders (stop (cc s)) \<noteq> []"
  shows "status (cc (do_receive s)) = status (cc s)" "chan_closed (stop (cc (do_receive s)))"
  by (rule receive_cases [OF assms]; simp)+

lemma mark_placement:
  assumes "control_ok s" and "schedulable False s p"
  shows "status (cc (do_mark cond p s)) = status (cc s)" "stop (cc (do_mark cond p s)) = stop (cc s)"
proof -
  have "map_of (objects (cs_pods (client (cc s)))) (object_key Meta p) = Some p"
    using schedulable_lookup [OF assms(2)] assms(1) by (auto simp: control_ok_def)
  then show "status (cc (do_mark cond p s)) = status (cc s)" "stop (cc (do_mark cond p s)) = stop (cc s)"
    by (simp_all add: do_mark_eq)
qed

lemma update_placement:
  assumes "control_ok s" and "todo s \<noteq> []"
  shows "cc (do_update s) = cc s \<or>
    (\<exists>msg. cc (do_update s) = (signal Informer_goroutine (''Unschedulable: '' @ msg) (cc s))\<lparr>stopped := True\<rparr> \<and>
       senders (stop (cc s)) = [] \<and> \<not> chan_closed (stop (cc s)))"
proof -
  obtain pod cond xs where x: "todo s = (pod, cond) # xs"
    using assms(2) by (metis list.exhaust surj_pair)
  show ?thesis
  proof (cases "stopping (pod, cond)")
    case True
    then have "Reason cond = ''Unschedulable''"
      by (simp add: stopping_def stop_condition_def)
    with update_stops [OF assms(1) x True] show ?thesis by auto
  qed (simp add: update_ignores [OF x])
qed

text \<open>A binding finds nothing sent, so no reason set, and is the next placement.\<close>

lemma bind_placement:
  assumes inv: "placement_inv c0 s" and sch: "schedulable False s p" and n: "has_node s n"
    and m: "int64 (maxSimulated c0)"
  shows "place_step (maxSimulated c0) (node_names c0) (placement_of s) (placement_of (do_bind u p n s))"
    and "StopReason (status (cc (do_bind u p n s))) = [] \<or> senders (stop (cc (do_bind u p n s))) \<noteq> []"
    and "outcome (placement_of (do_bind u p n s)) \<noteq> Some No_room"
proof -
  let ?c1 = "record_binding (bound_pod n p) (cc s)" and ?k = "pods_bound (cc s)"
  have C: "control_ok s" and P: "progress_ok c0 s" and R: "reason_sent s"
    using inv by (auto simp: placement_inv_def)
  note b = bind_facts [OF C sch n]
  have fr: "frame c0 (cc s)" and pend: "pending_ok c0 (cc s) p"
    using P sch pending_podsD [OF _ b(1)] by (auto simp: progress_ok_def schedulable_def)
  have quiet: "StopReason (status (cc s)) = []"
    using R b(3,6) by (simp add: reason_sent_def cc_tokens_def)
  have k: "length (Pods (status (cc s))) = ?k"
    by (simp add: pods_bound_def)
  have N: "n \<in> node_names c0"
    using n fr by (simp add: has_node_def node_names_def frame_def)
  have sim: "0 < maxSimulated c0 \<Longrightarrow> simulated (cc s) = int ?k + 1"
    using pend m by (simp add: pending_ok_def within_limit_def int64_def)
  have M: "maxSimulated (cc s) = maxSimulated c0"
    using fr by (simp add: frame_def)
  have before: "outcome (placement_of s) = None" "length (placed_on (placement_of s)) = ?k"
    using quiet by (simp_all add: placement_of_def ScheduledPods_def k)
  have "placement_of (do_bind u p n s) = (placement_of s)
      \<lparr>placed_on := placed_on (placement_of s) @ [n],
       outcome := (if 0 < maxSimulated c0 \<and> maxSimulated c0 \<le> int ?k + 1 then Some Limit else None)\<rparr>
    \<and> (StopReason (status (cc (do_bind u p n s))) = [] \<or> senders (stop (cc (do_bind u p n s))) \<noteq> [])"
    using quiet sim M by (auto simp: b(7) placement_of_def ScheduledPods_def)
  with place_step.place [OF before(1) N, of "maxSimulated c0"] before(2)
  show "place_step (maxSimulated c0) (node_names c0) (placement_of s) (placement_of (do_bind u p n s))"
    and "StopReason (status (cc (do_bind u p n s))) = [] \<or> senders (stop (cc (do_bind u p n s))) \<noteq> []"
    and "outcome (placement_of (do_bind u p n s)) \<noteq> Some No_room"
    by simp_all
qed

lemma same_status_placement:
  "status (cc s') = status (cc s) \<Longrightarrow> placement_of s' = placement_of s"
  by (simp add: placement_of_def ScheduledPods_def)

lemma placement_step:
  assumes inv: "placement_inv c0 s" and step: "sim_step False s s'" and m: "int64 (maxSimulated c0)"
  shows "reason_sent s'" and "placement_of s' = placement_of s \<or>
    place_step (maxSimulated c0) (node_names c0) (placement_of s) (placement_of s')"
proof -
  have C: "control_ok s" and R: "reason_sent s"
    using inv by (auto simp: placement_inv_def)
  from step have "reason_sent s' \<and> (placement_of s' = placement_of s \<or>
    place_step (maxSimulated c0) (node_names c0) (placement_of s) (placement_of s'))"
  proof cases
    case (create u)
    then have "senders (stop (cc s)) = []" "\<not> chan_closed (stop (cc s))"
      using C by (auto simp: control_ok_def tokens_def)
    with R have "StopReason (status (cc s)) = []" by (simp add: reason_sent_def)
    moreover have "status (cc s') = status (cc s)"
      using create_placement [OF C create(3), of u] create(1) by simp
    ultimately show ?thesis
      using same_status_placement [of s' s] by (simp add: reason_sent_def)
  next
    case receive
    then have "status (cc s') = status (cc s)" "chan_closed (stop (cc s'))"
      using receive_placement [OF C] by simp_all
    then show ?thesis
      using same_status_placement [of s' s] by (simp add: reason_sent_def)
  next
    case (bind p n u)
    then show ?thesis
      using bind_placement [OF inv bind(3,4) m, of u] by (auto simp: reason_sent_def)
  next
    case (mark p r msg)
    then have "status (cc s') = status (cc s)" "stop (cc s') = stop (cc s)"
      using mark_placement [OF C mark(3)] by simp_all
    then show ?thesis
      using R same_status_placement [of s' s] by (simp add: reason_sent_def)
  next
    case deliver
    then have "cc s' = cc s" by simp
    then show ?thesis
      using R same_status_placement [of s' s] by (simp add: reason_sent_def)
  next
    case update
    from update_placement [OF C update(3)] show ?thesis
    proof (elim disjE exE conjE)
      assume "cc (do_update s) = cc s"
      with update(1) have "cc s' = cc s" by simp
      then show ?thesis
        using R same_status_placement [of s' s] by (simp add: reason_sent_def)
    next
      fix msg
      assume u: "cc (do_update s) = (signal Informer_goroutine (''Unschedulable: '' @ msg) (cc s))\<lparr>stopped := True\<rparr>"
        "senders (stop (cc s)) = []" "\<not> chan_closed (stop (cc s))"
      then have "outcome (placement_of s) = None"
        using R by (simp add: reason_sent_def placement_of_def)
      then have "place_step (maxSimulated c0) (node_names c0) (placement_of s)
          (placement_of s\<lparr>outcome := Some No_room\<rparr>)"
        by (rule place_step.give_up)
      with update u(1) show ?thesis
        by (simp add: reason_sent_def placement_of_def ScheduledPods_def)
    qed
  qed
  then show "reason_sent s'" and "placement_of s' = placement_of s \<or>
    place_step (maxSimulated c0) (node_names c0) (placement_of s) (placement_of s')"
    by simp_all
qed

lemma placement_preserved:
  assumes "int64 (maxSimulated c0)" and "placement_inv c0 s" and "sim_step False s s'"
  shows "placement_inv c0 s'"
  using placement_step(1) [OF assms(2,3,1)] control_step [OF _ assms(3)] progress_step [OF assms(1) _ _ assms(3)]
    assms(2) by (simp add: placement_inv_def)

interpretation analysis_placement: forward_simulation "sim_step False"
    "place_step (maxSimulated c0) (node_names c0)" placement_of
    "\<lambda>s. int64 (maxSimulated c0) \<and> placement_inv c0 s" for c0
  by unfold_locales (use placement_preserved placement_step(2) in blast)+

lemma reachable_rtranclp: "reachable retry c0 s \<Longrightarrow> (sim_step retry)\<^sup>*\<^sup>* (initial_system c0) s"
  by (induction rule: reachable.induct) (auto intro: rtranclp.rtrancl_into_rtrancl)

lemma placement_initially:
  assumes "start_ok c0" and "StopReason (status c0) = []"
  shows "placement_inv c0 (initial_system c0)" "placement_of (initial_system c0) = no_placement"
  using assms progress_initially [of c0] control_initially [of c0]
  by (simp_all add: placement_inv_def reason_sent_def start_ok_def initial_system_def placement_of_def
      no_placement_def ScheduledPods_def)

lemma reachable_placement:
  assumes "start_ok c0" and "StopReason (status c0) = []" and "reachable False c0 s"
  shows "placement_inv c0 s"
    and "(place_step (maxSimulated c0) (node_names c0))\<^sup>*\<^sup>* no_placement (placement_of s)"
  using analysis_placement.simulates_run [OF reachable_rtranclp [OF assms(3)]] placement_initially [OF assms(1,2)]
    assms(1) by (simp_all add: start_ok_def)

lemma counted_node:
  assumes "start_ok c0" and "reachable False c0 s" and "q \<in> set (ScheduledPods (cc s))"
  shows "pod_node q \<in> node_names c0"
proof -
  obtain i where "i < length (Pods (status (cc s)))" "q = Pods (status (cc s)) ! i"
    using assms(3) by (auto simp: ScheduledPods_def in_set_conv_nth)
  then show ?thesis
    using placed_nth [OF assms(1,2), of i] by (auto simp: placed_def node_names_def)
qed

text \<open>What has been decided when \<open>Run\<close> has returned.\<close>

lemma finished_outcome:
  assumes "start_ok c0" and "reachable False c0 s" and "main s = Returned None"
  shows "outcome (placement_of s) =
    Some (if 0 < maxSimulated c0 \<and> int (length (ScheduledPods (cc s))) = maxSimulated c0 then Limit else No_room)"
  using finished_reason(1) [OF assms]
  by (auto simp: reason_ok_def placement_of_def ScheduledPods_def pods_bound_def within_limit_def)

end
