(* ===== verification/Sim_Exec.thy ===== *)
theory Sim_Exec
  imports Sim_Results Sync
begin

text \<open>
  An executable reading of the step relation: \<open>perform\<close> runs one named action when its guard
  holds. It computes exactly the steps of the relation, so that a concrete run of an analysis
  is evaluated, action by action.
\<close>

datatype action =
    Create string
  | Receive
  | Bind_to string "string \<times> string" string
  | Give_up "string \<times> string" string string
  | Deliver
  | Handle

definition take_up :: "bool \<Rightarrow> system \<Rightarrow> string \<times> string \<Rightarrow> Pod option" where
  "take_up retry s k =
     (case map_of (pods_of s) k of
        None \<Rightarrow> None
      | Some p \<Rightarrow>
          (if object_key Meta p = k \<and> unassigned_pod p \<and> (retry \<or> k \<notin> marked s) then Some p else None))"

fun perform :: "bool \<Rightarrow> action \<Rightarrow> system \<Rightarrow> system option" where
  "perform retry (Create u) s =
     (if crashed s = None \<and> main s = Starting then Some (do_create u s) else None)"
| "perform retry Receive s =
     (if crashed s = None \<and> main s = Receiving \<and> senders (stop (cc s)) \<noteq> []
      then Some (do_receive s) else None)"
| "perform retry (Bind_to u k n) s =
     (case take_up retry s k of
        None \<Rightarrow> None
      | Some p \<Rightarrow> if crashed s = None \<and> has_node s n then Some (do_bind u p n s) else None)"
| "perform retry (Give_up k r m) s =
     (case take_up retry s k of
        None \<Rightarrow> None
      | Some p \<Rightarrow> if crashed s = None then Some (do_mark (failure_condition r m) p s) else None)"
| "perform retry Deliver s =
     (if crashed s = None \<and> todo s = [] \<and> \<not> parked s \<and> seen s < length (events_of s)
      then Some (do_deliver s) else None)"
| "perform retry Handle s =
     (if crashed s = None \<and> todo s \<noteq> [] \<and> \<not> parked s then Some (do_update s) else None)"

fun perform_all :: "bool \<Rightarrow> action list \<Rightarrow> system \<Rightarrow> system option" where
  "perform_all retry [] s = Some s"
| "perform_all retry (a # as) s =
     (case perform retry a s of None \<Rightarrow> None | Some s' \<Rightarrow> perform_all retry as s')"

lemma take_up_sound: "take_up retry s k = Some p \<Longrightarrow> schedulable retry s p \<and> object_key Meta p = k"
  by (auto simp: take_up_def schedulable_def dest: map_of_SomeD split: option.splits if_splits)

lemma take_up_complete:
  "tracker_ok Meta (cs_pods (client (cc s))) \<Longrightarrow> schedulable retry s p \<Longrightarrow>
     take_up retry s (object_key Meta p) = Some p"
  by (auto simp: take_up_def schedulable_def tracker_ok_def)

lemma perform_sound: "perform retry a s = Some s' \<Longrightarrow> sim_step retry s s'"
  by (cases a) (auto split: if_splits option.splits dest!: take_up_sound intro: sim_step.intros)

lemma perform_complete:
  assumes "sim_step retry s s'" and "tracker_ok Meta (cs_pods (client (cc s)))"
  shows "\<exists>a. perform retry a s = Some s'"
  using assms(1)
proof cases
  case (create uuid)
  then show ?thesis by (intro exI [of _ "Create uuid"]) simp
next
  case receive
  then show ?thesis by (intro exI [of _ Receive]) simp
next
  case (bind p n uuid)
  then show ?thesis
    using take_up_complete [OF assms(2)] by (intro exI [of _ "Bind_to uuid (object_key Meta p) n"]) simp
next
  case (mark p r m)
  then show ?thesis
    using take_up_complete [OF assms(2)] by (intro exI [of _ "Give_up (object_key Meta p) r m"]) simp
next
  case deliver
  then show ?thesis by (intro exI [of _ Deliver]) simp
next
  case update
  then show ?thesis by (intro exI [of _ Handle]) simp
qed

lemma reachable_trans: "reachable retry c0 s \<Longrightarrow> perform_all retry as s = Some s' \<Longrightarrow> reachable retry c0 s'"
proof (induction as arbitrary: s)
  case Nil
  then show ?case by simp
next
  case (Cons a as)
  then obtain s1 where "perform retry a s = Some s1" "perform_all retry as s1 = Some s'"
    by (auto split: option.splits)
  with Cons show ?case
    by (blast intro: reachable.step perform_sound)
qed

lemma perform_all_reachable:
  "perform_all retry as (initial_system c0) = Some s \<Longrightarrow> reachable retry c0 s"
  by (rule reachable_trans [OF reachable.start])

section \<open>A small cluster\<close>

text \<open>The state after \<open>New\<close> and \<open>SyncWithClient\<close>, the node \<open>n2\<close> excluded.\<close>

definition start_on :: "Pod \<Rightarrow> Pod list \<Rightarrow> int \<Rightarrow> ClusterCapacity" where
  "start_on template pods m =
     (case New None template m [''n2''] of
        Inl e \<Rightarrow> undefined
      | Inr c \<Rightarrow> fst (SyncWithClient (small_remote pods) c))"

definition small_start :: "Pod list \<Rightarrow> int \<Rightarrow> ClusterCapacity" where
  "small_start = start_on (small_pod ''p'' [] [])"

text \<open>Two runs of it: to the limit of one pod, and to the first pod that does not fit.\<close>

definition limit_run :: "action list" where
  "limit_run = [Create ''u0'', Bind_to ''u1'' (''default'', ''p-0'') ''n1'', Receive]"

definition full_run :: "action list" where
  "full_run =
     [Create ''u0'', Bind_to ''u1'' (''default'', ''p-0'') ''n1'',
      Give_up (''default'', ''p-1'') ''Unschedulable'' ''0/1 nodes are available: 1 Insufficient cpu.'',
      Deliver, Deliver, Deliver, Deliver, Handle, Receive]"

end
