(* ===== verification/Node_Fit.thy ===== *)
theory Node_Fit
  imports Objects Resource_Names
begin

text \<open>
  What decides in the scheduler whether a node has room for a pod: the filter
  \<open>NodeResourcesFit\<close> (\<open>fitsRequest\<close> of \<open>plugins/noderesources/fit.go\<close> in the vendored
  scheduler) and the resources of a node (\<open>NodeInfo\<close> of \<open>scheduler/framework/types.go\<close>). Of a pod the filter reads its
  name of a node, its UID and its request; the request is an argument here, theory \<open>Pod_Requests\<close>
  computes it. The scalar resources of a request are an association list, whose order stands for
  the iteration order of the map.
\<close>

section \<open>Nodes and requests\<close>

record Resource =
  MilliCPU :: int
  Memory :: int
  EphemeralStorage :: int
  AllowedPodNumber :: int
  ScalarAmounts :: "(string \<times> int) list"

text \<open>A pod on a node: its UID and what \<open>CalculateResource\<close> says of it.\<close>

record NodeInfo =
  node_name :: string
  node_pods :: "(string \<times> Resource) list"
  Requested :: Resource
  Allocatable :: Resource

record InsufficientResource =
  ResourceName :: string
  InsufficientReason :: string
  RequestedAmount :: int
  Used :: int
  Capacity :: int
  Unresolvable :: bool

record ResourceRequestsOptions =
  EnableDRAExtendedResource :: bool
  EnableInPlacePodVerticalScalingSchedulerPreemption :: bool

text \<open>Reading a map of Go at a key it lacks gives the zero value.\<close>

definition scalar :: "(string \<times> int) list \<Rightarrow> string \<Rightarrow> int" where
  "scalar m name = (case map_of m name of None \<Rightarrow> 0 | Some x \<Rightarrow> x)"

definition update_resource :: "Resource \<Rightarrow> NodeInfo \<Rightarrow> NodeInfo" where
  "update_resource res n =
     (let r = Requested n in
      n\<lparr>Requested := r
        \<lparr>MilliCPU := wrap64 (MilliCPU r + MilliCPU res),
         Memory := wrap64 (Memory r + Memory res),
         EphemeralStorage := wrap64 (EphemeralStorage r + EphemeralStorage res),
         ScalarAmounts := fold (\<lambda>(rName, rQuant) m. alist_put rName (wrap64 (scalar m rName + rQuant)) m)
           (ScalarAmounts res) (ScalarAmounts r)\<rparr>\<rparr>)"

definition AddPodInfo :: "string \<times> Resource \<Rightarrow> NodeInfo \<Rightarrow> NodeInfo" where
  "AddPodInfo podInfo n = update_resource (snd podInfo) (n\<lparr>node_pods := node_pods n @ [podInfo]\<rparr>)"

section \<open>The filter\<close>

text \<open>The dynamic resource allocator is given by its device classes, \<open>None\<close> when there is none.\<close>

definition shouldDelegateResourceToDRA ::
    "string \<Rightarrow> NodeInfo \<Rightarrow> (string \<Rightarrow> bool) option \<Rightarrow> ResourceRequestsOptions \<Rightarrow> bool" where
  "shouldDelegateResourceToDRA rName nodeInfo draManager opts =
     (if \<not> EnableDRAExtendedResource opts then False
      else if 0 < scalar (ScalarAmounts (Allocatable nodeInfo)) rName then False
      else (case draManager of None \<Rightarrow> False | Some classes \<Rightarrow> classes rName))"

definition adjustDeltas :: "ResourceRequestsOptions \<Rightarrow> Resource \<Rightarrow> NodeInfo \<Rightarrow> Pod \<Rightarrow> Resource" where
  "adjustDeltas opts podRequest nodeInfo pod =
     (if \<not> EnableInPlacePodVerticalScalingSchedulerPreemption opts \<or> pod_node pod = [] \<or>
         pod_node pod \<noteq> node_name nodeInfo
      then podRequest
      else (case map_of (node_pods nodeInfo) (UID (Meta pod)) of
          None \<Rightarrow> podRequest
        | Some cachedRes \<Rightarrow> podRequest
            \<lparr>MilliCPU := max 0 (wrap64 (MilliCPU podRequest - MilliCPU cachedRes)),
             Memory := max 0 (wrap64 (Memory podRequest - Memory cachedRes)),
             EphemeralStorage := max 0 (wrap64 (EphemeralStorage podRequest - EphemeralStorage cachedRes)),
             ScalarAmounts := map (\<lambda>(rName, rQuant).
               (rName, max 0 (wrap64 (rQuant - scalar (ScalarAmounts cachedRes) rName)))) (ScalarAmounts podRequest)\<rparr>))"

definition lacking :: "string \<Rightarrow> string \<Rightarrow> int \<Rightarrow> int \<Rightarrow> int \<Rightarrow> int \<Rightarrow> bool \<Rightarrow> InsufficientResource list" where
  "lacking name reason delta request used capacity unresolvable =
     (if 0 < request \<and> wrap64 (capacity - used) < delta
      then [\<lparr>ResourceName = name, InsufficientReason = reason, RequestedAmount = request, Used = used,
             Capacity = capacity, Unresolvable = unresolvable\<rparr>]
      else [])"

definition ignored_resource :: "string set \<Rightarrow> string set \<Rightarrow> string \<Rightarrow> bool" where
  "ignored_resource ignoredExtendedResources ignoredResourceGroups rName =
     (IsExtendedResourceName rName \<and>
      (rName \<in> ignoredExtendedResources \<or> hd (split_char (CHR ''/'') rName) \<in> ignoredResourceGroups))"

record filter_config =
  ignoredExtendedResources :: "string set"
  ignoredResourceGroups :: "string set"
  draManager :: "(string \<Rightarrow> bool) option"
  request_options :: ResourceRequestsOptions

definition fitsRequest :: "filter_config \<Rightarrow> Resource \<Rightarrow> NodeInfo \<Rightarrow> Pod \<Rightarrow> InsufficientResource list" where
  "fitsRequest f podRequest nodeInfo pod =
     (let opts = request_options f; A = Allocatable nodeInfo; R = Requested nodeInfo;
          n = int (length (node_pods nodeInfo));
          pods = (if n + 1 > AllowedPodNumber A
            then [\<lparr>ResourceName = ''pods'', InsufficientReason = ''Too many pods'', RequestedAmount = 1,
                   Used = n, Capacity = AllowedPodNumber A, Unresolvable = False\<rparr>]
            else [])
      in if MilliCPU podRequest = 0 \<and> Memory podRequest = 0 \<and> EphemeralStorage podRequest = 0 \<and>
            ScalarAmounts podRequest = []
         then pods
         else (let delta = adjustDeltas opts podRequest nodeInfo pod in
           pods @
           lacking ''cpu'' ''Insufficient cpu'' (MilliCPU delta) (MilliCPU podRequest) (MilliCPU R) (MilliCPU A)
             (MilliCPU podRequest > MilliCPU A) @
           lacking ''memory'' ''Insufficient memory'' (Memory delta) (Memory podRequest) (Memory R) (Memory A)
             (Memory podRequest > Memory A) @
           lacking ''ephemeral-storage'' ''Insufficient ephemeral-storage'' (EphemeralStorage delta)
             (EphemeralStorage podRequest) (EphemeralStorage R) (EphemeralStorage A)
             (EphemeralStorage podRequest > EphemeralStorage A) @
           concat (map (\<lambda>(rName, rQuant).
             if rQuant = 0 \<or> ignored_resource (ignoredExtendedResources f) (ignoredResourceGroups f) rName \<or>
                shouldDelegateResourceToDRA rName nodeInfo (draManager f) opts
             then []
             else lacking rName (''Insufficient '' @ rName) rQuant (scalar (ScalarAmounts podRequest) rName)
               (scalar (ScalarAmounts R) rName) (scalar (ScalarAmounts A) rName)
               (rQuant > scalar (ScalarAmounts A) rName))
             (ScalarAmounts delta))))"

section \<open>How often a request fits\<close>

text \<open>A node and a request without negative or too large amounts.\<close>

definition amount :: "int \<Rightarrow> bool" where
  "amount x \<longleftrightarrow> 0 \<le> x \<and> x < 2 ^ 63"

definition amounts :: "Resource \<Rightarrow> bool" where
  "amounts r \<longleftrightarrow>
     amount (MilliCPU r) \<and> amount (Memory r) \<and> amount (EphemeralStorage r) \<and>
     distinct (map fst (ScalarAmounts r)) \<and> list_all (\<lambda>(n, x). amount x) (ScalarAmounts r)"

definition regular :: "Resource \<Rightarrow> NodeInfo \<Rightarrow> bool" where
  "regular r n \<longleftrightarrow> amounts r \<and> amounts (Requested n) \<and> amounts (Allocatable n)"

text \<open>The amounts of which the filter demands something: requested, in use, allocatable.\<close>

definition exempt :: "filter_config \<Rightarrow> NodeInfo \<Rightarrow> string \<Rightarrow> bool" where
  "exempt f n name \<longleftrightarrow>
     ignored_resource (ignoredExtendedResources f) (ignoredResourceGroups f) name \<or>
     shouldDelegateResourceToDRA name n (draManager f) (request_options f)"

definition scalar_amounts :: "NodeInfo \<Rightarrow> string \<times> int \<Rightarrow> int \<times> int \<times> int" where
  "scalar_amounts n = (\<lambda>(name, q).
     (q, scalar (ScalarAmounts (Requested n)) name, scalar (ScalarAmounts (Allocatable n)) name))"

definition demands :: "filter_config \<Rightarrow> Resource \<Rightarrow> NodeInfo \<Rightarrow> (int \<times> int \<times> int) list" where
  "demands f r n =
     filter (\<lambda>(q, u, a). 0 < q)
       [(MilliCPU r, MilliCPU (Requested n), MilliCPU (Allocatable n)),
        (Memory r, Memory (Requested n), Memory (Allocatable n)),
        (EphemeralStorage r, EphemeralStorage (Requested n), EphemeralStorage (Allocatable n))] @
     map (scalar_amounts n) (filter (\<lambda>(name, q). 0 < q \<and> \<not> exempt f n name) (ScalarAmounts r))"

definition slack :: "int \<times> int \<times> int \<Rightarrow> int" where
  "slack = (\<lambda>(q, u, a). (a - u) div q)"

definition room :: "filter_config \<Rightarrow> Resource \<Rightarrow> NodeInfo \<Rightarrow> nat" where
  "room f r n =
     nat (fold (\<lambda>x k. min k (slack x)) (demands f r n)
       (AllowedPodNumber (Allocatable n) - int (length (node_pods n))))"

text \<open>The node after more pods with this request, in the order they were added.\<close>

definition crowded :: "Resource \<Rightarrow> string list \<Rightarrow> NodeInfo \<Rightarrow> NodeInfo" where
  "crowded r uids n = fold (\<lambda>uid. AddPodInfo (uid, r)) uids n"

lemma scalar_put [simp]: "scalar (alist_put k x m) n = (if n = k then x else scalar m n)"
  by (simp add: scalar_def)

lemma scalar_fold:
  assumes "distinct (map fst xs)"
  shows "scalar (fold (\<lambda>(k, x) m. alist_put k (wrap64 (scalar m k + x)) m) xs m) n =
    (case map_of xs n of None \<Rightarrow> scalar m n | Some x \<Rightarrow> wrap64 (scalar m n + x))"
  using assms
proof (induction xs arbitrary: m)
  case Nil
  then show ?case by simp
next
  case (Cons y xs)
  obtain k x where y: "y = (k, x)" by force
  have "k \<notin> fst ` set xs"
    using Cons.prems y by simp
  then have "map_of xs k = None"
    by (simp add: map_of_eq_None_iff)
  then show ?case
    using Cons y by (auto split: option.split)
qed

lemma AddPodInfo_simps [simp]:
  "node_pods (AddPodInfo p n) = node_pods n @ [p]" "Allocatable (AddPodInfo p n) = Allocatable n"
  "node_name (AddPodInfo p n) = node_name n"
  "MilliCPU (Requested (AddPodInfo p n)) = wrap64 (MilliCPU (Requested n) + MilliCPU (snd p))"
  "Memory (Requested (AddPodInfo p n)) = wrap64 (Memory (Requested n) + Memory (snd p))"
  "EphemeralStorage (Requested (AddPodInfo p n)) = wrap64 (EphemeralStorage (Requested n) + EphemeralStorage (snd p))"
  by (simp_all add: AddPodInfo_def update_resource_def Let_def)

lemma AddPodInfo_scalar:
  assumes "distinct (map fst (ScalarAmounts r))" and "(name, q) \<in> set (ScalarAmounts r)"
  shows "scalar (ScalarAmounts (Requested (AddPodInfo (uid, r) n))) name =
    wrap64 (scalar (ScalarAmounts (Requested n)) name + q)"
  using assms by (simp add: AddPodInfo_def update_resource_def Let_def scalar_fold)

lemma delegate_AddPodInfo [simp]:
  "shouldDelegateResourceToDRA name (AddPodInfo p n) d opts = shouldDelegateResourceToDRA name n d opts"
  by (simp add: shouldDelegateResourceToDRA_def)

lemma exempt_AddPodInfo [simp]: "exempt f (AddPodInfo p n) name = exempt f n name"
  by (simp add: exempt_def)

lemma demands_AddPodInfo:
  assumes "distinct (map fst (ScalarAmounts r))"
  shows "demands f r (AddPodInfo (uid, r) n) = map (\<lambda>(q, u, a). (q, wrap64 (u + q), a)) (demands f r n)"
  by (auto simp: demands_def scalar_amounts_def AddPodInfo_scalar [OF assms])

lemma lacking_none: "lacking name reason d q u a b = [] \<longleftrightarrow> (0 < q \<longrightarrow> d \<le> wrap64 (a - u))"
  by (auto simp: lacking_def)

lemma scalar_member:
  "distinct (map fst m) \<Longrightarrow> (name, q) \<in> set m \<Longrightarrow> scalar m name = q"
  by (simp add: scalar_def)

lemma filter_pos_all: "list_all P (filter (\<lambda>(q, u, a). 0 < q) xs) \<longleftrightarrow> list_all (\<lambda>(q, u, a). 0 < q \<longrightarrow> P (q, u, a)) xs"
  by (auto simp: list_all_iff)

text \<open>The check of one scalar resource.\<close>

definition scalar_check :: "filter_config \<Rightarrow> Resource \<Rightarrow> NodeInfo \<Rightarrow> string \<times> int \<Rightarrow> InsufficientResource list" where
  "scalar_check f r n = (\<lambda>(rName, rQuant).
     if rQuant = 0 \<or> ignored_resource (ignoredExtendedResources f) (ignoredResourceGroups f) rName \<or>
        shouldDelegateResourceToDRA rName n (draManager f) (request_options f)
     then []
     else lacking rName (''Insufficient '' @ rName) rQuant (scalar (ScalarAmounts r) rName)
       (scalar (ScalarAmounts (Requested n)) rName) (scalar (ScalarAmounts (Allocatable n)) rName)
       (rQuant > scalar (ScalarAmounts (Allocatable n)) rName))"

definition met :: "int \<times> int \<times> int \<Rightarrow> bool" where
  "met = (\<lambda>(q, u, a). q \<le> wrap64 (a - u))"

lemma met_iff: "met (q, u, a) \<longleftrightarrow> q \<le> wrap64 (a - u)"
  by (simp add: met_def)

lemma scalar_check_none:
  assumes "amounts r" and "x \<in> set (ScalarAmounts r)"
  shows "scalar_check f r n x = [] \<longleftrightarrow>
    (case x of (name, q) \<Rightarrow> 0 < q \<and> \<not> exempt f n name \<longrightarrow> met (scalar_amounts n x))"
proof -
  obtain name q where x: "x = (name, q)" by force
  have "0 \<le> q" "scalar (ScalarAmounts r) name = q"
    using assms x by (auto simp: amounts_def amount_def list_all_iff scalar_member)
  then show ?thesis
    by (auto simp: x scalar_check_def lacking_none exempt_def met_iff scalar_amounts_def)
qed

text \<open>For a pod that is on no node, the filter says whether every demand is met.\<close>

lemma fitsRequest_met:
  assumes "amounts r" and "pod_node pod = []"
  shows "fitsRequest f r n pod = [] \<longleftrightarrow>
    int (length (node_pods n)) + 1 \<le> AllowedPodNumber (Allocatable n) \<and> list_all met (demands f r n)"
proof -
  have a: "adjustDeltas opts r n pod = r" for opts
    using assms(2) by (simp add: adjustDeltas_def)
  have scalars: "list_all met (map (scalar_amounts n)
      (filter (\<lambda>(name, q). 0 < q \<and> \<not> exempt f n name) (ScalarAmounts r))) \<longleftrightarrow>
      (\<forall>x \<in> set (ScalarAmounts r). scalar_check f r n x = [])"
    using scalar_check_none [OF assms(1)] by (auto simp: list_all_iff split: prod.splits)
  show ?thesis
  proof (cases "MilliCPU r = 0 \<and> Memory r = 0 \<and> EphemeralStorage r = 0 \<and> ScalarAmounts r = []")
    case True
    then show ?thesis
      by (auto simp: fitsRequest_def Let_def demands_def)
  next
    case False
    have "fitsRequest f r n pod =
      (if int (length (node_pods n)) + 1 > AllowedPodNumber (Allocatable n)
       then [\<lparr>ResourceName = ''pods'', InsufficientReason = ''Too many pods'', RequestedAmount = 1,
              Used = int (length (node_pods n)), Capacity = AllowedPodNumber (Allocatable n), Unresolvable = False\<rparr>]
       else []) @
      lacking ''cpu'' ''Insufficient cpu'' (MilliCPU r) (MilliCPU r) (MilliCPU (Requested n)) (MilliCPU (Allocatable n))
        (MilliCPU r > MilliCPU (Allocatable n)) @
      lacking ''memory'' ''Insufficient memory'' (Memory r) (Memory r) (Memory (Requested n)) (Memory (Allocatable n))
        (Memory r > Memory (Allocatable n)) @
      lacking ''ephemeral-storage'' ''Insufficient ephemeral-storage'' (EphemeralStorage r) (EphemeralStorage r)
        (EphemeralStorage (Requested n)) (EphemeralStorage (Allocatable n))
        (EphemeralStorage r > EphemeralStorage (Allocatable n)) @
      concat (map (scalar_check f r n) (ScalarAmounts r))"
      using False by (simp only: fitsRequest_def Let_def a scalar_check_def if_False)
    then show ?thesis
      by (simp add: demands_def filter_pos_all scalars lacking_none met_iff)
  qed
qed

text \<open>The room of a node is what its pod number and its demands leave, whichever is less.\<close>

lemma less_fold_min:
  fixes h :: "'a \<Rightarrow> int"
  shows "k < fold (\<lambda>x k. min k (h x)) xs b \<longleftrightarrow> k < b \<and> list_all (\<lambda>x. k < h x) xs"
  by (induction xs arbitrary: b) auto

lemma less_room:
  "k < room f r n \<longleftrightarrow> int (length (node_pods n)) + int k < AllowedPodNumber (Allocatable n) \<and>
     list_all (\<lambda>x. int k < slack x) (demands f r n)"
  unfolding room_def zless_nat_eq_int_zless less_fold_min by auto

lemma demands_regular:
  assumes "regular r n"
  shows "list_all (\<lambda>(q, u, a). 0 < q \<and> amount u \<and> amount a) (demands f r n)"
proof -
  have "amount (scalar m name)" if "list_all (\<lambda>(n, x). amount x) m" for m name
    using that by (auto simp: scalar_def amount_def list_all_iff split: option.split dest!: map_of_SomeD)
  with assms show ?thesis
    by (auto simp: regular_def amounts_def demands_def list_all_iff scalar_amounts_def)
qed

lemma slack_less:
  assumes "0 < q"
  shows "int k < slack (q, u, a) \<longleftrightarrow> u + int k * q + q \<le> a"
proof -
  have "(int k + 1) * q \<le> a - u" if "int k + 1 \<le> (a - u) div q"
    using mult_right_mono [OF that, of q] minus_mod_eq_div_mult [of "a - u" q]
      pos_mod_sign [OF assms, of "a - u"] assms by linarith
  moreover have "int k + 1 \<le> (a - u) div q" if "(int k + 1) * q \<le> a - u"
    using zdiv_mono1 [OF that assms] assms by simp
  ultimately show ?thesis
    by (auto simp: slack_def algebra_simps)
qed

lemma crowded_snoc: "crowded r (us @ [u]) n = AddPodInfo (u, r) (crowded r us n)"
  by (simp add: crowded_def)

lemma crowded_simps [simp]:
  "length (node_pods (crowded r us n)) = length (node_pods n) + length us"
  "Allocatable (crowded r us n) = Allocatable n"
  by (induction us rule: rev_induct) (simp_all add: crowded_snoc crowded_def [where uids = "[]"])

lemma demands_crowded:
  assumes "regular r n" and "length us \<le> room f r n"
  shows "demands f r (crowded r us n) = map (\<lambda>(q, u, a). (q, u + int (length us) * q, a)) (demands f r n)"
  using assms(2)
proof (induction us rule: rev_induct)
  case Nil
  then show ?case
    by (simp add: crowded_def case_prod_beta)
next
  case (snoc x us)
  let ?k = "int (length us)"
  have d: "distinct (map fst (ScalarAmounts r))"
    using assms(1) by (simp add: regular_def amounts_def)
  have "length us < room f r n"
    using snoc.prems by simp
  then have "wrap64 (u + ?k * q + q) = u + ?k * q + q" if m: "(q, u, a) \<in> set (demands f r n)" for q u a
  proof -
    have "0 < q" "amount u" "amount a"
      using demands_regular [OF assms(1), of f] m by (auto simp: list_all_iff)
    moreover have "?k < slack (q, u, a)"
      using \<open>length us < room f r n\<close> m by (auto simp: less_room list_all_iff)
    ultimately have "u + ?k * q + q < 2 ^ 63" "0 \<le> u + ?k * q + q"
      using slack_less [of q "length us" u a] by (auto simp: amount_def)
    then show ?thesis
      by (simp add: int64_def)
  qed
  with snoc show ?case
    by (auto simp: crowded_snoc demands_AddPodInfo [OF d] algebra_simps)
qed

text \<open>Hence a node admits one more pod exactly as long as its room is not used up.\<close>

lemma fits_crowded:
  assumes "regular r n" and "length us \<le> room f r n" and "pod_node pod = []"
  shows "fitsRequest f r (crowded r us n) pod = [] \<longleftrightarrow> length us < room f r n"
proof -
  let ?k = "length us"
  have "amounts r"
    using assms(1) by (simp add: regular_def)
  moreover have "met (q, u + int ?k * q, a) \<longleftrightarrow> int ?k < slack (q, u, a)"
    if m: "(q, u, a) \<in> set (demands f r n)" for q u a
  proof -
    have p: "0 < q" "amount u" "amount a"
      using demands_regular [OF assms(1), of f] m by (auto simp: list_all_iff)
    have "u + int ?k * q \<le> max u a"
    proof (cases ?k)
      case (Suc j)
      then have "j < room f r n"
        using assms(2) by simp
      then have "int j < slack (q, u, a)"
        using m by (auto simp: less_room list_all_iff)
      then show ?thesis
        using slack_less [OF p(1), of j u a] Suc by (simp add: algebra_simps)
    qed simp
    moreover have "0 \<le> int ?k * q" "0 \<le> u" "u < 2 ^ 63" "0 \<le> a" "a < 2 ^ 63"
      using p by (simp_all add: amount_def)
    ultimately have "int64 (a - (u + int ?k * q))"
      unfolding int64_def by linarith
    then show ?thesis
      using slack_less [OF p(1), of ?k u a] by (auto simp: met_iff)
  qed
  ultimately show ?thesis
    using fitsRequest_met [OF _ assms(3), of r f "crowded r us n"] demands_crowded [OF assms(1,2)]
    by (auto simp: less_room list_all_iff)
qed

end
