(* ===== verification/Capacity.thy ===== *)
theory Capacity
  imports Placement Sim_Exec Node_Fit
begin

text \<open>
  How many pods an analysis finds room for. The scheduler's choices are free in the step
  relation; here it is one that binds a pod only to a node that admits it and calls a pod
  unschedulable only when no node does. For every such scheduler the number of counted pods
  is determined by the room of the nodes. The locale \<open>node_capacity\<close> is what is needed of the
  filter; \<open>Node_Fit\<close> provides it with \<open>NodeResourcesFit\<close>.
\<close>

section \<open>The nodes and their pods\<close>

definition node_list :: "ClusterCapacity \<Rightarrow> string list" where
  "node_list c =
     remdups (map snd (filter (\<lambda>(ns, n). ns = [] \<and> n \<noteq> []) (map fst (objects (cs_nodes (client c))))))"

lemma set_node_list [simp]: "set (node_list c) = node_names c"
proof -
  have "n \<in> node_names c \<longleftrightarrow> n \<noteq> [] \<and> ([], n) \<in> set (map fst (objects (cs_nodes (client c))))" for n
    by (simp add: node_names_def tracker_lookup_def map_of_eq_None_iff)
  moreover have "n \<in> set (node_list c) \<longleftrightarrow> n \<noteq> [] \<and> ([], n) \<in> set (map fst (objects (cs_nodes (client c))))" for n
    unfolding node_list_def set_remdups set_map [of snd] set_filter
    by (auto simp del: set_map intro: rev_image_eqI)
  ultimately show ?thesis
    by blast
qed

lemma distinct_node_list [simp]: "distinct (node_list c)"
  by (simp add: node_list_def)

definition pods_on :: "string \<Rightarrow> system \<Rightarrow> Pod list" where
  "pods_on n s = filter (\<lambda>p. pod_node p = n) (ScheduledPods (cc s))"

section \<open>Schedulers that follow a filter\<close>

definition filtered_step :: "(string \<Rightarrow> Pod list \<Rightarrow> Pod \<Rightarrow> bool) \<Rightarrow> string list \<Rightarrow> action \<Rightarrow> system \<Rightarrow> bool" where
  "filtered_step admits N a s =
     (case a of
        Bind_to u k n \<Rightarrow> (case take_up False s k of None \<Rightarrow> True | Some p \<Rightarrow> admits n (pods_on n s) p)
      | Give_up k r m \<Rightarrow> (case take_up False s k of None \<Rightarrow> True
          | Some p \<Rightarrow> r \<noteq> ''Unschedulable'' \<or> list_all (\<lambda>n. \<not> admits n (pods_on n s) p) N)
      | _ \<Rightarrow> True)"

fun filtered_run :: "(string \<Rightarrow> Pod list \<Rightarrow> Pod \<Rightarrow> bool) \<Rightarrow> string list \<Rightarrow> action list \<Rightarrow> system \<Rightarrow> bool" where
  "filtered_run admits N [] s = True"
| "filtered_run admits N (a # as) s =
     (filtered_step admits N a s \<and>
      (case perform False a s of None \<Rightarrow> True | Some s' \<Rightarrow> filtered_run admits N as s'))"

section \<open>A stop condition on its way\<close>

definition stop_pending :: "system \<Rightarrow> bool" where
  "stop_pending s \<longleftrightarrow> 0 < stop_events (seen s) (cs_pods (client (cc s))) + count_if stopping (todo s)"

lemma stop_events_submit:
  assumes "client_ok M i c"
  shows "stop_events i (cs_pods (client (fst (submit u c)))) = stop_events i (cs_pods (client c))"
proof (cases "map_of (objects (cs_pods (client c))) (object_key Meta (next_pod u c))")
  case None
  have "stop_conditions (next_pod u c) = 0"
    using assms by (simp add: next_pod_def stop_conditions_clean client_ok_def)
  with assms show ?thesis
    by (simp add: submit_fresh [OF None] stop_events_def client_ok_def)
qed (simp add: submit_taken)

lemma create_no_stop:
  assumes "control_ok s" and "main s = Starting"
  shows "\<not> stop_pending (do_create u s)"
proof -
  have c: "client_ok (marked s) (seen s) (cc s)" and z: "tokens s = 0"
    using assms by (auto simp: control_ok_def)
  then show ?thesis
    using stop_events_submit [OF c, of u]
    by (cases "snd (submit u (cc s))") (auto simp: create_cases [OF assms] stop_pending_def tokens_def)
qed

lemma receive_no_stop:
  assumes "control_ok s" and "main s = Receiving" and "senders (stop (cc s)) \<noteq> []"
  shows "stop_pending (do_receive s) = stop_pending s"
  by (rule receive_cases [OF assms]) (simp add: stop_pending_def)

lemma bind_no_stop:
  assumes "control_ok s" and "schedulable False s p" and "has_node s n"
  shows "\<not> stop_pending (do_bind u p n s)"
    and "pods_on n' (do_bind u p n s) = pods_on n' s @ (if n' = n then [bound_pod n p] else [])"
proof -
  note b = bind_facts [OF assms]
  show "\<not> stop_pending (do_bind u p n s)"
    using b(3,4) stop_events_submit [OF b(2), of u] by (simp add: b(7) stop_pending_def cc_tokens_def)
  show "pods_on n' (do_bind u p n s) = pods_on n' s @ (if n' = n then [bound_pod n p] else [])"
    by (simp add: b(7) pods_on_def ScheduledPods_def)
qed

lemma mark_no_stop:
  assumes "control_ok s" and "schedulable False s p"
    and "r \<noteq> ''Unschedulable''"
  shows "\<not> stop_pending (do_mark (failure_condition r m) p s)"
proof -
  let ?c = "failure_condition r m"
  have c: "client_ok (marked s) (seen s) (cc s)" and t: "tokens s \<le> 1"
    using assms(1) by (auto simp: control_ok_def)
  have p: "map_of (objects (cs_pods (client (cc s)))) (object_key Meta p) = Some p"
    "unassigned_pod p" "object_key Meta p \<notin> marked s"
    using schedulable_lookup [OF assms(2) c] assms(2) by (simp_all add: schedulable_def)
  note a = active_pods_pos [OF p]
  have z: "stop_events (seen s) (cs_pods (client (cc s))) = 0" "count_if stopping (todo s) = 0"
    using t a by (auto simp: tokens_def split: if_splits)
  have len: "seen s \<le> length (events_of s)"
    using c by (simp add: client_ok_def)
  have le: "count_if stop_condition (set_condition ?c cs) \<le> count_if stop_condition cs" for cs
    using assms(3) by (induction cs) (auto simp: stop_condition_def failure_condition_def le_SucI)
  have "stop_conditions (mark_pod ?c p) \<le> stop_conditions p"
    by (simp add: stop_conditions_def le)
  then have "stop_conditions (mark_pod ?c p) = 0"
    using client_ok_quiet [OF c p] by simp
  then show ?thesis
    using z stop_events_append [OF len, of _ "Modified (mark_pod ?c p)"]
    by (simp add: do_mark_eq [OF p(1)] stop_pending_def)
qed

lemma deliver_no_stop:
  assumes "todo s = []" and "seen s < length (events_of s)"
  shows "stop_pending (do_deliver s) \<Longrightarrow> stop_pending s"
  using deliver_stops [OF assms] unfolding stop_pending_def deliver_same by linarith

lemma update_no_stop:
  assumes "control_ok s" and "todo s \<noteq> []"
  shows "stop_pending (do_update s) \<Longrightarrow> stop_pending s"
    and "outcome (placement_of (do_update s)) \<noteq> outcome (placement_of s) \<Longrightarrow> stop_pending s"
proof -
  obtain pod cond xs where x: "todo s = (pod, cond) # xs"
    using assms(2) by (metis list.exhaust surj_pair)
  show "stop_pending (do_update s) \<Longrightarrow> stop_pending s"
    by (cases "stopping (pod, cond)")
      (auto simp: stop_pending_def update_stops(1) [OF assms(1) x] update_ignores [OF x] x)
  show "outcome (placement_of (do_update s)) \<noteq> outcome (placement_of s) \<Longrightarrow> stop_pending s"
    by (cases "stopping (pod, cond)") (auto simp: stop_pending_def update_ignores [OF x] x placement_of_def)
qed

section \<open>The room is used, and used up\<close>

lemma length_by_key:
  assumes "distinct ks" and "\<And>x. x \<in> set xs \<Longrightarrow> key x \<in> set ks"
  shows "length xs = (\<Sum>k\<leftarrow>ks. length (filter (\<lambda>x. key x = k) xs))"
proof -
  have "(\<Sum>k\<in>set ks. length (filter (\<lambda>x. key x = k) xs)) = length xs"
    using assms(2)
  proof (induction xs)
    case (Cons x xs)
    have "(\<Sum>k\<in>set ks. length (filter (\<lambda>y. key y = k) (x # xs))) =
        (\<Sum>k\<in>set ks. (if key x = k then 1 else 0) + length (filter (\<lambda>y. key y = k) xs))"
      by (rule sum.cong) simp_all
    with Cons show ?case
      by (simp add: sum.distrib)
  qed simp
  then show ?thesis
    by (simp add: sum_list_distinct_conv_sum_set assms(1))
qed

locale node_capacity =
  fixes admits :: "string \<Rightarrow> Pod list \<Rightarrow> Pod \<Rightarrow> bool" and space :: "string \<Rightarrow> nat" and nodes :: "string set"
  assumes admits_iff: "n \<in> nodes \<Longrightarrow> length ps \<le> space n \<Longrightarrow> pod_node p = [] \<Longrightarrow>
    admits n ps p \<longleftrightarrow> length ps < space n"
begin

definition in_space :: "ClusterCapacity \<Rightarrow> system \<Rightarrow> bool" where
  "in_space c0 s \<longleftrightarrow> (\<forall>n \<in> node_names c0. length (pods_on n s) \<le> space n)"

definition full :: "ClusterCapacity \<Rightarrow> system \<Rightarrow> bool" where
  "full c0 s \<longleftrightarrow> (\<forall>n \<in> node_names c0. length (pods_on n s) = space n)"

definition filled :: "ClusterCapacity \<Rightarrow> system \<Rightarrow> bool" where
  "filled c0 s \<longleftrightarrow> in_space c0 s \<and> (stop_pending s \<or> outcome (placement_of s) = Some No_room \<longrightarrow> full c0 s)"

lemma filled_same:
  assumes "filled c0 s" and "status (cc s') = status (cc s)" and "stop_pending s' \<Longrightarrow> stop_pending s \<or> full c0 s"
  shows "filled c0 s'"
proof -
  have "pods_on n s' = pods_on n s" for n
    using assms(2) by (simp add: pods_on_def ScheduledPods_def)
  then have "in_space c0 s' = in_space c0 s" "full c0 s' = full c0 s"
    by (simp_all add: in_space_def full_def)
  then show ?thesis
    using assms same_status_placement [OF assms(2)] by (auto simp: filled_def)
qed

lemma filled_perform:
  assumes N: "node_names c0 \<subseteq> nodes" and inv: "placement_inv c0 s" and m: "int64 (maxSimulated c0)" and F: "filled c0 s"
    and step: "perform False a s = Some s'" and flt: "filtered_step admits (node_list c0) a s"
  shows "filled c0 s'"
proof -
  have C: "control_ok s"
    using inv by (simp add: placement_inv_def)
  show ?thesis
  proof (cases a)
    case (Create u)
    then have s': "s' = do_create u s" "main s = Starting"
      using step by (simp_all split: if_splits)
    show ?thesis
      using filled_same [OF F] create_placement [OF C s'(2)] create_no_stop [OF C s'(2)] s'(1) by blast
  next
    case Receive
    then have s': "s' = do_receive s" "main s = Receiving" "senders (stop (cc s)) \<noteq> []"
      using step by (simp_all split: if_splits)
    show ?thesis
      using filled_same [OF F, of s'] receive_placement(1) [OF C s'(2,3)] receive_no_stop [OF C s'(2,3)] s'(1) by simp
  next
    case (Bind_to u k n)
    then obtain p where p: "take_up False s k = Some p" "has_node s n" and s': "s' = do_bind u p n s"
      using step by (simp split: option.splits if_splits)
    have sch: "schedulable False s p"
      using take_up_sound [OF p(1)] by simp
    note b = bind_no_stop [OF C sch p(2), where u = u]
    have fr: "frame c0 (cc s)"
      using inv by (simp add: placement_inv_def progress_ok_def)
    have N': "n \<in> node_names c0"
      using p(2) fr by (simp add: has_node_def node_names_def frame_def)
    then have n: "n \<in> nodes"
      using N by blast
    have "pod_node p = []"
      using sch by (simp add: schedulable_def unassigned_pod_def)
    then have "length (pods_on n s) < space n"
      using flt F N' admits_iff [OF n] by (simp add: filtered_step_def Bind_to p(1) filled_def in_space_def)
    then have "in_space c0 s'"
      using F by (auto simp: filled_def in_space_def s' b(2))
    moreover have "outcome (placement_of s') \<noteq> Some No_room"
      using bind_placement(3) [OF inv sch p(2) m, of u] by (simp add: s')
    ultimately show ?thesis
      using b(1) by (simp add: filled_def s')
  next
    case (Give_up k r msg)
    then obtain p where p: "take_up False s k = Some p" and s': "s' = do_mark (failure_condition r msg) p s"
      using step by (simp split: option.splits if_splits)
    have sch: "schedulable False s p"
      using take_up_sound [OF p] by simp
    have "full c0 s" if "r = ''Unschedulable''"
    proof -
      have "\<not> admits n (pods_on n s) p" if "n \<in> node_names c0" for n
        using flt that \<open>r = ''Unschedulable''\<close> by (simp add: filtered_step_def Give_up p list_all_iff)
      moreover have "pod_node p = []"
        using sch by (simp add: schedulable_def unassigned_pod_def)
      ultimately show ?thesis
        using F N admits_iff unfolding full_def filled_def in_space_def by (metis le_neq_implies_less subsetD)
    qed
    then show ?thesis
      using filled_same [OF F] mark_placement(1) [OF C sch] mark_no_stop [OF C sch] s' by blast
  next
    case Deliver
    then have s': "s' = do_deliver s" "todo s = []" "seen s < length (events_of s)"
      using step by (simp_all split: if_splits)
    show ?thesis
      using filled_same [OF F, of s'] deliver_no_stop [OF s'(2,3)] s'(1) by simp
  next
    case Handle
    then have s': "s' = do_update s" "todo s \<noteq> []"
      using step by (simp_all split: if_splits)
    have "pods_on n s' = pods_on n s" for n
      using update_placement [OF C s'(2)] s'(1) by (auto simp: pods_on_def ScheduledPods_def)
    then have "in_space c0 s' = in_space c0 s" "full c0 s' = full c0 s"
      by (simp_all add: in_space_def full_def)
    then show ?thesis
      using F update_no_stop [OF C s'(2)] s'(1) unfolding filled_def by metis
  qed
qed

lemma filled_run:
  assumes "node_names c0 \<subseteq> nodes" and "int64 (maxSimulated c0)"
  shows "perform_all False as s = Some s' \<Longrightarrow> filtered_run admits (node_list c0) as s \<Longrightarrow>
    placement_inv c0 s \<Longrightarrow> filled c0 s \<Longrightarrow> filled c0 s'"
proof (induction as arbitrary: s)
  case Nil
  then show ?case by simp
next
  case (Cons a as)
  then obtain s1 where s1: "perform False a s = Some s1" "perform_all False as s1 = Some s'"
    by (auto split: option.splits)
  with Cons.prems(2) have f: "filtered_step admits (node_list c0) a s" "filtered_run admits (node_list c0) as s1"
    by simp_all
  show ?case
    using Cons.IH [OF s1(2) f(2)] filled_perform [OF assms(1) Cons.prems(3) assms(2) Cons.prems(4) s1(1) f(1)]
      placement_preserved [OF assms(2) Cons.prems(3) perform_sound [OF s1(1)]] by blast
qed

lemma filled_initially:
  assumes "start_ok c0" and "StopReason (status c0) = []"
  shows "filled c0 (initial_system c0)"
proof -
  have "control_ok (initial_system c0)"
    using assms(1) by (simp add: start_ok_def control_initially)
  then have "\<not> stop_pending (initial_system c0)"
    by (auto simp: control_ok_def initial_system_def tokens_def stop_pending_def)
  moreover have "pods_on n (initial_system c0) = []" for n
    using assms(1) by (simp add: start_ok_def pods_on_def ScheduledPods_def initial_system_def)
  ultimately show ?thesis
    using placement_initially(2) [OF assms] by (simp add: filled_def in_space_def no_placement_def)
qed

lemma filled_count:
  assumes "start_ok c0" and "StopReason (status c0) = []" and "node_names c0 \<subseteq> nodes"
    and "perform_all False as (initial_system c0) = Some s"
    and "filtered_run admits (node_list c0) as (initial_system c0)" and "main s = Returned None"
  shows "int (length (ScheduledPods (cc s))) =
    (if 0 < maxSimulated c0 then min (maxSimulated c0) (int (\<Sum>n\<leftarrow>node_list c0. space n))
     else int (\<Sum>n\<leftarrow>node_list c0. space n))"
proof -
  let ?n = "length (ScheduledPods (cc s))" and ?S = "\<Sum>n\<leftarrow>node_list c0. space n"
  have m: "int64 (maxSimulated c0)"
    using assms(1) by (simp add: start_ok_def)
  note r = perform_all_reachable [OF assms(4)]
  have F: "filled c0 s"
    using filled_run [OF assms(3) m assms(4,5)] placement_initially(1) [OF assms(1,2)]
      filled_initially [OF assms(1,2)] by blast
  have n: "?n = (\<Sum>n\<leftarrow>node_list c0. length (pods_on n s))"
    unfolding pods_on_def by (rule length_by_key) (use counted_node [OF assms(1) r] in auto)
  have le: "?n \<le> ?S"
    unfolding n using F by (intro sum_list_mono) (auto simp: filled_def in_space_def)
  note out = finished_outcome [OF assms(1) r assms(6)]
  show ?thesis
  proof (cases "0 < maxSimulated c0 \<and> int ?n = maxSimulated c0")
    case False
    then have "full c0 s"
      using F out by (simp add: filled_def)
    then have "map (\<lambda>n. length (pods_on n s)) (node_list c0) = map space (node_list c0)"
      by (auto simp: full_def)
    then have "?n = ?S"
      unfolding n by (rule arg_cong)
    then show ?thesis
      using pods_below_limit [OF assms(1) r] False by (auto simp: ScheduledPods_def)
  qed (use le in auto)
qed

end

section \<open>The filter of the scheduler\<close>

text \<open>
  The filter for an analysis whose pods all have the request \<open>r\<close>, on nodes that \<open>info\<close> describes
  at the start: a node holds what it held then and the pods bound to it since.
\<close>

definition resources_admit ::
    "filter_config \<Rightarrow> Resource \<Rightarrow> (string \<Rightarrow> NodeInfo) \<Rightarrow> string \<Rightarrow> Pod list \<Rightarrow> Pod \<Rightarrow> bool" where
  "resources_admit f r info n ps p \<longleftrightarrow>
     fitsRequest f r (crowded r (map (\<lambda>q. UID (Meta q)) ps) (info n)) p = []"

interpretation resource_capacity: node_capacity "resources_admit f r info" "\<lambda>n. room f r (info n)"
    "{n. regular r (info n)}" for f r info
  by unfold_locales (simp add: resources_admit_def fits_crowded)

end
