(* ===== verification/Sync_Start.thy ===== *)
theory Sync_Start
  imports Sim_Results Sync
begin

text \<open>
  From the cluster under analysis to the start of the analysis: which snapshots make
  \<open>New\<close> followed by \<open>SyncWithClient\<close> end in a state that satisfies \<open>start_ok\<close>.
\<close>

text \<open>The objects a tracker holds, and those of which it has sent events.\<close>

definition only_objects :: "'a set \<Rightarrow> 'a tracker \<Rightarrow> bool" where
  "only_objects X t \<longleftrightarrow>
     snd ` set (objects t) \<subseteq> X \<and> event_object ` set (watches t) \<subseteq> X"

context meta_lens
begin

lemma create_only:
  assumes "only_objects X t" "tracker_ok meta t" "x \<in> X"
  shows "only_objects X (fst (own_write meta set_meta False x t)) \<and>
    tracker_ok meta (fst (own_write meta set_meta False x t))"
proof (cases "map_of (objects t) (object_key meta x)")
  case None
  have "only_objects X (t\<lparr>objects := alist_put (object_key meta x) x (objects t),
      watches := watches t @ [Added x]\<rparr>)"
    using assms by (auto simp: only_objects_def set_alist_put tracker_ok_def)
  then show ?thesis
    using own_write_ok [OF assms(2), of False x] by (simp add: create_fresh_eq [OF None])
next
  case (Some y)
  then show ?thesis
    using assms by (simp add: create_exists_eq [OF Some])
qed

lemma create_all_only:
  "only_objects X t \<Longrightarrow> tracker_ok meta t \<Longrightarrow> set xs \<subseteq> X \<Longrightarrow>
     only_objects X (fst (create_all (own_write meta set_meta False) xs t)) \<and>
     tracker_ok meta (fst (create_all (own_write meta set_meta False) xs t))"
proof (induction xs arbitrary: t)
  case Nil
  then show ?case by simp
next
  case (Cons x xs)
  obtain t' e where t': "own_write meta set_meta False x t = (t', e)"
    by fastforce
  with create_only [OF Cons.prems(1,2), of x] Cons.prems(3)
  have "only_objects X t'" "tracker_ok meta t'"
    by simp_all
  with Cons t' show ?case
    by (cases e) simp_all
qed

end

lemma empty_tracker_only: "only_objects X empty_tracker"
  by (simp add: only_objects_def empty_tracker_def)

lemma copy_kind_get:
  assumes "\<And>t cs. get (put t cs) = t"
  shows "get (fst (copy_kind lm cm create keep get put (Inr xs) cs)) =
    fst (create_all create (filter keep xs) (get cs))"
  by (simp add: copy_kind_def assms split: prod.split)

lemma sync_pods:
  assumes "scoped r" "snd (sync_clientset exclude r NewSimpleClientset) = None" "r_pods r = Inr ps"
  shows "cs_pods (fst (sync_clientset exclude r NewSimpleClientset)) =
    fst (create_all ns_pod_create (filter keep_pod ps) empty_tracker)"
proof -
  have ok: "copyable_snapshot exclude r"
    using assms(1,2) sync_ok_iff by blast
  show ?thesis
    using assms(1) ok
    by (simp add: sync_clientset_def scoped_def copy_kind_root run_steps_fst copyable_snapshot_def
      pod_store.copy_kind_ok_iff kobj_store.copy_kind_ok_iff copy_kind_get assms(3)
      copy_frames NewSimpleClientset_def del: run_steps.simps)
qed

text \<open>The pods of the cluster are none of the scheduler's or the program's business.\<close>

definition quiet_snapshot :: "remote \<Rightarrow> bool" where
  "quiet_snapshot r \<longleftrightarrow>
     (\<forall>ps. r_pods r = Inr ps \<longrightarrow> list_all (\<lambda>p. keep_pod p \<longrightarrow>
        \<not> unassigned_pod p \<and> \<not> HasAnnotation (Meta p) podProvisioner) ps)"

lemma small_remote_quiet: "quiet_snapshot (small_remote [])"
  by (simp add: quiet_snapshot_def small_remote_def)

lemma New_eq:
  "New None t m exclude = Inr c \<Longrightarrow>
     c = \<lparr>client = NewSimpleClientset, defaultSchedulerName = DefaultSchedulerName,
          podGenerator = NewSinglePodGenerator t, simulatedPod = t, lastSimulatedPod = None,
          maxSimulated = m, simulated = 0, status = \<lparr>Pods = [], StopReason = []\<rparr>, report = None,
          excludeNodes = set exclude, informerStopped = False, contextCancelled = False,
          stop = \<lparr>senders = [], chan_closed = False\<rparr>, stopped = False, closed = False\<rparr>"
  by (simp add: New_def)

lemma synced_start:
  assumes new: "New None t m exclude = Inr c" and sync: "SyncWithClient r c = (c', None)"
    and r: "scoped r" "quiet_snapshot r" and t: "clean_template t" and m: "int64 m"
  shows "start_ok c'"
proof -
  let ?cs = "fst (sync_clientset (set exclude) r NewSimpleClientset)"
  note c = New_eq [OF new]
  have c': "c' = c\<lparr>client := ?cs\<rparr>"
    and ok: "snd (sync_clientset (set exclude) r NewSimpleClientset) = None"
    using sync by (auto simp: SyncWithClient_def c split: prod.splits)
  have "copyable_snapshot (set exclude) r"
    using sync_ok_iff [OF r(1)] ok by blast
  then obtain ps where ps: "r_pods r = Inr ps"
    by (auto simp: copyable_snapshot_def copyable_def)
  let ?X = "{p. \<not> unassigned_pod p \<and> \<not> HasAnnotation (Meta p) podProvisioner}"
  have "set (filter keep_pod ps) \<subseteq> ?X"
    using r(2) ps by (auto simp: quiet_snapshot_def list_all_iff)
  then have "only_objects ?X (cs_pods ?cs) \<and> tracker_ok Meta (cs_pods ?cs)"
    unfolding sync_pods [OF r(1) ok ps]
    by (intro pod_store.create_all_only empty_tracker_only tracker_ok_empty)
  then have "list_all (\<lambda>(k, p). \<not> unassigned_pod p) (objects (cs_pods ?cs))"
    "list_all (\<lambda>e. \<not> HasAnnotation (Meta (event_object e)) podProvisioner) (watches (cs_pods ?cs))"
    "tracker_ok Meta (cs_pods ?cs)"
    by (auto simp: only_objects_def list_all_iff subset_iff image_iff Ball_def)
  then show ?thesis
    using t m by (simp add: c' c start_ok_def quiet_start_def flags_ok_def NewSinglePodGenerator_def)
qed

end
