(* ===== verification/Run_Properties.thy ===== *)
theory Run_Properties
  imports Sim_Bound Sim_Liveness Capacity Sync_Start
begin

text \<open>
  The properties of a whole analysis: of every state the goroutines can reach from a synced
  cluster, when the scheduler does not take up again a pod it has given up. \<open>Run_Failures\<close> says what happens
  without the assumptions, \<open>Watch_Run\<close> what can make an analysis panic. The two runs of \<open>Sim_Exec\<close> are the witnesses.
\<close>

abbreviation end_of :: "action list \<Rightarrow> ClusterCapacity \<Rightarrow> system" where
  "end_of as c \<equiv> the (perform_all False as (initial_system c))"

lemma limit_run_reachable: "reachable False (small_start [] 1) (end_of limit_run (small_start [] 1))"
proof -
  have "perform_all False limit_run (initial_system (small_start [] 1)) \<noteq> None"
    by code_simp
  then show ?thesis
    by (auto intro: perform_all_reachable)
qed

lemma full_run_reachable: "reachable False (small_start [] 3) (end_of full_run (small_start [] 3))"
proof -
  have "perform_all False full_run (initial_system (small_start [] 3)) \<noteq> None"
    by code_simp
  then show ?thesis
    by (auto intro: perform_all_reachable)
qed

lemma small_start_ok: "start_ok (small_start [] 1)" "start_ok (small_start [] 3)"
  by code_simp+

lemma limit_run_returns: "main (end_of limit_run (small_start [] 1)) = Returned None"
  by code_simp

lemma full_run_returns: "main (end_of full_run (small_start [] 3)) = Returned None"
  by code_simp

lemma no_step:
  assumes "main s \<noteq> Starting" "senders (stop (cc s)) = []" "todo s = []"
    and "seen s = length (events_of s)" "list_all (\<lambda>(k, p). \<not> unassigned_pod p) (pods_of s)"
  shows "\<not> sim_step retry s s'"
  using assms by (auto elim!: sim_step.cases simp: schedulable_def list_all_iff)

lemma perform_all_steps:
  assumes "perform_all retry as s0 = Some s"
  shows "steps retry (length as) s0 s"
proof -
  have "steps retry k s0 s1 \<Longrightarrow> perform_all retry as s1 = Some s \<Longrightarrow> steps retry (k + length as) s0 s" for k s1
  proof (induction as arbitrary: k s1)
    case Nil
    then show ?case by simp
  next
    case (Cons a as)
    then obtain s2 where "perform retry a s1 = Some s2" "perform_all retry as s2 = Some s"
      by (auto split: option.splits)
    with Cons show ?case
      using steps.more [OF Cons.prems(1) perform_sound] by fastforce
  qed
  from this [OF steps.here assms] show ?thesis by simp
qed

section \<open>The capacity\<close>

text \<open>C2:
  An analysis refines the placement machine: whatever the goroutines have done, its counted pods
  were placed one after the other, each on a node of the simulated cluster, and nothing was
  placed after the outcome. When \<open>Run\<close> has returned nil the outcome is \<open>Limit\<close> if the positive
  limit is reached and \<open>No_room\<close> if not.\<close>

theorem analysis_refines_placement:
  assumes "start_ok c0" and "StopReason (status c0) = []" and "reachable False c0 s"
  shows "(place_step (maxSimulated c0) (node_names c0))\<^sup>*\<^sup>* no_placement (placement_of s) \<and>
    (main s = Returned None \<longrightarrow> outcome (placement_of s) =
       Some (if 0 < maxSimulated c0 \<and> int (length (placed_on (placement_of s))) = maxSimulated c0
             then Limit else No_room))"
  using reachable_placement(2) [OF assms] finished_outcome [OF assms(1,3)]
  by (auto simp: placement_of_def)

theorem analysis_refines_placement_witness:
  "(place_step 3 {''n1''})\<^sup>*\<^sup>* no_placement \<lparr>placed_on = [''n1''], outcome = Some No_room\<rparr>"
proof -
  let ?s = "end_of full_run (small_start [] 3)"
  have a: "maxSimulated (small_start [] 3) = 3" "StopReason (status (small_start [] 3)) = []"
    "node_list (small_start [] 3) = [''n1'']" "map pod_node (ScheduledPods (cc ?s)) = [''n1'']"
    by code_simp+
  have p: "placed_on (placement_of ?s) = [''n1'']"
    by (simp add: placement_of_def a(4))
  have N: "node_names (small_start [] 3) = {''n1''}"
    using set_node_list [of "small_start [] 3"] a(3) by simp
  note r = analysis_refines_placement [OF small_start_ok(2) a(2) full_run_reachable, unfolded a(1) N p]
  have "outcome (placement_of ?s) = Some No_room"
    using r full_run_returns by simp
  with p have "placement_of ?s = \<lparr>placed_on = [''n1''], outcome = Some No_room\<rparr>"
    by (cases "placement_of ?s") simp
  with r show ?thesis by simp
qed

text \<open>
  The number the tool reports is exact for a scheduler whose only filter is the fit of resources:
  if pods are bound only to nodes that \<open>fitsRequest\<close> admits and are called unschedulable only when
  it admits none, an analysis that ended has counted the sum of the rooms of the nodes, or the
  limit if that is positive and less, whatever nodes the scheduler chose. The room of a node
  is the least of its free pod slots and, for each requested resource that is checked, the free
  amount divided by the request.\<close>

lemma capacity_is_exact:
  assumes "start_ok c0" and "StopReason (status c0) = []"
    and "list_all (\<lambda>n. regular r (info n)) (node_list c0)"
    and "perform_all False as (initial_system c0) = Some s"
    and "filtered_run (resources_admit f r info) (node_list c0) as (initial_system c0)"
    and "main s = Returned None"
  defines "all_room \<equiv> int (\<Sum>n\<leftarrow>node_list c0. room f r (info n))"
  shows "int (length (ScheduledPods (cc s))) =
    (if 0 < maxSimulated c0 then min (maxSimulated c0) all_room else all_room)"
proof -
  have "node_names c0 \<subseteq> {n. regular r (info n)}"
    using assms(3) by (auto simp: list_all_iff)
  from resource_capacity.filled_count [OF assms(1,2) this assms(4-6)] show ?thesis
    by (simp add: all_room_def)
qed

text \<open>One free node, with room for one pod: the second finds 0.5 of the CPU it wants.\<close>

definition sample_request :: Resource where
  "sample_request = \<lparr>MilliCPU = 1000, Memory = 64, EphemeralStorage = 0, AllowedPodNumber = 0, ScalarAmounts = []\<rparr>"

definition sample_info :: "string \<Rightarrow> NodeInfo" where
  "sample_info n =
     \<lparr>node_name = n, node_pods = [],
      Requested = \<lparr>MilliCPU = 0, Memory = 0, EphemeralStorage = 0, AllowedPodNumber = 0, ScalarAmounts = []\<rparr>,
      Allocatable = \<lparr>MilliCPU = 1500, Memory = 4096, EphemeralStorage = 0, AllowedPodNumber = 110, ScalarAmounts = []\<rparr>\<rparr>"

definition sample_filter :: filter_config where
  "sample_filter =
     \<lparr>ignoredExtendedResources = {}, ignoredResourceGroups = {}, draManager = None,
      request_options = \<lparr>EnableDRAExtendedResource = True, EnableInPlacePodVerticalScalingSchedulerPreemption = True\<rparr>\<rparr>"

lemma capacity_is_exact_witness:
  "length (ScheduledPods (cc (end_of full_run (small_start [] 3)))) = 1 \<and>
   (\<Sum>n\<leftarrow>node_list (small_start [] 3). room sample_filter sample_request (sample_info n)) = 1"
proof -
  let ?c = "small_start [] 3" and ?s = "end_of full_run (small_start [] 3)"
  have r: "(\<Sum>n\<leftarrow>node_list ?c. room sample_filter sample_request (sample_info n)) = 1"
    by code_simp
  have "StopReason (status ?c) = []" "list_all (\<lambda>n. regular sample_request (sample_info n)) (node_list ?c)"
    "filtered_run (resources_admit sample_filter sample_request sample_info) (node_list ?c) full_run
      (initial_system ?c)" "maxSimulated ?c = 3"
    by code_simp+
  moreover have "perform_all False full_run (initial_system ?c) = Some ?s"
  proof -
    have "perform_all False full_run (initial_system ?c) \<noteq> None"
      by code_simp
    then show ?thesis by auto
  qed
  ultimately have "int (length (ScheduledPods (cc ?s))) = 1"
    using capacity_is_exact [OF small_start_ok(2), of sample_request sample_info full_run ?s sample_filter]
      full_run_returns r by simp
  with r show ?thesis by simp
qed

section \<open>The outcome\<close>

text \<open>C7: When \<open>Run\<close> returns nil, the stop reason is set and true: either the limit is
  positive, exactly that many pods were bound and the reason says so, or the reason is
  \<open>Unschedulable: \<dots>\<close> and fewer pods than the limit were bound.\<close>

theorem finished_run_reason:
  assumes "start_ok c0" and "reachable False c0 s" and "main s = Returned None"
  defines "n \<equiv> length (ScheduledPods (cc s))" and "r \<equiv> StopReason (status (cc s))"
  shows "0 < maxSimulated c0 \<and> int n = maxSimulated c0 \<and> r = limit_reached (maxSimulated c0) \<or>
    (0 < maxSimulated c0 \<longrightarrow> int n < maxSimulated c0) \<and> (\<exists>msg. r = ''Unschedulable: '' @ msg)"
  using finished_reason(1) [OF assms(1-3)]
  by (auto simp: reason_ok_def within_limit_def pods_bound_def n_def r_def ScheduledPods_def)

theorem finished_run_reason_witness:
  "let s = end_of limit_run (small_start [] 1) in
     length (ScheduledPods (cc s)) = 1 \<and> StopReason (status (cc s)) = limit_reached 1"
proof -
  have "maxSimulated (small_start [] 1) = 1" "length (ScheduledPods (cc (end_of limit_run (small_start [] 1)))) = 1"
    by code_simp+
  with finished_run_reason [OF small_start_ok(1) limit_run_reachable limit_run_returns]
  show ?thesis by (simp add: Let_def)
qed

text \<open>C10: Every pod that is counted was generated from the template, keeps its containers,
  carries the next name of the generator, and was bound to a node of the simulated cluster.\<close>

theorem counted_pod_is_placed:
  assumes "start_ok c0" and "reachable False c0 s" and "i < length (ScheduledPods (cc s))"
  defines "q \<equiv> ScheduledPods (cc s) ! i" and "t \<equiv> podTemplate (podGenerator c0)"
  shows "Name (Meta q) = simulated_name (Name (Meta t)) (i mod 2 ^ 64) \<and>
    Namespace (Meta q) = Namespace (Meta t) \<and> Containers (Spec q) = Containers (Spec t) \<and>
    HasAnnotation (Meta q) podProvisioner \<and>
    NodeName (Spec q) \<noteq> [] \<and> tracker_lookup (cs_nodes (client c0)) ([], NodeName (Spec q)) \<noteq> None"
proof -
  have "placed c0 i q"
    using placed_nth [OF assms(1,2)] assms(3) by (simp add: q_def ScheduledPods_def)
  then show ?thesis
    by (auto simp: placed_def t_def nth_sim_pod_def unat_of_nat bound_pod_def)
qed

theorem counted_pod_is_placed_witness:
  "let s = end_of limit_run (small_start [] 1); q = ScheduledPods (cc s) ! 0;
       t = podTemplate (podGenerator (small_start [] 1)) in
     Name (Meta q) = simulated_name (Name (Meta t)) (0 mod 2 ^ 64) \<and>
     Namespace (Meta q) = Namespace (Meta t) \<and> Containers (Spec q) = Containers (Spec t) \<and>
     HasAnnotation (Meta q) podProvisioner \<and> NodeName (Spec q) \<noteq> [] \<and>
     tracker_lookup (cs_nodes (client (small_start [] 1))) ([], NodeName (Spec q)) \<noteq> None"
proof -
  have n: "0 < length (ScheduledPods (cc (end_of limit_run (small_start [] 1))))"
    by code_simp
  show ?thesis
    unfolding Let_def
    by (rule counted_pod_is_placed [OF small_start_ok(1) limit_run_reachable n])
qed

text \<open>C11: With a positive limit, at every moment at most that many pods have been counted,
  and their names are those of the generator in order, hence distinct.\<close>

theorem limit_is_kept:
  assumes "start_ok c0" and "reachable False c0 s" and "0 < maxSimulated c0"
  defines "names \<equiv> map (\<lambda>p. Name (Meta p)) (ScheduledPods (cc s))"
  shows "int (length names) \<le> maxSimulated c0 \<and> distinct names \<and>
    names = map (simulated_name (Name (Meta (podTemplate (podGenerator c0))))) [0..<length names]"
proof -
  have l: "int (length (Pods (status (cc s)))) \<le> maxSimulated c0"
    by (rule pods_below_limit [OF assms(1-3)])
  moreover have "maxSimulated c0 < 2 ^ 63"
    using assms(1) by (simp add: start_ok_def int64_def)
  ultimately have "int (length (Pods (status (cc s)))) < int (2 ^ 64)"
    by simp
  then have "length (Pods (status (cc s))) \<le> 2 ^ 64"
    by (simp only: of_nat_less_iff less_imp_le)
  from placed_names [OF assms(1,2) this] l show ?thesis
    by (auto simp: names_def ScheduledPods_def distinct_map inj_on_def)
qed

theorem limit_is_kept_witness:
  "let names = map (\<lambda>p. Name (Meta p)) (ScheduledPods (cc (end_of full_run (small_start [] 3)))) in
     int (length names) \<le> maxSimulated (small_start [] 3) \<and> distinct names \<and>
     names = map (simulated_name (Name (Meta (podTemplate (podGenerator (small_start [] 3)))))) [0..<length names]"
proof -
  have "0 < maxSimulated (small_start [] 3)"
    by code_simp
  then show ?thesis
    unfolding Let_def by (rule limit_is_kept [OF small_start_ok(2) full_run_reachable])
qed

section \<open>The report of a finished run\<close>

lemma finished_report:
  assumes "start_ok c0" and "report c0 = None" and "reachable False c0 s" and "main s = Returned None"
  defines "pods \<equiv> ScheduledPods (cc s)" and "m \<equiv> maxSimulated c0"
  shows "\<exists>c' r x. Report now (cc s) = Inr (c', r) \<and> StatusPods (ReviewStatusOf r) = [x] \<and>
    FailType (FailReason (ReviewStatusOf r)) =
      (if int (length pods) = m \<and> 0 < m then ''LimitReached'' else ''Unschedulable'') \<and>
    PodName x = Name (Meta (simulatedPod c0)) \<and>
    distinct (map RonNode (ReplicasOnNodes x)) \<and>
    list_all (\<lambda>ron. tracker_lookup (cs_nodes (client c0)) ([], RonNode ron) \<noteq> None \<and>
       RonReplicas ron = int (count_list (map (\<lambda>p. NodeName (Spec p)) pods) (RonNode ron)))
      (ReplicasOnNodes x) \<and>
    instancesSum (ReplicasOnNodes x) = int (length pods)"
proof -
  note fin = finished_reason [OF assms(1,3,4)]
  obtain msg where msg: "getMainFailReason (StopReason (status (cc s))) =
      Inr \<lparr>FailType = (if int (pods_bound (cc s)) = maxSimulated c0 \<and> 0 < maxSimulated c0
        then ''LimitReached'' else ''Unschedulable''), FailMessage = msg\<rparr>"
    using stop_reason_parts [OF fin(1)] .
  have same: "simulatedPod (cc s) = simulatedPod c0" "report (cc s) = None"
    using fin(2) assms(2) by (simp_all add: frame_def)
  have "tracker_lookup (cs_nodes (client c0)) ([], pod_node q) \<noteq> None" if "q \<in> set pods" for q
    using counted_node [OF assms(1,3), of q] that by (simp add: pods_def node_names_def)
  then have "list_all (\<lambda>ron. tracker_lookup (cs_nodes (client c0)) ([], RonNode ron) \<noteq> None \<and>
      RonReplicas ron = int (count_list (map pod_node pods) (RonNode ron))) (tally (map pod_node pods))"
    by (auto simp: tally_def list_all_iff)
  moreover have "distinct (map RonNode (tally (map pod_node pods)))"
    by (simp add: tally_def comp_def)
  moreover have "instancesSum (tally (map pod_node pods)) = int (length pods)"
    by (simp add: instancesSum_tally)
  ultimately show ?thesis
    using GetReport_one_template [OF msg, of now "simulatedPod c0"]
    by (simp add: Report_def same Let_def pods_def ScheduledPods_def m_def pods_bound_def)
qed

text \<open>C12: After \<open>Run\<close> returned nil, \<open>Report\<close> does not panic and makes a report with one entry
  for the template: its failure type is \<open>LimitReached\<close> exactly when the limit was reached
  and \<open>Unschedulable\<close> otherwise, its nodes are distinct nodes of the simulated cluster, each
  with the number of counted pods on it, and the instances add up to the counted pods.\<close>

theorem finished_run_report:
  assumes "start_ok c0" and "report c0 = None" and "reachable False c0 s" and "main s = Returned None"
  defines "pods \<equiv> ScheduledPods (cc s)" and "m \<equiv> maxSimulated c0"
  shows "\<exists>c' r x. Report now (cc s) = Inr (c', r) \<and> StatusPods (ReviewStatusOf r) = [x] \<and>
    FailType (FailReason (ReviewStatusOf r)) =
      (if int (length pods) = m \<and> 0 < m then ''LimitReached'' else ''Unschedulable'') \<and>
    PodName x = Name (Meta (simulatedPod c0)) \<and>
    distinct (map RonNode (ReplicasOnNodes x)) \<and>
    list_all (\<lambda>ron. tracker_lookup (cs_nodes (client c0)) ([], RonNode ron) \<noteq> None \<and>
       RonReplicas ron = int (count_list (map (\<lambda>p. NodeName (Spec p)) pods) (RonNode ron)))
      (ReplicasOnNodes x) \<and>
    instancesSum (ReplicasOnNodes x) = int (length pods)"
  unfolding pods_def m_def by (rule finished_report [OF assms(1-4)])

theorem finished_run_report_witness:
  "let s = end_of full_run (small_start [] 3); c0 = small_start [] 3; pods = ScheduledPods (cc s);
       m = maxSimulated c0 in
   \<exists>c' r x. Report 0 (cc s) = Inr (c', r) \<and> StatusPods (ReviewStatusOf r) = [x] \<and>
    FailType (FailReason (ReviewStatusOf r)) =
      (if int (length pods) = m \<and> 0 < m then ''LimitReached'' else ''Unschedulable'') \<and>
    PodName x = Name (Meta (simulatedPod c0)) \<and>
    distinct (map RonNode (ReplicasOnNodes x)) \<and>
    list_all (\<lambda>ron. tracker_lookup (cs_nodes (client c0)) ([], RonNode ron) \<noteq> None \<and>
       RonReplicas ron = int (count_list (map (\<lambda>p. NodeName (Spec p)) pods) (RonNode ron)))
      (ReplicasOnNodes x) \<and>
    instancesSum (ReplicasOnNodes x) = int (length pods)"
proof -
  have r: "report (small_start [] 3) = None"
    by code_simp
  show ?thesis
    unfolding Let_def
    by (rule finished_run_report [OF small_start_ok(2) r full_run_reachable full_run_returns])
qed

section \<open>Termination\<close>

text \<open>C13: An analysis that has bound \<open>n\<close> pods has taken at most \<open>step_bound c0 n\<close> steps, a
  number that is linear in \<open>n\<close>; with a positive limit no run, in whatever order, is longer than
  the bound for that limit.\<close>

theorem analysis_is_bounded:
  assumes "start_ok c0" and "steps False k (initial_system c0) s"
  shows "k \<le> step_bound c0 (length (ScheduledPods (cc s))) \<and>
    (0 < maxSimulated c0 \<longrightarrow> k \<le> step_bound c0 (nat (maxSimulated c0)))"
proof -
  let ?n = "length (Pods (status (cc s)))"
  have b: "?n \<le> K \<Longrightarrow> k \<le> step_bound c0 K" for K
    using steps_weight [OF assms, of K] weight_initial [OF assms(1), of K] by (simp add: pods_bound_def)
  have "0 < maxSimulated c0 \<Longrightarrow> ?n \<le> nat (maxSimulated c0)"
    using pods_below_limit [OF assms(1) steps_reachable [OF assms(2)]] by simp
  with b show ?thesis
    by (simp add: ScheduledPods_def)
qed

theorem analysis_is_bounded_witness: "9 \<le> step_bound (small_start [] 3) 3"
proof -
  have "perform_all False full_run (initial_system (small_start [] 3)) \<noteq> None"
    by code_simp
  then have "steps False (length full_run) (initial_system (small_start [] 3)) (end_of full_run (small_start [] 3))"
    by (auto intro: perform_all_steps)
  moreover have "length full_run = 9" "maxSimulated (small_start [] 3) = 3"
    by code_simp+
  ultimately show ?thesis
    using analysis_is_bounded [OF small_start_ok(2), of 9 "end_of full_run (small_start [] 3)"] by simp
qed

text \<open>C14: No goroutine is left waiting but for one reason: when the names of the simulated pods are free, and the limit is
  positive or fewer than 2^64 - 1 pods were bound, a run that cannot go on is one in which \<open>Run\<close> has returned nil,
  or one in which it waits because the scheduler gave a pod up for another reason than \<open>Unschedulable\<close> (in that case it
  does wait forever, \<open>lost_pod_hangs\<close>).\<close>

theorem maximal_run_returns:
  assumes "live_start c0" and "reachable False c0 s" and "\<And>s'. \<not> sim_step False s s'"
    and "0 < maxSimulated c0 \<or> length (ScheduledPods (cc s)) < 2 ^ 64 - 1"
  shows "main s = Returned None \<or> main s = Receiving \<and> given_up_otherwise s"
proof -
  have l: "lively c0 s"
    using liveness.invariant_reachable [OF assms(2)] assms(1) by simp
  have st: "start_ok c0"
    using assms(1) by (simp add: live_start_def)
  have "crashed s = None"
    using l by (simp add: lively_def control_ok_def)
  then have "main s \<noteq> Starting"
    using assms(3) sim_step.create by blast
  have "pods_bound (cc s) < 2 ^ 64 - 1"
    using assms(4)
  proof
    assume "0 < maxSimulated c0"
    then have "int (pods_bound (cc s)) < int (2 ^ 64 - 1)"
      using pods_below_limit [OF st assms(2)] st by (simp add: pods_bound_def start_ok_def int64_def)
    then show ?thesis
      by (simp only: of_nat_less_iff)
  qed (simp add: pods_bound_def ScheduledPods_def)
  then have "main s = Receiving \<Longrightarrow> given_up_otherwise s"
    using can_move [OF l] assms(3) by blast
  with \<open>main s \<noteq> Starting\<close> l show ?thesis
    by (cases "main s") (auto simp: lively_def)
qed

definition drained_run :: "action list" where
  "drained_run = limit_run @ [Deliver, Deliver]"

theorem maximal_run_returns_witness: "main (end_of drained_run (small_start [] 1)) = Returned None"
proof -
  let ?s = "end_of drained_run (small_start [] 1)"
  have "live_start (small_start [] 1)" "0 < maxSimulated (small_start [] 1)"
    by code_simp+
  moreover have "perform_all False drained_run (initial_system (small_start [] 1)) \<noteq> None"
    by code_simp
  then have "reachable False (small_start [] 1) ?s"
    by (auto intro: perform_all_reachable)
  moreover have "\<not> sim_step False ?s s'" for s'
    by (rule no_step; code_simp)
  ultimately have "main ?s = Returned None \<or> main ?s = Receiving \<and> given_up_otherwise ?s"
    by (intro maximal_run_returns disjI1)
  moreover have "marked ?s = {}"
    by code_simp
  ultimately show ?thesis
    by (simp add: given_up_otherwise_def)
qed

section \<open>The synced cluster\<close>

definition small_new :: ClusterCapacity where
  "small_new = projr (New None (small_pod ''p'' [] []) 1 [''n2''])"

lemma small_synced:
  "New None (small_pod ''p'' [] []) 1 [''n2''] = Inr small_new"
  "snd (SyncWithClient (small_remote ps) small_new) = None \<Longrightarrow>
     SyncWithClient (small_remote ps) small_new = (small_start ps 1, None)"
  "scoped (small_remote ps)"
  by (simp_all add: small_new_def New_def small_start_def start_on_def prod_eq_iff small_remote_scoped)

text \<open>C15: What \<open>New\<close> and a successful \<open>SyncWithClient\<close> leave satisfies the hypotheses of the
  properties above, when no running pod of the cluster waits for the default scheduler or
  carries the program's annotation, and the template carries no stop condition.\<close>

theorem synced_cluster_is_ready:
  assumes "New None t m exclude = Inr c" and "SyncWithClient r c = (c', None)"
    and "scoped r" and "quiet_snapshot r" and "clean_template t" and "int64 m"
  shows "start_ok c'"
  by (rule synced_start [OF assms])

theorem synced_cluster_is_ready_witness: "start_ok (small_start [] 1)"
proof (rule synced_cluster_is_ready [OF small_synced(1) _ small_synced(3)])
  have "snd (SyncWithClient (small_remote []) small_new) = None"
    by code_simp
  then show "SyncWithClient (small_remote []) small_new = (small_start [] 1, None)"
    by (rule small_synced(2))
  show "quiet_snapshot (small_remote [])"
    by (rule small_remote_quiet)
qed (code_simp+)

end
