(* ===== verification/Watch_Buffer.thy ===== *)
theory Watch_Buffer
  imports Run_Properties Watcher
begin

text \<open>
  The watch events of the simulated API server go through a channel with a buffer
  (\<open>RaceFreeFakeWatcher\<close> of \<open>apimachinery/pkg/watch/watch.go\<close>), and a write panics when the buffer is
  full (\<open>Watcher\<close>). The step relation of \<open>Sim_Steps\<close> keeps the events without a bound; this theory says how many
  events an analysis can write at most, however late the informer reads them, and \<open>Watch_Run\<close> adds the bound to the steps.
\<close>

section \<open>The events of an analysis\<close>

definition events_ok :: "ClusterCapacity \<Rightarrow> system \<Rightarrow> bool" where
  "events_ok c0 s \<longleftrightarrow> control_ok s \<and>
     length (events_of s) + min 1 (active_pods (marked s) (cs_pods (client (cc s)))) \<le>
     length (events_of (initial_system c0)) + (if main s = Starting then 0 else 2 * pods_bound (cc s) + 2)"

lemma submit_events: "length (watches (cs_pods (client (fst (submit u c))))) \<le> Suc (length (watches (cs_pods (client c))))"
  by (cases "map_of (objects (cs_pods (client c))) (object_key Meta (next_pod u c))")
    (simp_all add: submit_fresh submit_taken)

lemma same_events:
  assumes "events_ok c0 s" "control_ok s'" "events_of s' = events_of s" "marked s' = marked s"
    and "objects (cs_pods (client (cc s'))) = objects (cs_pods (client (cc s)))"
    and "pods_bound (cc s') = pods_bound (cc s)" "main s = Starting \<longrightarrow> main s' = Starting \<or> main s' \<noteq> Starting"
    and "main s' = Starting \<longrightarrow> main s = Starting"
  shows "events_ok c0 s'"
  using assms by (auto simp: events_ok_def active_pods_def split: if_splits)

lemma events_create:
  assumes "events_ok c0 s" "main s = Starting"
  shows "events_ok c0 (do_create u s)"
proof -
  have C: "control_ok s"
    using assms(1) by (simp add: events_ok_def)
  obtain c' m where eq: "do_create u s = s\<lparr>cc := c', main := m\<rparr>" "m \<noteq> Starting"
      "cs_pods (client c') = cs_pods (client (fst (submit u (cc s))))"
    using create_cases [OF C assms(2), of u] by (cases "snd (submit u (cc s))") auto
  then have "length (events_of (do_create u s)) \<le> Suc (length (events_of s))"
    using submit_events [of u "cc s"] by simp
  then show ?thesis
    using control_create [OF C assms(2), of u] assms eq by (auto simp: events_ok_def min_def)
qed

lemma events_bind:
  assumes "events_ok c0 s" "schedulable False s p" "has_node s n"
  shows "events_ok c0 (do_bind u p n s)"
proof -
  have C: "control_ok s"
    using assms(1) by (simp add: events_ok_def)
  note b = bind_facts [OF C assms(2,3)]
  let ?c1 = "record_binding (bound_pod n p) (cc s)" and ?s = "do_bind u p n s"
  have act: "0 < active_pods (marked s) (cs_pods (client (cc s)))"
    using active_pods_pos [OF b(1)] assms(2) by (simp add: schedulable_def)
  have "length (watches (cs_pods (client ?c1))) = Suc (length (events_of s))"
    by (simp add: record_binding_def with_pods_def Let_def)
  then have len: "length (events_of ?s) \<le> Suc (Suc (length (events_of s)))"
    using submit_events [of u ?c1] by (simp add: b(7))
  have "pods_bound (cc ?s) = Suc (pods_bound (cc s))" "main ?s = main s" "marked ?s = marked s"
    by (simp_all add: b(7) submit_frame)
  then show ?thesis
    using control_bind [OF C assms(2,3), of u] assms(1) act len b(5)
    by (auto simp: events_ok_def min_def split: if_splits)
qed

lemma events_mark:
  assumes "events_ok c0 s" "schedulable False s p"
  shows "events_ok c0 (do_mark cond p s)"
proof -
  let ?T = "cs_pods (client (cc s))" and ?k = "object_key Meta p" and ?s = "do_mark cond p s"
  have C: "control_ok s"
    using assms(1) by (simp add: events_ok_def)
  then have c: "client_ok (marked s) (seen s) (cc s)" and t: "tokens s \<le> 1"
    by (auto simp: control_ok_def)
  have p: "map_of (objects ?T) ?k = Some p" "unassigned_pod p" "?k \<notin> marked s"
    using schedulable_lookup [OF assms(2) c] assms(2) by (simp_all add: schedulable_def)
  note eq = do_mark_eq [OF p(1), of cond]
  have "Suc (active_pods (insert ?k (marked s)) (cs_pods (client (cc ?s)))) = active_pods (marked s) ?T"
    using active_pods_mark [OF p, of "cs_pods (client (cc ?s))"] c by (simp add: eq client_ok_def)
  then have "active_pods (marked ?s) (cs_pods (client (cc ?s))) = 0" "active_pods (marked s) ?T = 1"
    using t by (simp_all add: tokens_def eq)
  moreover have "main s \<noteq> Starting"
    using C active_pods_pos [OF p] by (auto simp: control_ok_def tokens_def)
  ultimately show ?thesis
    using control_mark [OF C assms(2), of cond] assms(1) by (simp add: events_ok_def eq pods_bound_def with_pods_def)
qed

lemma events_step:
  assumes "events_ok c0 s" "sim_step False s s'"
  shows "events_ok c0 s'"
proof -
  have C: "control_ok s"
    using assms(1) by (simp add: events_ok_def)
  from assms(2) show ?thesis
  proof cases
    case create
    then show ?thesis using events_create [OF assms(1)] by simp
  next
    case receive
    obtain w where "do_receive s = (if w = Informer_goroutine then s\<lparr>parked := False\<rparr> else s)
        \<lparr>cc := (cc s)\<lparr>stop := \<lparr>senders = [], chan_closed = True\<rparr>\<rparr>, main := Returned None\<rparr>"
      using receive(3,4) by (rule receive_cases [OF C])
    then show ?thesis
      using same_events [OF assms(1) control_step [OF C assms(2)]] receive by (simp add: pods_bound_def)
  next
    case bind
    then show ?thesis using events_bind [OF assms(1)] by simp
  next
    case mark
    then show ?thesis using events_mark [OF assms(1)] by simp
  next
    case deliver
    then show ?thesis
      using same_events [OF assms(1) control_step [OF C assms(2)]] by simp
  next
    case update
    obtain pod cond xs where x: "todo s = (pod, cond) # xs"
      using update(3) by (metis list.exhaust surj_pair)
    show ?thesis
    proof (cases "stopping (pod, cond)")
      case True
      then show ?thesis
        using same_events [OF assms(1) control_step [OF C assms(2)]] update_stops(1) [OF C x] update
        by (simp add: pods_bound_def)
    next
      case False
      then show ?thesis
        using same_events [OF assms(1) control_step [OF C assms(2)]] update_ignores [OF x] update by simp
    qed
  qed
qed

lemma events_initially:
  assumes "quiet_start c0"
  shows "events_ok c0 (initial_system c0)"
proof -
  have "active_pods {} (cs_pods (client c0)) = 0"
    using assms by (auto simp: quiet_start_def active_pods_def count_if_zero list_all_iff)
  then show ?thesis
    using control_initially [OF assms] by (simp add: events_ok_def initial_system_def)
qed

interpretation buffered: sim_invariant False c0 "\<lambda>s. quiet_start c0 \<longrightarrow> events_ok c0 s" for c0
  by unfold_locales (blast intro: events_initially events_step)+

lemma created_events: "length (watches (fst (create_all ns_pod_create xs t))) \<le> length (watches t) + length xs"
proof (induction xs arbitrary: t)
  case (Cons x xs)
  have "length (watches (fst (ns_pod_create x t))) \<le> Suc (length (watches t))"
    by (cases "map_of (objects t) (object_key Meta x)")
      (simp_all add: pod_store.create_fresh_eq pod_store.create_exists_eq)
  with Cons.IH [of "fst (ns_pod_create x t)"] show ?case
    by (auto split: prod.split option.split intro: order_trans)
qed simp

lemma watch_buffer_size:
  assumes "New None t m exclude = Inr c" and "SyncWithClient r c = (c', None)"
    and "scoped r" and "quiet_snapshot r" and "clean_template t" and "int64 m"
    and "r_pods r = Inr ps" and "reachable False c' s"
  shows "length (events_of s) \<le> length (filter keep_pod ps) + 2 * length (Pods (status (cc s))) + 2"
proof -
  have start: "quiet_start c'"
    using synced_start [OF assms(1-6)] by (simp add: start_ok_def)
  have "client c' = fst (sync_clientset (set exclude) r NewSimpleClientset)"
    "snd (sync_clientset (set exclude) r NewSimpleClientset) = None"
    using assms(2) by (auto simp: New_eq [OF assms(1)] SyncWithClient_def split: prod.splits)
  then have "length (watches (cs_pods (client c'))) \<le> length (filter keep_pod ps)"
    using created_events [of "filter keep_pod ps" empty_tracker] sync_pods [OF assms(3) _ assms(7)]
    by (simp add: empty_tracker_def)
  moreover have "events_ok c' s"
    using buffered.invariant_reachable [OF assms(8)] start by simp
  ultimately show ?thesis
    by (auto simp: events_ok_def initial_system_def pods_bound_def split: if_splits)
qed

text \<open>C18:
  The buffer of 10000 events is large enough for every analysis in which the pods copied from the
  cluster, two events for every pod placed, and two more fit into it: then the writes of the analysis
  never panic, however they interleave with the reads of the informer.\<close>

theorem watch_buffer_suffices:
  assumes "New None t m exclude = Inr c" and "SyncWithClient r c = (c', None)"
    and "scoped r" and "quiet_snapshot r" and "clean_template t" and "int64 m"
    and "r_pods r = Inr ps" and "reachable False c' s" and "written ops = events_of s"
    and "length (filter keep_pod ps) + 2 * length (ScheduledPods (cc s)) + 2 \<le> 10000"
  shows "\<exists>w. watcher_run ops NewRaceFreeFake = Inr w"
proof (rule watcher_run_enough)
  show "length (result NewRaceFreeFake) + writes ops \<le> DefaultChanSize"
    using watch_buffer_size [OF assms(1-8)] assms(9,10)
    by (simp add: writes_written NewRaceFreeFake_def DefaultChanSize_def ScheduledPods_def)
qed (simp add: NewRaceFreeFake_def)

theorem watch_buffer_suffices_witness:
  "let es = events_of (end_of limit_run (small_start [] 1))
   in es \<noteq> [] \<and> (\<exists>w. watcher_run (None # map Some es) NewRaceFreeFake = Inr w)"
  unfolding Let_def
proof
  let ?s = "end_of limit_run (small_start [] 1)"
  show "events_of ?s \<noteq> []"
    by code_simp
  show "\<exists>w. watcher_run (None # map Some (events_of ?s)) NewRaceFreeFake = Inr w"
  proof (rule watch_buffer_suffices [OF small_synced(1) _ small_synced(3)])
    have "snd (SyncWithClient (small_remote []) small_new) = None"
      by code_simp
    then show "SyncWithClient (small_remote []) small_new = (small_start [] 1, None)"
      by (rule small_synced(2))
    show "quiet_snapshot (small_remote [])"
      by (rule small_remote_quiet)
    show "r_pods (small_remote []) = Inr []"
      by (simp add: small_remote_def)
    show "written (None # map Some (events_of ?s)) = events_of ?s"
      by (simp add: written_def comp_def)
    have "length (ScheduledPods (cc ?s)) = 1"
      by code_simp
    then show "length (filter keep_pod []) + 2 * length (ScheduledPods (cc ?s)) + 2 \<le> 10000"
      by simp
  qed (rule limit_run_reachable | code_simp)+
qed

end
