(* ===== verification/Sim_Shape.thy ===== *)
theory Sim_Shape
  imports Sync_Start
begin

text \<open>
  The shape of the state of an analysis, on any cluster and with any behaviour of the scheduler:
  what is stored under a key has that key, integers are 64-bit, the flags of a closed analysis
  agree, the informer is parked exactly when it waits in the channel \<open>stop\<close>, and the channel is
  closed exactly when \<open>Run\<close> has returned. From it follows what can make an analysis panic at all.
\<close>

section \<open>The state of the simulator\<close>

definition cc_shape :: "ClusterCapacity \<Rightarrow> bool" where
  "cc_shape c \<longleftrightarrow> tracker_ok Meta (cs_pods (client c)) \<and> int64 (simulated c) \<and> flags_ok c \<and>
     defaultSchedulerName c = DefaultSchedulerName \<and> (chan_closed (stop c) \<longrightarrow> senders (stop c) = [])"

text \<open>What a handler may do to the log of events and to the channel: \<open>sent\<close> is who it left parked.\<close>

definition moved :: "sender list \<Rightarrow> ClusterCapacity \<Rightarrow> ClusterCapacity \<Rightarrow> bool" where
  "moved sent c c' \<longleftrightarrow> cc_shape c' \<and>
     length (watches (cs_pods (client c))) \<le> length (watches (cs_pods (client c'))) \<and>
     stop c' = (stop c)\<lparr>senders := senders (stop c) @ sent\<rparr>"

lemma moved_refl: "cc_shape c \<Longrightarrow> moved [] c c"
  by (simp add: moved_def)

lemma moved_trans: "moved [] c c' \<Longrightarrow> moved sent c' c'' \<Longrightarrow> moved sent c c''"
  by (auto simp: moved_def)

lemma moved_status: "cc_shape c \<Longrightarrow> moved [] c (c\<lparr>status := st\<rparr>)"
  by (simp add: moved_def cc_shape_def flags_ok_def)

lemma moved_pod_write:
  assumes "cc_shape c"
  shows "moved [] c (with_pods (fst (own_write Meta set_pod_meta replace p (cs_pods (client c)))) c)"
proof -
  let ?T = "cs_pods (client c)"
  have "length (watches ?T) \<le> length (watches (fst (own_write Meta set_pod_meta replace p ?T)))"
    by (cases replace; cases "map_of (objects ?T) (object_key Meta p)")
      (simp_all add: pod_store.create_fresh_eq pod_store.create_exists_eq
        pod_store.update_exists_eq pod_store.update_missing_eq)
  with assms show ?thesis
    by (simp add: moved_def cc_shape_def pod_store.own_write_ok)
qed

lemma moved_submit:
  assumes "cc_shape c"
  shows "moved [] c (fst (submit uuid c))"
proof -
  have "moved [] c (generated uuid c)"
    using assms by (simp add: moved_def cc_shape_def)
  moreover from this have "cc_shape (generated uuid c)"
    by (simp add: moved_def)
  from moved_pod_write [OF this, of False "next_pod uuid c"]
  have "moved [] (generated uuid c) (fst (submit uuid c))"
    by (simp add: submit_def generated_def with_pods_def Let_def)
  ultimately show ?thesis
    by (rule moved_trans)
qed

text \<open>The end of an analysis: \<open>Close\<close> never panics, a send panics when the channel is closed.\<close>

lemma close_and_send:
  assumes "cc_shape c"
  obtains (sent) c' where "Close c = Inr c'" "send_stop who c' = Inr (c'\<lparr>stop := (stop c)\<lparr>senders := senders (stop c) @ [who]\<rparr>\<rparr>)"
      "moved [who] c (c'\<lparr>stop := (stop c)\<lparr>senders := senders (stop c) @ [who]\<rparr>\<rparr>)" "\<not> chan_closed (stop c)"
    | (panic) c' where "Close c = Inr c'" "send_stop who c' = Inl Send_on_closed_channel" "chan_closed (stop c)"
proof -
  have f: "flags_ok c"
    using assms by (simp add: cc_shape_def)
  let ?c = "c\<lparr>contextCancelled := True, informerStopped := True, closed := True\<rparr>"
  note close = Close_eq [OF f]
  show thesis
  proof (cases "chan_closed (stop c)")
    case True
    then show thesis
      using panic [OF close] by (simp add: send_stop_def)
  next
    case False
    then have "moved [who] c (?c\<lparr>stop := (stop c)\<lparr>senders := senders (stop c) @ [who]\<rparr>\<rparr>)"
      using assms by (simp add: moved_def cc_shape_def flags_ok_def)
    with False show thesis
      using sent [OF close] by (simp add: send_stop_def)
  qed
qed

section \<open>The handlers\<close>

lemma postBindHook_shape:
  assumes "cc_shape c"
  shows "case postBindHook uuid q c of Inl p \<Rightarrow> p = Send_on_closed_channel
    | Inr (c', err) \<Rightarrow> moved [] c c' \<or> moved [Binder_goroutine] c c' \<and> \<not> chan_closed (stop c)"
proof -
  let ?c = "c\<lparr>status := (status c)\<lparr>Pods := Pods (status c) @ [q]\<rparr>\<rparr>"
  let ?r = "set_stop_reason (limit_reached (maxSimulated ?c)) ?c"
  have m: "moved [] c ?c" "moved [] c ?r"
    using moved_status [OF assms] by (simp_all add: set_stop_reason_def)
  then have s: "cc_shape ?c" "cc_shape ?r"
    by (simp_all add: moved_def)
  show ?thesis
  proof (cases "0 < maxSimulated ?c \<and> maxSimulated ?c \<le> simulated ?c")
    case True
    have st: "stop ?r = stop c"
      by (simp add: set_stop_reason_def)
    show ?thesis
      using s(2)
    proof (cases rule: close_and_send [where who = Binder_goroutine])
      case (sent c')
      then show ?thesis
        using True moved_trans [OF m(2) sent(3)] st by (simp add: postBindHook_def Let_def)
    next
      case (panic c')
      then show ?thesis
        using True by (simp add: postBindHook_def Let_def)
    qed
  next
    case False
    have "createNextPod uuid ?c = Inr (submit uuid ?c)"
      using s(1) by (intro createNextPod_submit) (simp add: cc_shape_def)
    moreover have "moved [] c (fst (submit uuid ?c))"
      using moved_trans [OF m(1) moved_submit [OF s(1)]] .
    ultimately show ?thesis
      using False by (cases "submit uuid ?c"; cases "snd (submit uuid ?c)") (auto simp: postBindHook_def Let_def)
  qed
qed

lemma Bind_shape:
  assumes "cc_shape c"
  shows "case Bind uuid p n c of Inl p \<Rightarrow> p = Send_on_closed_channel
    | Inr (c', err) \<Rightarrow> moved [] c c' \<or> moved [Binder_goroutine] c c' \<and> \<not> chan_closed (stop c)"
proof (cases "tracker_get (pod_ns p) (pod_name p) (cs_pods (client c))")
  case (Inl e)
  then show ?thesis
    using moved_refl [OF assms] by (simp add: Bind_def)
next
  case (Inr pod)
  define q where "q = bound_pod n pod"
  let ?w = "pod_update q (pod_ns pod) (cs_pods (client c))"
  let ?c = "with_pods (fst ?w) c"
  have "Meta q = Meta pod"
    by (simp add: q_def)
  then have m: "moved [] c ?c"
    using moved_pod_write [OF assms, of True q] by simp
  then have s: "cc_shape ?c" and st: "stop ?c = stop c"
    by (simp_all add: moved_def)
  have "Bind uuid p n c = (case snd ?w of
      Some e \<Rightarrow> Inr (?c, Some (Errorf ''Unable to update binded pod'' e))
    | None \<Rightarrow> (case postBindHook uuid q ?c of
        Inl p \<Rightarrow> Inl p
      | Inr (c, Some e) \<Rightarrow> Inr (c, Some (Errorf ''Invoking postBindHook gives an error'' e))
      | Inr (c, None) \<Rightarrow> Inr (c, None)))"
    unfolding Bind_def Inr sum.case bound_pod_def [symmetric] q_def [symmetric] with_pods_def Let_def split_beta
    by simp
  then show ?thesis
    using m postBindHook_shape [OF s, of uuid q] moved_trans [OF m] st
    by (auto split: option.splits sum.splits)
qed

lemma Update_shape:
  assumes "cc_shape c"
  shows "case Update pod cond name c of Inl p \<Rightarrow> p = Send_on_closed_channel
    | Inr c' \<Rightarrow> if stop_condition cond \<and> HasAnnotation (Meta pod) podProvisioner
        then moved [Informer_goroutine] c c' \<and> \<not> chan_closed (stop c) else c' = c"
proof (cases "stop_condition cond \<and> HasAnnotation (Meta pod) podProvisioner")
  case True
  define d where "d = set_stop_reason (Reason cond @ '': '' @ Message cond) c"
  have update: "Update pod cond name c =
      (case Close d of Inl p \<Rightarrow> Inl p | Inr c \<Rightarrow> send_stop Informer_goroutine (c\<lparr>stopped := True\<rparr>))"
    unfolding Update_def d_def by (simp only: True simp_thms if_True)
  have m: "moved [] c d" and st: "stop d = stop c"
    using moved_status [OF assms] by (simp_all add: d_def set_stop_reason_def)
  then have "cc_shape d"
    by (simp add: moved_def)
  then show ?thesis
  proof (cases rule: close_and_send [where who = Informer_goroutine])
    case (sent c')
    have stop: "stop c' = stop d"
      using sent(1) by (auto simp: Close_def split: if_splits)
    have "moved [Informer_goroutine] c
        (c'\<lparr>stopped := True, stop := (stop c)\<lparr>senders := senders (stop c) @ [Informer_goroutine]\<rparr>\<rparr>)"
      using moved_trans [OF m sent(3)] st by (simp add: moved_def cc_shape_def flags_ok_def)
    then show ?thesis
      using True sent(1,4) st stop by (simp add: update send_stop_def)
  next
    case (panic c')
    then show ?thesis
      using True by (simp add: update send_stop_def split: if_splits)
  qed
next
  case False
  then show ?thesis by (auto simp: Update_def)
qed

lemma close_stop_shape:
  assumes "cc_shape c" and "\<not> chan_closed (stop c)"
  shows "case close_stop c of Inl p \<Rightarrow> p = Send_on_closed_channel
    | Inr c' \<Rightarrow> cc_shape c' \<and> client c' = client c \<and> stop c' = \<lparr>senders = [], chan_closed = True\<rparr> \<and> senders (stop c) = []"
  using assms by (cases "stop c") (auto simp: close_stop_def cc_shape_def flags_ok_def)

lemma run_create_shape:
  assumes "cc_shape c" and "\<not> chan_closed (stop c)"
  shows "case run_create uuid c of Inl p \<Rightarrow> p = Send_on_closed_channel
    | Inr (c', None) \<Rightarrow> moved [] c c'
    | Inr (c', Some e) \<Rightarrow> cc_shape c' \<and> stop c' = \<lparr>senders = [], chan_closed = True\<rparr> \<and> senders (stop c) = [] \<and>
        length (watches (cs_pods (client c))) \<le> length (watches (cs_pods (client c')))"
proof -
  have create: "createNextPod uuid c = Inr (submit uuid c)"
    using assms(1) by (intro createNextPod_submit) (simp add: cc_shape_def)
  let ?c = "fst (submit uuid c)"
  have m: "moved [] c ?c"
    by (rule moved_submit [OF assms(1)])
  then have s: "cc_shape ?c" and st: "stop ?c = stop c"
    by (simp_all add: moved_def)
  show ?thesis
  proof (cases "snd (submit uuid c)")
    case None
    then show ?thesis
      using m create by (cases "submit uuid c") (simp add: run_create_def)
  next
    case (Some e)
    let ?d = "?c\<lparr>contextCancelled := True, informerStopped := True, closed := True\<rparr>"
    have close: "Close ?c = Inr ?d"
      using s by (intro Close_eq) (simp add: cc_shape_def)
    have d: "cc_shape ?d" "\<not> chan_closed (stop ?d)"
      using s assms(2) st by (simp_all add: cc_shape_def flags_ok_def)
    have "run_create uuid c = (case close_stop ?d of Inl p \<Rightarrow> Inl p
        | Inr c \<Rightarrow> Inr (c, Some (Errorf ''Unable to create next pod to schedule'' e)))"
      using create Some close by (cases "submit uuid c") (simp add: run_create_def)
    then show ?thesis
      using close_stop_shape [OF d] m st by (auto simp: moved_def split: sum.splits)
  qed
qed

section \<open>The whole system\<close>

definition shape :: "system \<Rightarrow> bool" where
  "shape s \<longleftrightarrow> cc_shape (cc s) \<and> seen s \<le> length (events_of s) \<and>
     (\<forall>k p. cache s k = Some p \<longrightarrow> object_key Meta p = k) \<and>
     crashed s \<in> {None, Some Send_on_closed_channel} \<and>
     (crashed s = None \<longrightarrow>
        count_list (senders (stop (cc s))) Informer_goroutine = truth (parked s) \<and>
        (chan_closed (stop (cc s)) \<longleftrightarrow> (\<exists>err. main s = Returned err)))"

lemma shape_crashed:
  "shape s \<Longrightarrow> p = Send_on_closed_channel \<Longrightarrow> shape (s\<lparr>crashed := Some p\<rparr>)"
  "shape s \<Longrightarrow> p = Send_on_closed_channel \<Longrightarrow> shape (s\<lparr>parked := b, crashed := Some p\<rparr>)"
  by (simp_all add: shape_def)

lemma shape_moved:
  assumes "shape s" and "crashed s = None" and "moved sent (cc s) c'"
    and "count_list sent Informer_goroutine + truth (parked s) = truth b"
  shows "shape (s\<lparr>cc := c', todo := t, parked := b\<rparr>)"
  using assms by (auto simp: shape_def moved_def)

lemma shape_step:
  assumes "shape s" and "sim_step retry s s'"
  shows "shape s'"
  using assms(2)
proof cases
  case (create uuid)
  have c: "cc_shape (cc s)" "\<not> chan_closed (stop (cc s))"
    using assms(1) create by (auto simp: shape_def)
  show ?thesis
  proof (cases "run_create uuid (cc s)")
    case (Inl p)
    then show ?thesis
      using run_create_shape [OF c, of uuid] shape_crashed(1) [OF assms(1)] create
      by (simp add: do_create_def crash_or_def)
  next
    case (Inr ce)
    then show ?thesis
      using run_create_shape [OF c, of uuid] assms(1) create
      by (cases ce; cases "snd ce")
        (auto simp: do_create_def crash_or_def shape_def moved_def split: if_splits)
  qed
next
  case receive
  let ?who = "hd (senders (stop (cc s)))"
  let ?c = "(cc s)\<lparr>stop := (stop (cc s))\<lparr>senders := tl (senders (stop (cc s)))\<rparr>\<rparr>"
  let ?parked = "if ?who = Informer_goroutine then False else parked s"
  have do: "do_receive s = crash_or (s\<lparr>parked := ?parked\<rparr>) (close_stop ?c)
      (\<lambda>c''. s\<lparr>parked := ?parked, cc := c'', main := Returned None\<rparr>)"
    by (simp add: do_receive_def Let_def)
  have c: "cc_shape ?c" "\<not> chan_closed (stop ?c)"
    using assms(1) receive by (auto simp: shape_def cc_shape_def flags_ok_def)
  obtain rest where snd: "senders (stop (cc s)) = ?who # rest"
    using receive by (cases "senders (stop (cc s))") auto
  show ?thesis
  proof (cases "close_stop ?c")
    case (Inl p)
    then show ?thesis
      using close_stop_shape [OF c] shape_crashed(2) [OF assms(1)] receive
      by (simp add: do crash_or_def)
  next
    case (Inr c'')
    then have "tl (senders (stop (cc s))) = []" "cc_shape c''" "client c'' = client (cc s)"
      "stop c'' = \<lparr>senders = [], chan_closed = True\<rparr>"
      using close_stop_shape [OF c] by simp_all
    moreover from this(1) have "count_list (senders (stop (cc s))) Informer_goroutine = truth (?who = Informer_goroutine)"
      by (subst snd) (use snd in \<open>cases "senders (stop (cc s))"; auto\<close>)
    ultimately show ?thesis
      using assms(1) receive Inr by (auto simp: do crash_or_def shape_def split: if_splits)
  qed
next
  case (bind p n uuid)
  have c: "cc_shape (cc s)"
    using assms(1) by (simp add: shape_def)
  show ?thesis
  proof (cases "Bind uuid p n (cc s)")
    case (Inl q)
    then show ?thesis
      using Bind_shape [OF c, of uuid p n] shape_crashed(1) [OF assms(1)] bind
      by (simp add: do_bind_def crash_or_def)
  next
    case (Inr ce)
    obtain c' err where ce: "ce = (c', err)" by force
    have "moved [] (cc s) c' \<or> moved [Binder_goroutine] (cc s) c'"
      using Bind_shape [OF c, of uuid p n] Inr ce by auto
    then have "shape (s\<lparr>cc := c', todo := todo s, parked := parked s\<rparr>)"
      using shape_moved [OF assms(1), of "[]" c' "parked s" "todo s"] shape_moved [OF assms(1), of "[Binder_goroutine]" c' "parked s" "todo s"] bind
      by auto
    then show ?thesis
      using bind Inr ce by (simp add: do_bind_def crash_or_def)
  qed
next
  case (mark p r m)
  have "moved [] (cc s) (with_pods (fst (pod_update (mark_pod (failure_condition r m) p) (pod_ns p) (cs_pods (client (cc s))))) (cc s))"
    using moved_pod_write [of "cc s" True "mark_pod (failure_condition r m) p"] assms(1)
    by (simp add: shape_def mark_pod_def)
  then show ?thesis
    using assms(1) mark by (auto simp: do_mark_def with_pods_def shape_def moved_def Let_def split_beta)
next
  case deliver
  then show ?thesis
    using assms(1) by (auto simp: do_deliver_def shape_def Let_def object_key_def)
next
  case update
  obtain pod cond rest where todo: "todo s = (pod, cond) # rest"
    using update by (cases "todo s") auto
  have c: "cc_shape (cc s)"
    using assms(1) by (simp add: shape_def)
  show ?thesis
  proof (cases "Update pod cond DefaultSchedulerName (cc s)")
    case (Inl p)
    then show ?thesis
      using Update_shape [OF c, of cond pod DefaultSchedulerName] shape_crashed(1) [OF assms(1)] update todo
      by (simp add: do_update_def crash_or_def)
  next
    case (Inr c')
    let ?b = "stop_condition cond \<and> HasAnnotation (Meta pod) podProvisioner"
    have "moved (if ?b then [Informer_goroutine] else []) (cc s) c'"
      using Update_shape [OF c, of cond pod DefaultSchedulerName] Inr moved_refl [OF c] by (auto split: if_splits)
    from shape_moved [OF assms(1) _ this, of ?b rest] show ?thesis
      using update todo Inr by (simp add: do_update_def crash_or_def split: if_splits)
  qed
qed

interpretation shape: sim_invariant retry c0 "\<lambda>s. shape (initial_system c0) \<longrightarrow> shape s" for retry c0
  by unfold_locales (blast intro: shape_step)+

lemma synced_shape:
  assumes new: "New None t m exclude = Inr c" and sync: "SyncWithClient r c = (c', None)" and r: "scoped r"
  shows "shape (initial_system c')"
proof -
  let ?cs = "fst (sync_clientset (set exclude) r NewSimpleClientset)"
  note c = New_eq [OF new]
  have c': "c' = c\<lparr>client := ?cs\<rparr>"
    and ok: "snd (sync_clientset (set exclude) r NewSimpleClientset) = None"
    using sync by (auto simp: SyncWithClient_def c split: prod.splits)
  have "copyable_snapshot (set exclude) r"
    using sync_ok_iff [OF r] ok by blast
  then obtain ps where ps: "r_pods r = Inr ps"
    by (auto simp: copyable_snapshot_def copyable_def)
  have "only_objects UNIV (cs_pods ?cs) \<and> tracker_ok Meta (cs_pods ?cs)"
    unfolding sync_pods [OF r ok ps]
    by (intro pod_store.create_all_only empty_tracker_only tracker_ok_empty subset_UNIV)
  then show ?thesis
    by (simp add: c' c shape_def cc_shape_def initial_system_def flags_ok_def int64_def)
qed

end
