(* ===== verification/Run_Failures.thy ===== *)
theory Run_Failures
  imports Run_Properties Sim_Shape
begin

text \<open>
  What happens outside the assumptions of \<open>Run_Properties\<close>: pods of the cluster that wait for the scheduler too, a pod that is
  given up twice, a name that is taken, a failure of the scheduler itself, a template that carries a stop condition. Each
  theorem is about every state of an analysis in which the situation arises, and says what the goroutines then can or must do.
\<close>

section \<open>A state in which Run waits\<close>

lemma synced_reachable_shape:
  assumes "New None t m exclude = Inr c" and "SyncWithClient r c = (c0, None)" and "scoped r" and "reachable retry c0 s"
  shows "shape s"
  using shape.invariant_reachable [OF assms(4)] synced_shape [OF assms(1-3)] by blast

definition waiting :: "system \<Rightarrow> bool" where
  "waiting s \<longleftrightarrow> crashed s = None \<and> main s = Receiving \<and> senders (stop (cc s)) = []"

text \<open>The informer has handled all events and knows the pod \<open>p\<close>.\<close>

definition informed :: "Pod \<Rightarrow> system \<Rightarrow> bool" where
  "informed p s \<longleftrightarrow> todo s = [] \<and> seen s = length (events_of s) \<and>
     (case cache s (object_key Meta p) of None \<Rightarrow> False | Some old \<Rightarrow> handler_filter DefaultSchedulerName old)"

lemma waiting_facts:
  assumes "shape s" and "waiting s"
  shows "flags_ok (cc s)" "\<not> chan_closed (stop (cc s))" "defaultSchedulerName (cc s) = DefaultSchedulerName"
    "tracker_ok Meta (cs_pods (client (cc s)))" "\<not> parked s"
  using assms by (auto simp: shape_def cc_shape_def waiting_def split: if_splits)

lemma waiting_pod:
  assumes "shape s" and "schedulable retry s p"
  shows "map_of (pods_of s) (object_key Meta p) = Some p" "take_up retry s (object_key Meta p) = Some p"
proof -
  have ok: "tracker_ok Meta (cs_pods (client (cc s)))"
    using assms(1) by (simp add: shape_def cc_shape_def)
  then show "take_up retry s (object_key Meta p) = Some p"
    using assms(2) by (rule take_up_complete)
  show "map_of (pods_of s) (object_key Meta p) = Some p"
    using assms(2) ok by (simp add: schedulable_def tracker_ok_def)
qed

text \<open>The binding of a pod at the limit and below it.\<close>

lemma bind_at_limit:
  assumes "map_of (pods_of s) (object_key Meta p) = Some p" and "flags_ok (cc s)" and "\<not> chan_closed (stop (cc s))"
    and "defaultSchedulerName (cc s) = DefaultSchedulerName" and "0 < maxSimulated (cc s)" and "maxSimulated (cc s) \<le> simulated (cc s)"
  shows "do_bind u p n s = s\<lparr>cc := signal Binder_goroutine (limit_reached (maxSimulated (cc s))) (record_binding (bound_pod n p) (cc s))\<rparr>"
  unfolding do_bind_def Bind_eq [OF assms(1-4)] crash_or_def using assms(5,6) by simp

lemma bind_below_limit:
  assumes "map_of (pods_of s) (object_key Meta p) = Some p" and "flags_ok (cc s)" and "\<not> chan_closed (stop (cc s))"
    and "defaultSchedulerName (cc s) = DefaultSchedulerName" and "\<not> (0 < maxSimulated (cc s) \<and> maxSimulated (cc s) \<le> simulated (cc s))"
  shows "do_bind u p n s = s\<lparr>cc := fst (submit u (record_binding (bound_pod n p) (cc s)))\<rparr>"
  unfolding do_bind_def Bind_eq [OF assms(1-4)] crash_or_def using assms(5) by auto

section \<open>Two bindings at the limit\<close>

lemma two_bindings:
  assumes s: "shape s" "waiting s" and lim: "0 < maxSimulated (cc s)" "maxSimulated (cc s) \<le> simulated (cc s)"
    and p: "schedulable retry s p" "has_node s n" and q: "schedulable retry s q" "has_node s n'"
    and pq: "object_key Meta p \<noteq> object_key Meta q"
  shows "\<exists>s'. perform_all retry [Bind_to u (object_key Meta p) n, Bind_to u' (object_key Meta q) n', Receive] s = Some s' \<and>
    crashed s' = Some Send_on_closed_channel"
proof -
  note w = waiting_facts [OF s]
  define s1 where "s1 = do_bind u p n s"
  define s2 where "s2 = do_bind u' q n' s1"
  have s1: "s1 = s\<lparr>cc := signal Binder_goroutine (limit_reached (maxSimulated (cc s))) (record_binding (bound_pod n p) (cc s))\<rparr>"
    unfolding s1_def by (rule bind_at_limit [OF waiting_pod(1) [OF s(1) p(1)] w(1-3) lim])
  have q1: "map_of (pods_of s1) (object_key Meta q) = Some q"
    using waiting_pod(1) [OF s(1) q(1)] pq by (simp add: s1)
  have "s2 = s1\<lparr>cc := signal Binder_goroutine (limit_reached (maxSimulated (cc s1))) (record_binding (bound_pod n' q) (cc s1))\<rparr>"
    unfolding s2_def using w lim by (intro bind_at_limit [OF q1]) (simp_all add: s1)
  then have s2: "senders (stop (cc s2)) = [Binder_goroutine, Binder_goroutine]" "crashed s2 = None" "main s2 = Receiving"
    "\<not> chan_closed (stop (cc s2))"
    using s(2) w(2) by (simp_all add: s1 waiting_def)
  then have "crashed (do_receive s2) = Some Send_on_closed_channel"
    by (simp add: do_receive_def close_stop_def crash_or_def Let_def)
  moreover have "perform retry (Bind_to u (object_key Meta p) n) s = Some s1"
    using s(2) p waiting_pod(2) [OF s(1) p(1)] by (simp add: s1_def waiting_def)
  moreover have "perform retry (Bind_to u' (object_key Meta q) n') s1 = Some s2"
  proof -
    have "take_up retry s1 (object_key Meta q) = Some q" "has_node s1 n'" "crashed s1 = None"
      using q q1 s(2) by (simp_all add: take_up_def schedulable_def s1 has_node_def waiting_def)
    then show ?thesis
      by (simp add: s2_def)
  qed
  ultimately show ?thesis
    using s2 by simp
qed

section \<open>Two failures of one pod\<close>

lemma set_condition_new: "filter (\<lambda>d. CondType d = CondType c) cs = [] \<Longrightarrow> set_condition c cs = cs @ [c]"
  by (induction cs) (auto split: if_splits)

lemma set_condition_again: "filter (\<lambda>d. CondType d = CondType c) cs = [] \<Longrightarrow> CondType c' = CondType c \<Longrightarrow>
    set_condition c' (cs @ [c]) = cs @ [c']"
  by (induction cs) (auto split: if_splits)

text \<open>The informer's part: an event of a known pod of the program, with a stop condition first.\<close>

lemma deliver_known:
  assumes "seen s < length (events_of s)" and "event_object (events_of s ! seen s) = p" and "cache s (object_key Meta p) = Some old"
    and "handler_filter DefaultSchedulerName p" "handler_filter DefaultSchedulerName old"
    and "filter (\<lambda>c. CondType c = ''PodScheduled'') (Conditions (PStatus p)) = todos"
  shows "do_deliver s = s\<lparr>cache := (cache s)(object_key Meta p \<mapsto> p), seen := Suc (seen s), todo := map (Pair p) todos\<rparr>"
  using assms by (simp add: do_deliver_def Let_def update_conditions_def)

lemma update_signals:
  assumes "todo s = (p, cond) # rest" and "stop_condition cond" and "HasAnnotation (Meta p) podProvisioner"
    and "flags_ok (cc s)" and "\<not> chan_closed (stop (cc s))"
  shows "do_update s = s\<lparr>cc := (signal Informer_goroutine (Reason cond @ '': '' @ Message cond) (cc s))\<lparr>stopped := True\<rparr>,
    todo := rest, parked := True\<rparr>"
  using assms
  by (cases "cc s") (auto simp: do_update_def Update_def Close_def set_stop_reason_def flags_ok_def send_stop_def signal_def crash_or_def)

lemma update_panics:
  assumes "todo s = (p, cond) # rest" and "stop_condition cond" and "HasAnnotation (Meta p) podProvisioner"
    and "flags_ok (cc s)" and "chan_closed (stop (cc s))"
  shows "do_update s = s\<lparr>crashed := Some Send_on_closed_channel\<rparr>"
proof -
  have "flags_ok (set_stop_reason r (cc s))" for r
    using assms(4) by (simp add: set_stop_reason_def flags_ok_def)
  from Close_eq [OF this] show ?thesis
    using assms by (simp add: do_update_def Update_def send_stop_def set_stop_reason_def crash_or_def)
qed

lemma receive_one:
  assumes "senders (stop (cc s)) = [Informer_goroutine]" and "\<not> chan_closed (stop (cc s))"
  shows "do_receive s = s\<lparr>parked := False, cc := (cc s)\<lparr>stop := \<lparr>senders = [], chan_closed = True\<rparr>\<rparr>, main := Returned None\<rparr>"
  using assms by (cases "stop (cc s)") (simp add: do_receive_def close_stop_def crash_or_def Let_def)
lemma two_failures:
  assumes s: "shape s" "waiting s" "informed p s" and p: "schedulable True s p" "HasAnnotation (Meta p) podProvisioner"
    and new: "filter (\<lambda>c. CondType c = ''PodScheduled'') (Conditions (PStatus p)) = []"
  shows "\<exists>s'. perform_all True [Give_up (object_key Meta p) ''Unschedulable'' m, Give_up (object_key Meta p) ''Unschedulable'' m',
      Deliver, Handle, Receive, Deliver, Handle] s = Some s' \<and> main s' = Returned None \<and> stopped (cc s') \<and> crashed s' = Some Send_on_closed_channel"
proof -
  let ?k = "object_key Meta p" and ?c = "failure_condition ''Unschedulable''"
  define p1 where "p1 = mark_pod (?c m) p"
  define p2 where "p2 = mark_pod (?c m') p1"
  note w = waiting_facts [OF s(1,2)]
  have c: "CondType (?c x) = ''PodScheduled''" "stop_condition (?c x)" "Reason (?c x) = ''Unschedulable''" for x
    by (simp_all add: failure_condition_def stop_condition_def)
  have conds1: "Conditions (PStatus p1) = Conditions (PStatus p) @ [?c m]"
    using set_condition_new [of "?c m"] new by (simp add: p1_def c)
  have conds2: "Conditions (PStatus p2) = Conditions (PStatus p) @ [?c m']"
    using set_condition_again [of "?c m" "Conditions (PStatus p)" "?c m'"] new conds1 by (simp add: p2_def c)
  have filt: "filter (\<lambda>c. CondType c = ''PodScheduled'') (Conditions (PStatus p1)) = [?c m]"
    "filter (\<lambda>c. CondType c = ''PodScheduled'') (Conditions (PStatus p2)) = [?c m']"
    using new by (simp_all add: conds1 conds2 c)
  have u: "unassigned_pod p" "handler_filter DefaultSchedulerName p"
    using p(1) by (simp_all add: schedulable_def unassigned_pod_def handler_filter_def)
  have u12: "unassigned_pod p1" "handler_filter DefaultSchedulerName p1" "handler_filter DefaultSchedulerName p2"
    "object_key Meta p1 = ?k" "object_key Meta p2 = ?k" "HasAnnotation (Meta p1) podProvisioner" "HasAnnotation (Meta p2) podProvisioner"
    using u p(2) by (simp_all add: p1_def p2_def unassigned_pod_def handler_filter_def)
  let ?T = "cs_pods (client (cc s))"
  note p_in = waiting_pod(1) [OF s(1) p(1)]
  define s1 where "s1 = do_mark (?c m) p s"
  have s1: "s1 = s\<lparr>cc := with_pods (?T\<lparr>objects := alist_put ?k p1 (objects ?T), watches := watches ?T @ [Modified p1]\<rparr>) (cc s),
      marked := insert ?k (marked s)\<rparr>"
    unfolding s1_def p1_def by (rule do_mark_eq [OF p_in])
  define s2 where "s2 = do_mark (?c m') p1 s1"
  have p1_in: "map_of (pods_of s1) (object_key Meta p1) = Some p1"
    by (simp add: s1 u12)
  have s2: "flags_ok (cc s2) = flags_ok (cc s)" "stop (cc s2) = stop (cc s)" "events_of s2 = events_of s @ [Modified p1, Modified p2]"
    "main s2 = main s" "cache s2 = cache s" "seen s2 = seen s" "todo s2 = todo s" "parked s2 = parked s" "crashed s2 = crashed s"
    unfolding s2_def do_mark_eq [OF p1_in] by (simp_all add: s1 u12 p2_def with_pods_def flags_ok_def)
  have run12: "perform True (Give_up ?k ''Unschedulable'' m) s = Some s1" "perform True (Give_up ?k ''Unschedulable'' m') s1 = Some s2"
  proof -
    have "take_up True s ?k = Some p" "take_up True s1 ?k = Some p1"
      using p_in p1_in u u12 by (simp_all add: take_up_def)
    then show "perform True (Give_up ?k ''Unschedulable'' m) s = Some s1" "perform True (Give_up ?k ''Unschedulable'' m') s1 = Some s2"
      using s(2) by (simp_all add: s1_def s2_def waiting_def) (simp add: do_mark_def case_prod_unfold Let_def)
  qed
  obtain old where i: "todo s = []" "seen s = length (events_of s)" "cache s ?k = Some old" "handler_filter DefaultSchedulerName old"
    using s(3) by (auto simp: informed_def split: option.splits)
  define s3 where "s3 = do_deliver s2"
  have s3: "s3 = s2\<lparr>cache := (cache s2)(?k \<mapsto> p1), seen := Suc (seen s), todo := [(p1, ?c m)]\<rparr>"
    unfolding s3_def using deliver_known [of s2 p1 old "[?c m]"] i s2 u u12 filt by (simp add: nth_append)
  define s4 where "s4 = do_update s3"
  have ok2: "flags_ok (cc s2)" "\<not> chan_closed (stop (cc s2))" "senders (stop (cc s2)) = []"
    using w s(2) by (simp_all add: s2 waiting_def)
  have s4: "s4 = s3\<lparr>cc := (signal Informer_goroutine (''Unschedulable: '' @ Message (?c m)) (cc s2))\<lparr>stopped := True\<rparr>,
      todo := [], parked := True\<rparr>"
    unfolding s4_def using update_signals [of s3 p1 "?c m" "[]"] ok2 u12 c by (simp add: s3)
  define s5 where "s5 = do_receive s4"
  have s5: "s5 = s4\<lparr>parked := False, cc := (cc s4)\<lparr>stop := \<lparr>senders = [], chan_closed = True\<rparr>\<rparr>, main := Returned None\<rparr>"
    unfolding s5_def using ok2 by (intro receive_one) (simp_all add: s4)
  define s6 where "s6 = do_deliver s5"
  have ev: "events_of s5 = events_of s2"
    by (simp add: s5 s4 s3)
  have s6: "s6 = s5\<lparr>cache := (cache s5)(?k \<mapsto> p2), seen := Suc (seen s5), todo := [(p2, ?c m')]\<rparr>"
    unfolding s6_def using deliver_known [of s5 p2 p1 "[?c m']"] i s2 u12 filt ev by (simp add: s5 s4 s3 nth_append)
  have "flags_ok (cc s6)" "chan_closed (stop (cc s6))"
    by (simp_all add: s6 s5 s4 flags_ok_def signal_def)
  then have s7: "do_update s6 = s6\<lparr>crashed := Some Send_on_closed_channel\<rparr>"
    using update_panics [of s6 p2 "?c m'" "[]"] u12 c by (simp add: s6)
  have cr: "crashed s2 = None" "main s2 = Receiving"
    using s(2) s2 by (simp_all add: waiting_def)
  have "perform True Deliver s2 = Some s3" "perform True Handle s3 = Some s4" "perform True Receive s4 = Some s5"
    "perform True Deliver s5 = Some s6" "perform True Handle s6 = Some (s6\<lparr>crashed := Some Send_on_closed_channel\<rparr>)"
    using cr s2 i w(5) ok2 ev by (simp_all add: s3_def [symmetric] s4_def [symmetric] s5_def [symmetric] s6_def [symmetric] s7)
      (simp_all add: s3 s4 s5 s6)
  then show ?thesis
    using run12 by (simp add: s6 s5 s4)
qed
section \<open>A name that is taken\<close>






section \<open>A stop condition in the template\<close>

lemma submit_extends:
  "\<exists>es. watches (cs_pods (client (fst (submit u c)))) = watches (cs_pods (client c)) @ es"
  by (cases "map_of (objects (cs_pods (client c))) (object_key Meta (next_pod u c))") (simp_all add: submit_fresh submit_taken)

lemma submit_kept:
  "stop (fst (submit u c)) = stop c" "flags_ok (fst (submit u c)) = flags_ok c"
  by (cases "map_of (objects (cs_pods (client c))) (object_key Meta (next_pod u c))"; simp add: submit_fresh submit_taken)+

lemma stale_stops:
  assumes s: "shape s" "waiting s" "informed p s" and p: "schedulable retry s p" "HasAnnotation (Meta p) podProvisioner" "has_node s n"
    and below: "\<not> (0 < maxSimulated (cc s) \<and> maxSimulated (cc s) \<le> simulated (cc s))"
    and cond: "filter (\<lambda>c. CondType c = ''PodScheduled'') (Conditions (PStatus p)) = cond # rest" "stop_condition cond"
  shows "\<exists>s'. perform_all retry [Bind_to u (object_key Meta p) n, Deliver, Handle, Receive] s = Some s' \<and> main s' = Returned None \<and>
    Pods (status (cc s')) = Pods (status (cc s)) @ [bound_pod n p] \<and> StopReason (status (cc s')) = ''Unschedulable: '' @ Message cond"
proof -
  let ?k = "object_key Meta p" and ?q = "bound_pod n p"
  note w = waiting_facts [OF s(1,2)]
  note p_in = waiting_pod [OF s(1) p(1)]
  define s1 where "s1 = do_bind u p n s"
  let ?c1 = "fst (submit u (record_binding ?q (cc s)))"
  have s1: "s1 = s\<lparr>cc := ?c1\<rparr>"
    unfolding s1_def by (rule bind_below_limit [OF p_in(1) w(1-3) below])
  obtain es where es: "events_of s1 = events_of s @ Modified ?q # es"
    using submit_extends [of u "record_binding ?q (cc s)"] by (auto simp: s1)
  obtain old where i: "todo s = []" "seen s = length (events_of s)" "cache s ?k = Some old" "handler_filter DefaultSchedulerName old"
    using s(3) by (auto simp: informed_def split: option.splits)
  have f: "handler_filter DefaultSchedulerName ?q"
    using p(1) by (simp add: schedulable_def unassigned_pod_def handler_filter_def bound_pod_def)
  define s2 where "s2 = do_deliver s1"
  have s2: "s2 = s1\<lparr>cache := (cache s)(?k \<mapsto> ?q), seen := Suc (seen s), todo := (?q, cond) # map (Pair ?q) rest\<rparr>"
    unfolding s2_def using deliver_known [of s1 ?q old "cond # rest"] i f es cond(1) by (simp add: s1 nth_append)
  define s3 where "s3 = do_update s2"
  have ok: "flags_ok (cc s2)" "\<not> chan_closed (stop (cc s2))" "senders (stop (cc s2)) = []"
    using w s(2) by (simp_all add: s2 s1 submit_kept waiting_def)
  have "Reason cond = ''Unschedulable''"
    using cond(2) by (simp add: stop_condition_def)
  then have s3: "s3 = s2\<lparr>cc := (signal Informer_goroutine (''Unschedulable: '' @ Message cond) (cc s2))\<lparr>stopped := True\<rparr>,
      todo := map (Pair ?q) rest, parked := True\<rparr>"
    unfolding s3_def using update_signals [of s2 ?q cond "map (Pair ?q) rest"] ok(1,2) p(2) cond(2) by (simp add: s2)
  define s4 where "s4 = do_receive s3"
  have s4: "s4 = s3\<lparr>parked := False, cc := (cc s3)\<lparr>stop := \<lparr>senders = [], chan_closed = True\<rparr>\<rparr>, main := Returned None\<rparr>"
    unfolding s4_def using ok by (intro receive_one) (simp_all add: s3)
  have cr: "crashed s = None" "main s = Receiving"
    using s(2) by (simp_all add: waiting_def)
  have "perform retry (Bind_to u ?k n) s = Some s1"
    using p_in(2) cr p(3) by (simp add: s1_def)
  moreover have "perform retry Deliver s1 = Some s2"
    using cr i w(5) es by (simp add: s2_def [symmetric]) (simp add: s1)
  moreover have "perform retry Handle s2 = Some s3"
    using cr w(5) by (simp add: s3_def [symmetric]) (simp add: s2 s1)
  moreover have "perform retry Receive s3 = Some s4"
    using cr by (simp add: s4_def [symmetric]) (simp add: s3 s2 s1)
  moreover have "main s4 = Returned None" "Pods (status (cc s4)) = Pods (status (cc s)) @ [?q]"
    "StopReason (status (cc s4)) = ''Unschedulable: '' @ Message cond"
    by (simp_all add: s4 s3 s2 s1 submit_kept)
  ultimately show ?thesis
    by simp
qed

section \<open>Every analysis\<close>

lemma take_up_obtain:
  assumes "take_up retry s k \<noteq> None"
  obtains p where "take_up retry s k = Some p" "schedulable retry s p" "object_key Meta p = k"
  using assms take_up_sound by blast



definition foreign_pod :: "string \<Rightarrow> Pod" where
  "foreign_pod name = small_pod name DefaultSchedulerName []"

lemma small_sync:
  assumes "snd (SyncWithClient (small_remote ps) small_new) = None"
  shows "SyncWithClient (small_remote ps) small_new = (small_start ps 1, None)"
  by (rule small_synced(2) [OF assms])

text \<open>The binder counts every pod the scheduler binds, not only the simulated ones. A pod
  that already waits for the default scheduler in the cluster under analysis is reported in
  place of the simulated pod, and ends the analysis with \<open>LimitReached\<close>.\<close>

lemma foreign_pod_is_counted:
  "let s = end_of [Create ''u0'', Bind_to ''u1'' (''default'', ''web'') ''n1'', Receive]
             (small_start [foreign_pod ''web''] 1) in
     main s = Returned None \<and> map (\<lambda>p. Name (Meta p)) (ScheduledPods (cc s)) = [''web''] \<and>
     list_all (\<lambda>p. \<not> HasAnnotation (Meta p) podProvisioner) (ScheduledPods (cc s)) \<and>
     StopReason (status (cc s)) = limit_reached 1"
  by code_simp

text \<open>C25: In every analysis, of any cluster: when the last pod of the limit has been created, no goroutine has told \<open>Run\<close> to
  end yet, and two pods wait for the scheduler (one of them can only be a pod of the cluster), then binding both before
  \<open>Run\<close> reads from \<open>stop\<close> makes the process panic: both bindings send, and \<open>Run\<close> closes the channel under the second.\<close>

theorem two_bindings_panic:
  assumes "New None t m exclude = Inr c" and "SyncWithClient r c = (c0, None)" and "scoped r"
    and "reachable retry c0 s" and "waiting s" and "0 < maxSimulated (cc s)" and "maxSimulated (cc s) \<le> simulated (cc s)"
    and "schedulable retry s p" and "has_node s n" and "schedulable retry s q" and "has_node s n'"
    and "object_key Meta p \<noteq> object_key Meta q"
  shows "\<exists>s'. perform_all retry [Bind_to u (object_key Meta p) n, Bind_to u' (object_key Meta q) n', Receive] s = Some s' \<and>
    crashed s' = Some Send_on_closed_channel"
  by (rule two_bindings [OF synced_reachable_shape [OF assms(1-4)] assms(5-12)])

theorem two_bindings_panic_witness:
  "\<exists>s'. perform_all False [Bind_to ''u1'' (''default'', ''web'') ''n1'', Bind_to ''u2'' (''default'', ''p-0'') ''n1'', Receive]
     (end_of [Create ''u0''] (small_start [foreign_pod ''web''] 1)) = Some s' \<and> crashed s' = Some Send_on_closed_channel"
proof -
  let ?c = "small_start [foreign_pod ''web''] 1"
  let ?s = "end_of [Create ''u0''] ?c"
  have sync: "SyncWithClient (small_remote [foreign_pod ''web'']) small_new = (?c, None)"
    by (rule small_sync) code_simp
  have "perform_all False [Create ''u0''] (initial_system ?c) \<noteq> None"
    by code_simp
  then have reach: "reachable False ?c ?s"
    by (intro perform_all_reachable) (rule option.collapse [symmetric])
  have facts: "waiting ?s" "0 < maxSimulated (cc ?s)" "maxSimulated (cc ?s) \<le> simulated (cc ?s)" "has_node ?s ''n1''"
    "take_up False ?s (''default'', ''web'') \<noteq> None" "take_up False ?s (''default'', ''p-0'') \<noteq> None"
    by code_simp+
  from facts(5) obtain p where p: "schedulable False ?s p" "object_key Meta p = (''default'', ''web'')"
    by (rule take_up_obtain)
  from facts(6) obtain q where q: "schedulable False ?s q" "object_key Meta q = (''default'', ''p-0'')"
    by (rule take_up_obtain)
  have "object_key Meta p \<noteq> object_key Meta q"
    by (simp add: p(2) q(2))
  from two_bindings_panic [OF small_synced(1) sync small_synced(3) reach facts(1-3) p(1) facts(4) q(1) facts(4) this]
  show ?thesis
    unfolding p(2) q(2) .
qed

text \<open>C26:
  In every analysis: if the scheduler takes a pod of the program up again after it gave it up, as it does after an event of
  the cluster, and records two failures (with different messages) before the informer delivers the first, then the process
  panics after \<open>Run\<close> returned nil: the second call of \<open>Update\<close> sends on the channel that \<open>Run\<close> closed. The field
  \<open>stopped\<close> that \<open>Update\<close> sets is read by nothing.\<close>

theorem second_failure_panics:
  assumes "New None t l exclude = Inr c" and "SyncWithClient r c = (c0, None)" and "scoped r"
    and "reachable True c0 s" and "waiting s" and "informed p s" and "schedulable True s p"
    and "HasAnnotation (Meta p) podProvisioner"
    and "filter (\<lambda>c. CondType c = ''PodScheduled'') (Conditions (PStatus p)) = []" and "m \<noteq> m'"
  shows "\<exists>s'. perform_all True [Give_up (object_key Meta p) ''Unschedulable'' m, Give_up (object_key Meta p) ''Unschedulable'' m',
      Deliver, Handle, Receive, Deliver, Handle] s = Some s' \<and>
    main s' = Returned None \<and> stopped (cc s') \<and> crashed s' = Some Send_on_closed_channel"
  by (rule two_failures [OF synced_reachable_shape [OF assms(1-4)] assms(5-9)])

theorem second_failure_panics_witness:
  "\<exists>s'. perform_all True [Give_up (''default'', ''p-0'') ''Unschedulable'' ''0/1 nodes are available: 1 node(s) had a taint.'',
      Give_up (''default'', ''p-0'') ''Unschedulable'' ''0/1 nodes are available: 1 Insufficient cpu.'',
      Deliver, Handle, Receive, Deliver, Handle] (the (perform_all True [Create ''u0'', Deliver] (initial_system (small_start [] 1)))) = Some s' \<and>
    main s' = Returned None \<and> stopped (cc s') \<and> crashed s' = Some Send_on_closed_channel"
proof -
  let ?k = "(''default'', ''p-0'')"
  let ?c = "small_start [] 1"
  let ?s = "the (perform_all True [Create ''u0'', Deliver] (initial_system ?c))"
  have sync: "SyncWithClient (small_remote []) small_new = (?c, None)"
    by (rule small_sync) code_simp
  have "perform_all True [Create ''u0'', Deliver] (initial_system ?c) \<noteq> None"
    by code_simp
  then have reach: "reachable True ?c ?s"
    by (intro perform_all_reachable) (rule option.collapse [symmetric])
  have facts: "waiting ?s" "take_up True ?s ?k \<noteq> None"
    by code_simp+
  from facts(2) obtain p where p: "take_up True ?s ?k = Some p" "schedulable True ?s p" "object_key Meta p = ?k"
    by (rule take_up_obtain)
  have "todo ?s = [] \<and> seen ?s = length (events_of ?s) \<and>
      (case cache ?s ?k of None \<Rightarrow> False | Some old \<Rightarrow> handler_filter DefaultSchedulerName old)"
    by code_simp
  then have inf: "informed p ?s"
    by (simp add: informed_def p(3))
  have "case take_up True ?s ?k of None \<Rightarrow> False | Some p \<Rightarrow> HasAnnotation (Meta p) podProvisioner \<and>
      filter (\<lambda>c. CondType c = ''PodScheduled'') (Conditions (PStatus p)) = []"
    by code_simp
  then have a: "HasAnnotation (Meta p) podProvisioner"
    "filter (\<lambda>c. CondType c = ''PodScheduled'') (Conditions (PStatus p)) = []"
    unfolding p(1) by simp_all
  show ?thesis
    using second_failure_panics [OF small_synced(1) sync small_synced(3) reach facts(1) inf p(2) a] unfolding p(3) by simp
qed




text \<open>C28: \<open>Generate\<close> keeps the status of the pod specification. In every analysis, of any cluster: when the conditions of
  the template begin with a stop condition (among those of type \<open>PodScheduled\<close>), as those of a pod that once was unschedulable
  do, a pod of the program that keeps them ends the analysis as soon as it is bound, below the limit and whatever room is
  left, if the informer delivers that event before others are bound: \<open>Run\<close> returns nil and the stop reason is the stale one.\<close>

theorem stale_condition_stops:
  assumes "New None t l exclude = Inr c" and "SyncWithClient r c = (c0, None)" and "scoped r"
    and "filter (\<lambda>c. CondType c = ''PodScheduled'') (Conditions (PStatus t)) = cond # rest" and "stop_condition cond"
    and "reachable retry c0 s" and "waiting s" and "informed p s" and "schedulable retry s p"
    and "HasAnnotation (Meta p) podProvisioner" and "Conditions (PStatus p) = Conditions (PStatus t)" and "has_node s n"
    and "\<not> (0 < maxSimulated (cc s) \<and> maxSimulated (cc s) \<le> simulated (cc s))"
  shows "\<exists>s'. perform_all retry [Bind_to u (object_key Meta p) n, Deliver, Handle, Receive] s = Some s' \<and>
    main s' = Returned None \<and> ScheduledPods (cc s') = ScheduledPods (cc s) @ [bound_pod n p] \<and>
    StopReason (status (cc s')) = ''Unschedulable: '' @ Message cond"
  unfolding ScheduledPods_def
  by (rule stale_stops [OF synced_reachable_shape [OF assms(1-3,6)] assms(7-10,12,13) _ assms(5)]) (simp only: assms(4,11))

definition stale_template :: Pod where
  "stale_template = mark_pod (failure_condition ''Unschedulable'' ''stale'') (small_pod ''p'' [] [])"

theorem stale_condition_stops_witness:
  "\<exists>s'. perform_all False [Bind_to ''u1'' (''default'', ''p-0'') ''n1'', Deliver, Handle, Receive]
     (end_of [Create ''u0'', Deliver] (start_on stale_template [] 3)) = Some s' \<and>
   main s' = Returned None \<and> length (ScheduledPods (cc s')) = 1 \<and> StopReason (status (cc s')) = ''Unschedulable: stale''"
proof -
  let ?new = "projr (New None stale_template 3 [''n2''])" and ?c = "start_on stale_template [] 3" and ?k = "(''default'', ''p-0'')"
  let ?s = "end_of [Create ''u0'', Deliver] ?c" and ?cond = "failure_condition ''Unschedulable'' ''stale''"
  have new: "New None stale_template 3 [''n2''] = Inr ?new"
    by (simp add: New_def)
  have "snd (SyncWithClient (small_remote []) ?new) = None"
    by code_simp
  then have sync: "SyncWithClient (small_remote []) ?new = (?c, None)"
    by (simp add: start_on_def New_def prod_eq_iff)
  have cond: "filter (\<lambda>c. CondType c = ''PodScheduled'') (Conditions (PStatus stale_template)) = ?cond # []" "stop_condition ?cond"
    by code_simp+
  have "perform_all False [Create ''u0'', Deliver] (initial_system ?c) \<noteq> None"
    by code_simp
  then have reach: "reachable False ?c ?s"
    by (intro perform_all_reachable) (rule option.collapse [symmetric])
  have facts: "waiting ?s" "take_up False ?s ?k \<noteq> None" "has_node ?s ''n1''"
    "\<not> (0 < maxSimulated (cc ?s) \<and> maxSimulated (cc ?s) \<le> simulated (cc ?s))" "ScheduledPods (cc ?s) = []"
    by code_simp+
  from facts(2) obtain p where p: "take_up False ?s ?k = Some p" "schedulable False ?s p" "object_key Meta p = ?k"
    by (rule take_up_obtain)
  have "todo ?s = [] \<and> seen ?s = length (events_of ?s) \<and>
      (case cache ?s ?k of None \<Rightarrow> False | Some old \<Rightarrow> handler_filter DefaultSchedulerName old)"
    by code_simp
  then have inf: "informed p ?s"
    by (simp add: informed_def p(3))
  have "case take_up False ?s ?k of None \<Rightarrow> False | Some p \<Rightarrow> HasAnnotation (Meta p) podProvisioner \<and>
      Conditions (PStatus p) = Conditions (PStatus stale_template)"
    by code_simp
  then have a: "HasAnnotation (Meta p) podProvisioner" "Conditions (PStatus p) = Conditions (PStatus stale_template)"
    unfolding p(1) by simp_all
  from stale_condition_stops [OF new sync small_synced(3) cond reach facts(1) inf p(2) a facts(3,4)]
  show ?thesis
    unfolding p(3) facts(5) by (fastforce simp: failure_condition_def)
qed

end
