(* ===== verification/Watch_Run.thy ===== *)
theory Watch_Run
  imports Watch_Buffer Run_Failures
begin

text \<open>
  The analysis with the bounded channel of the watch on pods. A step of \<open>Sim_Steps\<close> that writes events sends
  them to the watcher and panics when its buffer is full; the informer (its reflector) takes events from the channel
  at any time and hands on only events it has taken; once the informers are stopped it may close the watch, which drops later
  events. What is shown here: an analysis keeps its shape, and what can make it panic.
\<close>

section \<open>Steps under watch\<close>

record watched =
  sys :: system
  pod_watch :: "Pod watcher"
  got :: nat

definition new_events :: "system \<Rightarrow> system \<Rightarrow> Pod watch_event list" where
  "new_events s s' = drop (length (events_of s)) (events_of s')"

definition watcher_close :: "'a watcher \<Rightarrow> 'a watcher" where
  "watcher_close w = w\<lparr>watcher_stopped := True\<rparr>"

inductive watched_step :: "bool \<Rightarrow> watched \<Rightarrow> watched \<Rightarrow> bool" for retry where
  take: "crashed (sys b) = None \<Longrightarrow> watcher_receive (pod_watch b) = Some (e, w) \<Longrightarrow>
    watched_step retry b (b\<lparr>pod_watch := w, got := Suc (got b)\<rparr>)"
| close: "crashed (sys b) = None \<Longrightarrow> informerStopped (cc (sys b)) \<Longrightarrow>
    watched_step retry b (b\<lparr>pod_watch := watcher_close (pod_watch b)\<rparr>)"
| send: "sim_step retry (sys b) s' \<Longrightarrow> seen s' \<le> got b \<Longrightarrow>
    watcher_run (map Some (new_events (sys b) s')) (pod_watch b) = Inr w \<Longrightarrow>
    watched_step retry b (b\<lparr>sys := s', pod_watch := w\<rparr>)"
| full: "sim_step retry (sys b) s' \<Longrightarrow> seen s' \<le> got b \<Longrightarrow>
    watcher_run (map Some (new_events (sys b) s')) (pod_watch b) = Inl p \<Longrightarrow>
    watched_step retry b (b\<lparr>sys := (sys b)\<lparr>crashed := Some p\<rparr>\<rparr>)"

text \<open>At the start the informer has taken some of the events of the copied pods; the others are in the channel.\<close>

definition watched_start :: "ClusterCapacity \<Rightarrow> watched \<Rightarrow> bool" where
  "watched_start c0 b \<longleftrightarrow>
     sys b = initial_system c0 \<and> got b \<le> length (events_of (sys b)) \<and>
     pod_watch b = \<lparr>result = drop (got b) (events_of (sys b)), watcher_stopped = False\<rparr> \<and>
     length (result (pod_watch b)) \<le> DefaultChanSize"

inductive watched_reachable :: "bool \<Rightarrow> ClusterCapacity \<Rightarrow> watched \<Rightarrow> bool" for retry c0 where
  start: "watched_start c0 b \<Longrightarrow> watched_reachable retry c0 b"
| step: "watched_reachable retry c0 b \<Longrightarrow> watched_step retry b b' \<Longrightarrow> watched_reachable retry c0 b'"

section \<open>What a step writes\<close>

text \<open>\<open>grew k j c c'\<close>: at most \<open>k\<close> events were written and \<open>j\<close> pods counted, and the log was only extended.\<close>

definition grew :: "nat \<Rightarrow> nat \<Rightarrow> ClusterCapacity \<Rightarrow> ClusterCapacity \<Rightarrow> bool" where
  "grew k j c c' \<longleftrightarrow>
     (\<exists>es. watches (cs_pods (client c')) = watches (cs_pods (client c)) @ es \<and> length es \<le> k) \<and>
     pods_bound c' \<le> pods_bound c + j"

lemma grew_refl: "grew 0 0 c c"
  by (simp add: grew_def)

lemma grewI:
  "watches (cs_pods (client c')) = watches (cs_pods (client c)) @ es \<Longrightarrow> length es \<le> k \<Longrightarrow>
     pods_bound c' \<le> pods_bound c + j \<Longrightarrow> grew k j c c'"
  unfolding grew_def by blast

lemma grewE:
  assumes "grew k j c c'"
  obtains es where "watches (cs_pods (client c')) = watches (cs_pods (client c)) @ es" "length es \<le> k"
    "pods_bound c' \<le> pods_bound c + j"
  using assms unfolding grew_def by blast

lemma grew_same: "client c' = client c \<Longrightarrow> Pods (status c') = Pods (status c) \<Longrightarrow> grew 0 0 c c'"
  by (rule grewI [where es = "[]"]) (simp_all add: pods_bound_def)

lemma grew_trans:
  assumes "grew k j c c'" and "grew k' j' c' c''"
  shows "grew (k + k') (j + j') c c''"
proof -
  obtain es es' where "watches (cs_pods (client c')) = watches (cs_pods (client c)) @ es" "length es \<le> k"
    "pods_bound c' \<le> pods_bound c + j"
    "watches (cs_pods (client c'')) = watches (cs_pods (client c')) @ es'" "length es' \<le> k'"
    "pods_bound c'' \<le> pods_bound c' + j'"
    using assms by (elim grewE)
  then show ?thesis
    by (intro grewI [where es = "es @ es'"]) simp_all
qed

lemma grew_mono: "grew k j c c' \<Longrightarrow> k \<le> k' \<Longrightarrow> j \<le> j' \<Longrightarrow> grew k' j' c c'"
  by (elim grewE, rule grewI, assumption, linarith, linarith)

lemma write_extends:
  obtains es where "watches (fst (client_write meta set_meta replace x ns t)) = watches t @ es" "length es \<le> 1"
proof -
  have "\<exists>es. watches (fst (client_write meta set_meta replace x ns t)) = watches t @ es \<and> length es \<le> 1"
    by (simp add: client_write_def tracker_add_def Let_def split: sum.splits)
  then show thesis
    using that by blast
qed

lemma grew_write:
  "grew 1 0 c (with_pods (fst (client_write Meta set_pod_meta replace p ns (cs_pods (client c)))) c)"
  by (rule write_extends [of Meta set_pod_meta replace p ns "cs_pods (client c)"])
    (rule grewI; simp add: pods_bound_def)

lemma createNextPod_grew:
  assumes "createNextPod u c = Inr (c', e)"
  shows "grew 1 0 c c'"
proof -
  have "\<exists>p ns. cs_pods (client c') = fst (pod_create p ns (cs_pods (client c))) \<and> Pods (status c') = Pods (status c)"
    using assms by (auto simp: createNextPod_def Let_def split: prod.splits option.splits) (metis fst_conv)
  then obtain p ns where c': "cs_pods (client c') = fst (pod_create p ns (cs_pods (client c)))" "Pods (status c') = Pods (status c)"
    by blast
  obtain es where "watches (fst (pod_create p ns (cs_pods (client c)))) = watches (cs_pods (client c)) @ es" "length es \<le> 1"
    by (rule write_extends)
  then show ?thesis
    by (intro grewI [where es = es]) (simp_all add: c' pods_bound_def)
qed

lemma Close_grew: "Close c = Inr c' \<Longrightarrow> grew 0 0 c c'"
  by (auto simp: Close_def intro!: grew_same split: if_splits)

lemma send_stop_grew: "send_stop w c = Inr c' \<Longrightarrow> grew 0 0 c c'"
  by (auto simp: send_stop_def intro!: grew_same split: if_splits)

lemma close_stop_grew: "close_stop c = Inr c' \<Longrightarrow> grew 0 0 c c'"
  by (auto simp: close_stop_def intro!: grew_same split: if_splits)

lemma postBindHook_grew:
  assumes "postBindHook u q c = Inr (c', e)"
  shows "grew 1 1 c c'"
proof -
  let ?c = "c\<lparr>status := (status c)\<lparr>Pods := Pods (status c) @ [q]\<rparr>\<rparr>"
  have c: "grew 0 1 c ?c"
    by (rule grewI [where es = "[]"]) (simp_all add: pods_bound_def)
  show ?thesis
  proof (cases "0 < maxSimulated ?c \<and> maxSimulated ?c \<le> simulated ?c")
    case True
    then obtain d where "Close (set_stop_reason (limit_reached (maxSimulated ?c)) ?c) = Inr d" "send_stop Binder_goroutine d = Inr c'"
      using assms by (auto simp: postBindHook_def Let_def split: sum.splits)
    note g = Close_grew [OF this(1)] send_stop_grew [OF this(2)]
    have "grew 0 0 ?c (set_stop_reason (limit_reached (maxSimulated ?c)) ?c)"
      by (rule grew_same) (simp_all add: set_stop_reason_def)
    from grew_trans [OF c grew_trans [OF this grew_trans [OF g]]] show ?thesis
      by (rule grew_mono) simp_all
  next
    case False
    then have "\<exists>e'. createNextPod u ?c = Inr (c', e')"
      using assms by (auto simp: postBindHook_def Let_def split: sum.splits option.splits)
    then obtain e' where "createNextPod u ?c = Inr (c', e')"
      by blast
    from grew_trans [OF c createNextPod_grew [OF this]] show ?thesis
      by simp
  qed
qed

lemma Bind_grew:
  assumes "Bind u p n c = Inr (c', e)"
  shows "grew 2 1 c c'"
proof (cases "tracker_get (pod_ns p) (pod_name p) (cs_pods (client c))")
  case (Inl err)
  then have "c' = c"
    using assms by (simp add: Bind_def)
  then show ?thesis
    using grew_mono [OF grew_same] by simp
next
  case (Inr pod)
  define q where "q = pod\<lparr>Spec := (Spec pod)\<lparr>NodeName := n\<rparr>, PStatus := (PStatus pod)\<lparr>Phase := ''Running''\<rparr>\<rparr>"
  define w where "w = pod_update q (pod_ns pod) (cs_pods (client c))"
  have w: "grew 1 0 c (with_pods (fst w) c)"
    unfolding w_def by (rule grew_write)
  have "Bind u p n c = (case snd w of
      Some e \<Rightarrow> Inr (with_pods (fst w) c, Some (Errorf ''Unable to update binded pod'' e))
    | None \<Rightarrow> (case postBindHook u q (with_pods (fst w) c) of
        Inl p \<Rightarrow> Inl p
      | Inr (c, Some e) \<Rightarrow> Inr (c, Some (Errorf ''Invoking postBindHook gives an error'' e))
      | Inr (c, None) \<Rightarrow> Inr (c, None)))"
    unfolding Bind_def Inr sum.case q_def [symmetric] w_def [symmetric] with_pods_def Let_def split_beta by simp
  then consider "c' = with_pods (fst w) c" | e' where "postBindHook u q (with_pods (fst w) c) = Inr (c', e')"
    using assms by (auto split: option.splits sum.splits)
  then show ?thesis
  proof cases
    case 1
    with w show ?thesis
      using grew_mono by fastforce
  next
    case 2
    from grew_trans [OF w postBindHook_grew [OF 2]] show ?thesis
      by (simp add: numeral_2_eq_2)
  qed
qed

lemma Update_grew: "Update pod cond name c = Inr c' \<Longrightarrow> grew 0 0 c c'"
proof -
  assume u: "Update pod cond name c = Inr c'"
  let ?r = "set_stop_reason (Reason cond @ '': '' @ Message cond) c"
  have r: "grew 0 0 c ?r"
    by (rule grew_same) (simp_all add: set_stop_reason_def)
  show ?thesis
  proof (cases "stop_condition cond \<and> HasAnnotation (Meta pod) podProvisioner")
    case True
    then obtain d where d: "Close ?r = Inr d" "send_stop Informer_goroutine (d\<lparr>stopped := True\<rparr>) = Inr c'"
      using u by (auto simp: Update_def split: sum.splits)
    have "grew 0 0 d (d\<lparr>stopped := True\<rparr>)"
      by (rule grew_same) simp_all
    from grew_trans [OF r grew_trans [OF Close_grew [OF d(1)] grew_trans [OF this send_stop_grew [OF d(2)]]]] show ?thesis
      by simp
  next
    case False
    then show ?thesis
      using u grew_refl by (auto simp: Update_def)
  qed
qed

lemma run_create_grew:
  assumes "run_create u c = Inr (c', e)"
  shows "grew 1 0 c c'"
proof -
  obtain d e' where d: "createNextPod u c = Inr (d, e')" "c' = d \<or> (\<exists>d'. Close d = Inr d' \<and> close_stop d' = Inr c')"
    using assms by (auto simp: run_create_def split: sum.splits option.splits)
  note g = createNextPod_grew [OF d(1)]
  from d(2) show ?thesis
  proof
    assume "\<exists>d'. Close d = Inr d' \<and> close_stop d' = Inr c'"
    then obtain d' where "Close d = Inr d'" "close_stop d' = Inr c'"
      by blast
    from grew_trans [OF g grew_trans [OF Close_grew [OF this(1)] close_stop_grew [OF this(2)]]] show ?thesis
      by simp
  qed (use g in simp)
qed

lemma step_grew:
  assumes "sim_step retry s s'"
  shows "grew 2 1 (cc s) (cc s')"
  using assms
proof cases
  case (create u)
  have "grew 1 0 (cc s) (cc (do_create u s))"
    using run_create_grew [of u "cc s"] grew_mono [OF grew_refl [of "cc s"], of 1 0]
    by (auto simp: do_create_def crash_or_def split: sum.split prod.split option.split)
  with create grew_mono show ?thesis by fastforce
next
  case receive
  have "grew 0 0 (cc s) (cc (do_receive s))"
    by (rule grew_same) (auto simp: do_receive_def crash_or_def Let_def close_stop_def split: sum.split)
  with receive grew_mono show ?thesis by fastforce
next
  case (bind p n u)
  then show ?thesis
    using Bind_grew [of u p n "cc s"] grew_mono [OF grew_refl [of "cc s"], of 2 1]
    by (auto simp: do_bind_def crash_or_def split: sum.split prod.split)
next
  case (mark p r m)
  have "grew 1 0 (cc s) (cc (do_mark (failure_condition r m) p s))"
    using grew_write [of "cc s" True "mark_pod (failure_condition r m) p" "pod_ns p"]
    by (simp add: do_mark_def with_pods_def Let_def case_prod_unfold)
  with mark grew_mono show ?thesis by fastforce
next
  case deliver
  then show ?thesis
    using grew_mono [OF grew_refl [of "cc s"], of 2 1] by simp
next
  case update
  have "grew 0 0 (cc s) (cc (do_update s))"
    using Update_grew grew_refl
    by (auto simp: do_update_def crash_or_def split: sum.split prod.split)
  with update grew_mono show ?thesis by fastforce
qed

section \<open>The invariant of the channel\<close>

lemma watcher_sends:
  "\<not> watcher_stopped w \<Longrightarrow> length (result w) \<le> DefaultChanSize \<Longrightarrow> watcher_run (map Some es) w = Inr w' \<Longrightarrow>
     result w' = result w @ es \<and> \<not> watcher_stopped w' \<and> length (result w') \<le> DefaultChanSize"
proof (induction es arbitrary: w)
  case (Cons e es)
  have "length (result w) < DefaultChanSize" "watcher_run (map Some es) (w\<lparr>result := result w @ [e]\<rparr>) = Inr w'"
    using Cons.prems by (auto simp: watcher_send_def split: if_splits)
  with Cons.IH [of "w\<lparr>result := result w @ [e]\<rparr>"] Cons.prems(1) show ?case
    by auto
qed simp

lemma watcher_closed_sends: "watcher_stopped w \<Longrightarrow> watcher_run (map Some es) w = Inr w"
  by (induction es) (simp_all add: watcher_send_def)

lemma watcher_fails:
  "watcher_run (map Some es) w = Inl p \<Longrightarrow>
     p = Channel_full \<and> \<not> watcher_stopped w \<and> DefaultChanSize < length (result w) + length es"
proof (induction es arbitrary: w)
  case (Cons e es)
  show ?case
  proof (cases "watcher_send e w")
    case (Inl q)
    then show ?thesis
      using Cons.prems by (auto simp: watcher_send_def split: if_splits)
  next
    case (Inr w1)
    then have "watcher_run (map Some es) w1 = Inl p"
      using Cons.prems by simp
    from Cons.IH [OF this] Inr show ?thesis
      by (auto simp: watcher_send_def split: if_splits)
  qed
qed simp

text \<open>The channel holds the events not yet taken; a full channel stops a run of \<open>Sim_Steps\<close> before its next step.\<close>

definition watched_ok :: "bool \<Rightarrow> ClusterCapacity \<Rightarrow> watched \<Rightarrow> bool" where
  "watched_ok retry c0 b \<longleftrightarrow>
     seen (sys b) \<le> got b \<and> got b \<le> length (events_of (sys b)) \<and> length (result (pod_watch b)) \<le> DefaultChanSize \<and>
     (\<exists>dropped. drop (got b) (events_of (sys b)) = result (pod_watch b) @ dropped \<and>
        (\<not> watcher_stopped (pod_watch b) \<longrightarrow> dropped = [])) \<and>
     (reachable retry c0 (sys b) \<or>
        (\<exists>s s'. reachable retry c0 s \<and> sim_step retry s s' \<and> sys b = s\<lparr>crashed := Some Channel_full\<rparr> \<and>
           \<not> watcher_stopped (pod_watch b) \<and> DefaultChanSize + got b < length (events_of s')))"

lemma watched_ok_start: "watched_start c0 b \<Longrightarrow> watched_ok retry c0 b"
  by (auto simp: watched_start_def watched_ok_def initial_system_def intro: reachable.start [unfolded initial_system_def])

lemma watched_ok_reachable: "watched_ok retry c0 b \<Longrightarrow> crashed (sys b) = None \<Longrightarrow> reachable retry c0 (sys b)"
  by (auto simp: watched_ok_def)

lemma step_extends:
  assumes "sim_step retry s s'"
  shows "events_of s' = events_of s @ new_events s s'" "length (new_events s s') \<le> 2"
proof -
  obtain es where "events_of s' = events_of s @ es" "length es \<le> 2"
    using step_grew [OF assms] by (rule grewE)
  then show "events_of s' = events_of s @ new_events s s'" "length (new_events s s') \<le> 2"
    by (simp_all add: new_events_def)
qed

lemma step_not_crashed: "sim_step retry s s' \<Longrightarrow> crashed s = None"
  by (cases rule: sim_step.cases)

lemma watched_ok_step:
  assumes "watched_ok retry c0 b" and "watched_step retry b b'"
  shows "watched_ok retry c0 b'"
  using assms(2)
proof cases
  case (take e w)
  obtain rest where r: "result (pod_watch b) = e # rest" "w = (pod_watch b)\<lparr>result := rest\<rparr>"
    using take(3) by (auto simp: watcher_receive_def split: list.splits)
  obtain dropped where d: "drop (got b) (events_of (sys b)) = e # rest @ dropped"
      "\<not> watcher_stopped (pod_watch b) \<longrightarrow> dropped = []"
    using assms(1) r(1) by (auto simp: watched_ok_def)
  then have "drop (Suc (got b)) (events_of (sys b)) = rest @ dropped" "got b < length (events_of (sys b))"
    by (metis drop_Suc list.sel(3) tl_drop) (metis drop_eq_Nil list.discI not_less d(1))
  then show ?thesis
    using assms(1) d(2) r watched_ok_reachable [OF assms(1) take(2)] take(1) by (auto simp: watched_ok_def)
next
  case close
  then show ?thesis
    using assms(1) watched_ok_reachable [OF assms(1) close(2)] by (auto simp: watched_ok_def watcher_close_def)
next
  case (send s' w)
  have reach: "reachable retry c0 s'"
    using watched_ok_reachable [OF assms(1) step_not_crashed [OF send(2)]] send(2) by (rule reachable.step)
  obtain dropped where d: "drop (got b) (events_of (sys b)) = result (pod_watch b) @ dropped"
      "\<not> watcher_stopped (pod_watch b) \<longrightarrow> dropped = []" "got b \<le> length (events_of (sys b))"
      "length (result (pod_watch b)) \<le> DefaultChanSize"
    using assms(1) by (auto simp: watched_ok_def)
  have e: "drop (got b) (events_of s') = result (pod_watch b) @ dropped @ new_events (sys b) s'"
    using step_extends(1) [OF send(2)] d(1,3) by simp
  have "\<exists>dropped. drop (got b) (events_of s') = result w @ dropped \<and> (\<not> watcher_stopped w \<longrightarrow> dropped = [])"
    "length (result w) \<le> DefaultChanSize"
  proof -
    have "watcher_stopped (pod_watch b) \<Longrightarrow> w = pod_watch b"
      using send(4) by (simp add: watcher_closed_sends)
    moreover have "\<not> watcher_stopped (pod_watch b) \<Longrightarrow> result w = result (pod_watch b) @ new_events (sys b) s' \<and>
        \<not> watcher_stopped w \<and> length (result w) \<le> DefaultChanSize"
      using watcher_sends [OF _ d(4) send(4)] by blast
    ultimately show "\<exists>dropped. drop (got b) (events_of s') = result w @ dropped \<and> (\<not> watcher_stopped w \<longrightarrow> dropped = [])"
      "length (result w) \<le> DefaultChanSize"
      using e d(2,4) by (cases "watcher_stopped (pod_watch b)"; simp)+
  qed
  moreover have "got b \<le> length (events_of s')"
    using step_extends(1) [OF send(2)] d(3) by simp
  ultimately show ?thesis
    using send(1,3) reach by (simp add: watched_ok_def)
next
  case (full s' p)
  note f = watcher_fails [OF full(4)]
  have d: "drop (got b) (events_of (sys b)) = result (pod_watch b)" "got b \<le> length (events_of (sys b))"
    using assms(1) f by (auto simp: watched_ok_def)
  have "length (events_of s') = length (events_of (sys b)) + length (new_events (sys b) s')"
    using step_extends(1) [OF full(2)] by (metis length_append)
  moreover have "length (result (pod_watch b)) + got b = length (events_of (sys b))"
    using d by (metis add.commute le_add_diff_inverse length_drop)
  ultimately have "DefaultChanSize + got b < length (events_of s')"
    using f by linarith
  then show ?thesis
    using assms(1) full(1,2) f watched_ok_reachable [OF assms(1) step_not_crashed [OF full(2)]]
    by (auto simp: watched_ok_def)
qed

lemma watched_ok_all: "watched_reachable retry c0 b \<Longrightarrow> watched_ok retry c0 b"
  by (induction rule: watched_reachable.induct) (auto intro: watched_ok_start watched_ok_step)

section \<open>Runs whose events fit\<close>

text \<open>Every run of \<open>Sim_Steps\<close> that writes at most 10000 events is one under watch.\<close>

lemma step_seen:
  assumes "sim_step retry s s'"
  shows "seen s' = seen s \<or> seen s' = Suc (seen s) \<and> seen s < length (events_of s)"
  using assms
  by cases (auto simp: do_create_def do_receive_def do_bind_def do_mark_def do_update_def crash_or_def Let_def
      split: sum.splits prod.splits option.splits)

lemma channel_holds:
  "watched_ok retry c0 b \<Longrightarrow> \<not> watcher_stopped (pod_watch b) \<Longrightarrow>
     result (pod_watch b) = drop (got b) (events_of (sys b))"
  by (auto simp: watched_ok_def)

lemma watched_send:
  assumes "watched_reachable retry c0 b" and "\<not> watcher_stopped (pod_watch b)"
    and "sim_step retry (sys b) s'" and "seen s' \<le> got b" and "length (events_of s') \<le> DefaultChanSize"
  shows "\<exists>w. watched_reachable retry c0 (b\<lparr>sys := s', pod_watch := w\<rparr>) \<and> \<not> watcher_stopped w"
proof -
  note ok = watched_ok_all [OF assms(1)]
  have "length (result (pod_watch b)) + length (new_events (sys b) s') \<le> DefaultChanSize"
  proof -
    have "length (events_of s') = length (events_of (sys b)) + length (new_events (sys b) s')"
      using step_extends(1) [OF assms(3)] by (metis length_append)
    moreover have "length (result (pod_watch b)) \<le> length (events_of (sys b))"
      by (simp add: channel_holds [OF ok assms(2)])
    ultimately show ?thesis
      using assms(5) by linarith
  qed
  then obtain w where w: "watcher_run (map Some (new_events (sys b) s')) (pod_watch b) = Inr w"
    using watcher_fails [of "new_events (sys b) s'" "pod_watch b"]
    by (cases "watcher_run (map Some (new_events (sys b) s')) (pod_watch b)") auto
  moreover have "\<not> watcher_stopped w"
    using watcher_sends [OF assms(2) _ w] ok by (simp add: watched_ok_def)
  ultimately show ?thesis
    using watched_reachable.step [OF assms(1) watched_step.send [OF assms(3,4) w]] by blast
qed

lemma watched_take:
  assumes "watched_reachable retry c0 b" and "\<not> watcher_stopped (pod_watch b)" and "crashed (sys b) = None"
    and "got b < length (events_of (sys b))"
  shows "\<exists>w. watched_reachable retry c0 (b\<lparr>pod_watch := w, got := Suc (got b)\<rparr>) \<and> \<not> watcher_stopped w"
proof -
  have "result (pod_watch b) = drop (got b) (events_of (sys b))"
    by (rule channel_holds [OF watched_ok_all [OF assms(1)] assms(2)])
  then obtain e es where e: "result (pod_watch b) = e # es"
    using assms(4) by (metis Cons_nth_drop_Suc)
  then have "watcher_receive (pod_watch b) = Some (e, (pod_watch b)\<lparr>result := es\<rparr>)"
    by (simp add: watcher_receive_def)
  from watched_reachable.step [OF assms(1) watched_step.take [OF assms(3) this]] assms(2) show ?thesis
    by (intro exI [of _ "(pod_watch b)\<lparr>result := es\<rparr>"]) simp
qed

lemma reachable_watched:
  assumes "reachable retry c0 s" and "length (events_of s) \<le> DefaultChanSize"
  shows "\<exists>b. watched_reachable retry c0 b \<and> sys b = s \<and> got b = seen s \<and> \<not> watcher_stopped (pod_watch b)"
  using assms
proof (induction rule: reachable.induct)
  case start
  let ?b = "\<lparr>sys = initial_system c0, pod_watch = \<lparr>result = events_of (initial_system c0), watcher_stopped = False\<rparr>, got = 0\<rparr>"
  have "watched_start c0 ?b"
    using start by (simp add: watched_start_def)
  then show ?case
    by (intro exI [of _ ?b]) (auto intro: watched_reachable.start simp: initial_system_def)
next
  case (step s s')
  have "length (events_of s) \<le> DefaultChanSize"
    using step_extends(1) [OF step(2)] step.prems by (metis add_leD1 length_append)
  with step.IH obtain b where b: "watched_reachable retry c0 b" "sys b = s" "got b = seen s" "\<not> watcher_stopped (pod_watch b)"
    by blast
  note cr = step_not_crashed [OF step(2)]
  show ?case
    using step_seen [OF step(2)]
  proof
    assume "seen s' = seen s"
    then show ?thesis
      using watched_send [OF b(1,4), of s'] step(2) step.prems b(2,3) by auto
  next
    assume d: "seen s' = Suc (seen s) \<and> seen s < length (events_of s)"
    then obtain w where "watched_reachable retry c0 (b\<lparr>pod_watch := w, got := Suc (got b)\<rparr>)" "\<not> watcher_stopped w"
      using watched_take [OF b(1,4)] b(2,3) cr by auto
    from watched_send [OF this(1), of s'] this(2) step(2) step.prems d b(2,3) show ?thesis
      by auto
  qed
qed

section \<open>What can make an analysis panic\<close>

lemma full_step:
  assumes "watched_ok retry c0 b" and "crashed (sys b) \<noteq> None"
  obtains "reachable retry c0 (sys b)"
    | s s' where "reachable retry c0 s" "sim_step retry s s'" "sys b = s\<lparr>crashed := Some Channel_full\<rparr>"
      "\<not> watcher_stopped (pod_watch b)" "DefaultChanSize + got b < length (events_of s')"
  using assms(1) unfolding watched_ok_def by blast

lemma never_panics:
  assumes "start_ok c0" and "watched_reachable False c0 b"
  defines "sent_before \<equiv> length (watches (cs_pods (client c0)))" and "counted \<equiv> length (ScheduledPods (cc (sys b)))"
  shows "(crashed (sys b) = None \<or>
      crashed (sys b) = Some Channel_full \<and> 10000 + got b < sent_before + 2 * counted + 4) \<and>
    (0 < maxSimulated c0 \<and> sent_before + 2 * nat (maxSimulated c0) + 2 \<le> 10000 \<longrightarrow> crashed (sys b) = None)"
proof (cases "crashed (sys b) = None")
  case False
  from watched_ok_all [OF assms(2)] False show ?thesis
  proof (cases rule: full_step)
    case 1
    then show ?thesis
      using False analysis_invariant(1) [OF assms(1)] by simp
  next
    case (2 s s')
    have s': "reachable False c0 s'"
      using 2(1,2) by (rule reachable.step)
    then have "events_ok c0 s'"
      using buffered.invariant_reachable assms(1) by (auto simp: start_ok_def)
    then have "length (events_of s') \<le> sent_before + 2 * pods_bound (cc s') + 2"
      by (auto simp: events_ok_def initial_system_def sent_before_def split: if_splits)
    moreover have "pods_bound (cc s') \<le> counted + 1"
      using step_grew [OF 2(2)] 2(3) by (auto simp: grew_def counted_def pods_bound_def ScheduledPods_def)
    moreover have "0 < maxSimulated c0 \<Longrightarrow> pods_bound (cc s') \<le> nat (maxSimulated c0)"
      using pods_below_limit [OF assms(1) s'] by (simp add: pods_bound_def)
    ultimately show ?thesis
      using 2(3,5) by (cases "0 < maxSimulated c0") (simp_all add: DefaultChanSize_def)
  qed
qed simp

text \<open>C5: When the scheduler does not take up again a pod it has given up (C26 says what happens if it does), the only
  panic in an analysis of a quiet cluster is that of a full watch channel: no goroutine sends on the closed channel \<open>stop\<close>
  or closes a channel twice, in whatever order the goroutines run. And for that panic more than 10000 events must have been
  written beyond those the informer has taken, where the copied pods wrote one each and every counted pod at most
  two; with a positive limit, it cannot occur when the copied pods and twice the limit leave room for two more.\<close>

theorem analysis_never_panics:
  assumes "start_ok c0" and "watched_reachable False c0 b"
  defines "sent_before \<equiv> length (watches (cs_pods (client c0)))" and "counted \<equiv> length (ScheduledPods (cc (sys b)))"
  shows "(crashed (sys b) = None \<or>
      crashed (sys b) = Some Channel_full \<and> 10000 + got b < sent_before + 2 * counted + 4) \<and>
    (0 < maxSimulated c0 \<and> sent_before + 2 * nat (maxSimulated c0) + 2 \<le> 10000 \<longrightarrow> crashed (sys b) = None)"
  unfolding sent_before_def counted_def by (rule never_panics [OF assms(1,2)])

theorem analysis_never_panics_witness:
  "\<exists>b. sys b = end_of full_run (small_start [] 3) \<and> watched_reachable False (small_start [] 3) b \<and> crashed (sys b) = None"
proof -
  have "length (events_of (end_of full_run (small_start [] 3))) = 4"
    by code_simp
  then obtain b where b: "watched_reachable False (small_start [] 3) b" "sys b = end_of full_run (small_start [] 3)"
    using reachable_watched [OF full_run_reachable] by (auto simp: DefaultChanSize_def)
  have "maxSimulated (small_start [] 3) = 3" "length (watches (cs_pods (client (small_start [] 3)))) = 0"
    by code_simp+
  with analysis_never_panics [OF small_start_ok(2) b(1)] b show ?thesis
    by auto
qed

text \<open>The state as it was before a full channel stopped the process.\<close>

definition before_full :: "watched \<Rightarrow> system" where
  "before_full b = (if crashed (sys b) = Some Channel_full then (sys b)\<lparr>crashed := None\<rparr> else sys b)"

text \<open>C17:
  Every state of an analysis is well-formed (\<open>shape\<close>), whatever the cluster, the template and the limit, even when the
  scheduler takes up pods again that it has given up, and the channel of the watch on pods holds at most 10000 events:
  those that were written and not yet taken, while it is open. In particular an analysis can panic in two ways only: by a
  send on the closed channel \<open>stop\<close>, or by a write to the open watch channel when it holds at least 9999 events. It never
  closes a channel twice and never writes into a nil map, and \<open>Run\<close> returns exactly when it has closed \<open>stop\<close>.\<close>

theorem analysis_well_formed:
  assumes "New None t m exclude = Inr c" and "SyncWithClient r c = (c0, None)" and "scoped r"
    and "watched_reachable retry c0 b"
  defines "held \<equiv> result (pod_watch b)"
  shows "shape (before_full b) \<and> seen (sys b) \<le> got b \<and> length held \<le> 10000 \<and>
    (\<not> watcher_stopped (pod_watch b) \<longrightarrow> held = drop (got b) (events_of (sys b))) \<and>
    (crashed (sys b) = None \<or> crashed (sys b) = Some Send_on_closed_channel \<or>
     crashed (sys b) = Some Channel_full \<and> \<not> watcher_stopped (pod_watch b) \<and> 9999 \<le> length held)"
proof -
  note ok = watched_ok_all [OF assms(4)]
  have shapes: "shape s" if "reachable retry c0 s" for s
    using shape.invariant_reachable [OF that] synced_shape [OF assms(1-3)] by blast
  have no_full: "shape s \<Longrightarrow> crashed s \<noteq> Some Channel_full" for s
    by (auto simp: shape_def)
  have "shape (before_full b) \<and> (crashed (sys b) = None \<or> crashed (sys b) = Some Send_on_closed_channel \<or>
     crashed (sys b) = Some Channel_full \<and> \<not> watcher_stopped (pod_watch b) \<and> 9999 \<le> length held)"
  proof (cases "reachable retry c0 (sys b)")
    case True
    then show ?thesis
      using shapes [OF True] no_full by (auto simp: before_full_def shape_def)
  next
    case False
    then have "crashed (sys b) \<noteq> None"
      using watched_ok_reachable [OF ok] by blast
    with ok show ?thesis
    proof (cases rule: full_step)
      case 1
      with False show ?thesis by simp
    next
      case (2 s s')
      have "before_full b = s"
        using 2(3) step_not_crashed [OF 2(2)] by (simp add: before_full_def)
      moreover have "length (events_of s') \<le> length (events_of (sys b)) + 2"
        using step_extends [OF 2(2)] 2(3) by (metis (mono_tags, lifting) add_le_cancel_left length_append
            system.select_convs(1) system.surjective system.update_convs(8))
      then have "9999 \<le> length held"
        using 2(5) channel_holds [OF ok 2(4)] by (simp add: held_def DefaultChanSize_def)
      ultimately show ?thesis
        using 2(3,4) shapes [OF 2(1)] by simp
    qed
  qed
  then show ?thesis
    using ok channel_holds [OF ok] by (simp add: watched_ok_def DefaultChanSize_def held_def)
qed

theorem analysis_well_formed_witness:
  "\<exists>b. watched_reachable False (small_start [foreign_pod ''web''] 1) b \<and>
     shape (before_full b) \<and> length (result (pod_watch b)) \<le> 10000 \<and> crashed (sys b) = Some Send_on_closed_channel"
proof -
  let ?ps = "[foreign_pod ''web'']"
  let ?run = "[Create ''u0'', Bind_to ''u1'' (''default'', ''web'') ''n1'', Bind_to ''u2'' (''default'', ''p-0'') ''n1'', Receive]"
  have sync: "SyncWithClient (small_remote ?ps) small_new = (small_start ?ps 1, None)"
    by (rule small_sync) code_simp
  have "perform_all False ?run (initial_system (small_start ?ps 1)) \<noteq> None"
    by code_simp
  then have "reachable False (small_start ?ps 1) (end_of ?run (small_start ?ps 1))"
    by (intro perform_all_reachable) (rule option.collapse [symmetric])
  moreover have facts: "length (events_of (end_of ?run (small_start ?ps 1))) = 4"
    "crashed (end_of ?run (small_start ?ps 1)) = Some Send_on_closed_channel"
    by code_simp+
  ultimately obtain b where b: "watched_reachable False (small_start ?ps 1) b" "sys b = end_of ?run (small_start ?ps 1)"
    using reachable_watched [of False "small_start ?ps 1" "end_of ?run (small_start ?ps 1)"] by (auto simp: DefaultChanSize_def)
  from analysis_well_formed [OF small_synced(1) sync small_synced(3) b(1)] b facts(2) show ?thesis
    by auto
qed

end
