(* ===== verification/Node_Affinity.thy ===== *)
theory Node_Affinity
  imports Labels Quantity_Parse
begin

text \<open>
  Which nodes a pod asks for: its node selector and its required node affinity
  (\<open>component-helpers/scheduling/corev1/nodeaffinity/nodeaffinity.go\<close>), with the requirements of
  \<open>apimachinery/pkg/labels\<close> and the selectors of \<open>apimachinery/pkg/fields\<close> they are turned into. The map of a node
  selector is an association list in the order of its iteration. The paths in parse errors are left out:
  the filter of the scheduler ignores these errors.
\<close>

section \<open>The API types\<close>

record NodeSelectorRequirement =
  ReqKey :: string
  ReqOperator :: string
  ReqValues :: "string list"

record NodeSelectorTerm =
  MatchExpressions :: "NodeSelectorRequirement list"
  MatchFields :: "NodeSelectorRequirement list"

section \<open>Requirements on labels (selector.go)\<close>

datatype selection_operator =
  DoesNotExist | Equals | DoubleEquals | In | NotEquals | NotIn | Exists | GreaterThan | LessThan

record Requirement =
  label_key :: string
  label_operator :: selection_operator
  strValues :: "string list"

definition gt_lt :: string where
  "gt_lt = quoted ''Gt'' @ '', '' @ quoted ''Lt''"

definition integer_values :: "string list \<Rightarrow> go_error list" where
  "integer_values vals =
     map (\<lambda>v. Field_invalid ''values'' v (''for '' @ gt_lt @ '' operators, the value must be an integer'')) (filter (\<lambda>v. ParseInt v = None) vals)"

definition value_errors :: "selection_operator \<Rightarrow> string list \<Rightarrow> go_error list" where
  "value_errors op vals =
     (let invalid = (\<lambda>msg. [Field_invalid ''values'' (join '','' vals) msg]) in
      case op of
        In \<Rightarrow> if length vals = 0 then invalid (''for '' @ quoted ''in'' @ '', '' @ quoted ''notin'' @ '' operators, values set can'' @ [CHR 0x27] @ ''t be empty'') else []
      | NotIn \<Rightarrow> if length vals = 0 then invalid (''for '' @ quoted ''in'' @ '', '' @ quoted ''notin'' @ '' operators, values set can'' @ [CHR 0x27] @ ''t be empty'') else []
      | Exists \<Rightarrow> if length vals \<noteq> 0 then invalid ''values set must be empty for exists and does not exist'' else []
      | DoesNotExist \<Rightarrow> if length vals \<noteq> 0 then invalid ''values set must be empty for exists and does not exist'' else []
      | GreaterThan \<Rightarrow> (if length vals \<noteq> 1 then invalid (''for '' @ gt_lt @ '' operators, exactly one value is required'') else []) @ integer_values vals
      | LessThan \<Rightarrow> (if length vals \<noteq> 1 then invalid (''for '' @ gt_lt @ '' operators, exactly one value is required'') else []) @ integer_values vals
      | _ \<Rightarrow> if length vals \<noteq> 1 then invalid ''exact-match compatibility requires one single value'' else [])"

definition NewRequirement :: "string \<Rightarrow> selection_operator \<Rightarrow> string list \<Rightarrow> go_error list + Requirement" where
  "NewRequirement key op vals =
     (let allErrs = (case validateLabelKey key of None \<Rightarrow> [] | Some e \<Rightarrow> [e]) @ value_errors op vals @
            List.map_filter (validateLabelValue key) vals in
      if allErrs = [] then Inr \<lparr>label_key = key, label_operator = op, strValues = vals\<rparr> else Inl allErrs)"

definition hasValue :: "Requirement \<Rightarrow> string \<Rightarrow> bool" where
  "hasValue r value = list_ex (\<lambda>v. v = value) (strValues r)"

definition Requirement_Matches :: "Requirement \<Rightarrow> (string \<rightharpoonup> string) \<Rightarrow> bool" where
  "Requirement_Matches r ls =
     (let compare = (\<lambda>holds. case ls (label_key r) of None \<Rightarrow> False
        | Some val \<Rightarrow> (case ParseInt val of None \<Rightarrow> False
          | Some lsValue \<Rightarrow> (case strValues r of
              [s] \<Rightarrow> (case ParseInt s of None \<Rightarrow> False | Some rValue \<Rightarrow> holds lsValue rValue)
            | _ \<Rightarrow> False)));
          among = (case ls (label_key r) of None \<Rightarrow> False | Some val \<Rightarrow> hasValue r val);
          not_among = (case ls (label_key r) of None \<Rightarrow> True | Some val \<Rightarrow> \<not> hasValue r val)
      in case label_operator r of
        In \<Rightarrow> among | Equals \<Rightarrow> among | DoubleEquals \<Rightarrow> among
      | NotIn \<Rightarrow> not_among | NotEquals \<Rightarrow> not_among
      | Exists \<Rightarrow> ls (label_key r) \<noteq> None
      | DoesNotExist \<Rightarrow> ls (label_key r) = None
      | GreaterThan \<Rightarrow> compare (\<lambda>l r. l > r)
      | LessThan \<Rightarrow> compare (\<lambda>l r. l < r))"

text \<open>A selector is the list of its requirements, sorted by key. \<open>Nothing\<close> is the selector that matches nothing.\<close>

datatype label_selector = Nothing | Internal "Requirement list"

fun Selector_Add :: "Requirement \<Rightarrow> label_selector \<Rightarrow> label_selector" where
  "Selector_Add r Nothing = Nothing"
| "Selector_Add r (Internal s) = Internal (sort_key label_key (s @ [r]))"

fun Selector_Matches :: "label_selector \<Rightarrow> (string \<rightharpoonup> string) \<Rightarrow> bool" where
  "Selector_Matches Nothing ls = False"
| "Selector_Matches (Internal s) ls = list_all (\<lambda>r. Requirement_Matches r ls) s"

definition SelectorFromSet :: "(string \<times> string) list \<Rightarrow> label_selector" where
  "SelectorFromSet ls =
     Internal (sort_key label_key (map (\<lambda>(label, value). \<lparr>label_key = label, label_operator = Equals, strValues = [value]\<rparr>) ls))"

section \<open>Selectors on fields (fields/selector.go)\<close>

datatype field_selector = No_fields | HasTerm string string | NotHasTerm string string | AndTerm "field_selector list"

definition Fields_Get :: "(string \<times> string) list \<Rightarrow> string \<Rightarrow> string" where
  "Fields_Get ls field = (case map_of ls field of None \<Rightarrow> [] | Some v \<Rightarrow> v)"

fun Field_Matches :: "field_selector \<Rightarrow> (string \<times> string) list \<Rightarrow> bool" where
  "Field_Matches No_fields ls = False"
| "Field_Matches (HasTerm field value) ls = (Fields_Get ls field = value)"
| "Field_Matches (NotHasTerm field value) ls = (Fields_Get ls field \<noteq> value)"
| "Field_Matches (AndTerm t) ls = list_all (\<lambda>q. Field_Matches q ls) t"

section \<open>Terms\<close>

definition unsupported :: "string \<Rightarrow> go_error" where
  "unsupported op = Field_invalid ''operator'' op ''supported values: ''"

definition operator_of :: "string \<Rightarrow> selection_operator option" where
  "operator_of op =
     map_of [(''In'', In), (''NotIn'', NotIn), (''Exists'', Exists), (''DoesNotExist'', DoesNotExist),
       (''Gt'', GreaterThan), (''Lt'', LessThan)] op"

fun add_expressions :: "NodeSelectorRequirement list \<Rightarrow> go_error list \<Rightarrow> label_selector \<Rightarrow> go_error list \<times> label_selector" where
  "add_expressions [] errs selector = (errs, selector)"
| "add_expressions (expr # nsm) errs selector =
     (case operator_of (ReqOperator expr) of
        None \<Rightarrow> add_expressions nsm (errs @ [unsupported (ReqOperator expr)]) selector
      | Some op \<Rightarrow>
          (case NewRequirement (ReqKey expr) op (ReqValues expr) of
             Inl err \<Rightarrow> add_expressions nsm (errs @ err) selector
           | Inr r \<Rightarrow> add_expressions nsm errs (Selector_Add r selector)))"

definition nodeSelectorRequirementsAsSelector :: "NodeSelectorRequirement list \<Rightarrow> go_error list + label_selector" where
  "nodeSelectorRequirementsAsSelector nsm =
     (if length nsm = 0 then Inr Nothing
      else (case add_expressions nsm [] (Internal []) of (errs, selector) \<Rightarrow>
        if length errs \<noteq> 0 then Inl errs else Inr selector))"

fun add_fields :: "NodeSelectorRequirement list \<Rightarrow> go_error list \<Rightarrow> field_selector list \<Rightarrow> go_error list \<times> field_selector list" where
  "add_fields [] errs selectors = (errs, selectors)"
| "add_fields (expr # nsr) errs selectors =
     (let one = (\<lambda>f. case ReqValues expr of
            [v] \<Rightarrow> add_fields nsr errs (selectors @ [f (ReqKey expr) v])
          | vs \<Rightarrow> add_fields nsr (errs @ [Field_invalid ''values'' (join '','' vs) ''must have one element'']) selectors)
      in if ReqOperator expr = ''In'' then one HasTerm
         else if ReqOperator expr = ''NotIn'' then one NotHasTerm
         else add_fields nsr (errs @ [unsupported (ReqOperator expr)]) selectors)"

definition nodeSelectorRequirementsAsFieldSelector :: "NodeSelectorRequirement list \<Rightarrow> go_error list + field_selector" where
  "nodeSelectorRequirementsAsFieldSelector nsr =
     (if length nsr = 0 then Inr No_fields
      else (case add_fields nsr [] [] of (errs, selectors) \<Rightarrow>
        if length errs \<noteq> 0 then Inl errs else Inr (AndTerm selectors)))"

record nodeSelectorTerm =
  matchLabels :: "label_selector option"
  matchFields :: "field_selector option"
  parseErrs :: "go_error list"

definition newNodeSelectorTerm :: "NodeSelectorTerm \<Rightarrow> nodeSelectorTerm" where
  "newNodeSelectorTerm term =
     (let (ml, e1) = (if length (MatchExpressions term) \<noteq> 0
            then (case nodeSelectorRequirementsAsSelector (MatchExpressions term) of Inl errs \<Rightarrow> (None, errs) | Inr s \<Rightarrow> (Some s, []))
            else (None, []));
          (mf, e2) = (if length (MatchFields term) \<noteq> 0
            then (case nodeSelectorRequirementsAsFieldSelector (MatchFields term) of Inl errs \<Rightarrow> (None, errs) | Inr s \<Rightarrow> (Some s, []))
            else (None, []))
      in \<lparr>matchLabels = ml, matchFields = mf, parseErrs = e1 @ e2\<rparr>)"

definition term_match :: "nodeSelectorTerm \<Rightarrow> (string \<rightharpoonup> string) \<Rightarrow> (string \<times> string) list \<Rightarrow> bool \<times> go_error list" where
  "term_match t nodeLabels nodeFields =
     (if parseErrs t \<noteq> [] then (False, parseErrs t)
      else if (case matchLabels t of None \<Rightarrow> False | Some s \<Rightarrow> \<not> Selector_Matches s nodeLabels) then (False, [])
      else if (case matchFields t of None \<Rightarrow> False | Some s \<Rightarrow> length nodeFields > 0 \<and> \<not> Field_Matches s nodeFields) then (False, [])
      else (True, []))"

definition isEmptyNodeSelectorTerm :: "NodeSelectorTerm \<Rightarrow> bool" where
  "isEmptyNodeSelectorTerm term \<longleftrightarrow> length (MatchExpressions term) = 0 \<and> length (MatchFields term) = 0"

definition extractNodeFields :: "string \<Rightarrow> (string \<times> string) list" where
  "extractNodeFields name = (if length name > 0 then [(''metadata.name'', name)] else [])"

section \<open>Node selectors and required affinity\<close>

definition NewLazyErrorNodeSelector :: "NodeSelectorTerm list \<Rightarrow> nodeSelectorTerm list" where
  "NewLazyErrorNodeSelector terms = map newNodeSelectorTerm (filter (\<lambda>t. \<not> isEmptyNodeSelectorTerm t) terms)"

fun match_terms :: "nodeSelectorTerm list \<Rightarrow> (string \<rightharpoonup> string) \<Rightarrow> (string \<times> string) list \<Rightarrow> go_error list \<Rightarrow> bool \<times> go_error list" where
  "match_terms [] nodeLabels nodeFields errs = (False, errs)"
| "match_terms (t # terms) nodeLabels nodeFields errs =
     (let (match, tErrs) = term_match t nodeLabels nodeFields in
      if length tErrs > 0 then match_terms terms nodeLabels nodeFields (errs @ tErrs)
      else if match then (True, []) else match_terms terms nodeLabels nodeFields errs)"

definition Lazy_Match :: "nodeSelectorTerm list \<Rightarrow> (string \<rightharpoonup> string) \<Rightarrow> string \<Rightarrow> bool \<times> go_error list" where
  "Lazy_Match terms nodeLabels name = match_terms terms nodeLabels (extractNodeFields name) []"

definition NewNodeSelector :: "NodeSelectorTerm list \<Rightarrow> go_error list + nodeSelectorTerm list" where
  "NewNodeSelector terms =
     (let lazy = NewLazyErrorNodeSelector terms; errs = concat (map parseErrs lazy) in
      if length errs \<noteq> 0 then Inl errs else Inr lazy)"

definition NodeSelector_Match :: "nodeSelectorTerm list \<Rightarrow> (string \<rightharpoonup> string) \<Rightarrow> string \<Rightarrow> bool" where
  "NodeSelector_Match ns nodeLabels name = fst (Lazy_Match ns nodeLabels name)"

record RequiredNodeAffinity =
  labelSelector :: "label_selector option"
  lazySelector :: "nodeSelectorTerm list option"

definition NewRequiredNodeAffinity :: "(string \<times> string) list \<Rightarrow> NodeSelectorTerm list option \<Rightarrow> RequiredNodeAffinity" where
  "NewRequiredNodeAffinity selector required =
     \<lparr>labelSelector = (if length selector > 0 then Some (SelectorFromSet selector) else None),
      lazySelector = map_option NewLazyErrorNodeSelector required\<rparr>"

definition Required_Match :: "RequiredNodeAffinity \<Rightarrow> (string \<rightharpoonup> string) \<Rightarrow> string \<Rightarrow> bool \<times> go_error list" where
  "Required_Match s nodeLabels name =
     (if (case labelSelector s of None \<Rightarrow> False | Some l \<Rightarrow> \<not> Selector_Matches l nodeLabels) then (False, [])
      else (case lazySelector s of None \<Rightarrow> (True, []) | Some ns \<Rightarrow> Lazy_Match ns nodeLabels name))"

section \<open>What a selector asks\<close>

text \<open>A requirement that the parser takes, and what it asks of the labels of a node or of the node's name.\<close>

definition known_value :: "NodeSelectorRequirement \<Rightarrow> bool" where
  "known_value e \<longleftrightarrow>
     (let op = ReqOperator e; vs = ReqValues e in
      if op = ''In'' \<or> op = ''NotIn'' then vs \<noteq> []
      else if op = ''Exists'' \<or> op = ''DoesNotExist'' then vs = []
      else (op = ''Gt'' \<or> op = ''Lt'') \<and> (case vs of [v] \<Rightarrow> ParseInt v \<noteq> None | _ \<Rightarrow> False))"

definition expression_ok :: "NodeSelectorRequirement \<Rightarrow> bool" where
  "expression_ok e \<longleftrightarrow>
     known_value e \<and> IsLabelKey (ReqKey e) = [] \<and> list_all (\<lambda>v. IsLabelValue v = []) (ReqValues e)"

definition asks :: "NodeSelectorRequirement \<Rightarrow> string option \<Rightarrow> bool" where
  "asks e value \<longleftrightarrow>
     (let op = ReqOperator e; vs = ReqValues e in
      if op = ''In'' then (case value of None \<Rightarrow> False | Some v \<Rightarrow> v \<in> set vs)
      else if op = ''NotIn'' then (case value of None \<Rightarrow> True | Some v \<Rightarrow> v \<notin> set vs)
      else if op = ''Exists'' then value \<noteq> None
      else if op = ''DoesNotExist'' then value = None
      else (case (Option.bind value ParseInt, ParseInt (hd vs)) of
          (Some i, Some k) \<Rightarrow> (if op = ''Gt'' then k < i else i < k)
        | _ \<Rightarrow> False))"

definition field_ok :: "NodeSelectorRequirement \<Rightarrow> bool" where
  "field_ok e \<longleftrightarrow> (ReqOperator e = ''In'' \<or> ReqOperator e = ''NotIn'') \<and> length (ReqValues e) = 1"

definition field_asks :: "NodeSelectorRequirement \<Rightarrow> string \<Rightarrow> bool" where
  "field_asks e name \<longleftrightarrow>
     ((if ReqKey e = ''metadata.name'' then name else []) = hd (ReqValues e)) = (ReqOperator e = ''In'')"

definition selects :: "NodeSelectorTerm \<Rightarrow> (string \<rightharpoonup> string) \<Rightarrow> string \<Rightarrow> bool" where
  "selects t ls name \<longleftrightarrow>
     (MatchExpressions t \<noteq> [] \<or> MatchFields t \<noteq> []) \<and>
     list_all (\<lambda>e. expression_ok e \<and> asks e (ls (ReqKey e))) (MatchExpressions t) \<and>
     list_all (\<lambda>e. field_ok e \<and> (name \<noteq> [] \<longrightarrow> field_asks e name)) (MatchFields t)"

lemma operator_cases:
  obtains op where "operator_of (ReqOperator e) = Some op"
      "(op, ReqOperator e) \<in> {(In, ''In''), (NotIn, ''NotIn''), (Exists, ''Exists''), (DoesNotExist, ''DoesNotExist''),
        (GreaterThan, ''Gt''), (LessThan, ''Lt'')}"
    | "operator_of (ReqOperator e) = None" "\<not> expression_ok e"
proof (cases "operator_of (ReqOperator e)")
  case None
  then have "\<not> known_value e"
    by (auto simp: operator_of_def known_value_def Let_def split: if_splits)
  with None that(2) show thesis
    by (simp add: expression_ok_def)
next
  case (Some op)
  then have "(op, ReqOperator e) \<in> {(In, ''In''), (NotIn, ''NotIn''), (Exists, ''Exists''), (DoesNotExist, ''DoesNotExist''),
      (GreaterThan, ''Gt''), (LessThan, ''Lt'')}"
    by (simp add: operator_of_def split: if_splits)
  with Some that(1) show thesis
    by blast
qed

lemma integer_values_none: "integer_values vals = [] \<longleftrightarrow> list_all (\<lambda>v. ParseInt v \<noteq> None) vals"
  by (auto simp: integer_values_def filter_empty_conv list_all_iff)

lemma map_filter_none: "List.map_filter f xs = [] \<longleftrightarrow> list_all (\<lambda>x. f x = None) xs"
  by (induction xs) (auto simp: map_filter_simps split: option.splits)

lemma NewRequirement_ok:
  assumes "operator_of (ReqOperator e) = Some op"
  shows "expression_ok e \<Longrightarrow> NewRequirement (ReqKey e) op (ReqValues e) =
      Inr \<lparr>label_key = ReqKey e, label_operator = op, strValues = ReqValues e\<rparr>"
    and "\<not> expression_ok e \<Longrightarrow> \<exists>errs. errs \<noteq> [] \<and> NewRequirement (ReqKey e) op (ReqValues e) = Inl errs"
proof -
  have "value_errors op (ReqValues e) = [] \<longleftrightarrow> known_value e"
    by (rule operator_cases [of e]; cases "ReqValues e"; cases "tl (ReqValues e)")
      (use assms in \<open>auto simp: value_errors_def known_value_def integer_values_none Let_def expression_ok_def split: list.splits\<close>)
  then have "value_errors op (ReqValues e) = [] \<and> validateLabelKey (ReqKey e) = None \<and>
      List.map_filter (validateLabelValue (ReqKey e)) (ReqValues e) = [] \<longleftrightarrow> expression_ok e"
    by (auto simp: expression_ok_def validateLabelKey_def validateLabelValue_def map_filter_none list_all_iff)
  then show "expression_ok e \<Longrightarrow> NewRequirement (ReqKey e) op (ReqValues e) =
      Inr \<lparr>label_key = ReqKey e, label_operator = op, strValues = ReqValues e\<rparr>"
    and "\<not> expression_ok e \<Longrightarrow> \<exists>errs. errs \<noteq> [] \<and> NewRequirement (ReqKey e) op (ReqValues e) = Inl errs"
    by (auto simp: NewRequirement_def Let_def split: option.splits)
qed

lemma Requirement_asks:
  assumes "operator_of (ReqOperator e) = Some op" and "expression_ok e"
  shows "Requirement_Matches \<lparr>label_key = ReqKey e, label_operator = op, strValues = ReqValues e\<rparr> ls \<longleftrightarrow>
    asks e (ls (ReqKey e))"
  by (rule operator_cases [of e]; cases "ls (ReqKey e)")
    (use assms in \<open>auto simp: Requirement_Matches_def asks_def hasValue_def expression_ok_def known_value_def list_ex_iff
      Let_def split: option.splits list.splits\<close>)

lemma add_expressions_meaning:
  "length (fst (add_expressions nsm errs (Internal s))) = 0 \<longleftrightarrow> errs = [] \<and> list_all expression_ok nsm"
  "list_all expression_ok nsm \<Longrightarrow>
     Selector_Matches (snd (add_expressions nsm errs (Internal s))) ls \<longleftrightarrow>
     Selector_Matches (Internal s) ls \<and> list_all (\<lambda>e. asks e (ls (ReqKey e))) nsm"
proof (induction nsm arbitrary: errs s)
  case (Cons e nsm)
  {
    case 1
    show ?case
    proof (rule operator_cases [of e])
      fix op assume op: "operator_of (ReqOperator e) = Some op"
      show ?thesis
        using NewRequirement_ok [OF op] Cons.IH(1) by (cases "expression_ok e") (auto simp: op)
    qed (use Cons.IH(1) in simp)
  next
    case 2
    then have e: "expression_ok e" "list_all expression_ok nsm"
      by simp_all
    then obtain op where op: "operator_of (ReqOperator e) = Some op"
      using operator_cases [of e] by blast
    show ?case
      using Cons.IH(2) [OF e(2)] by (auto simp: op NewRequirement_ok(1) [OF op e(1)] Requirement_asks [OF op e(1)] list_all_iff)
  }
qed simp_all

lemma add_fields_meaning:
  "length (fst (add_fields nsr errs fs)) = 0 \<longleftrightarrow> errs = [] \<and> list_all field_ok nsr"
  "list_all field_ok nsr \<Longrightarrow> name \<noteq> [] \<Longrightarrow>
     list_all (\<lambda>q. Field_Matches q (extractNodeFields name)) (snd (add_fields nsr errs fs)) \<longleftrightarrow>
     list_all (\<lambda>q. Field_Matches q (extractNodeFields name)) fs \<and> list_all (\<lambda>e. field_asks e name) nsr"
proof (induction nsr arbitrary: errs fs)
  case (Cons e nsr)
  {
    case 1
    show ?case
      using Cons.IH(1) by (auto simp: field_ok_def Let_def split: list.split)
  next
    case 2
    then obtain v where v: "ReqValues e = [v]" "ReqOperator e = ''In'' \<or> ReqOperator e = ''NotIn''"
      by (auto simp: field_ok_def length_Suc_conv)
    have "list_all field_ok nsr" "name \<noteq> []"
      using 2 by simp_all
    note IH = Cons.IH(2) [OF this]
    have "Field_Matches (HasTerm (ReqKey e) v) (extractNodeFields name) \<longleftrightarrow> (if ReqKey e = ''metadata.name'' then name else []) = v"
      "Field_Matches (NotHasTerm (ReqKey e) v) (extractNodeFields name) \<longleftrightarrow> (if ReqKey e = ''metadata.name'' then name else []) \<noteq> v"
      using 2(2) by (auto simp: Fields_Get_def extractNodeFields_def)
    then show ?case
      using v by (auto simp: IH field_asks_def simp del: Field_Matches.simps)
  }
qed simp_all

lemma term_match_meaning:
  assumes "\<not> isEmptyNodeSelectorTerm t"
  shows "fst (term_match (newNodeSelectorTerm t) ls (extractNodeFields name)) \<longleftrightarrow> selects t ls name"
    and "fst (term_match (newNodeSelectorTerm t) ls (extractNodeFields name)) \<Longrightarrow>
      snd (term_match (newNodeSelectorTerm t) ls (extractNodeFields name)) = []"
proof -
  define E where "E = add_expressions (MatchExpressions t) [] (Internal [])"
  define F where "F = add_fields (MatchFields t) [] []"
  have E: "fst E = [] \<longleftrightarrow> list_all expression_ok (MatchExpressions t)"
    "list_all expression_ok (MatchExpressions t) \<Longrightarrow> Selector_Matches (snd E) ls \<longleftrightarrow> list_all (\<lambda>e. asks e (ls (ReqKey e))) (MatchExpressions t)"
    using add_expressions_meaning [of "MatchExpressions t" "[]" "[]"] by (simp_all add: E_def)
  have F: "fst F = [] \<longleftrightarrow> list_all field_ok (MatchFields t)"
    "list_all field_ok (MatchFields t) \<Longrightarrow> name \<noteq> [] \<Longrightarrow>
      list_all (\<lambda>q. Field_Matches q (extractNodeFields name)) (snd F) \<longleftrightarrow> list_all (\<lambda>e. field_asks e name) (MatchFields t)"
    using add_fields_meaning(1) [of "MatchFields t" "[]" "[]"] add_fields_meaning(2) [of "MatchFields t" name "[]" "[]"]
    by (simp_all add: F_def)
  have fields: "length (extractNodeFields name) > 0 \<longleftrightarrow> name \<noteq> []"
    by (simp add: extractNodeFields_def)
  have new: "newNodeSelectorTerm t =
      \<lparr>matchLabels = (if MatchExpressions t \<noteq> [] \<and> fst E = [] then Some (snd E) else None),
       matchFields = (if MatchFields t \<noteq> [] \<and> fst F = [] then Some (AndTerm (snd F)) else None),
       parseErrs = (if MatchExpressions t \<noteq> [] then fst E else []) @ (if MatchFields t \<noteq> [] then fst F else [])\<rparr>"
    by (auto simp: newNodeSelectorTerm_def nodeSelectorRequirementsAsSelector_def
        nodeSelectorRequirementsAsFieldSelector_def E_def F_def split: prod.splits)
  show "fst (term_match (newNodeSelectorTerm t) ls (extractNodeFields name)) \<longleftrightarrow> selects t ls name"
  proof -
    have "selects t ls name \<longleftrightarrow> list_all expression_ok (MatchExpressions t) \<and> list_all field_ok (MatchFields t) \<and>
        list_all (\<lambda>e. asks e (ls (ReqKey e))) (MatchExpressions t) \<and>
        (name \<noteq> [] \<longrightarrow> list_all (\<lambda>e. field_asks e name) (MatchFields t))"
      using assms by (auto simp: selects_def isEmptyNodeSelectorTerm_def list_all_iff)
    also have "\<dots> \<longleftrightarrow> fst E = [] \<and> fst F = [] \<and> Selector_Matches (snd E) ls \<and>
        (name \<noteq> [] \<longrightarrow> Field_Matches (AndTerm (snd F)) (extractNodeFields name))"
      using E F by auto
    also have "\<dots> \<longleftrightarrow> fst (term_match (newNodeSelectorTerm t) ls (extractNodeFields name))"
    proof -
      have "MatchExpressions t = [] \<Longrightarrow> E = ([], Internal [])" "MatchFields t = [] \<Longrightarrow> F = ([], [])"
        by (simp_all add: E_def F_def)
      then show ?thesis
        unfolding term_match_def new fields by auto
    qed
    finally show ?thesis
      by simp
  qed
  show "fst (term_match (newNodeSelectorTerm t) ls (extractNodeFields name)) \<Longrightarrow>
      snd (term_match (newNodeSelectorTerm t) ls (extractNodeFields name)) = []"
    by (auto simp: term_match_def split: if_splits)
qed

lemma match_terms_meaning:
  "list_all (\<lambda>t. \<not> isEmptyNodeSelectorTerm t) ts \<Longrightarrow>
     fst (match_terms (map newNodeSelectorTerm ts) ls (extractNodeFields name) errs) \<longleftrightarrow> list_ex (\<lambda>t. selects t ls name) ts"
proof (induction ts arbitrary: errs)
  case (Cons t ts)
  then show ?case
    using term_match_meaning [of t ls name]
    by (cases "term_match (newNodeSelectorTerm t) ls (extractNodeFields name)") (auto simp: Let_def)
qed simp

lemma Lazy_Match_meaning:
  "fst (Lazy_Match (NewLazyErrorNodeSelector terms) ls name) \<longleftrightarrow> list_ex (\<lambda>t. selects t ls name) terms"
proof -
  have "list_ex (\<lambda>t. selects t ls name) (filter (\<lambda>t. \<not> isEmptyNodeSelectorTerm t) terms) \<longleftrightarrow> list_ex (\<lambda>t. selects t ls name) terms"
    by (auto simp: list_ex_iff selects_def isEmptyNodeSelectorTerm_def)
  then show ?thesis
    using match_terms_meaning [of "filter (\<lambda>t. \<not> isEmptyNodeSelectorTerm t) terms"]
    by (simp add: Lazy_Match_def NewLazyErrorNodeSelector_def list_all_iff)
qed

lemma Required_Match_meaning:
  "fst (Required_Match (NewRequiredNodeAffinity selector required) ls name) \<longleftrightarrow>
     list_all (\<lambda>(k, v). ls k = Some v) selector \<and>
     (case required of None \<Rightarrow> True | Some terms \<Rightarrow> list_ex (\<lambda>t. selects t ls name) terms)"
proof -
  have "Requirement_Matches \<lparr>label_key = k, label_operator = Equals, strValues = [v]\<rparr> ls \<longleftrightarrow> ls k = Some v" for k v
    by (auto simp: Requirement_Matches_def hasValue_def split: option.splits)
  then have "Selector_Matches (SelectorFromSet selector) ls \<longleftrightarrow> list_all (\<lambda>(k, v). ls k = Some v) selector"
    by (simp add: SelectorFromSet_def list_all_iff case_prod_beta)
  then show ?thesis
    by (auto simp: Required_Match_def NewRequiredNodeAffinity_def Lazy_Match_meaning split: option.splits)
qed

end
