(* ===== verification/Node_Filters.thy ===== *)
theory Node_Filters
  imports Node_Fit Node_Affinity
begin

text \<open>
  The filters of the scheduler that look at a node and a pod alone: \<open>NodeName\<close>, \<open>NodeUnschedulable\<close>,
  \<open>TaintToleration\<close>, \<open>NodeAffinity\<close>, \<open>NodePorts\<close> and, from theory \<open>Node_Fit\<close>, \<open>NodeResourcesFit\<close>, run one after the other
  as \<open>RunFilterPlugins\<close> of \<open>framework/runtime/framework.go\<close> does. The last part says how many copies of a pod they
  let onto a node. A filter that its \<open>PreFilter\<close> skips (a pod without host ports, a pod whose resize
  is deferred) is one that accepts; the pods of an analysis have no resize.
\<close>

section \<open>Taints and tolerations\<close>

record Taint =
  TaintKey :: string
  TaintValue :: string
  TaintEffect :: string

record Toleration =
  TolKey :: string
  TolOperator :: string
  TolValue :: string
  TolEffect :: string

definition decimalIntegerErrMsg :: string where
  "decimalIntegerErrMsg = ''must be a valid decimal integer in canonical form''"

definition IsDecimalInteger :: "string \<Rightarrow> string list" where
  "IsDecimalInteger val =
     (if val = [] then [EmptyError]
      else if hd val = CHR ''-'' \<and> length val = 1 then [decimalIntegerErrMsg]
      else (let i = (if hd val = CHR ''-'' then 1 else 0) in
        if val ! i = CHR ''0'' then (if length val = 1 \<and> i = 0 then [] else [decimalIntegerErrMsg])
        else if \<not> is_digit (val ! i) then [decimalIntegerErrMsg]
        else if list_all is_digit (drop (Suc i) val) then [] else [decimalIntegerErrMsg]))"

definition compareNumericValues :: "string \<Rightarrow> string \<Rightarrow> string \<Rightarrow> bool" where
  "compareNumericValues tolerationVal taintVal op =
     (if IsDecimalInteger tolerationVal \<noteq> [] then False
      else (case ParseInt tolerationVal of None \<Rightarrow> False
        | Some tVal \<Rightarrow>
            if IsDecimalInteger taintVal \<noteq> [] then False
            else (case ParseInt taintVal of None \<Rightarrow> False
              | Some tntVal \<Rightarrow>
                  if op = ''Lt'' then tntVal < tVal else if op = ''Gt'' then tVal < tntVal else False)))"

definition ToleratesTaint :: "Toleration \<Rightarrow> Taint \<Rightarrow> bool \<Rightarrow> bool" where
  "ToleratesTaint t taint enableComparisonOperators =
     (if TolEffect t \<noteq> [] \<and> TolEffect t \<noteq> TaintEffect taint then False
      else if TolKey t \<noteq> [] \<and> TolKey t \<noteq> TaintKey taint then False
      else if TolOperator t = [] \<or> TolOperator t = ''Equal'' then TolValue t = TaintValue taint
      else if TolOperator t = ''Exists'' then True
      else if TolOperator t = ''Lt'' \<or> TolOperator t = ''Gt'' then
        (if \<not> enableComparisonOperators then False
         else compareNumericValues (TolValue t) (TaintValue taint) (TolOperator t))
      else False)"

definition TolerationsTolerateTaint :: "Toleration list \<Rightarrow> Taint \<Rightarrow> bool \<Rightarrow> bool" where
  "TolerationsTolerateTaint tolerations taint enable = list_ex (\<lambda>t. ToleratesTaint t taint enable) tolerations"

definition FindMatchingUntoleratedTaint ::
    "Taint list \<Rightarrow> Toleration list \<Rightarrow> (Taint \<Rightarrow> bool) \<Rightarrow> bool \<Rightarrow> Taint option" where
  "FindMatchingUntoleratedTaint taints tolerations inclusionFilter enable =
     find (\<lambda>taint. \<not> TolerationsTolerateTaint tolerations taint enable) (filter inclusionFilter taints)"

definition DoNotScheduleTaintsFilterFunc :: "Taint \<Rightarrow> bool" where
  "DoNotScheduleTaintsFilterFunc t \<longleftrightarrow> TaintEffect t = ''NoSchedule'' \<or> TaintEffect t = ''NoExecute''"

section \<open>Host ports\<close>

record ContainerPort =
  HostIP :: string
  Protocol :: string
  HostPort :: int

type_synonym HostPortInfo = "(string \<times> (string \<times> int) list) list"

definition DefaultBindAllHostIP :: string where
  "DefaultBindAllHostIP = ''0.0.0.0''"

definition sanitize :: "string \<Rightarrow> string \<Rightarrow> string \<times> string" where
  "sanitize ip protocol =
     (if ip = [] then DefaultBindAllHostIP else ip, if protocol = [] then ''TCP'' else protocol)"

definition NewProtocolPort :: "string \<Rightarrow> int \<Rightarrow> string \<times> int" where
  "NewProtocolPort protocol port = (if protocol = [] then ''TCP'' else protocol, port)"

definition AddPort :: "string \<Rightarrow> string \<Rightarrow> int \<Rightarrow> HostPortInfo \<Rightarrow> HostPortInfo" where
  "AddPort ip protocol port h =
     (if port \<le> 0 then h
      else (let (ip, protocol) = sanitize ip protocol; pp = NewProtocolPort protocol port in
        case map_of h ip of
          None \<Rightarrow> alist_put ip [pp] h
        | Some m \<Rightarrow> alist_put ip (if pp \<in> set m then m else m @ [pp]) h))"

definition CheckConflict :: "string \<Rightarrow> string \<Rightarrow> int \<Rightarrow> HostPortInfo \<Rightarrow> bool" where
  "CheckConflict ip protocol port h =
     (if port \<le> 0 then False
      else (let (ip, protocol) = sanitize ip protocol; pp = NewProtocolPort protocol port in
        if ip = DefaultBindAllHostIP then list_ex (\<lambda>(_, m). pp \<in> set m) h
        else list_ex (\<lambda>key. case map_of h key of None \<Rightarrow> False | Some m \<Rightarrow> pp \<in> set m) [DefaultBindAllHostIP, ip]))"

text \<open>
  What the filters read of a pod besides its name of a node and its request: its node selector, the terms of its
  required node affinity, its tolerations, and per container its ports. An init container comes with whether
  it restarts always. \<open>AddedSelector\<close> is the node affinity the configuration of the scheduler adds to every pod.
\<close>

record constraints =
  PodSelector :: "(string \<times> string) list option"
  RequiredTerms :: "NodeSelectorTerm list option"
  AddedSelector :: "nodeSelectorTerm list option"
  Tolerations :: "Toleration list"
  InitPorts :: "(bool \<times> ContainerPort list) list"
  Ports :: "ContainerPort list list"

definition GetHostPorts :: "constraints \<Rightarrow> ContainerPort list" where
  "GetHostPorts c =
     concat (map (\<lambda>(always, ports). if \<not> always then [] else filter (\<lambda>p. 0 < HostPort p) ports) (InitPorts c)) @
     concat (map (filter (\<lambda>p. 0 < HostPort p)) (Ports c))"

definition fitsPorts :: "ContainerPort list \<Rightarrow> HostPortInfo \<Rightarrow> bool" where
  "fitsPorts wantPorts portsInUse = list_all (\<lambda>cp. \<not> CheckConflict (HostIP cp) (Protocol cp) (HostPort cp) portsInUse) wantPorts"

definition updateUsedPorts :: "ContainerPort list \<Rightarrow> HostPortInfo \<Rightarrow> HostPortInfo" where
  "updateUsedPorts ports h = fold (\<lambda>p. AddPort (HostIP p) (Protocol p) (HostPort p)) ports h"

section \<open>The filters\<close>

datatype filter_status = Accepted | Unschedulable "string list" | UnschedulableAndUnresolvable "string list"

record node_state =
  Info :: NodeInfo
  UsedPorts :: HostPortInfo
  Cordoned :: bool
  Taints :: "Taint list"
  NodeLabels :: "string \<rightharpoonup> string"

definition NodeName_Filter :: "Pod \<Rightarrow> node_state \<Rightarrow> filter_status" where
  "NodeName_Filter pod n =
     (if \<not> (length (pod_node pod) = 0 \<or> pod_node pod = node_name (Info n))
      then UnschedulableAndUnresolvable [''node(s) didn'' @ [CHR 39] @ ''t match the requested node name''] else Accepted)"

definition NodeUnschedulable_Filter :: "bool \<Rightarrow> constraints \<Rightarrow> node_state \<Rightarrow> filter_status" where
  "NodeUnschedulable_Filter enable c n =
     (if \<not> Cordoned n then Accepted
      else if \<not> TolerationsTolerateTaint (Tolerations c)
          \<lparr>TaintKey = ''node.kubernetes.io/unschedulable'', TaintValue = [], TaintEffect = ''NoSchedule''\<rparr> enable
        then UnschedulableAndUnresolvable [''node(s) were unschedulable''] else Accepted)"

definition TaintToleration_Filter :: "bool \<Rightarrow> constraints \<Rightarrow> node_state \<Rightarrow> filter_status" where
  "TaintToleration_Filter enable c n =
     (case FindMatchingUntoleratedTaint (Taints n) (Tolerations c) DoNotScheduleTaintsFilterFunc enable of
        None \<Rightarrow> Accepted
      | Some _ \<Rightarrow> UnschedulableAndUnresolvable [''node(s) had untolerated taint(s)''])"

definition NodeAffinity_Filter :: "constraints \<Rightarrow> node_state \<Rightarrow> filter_status" where
  "NodeAffinity_Filter c n =
     (if (case AddedSelector c of None \<Rightarrow> False | Some ns \<Rightarrow> \<not> NodeSelector_Match ns (NodeLabels n) (node_name (Info n)))
      then UnschedulableAndUnresolvable [''node(s) didn'' @ [CHR 39] @ ''t match scheduler-enforced node affinity'']
      else if \<not> fst (Required_Match (NewRequiredNodeAffinity (case PodSelector c of None \<Rightarrow> [] | Some s \<Rightarrow> s) (RequiredTerms c))
          (NodeLabels n) (node_name (Info n)))
        then UnschedulableAndUnresolvable [''node(s) didn'' @ [CHR 39] @ ''t match Pod'' @ [CHR 39] @ ''s node affinity/selector'']
      else Accepted)"

text \<open>
  The \<open>PreFilter\<close> of the plugin: it looks for terms that name their nodes. It skips the filter for a pod that asks for
  nothing; the filter would accept. Of the plugins modelled here, \<open>NodeName\<close> too has a \<open>PreFilter\<close> that restricts the nodes,
  to the one in \<open>spec.nodeName\<close>. It is left out: the generator clears that field, and the scheduler takes up
  unassigned pods only, for which that \<open>PreFilter\<close> restricts nothing.
\<close>

datatype pre_filter =
    All_nodes
  | Only_nodes "string list" "string list"
  | Pre_rejected filter_status
  | Pre_failed go_error

fun term_names :: "NodeSelectorRequirement list \<Rightarrow> string list option \<Rightarrow> string list option" where
  "term_names [] termNodeNames = termNodeNames"
| "term_names (r # rs) termNodeNames =
     (if ReqKey r = ''metadata.name'' \<and> ReqOperator r = ''In''
      then term_names rs (Some (case termNodeNames of None \<Rightarrow> remdups (ReqValues r)
        | Some names \<Rightarrow> filter (\<lambda>n. n \<in> set (ReqValues r)) names))
      else term_names rs termNodeNames)"

fun affinity_names :: "NodeSelectorTerm list \<Rightarrow> string list \<Rightarrow> string list option" where
  "affinity_names [] nodeNames = Some nodeNames"
| "affinity_names (t # terms) nodeNames =
     (case term_names (MatchFields t) None of
        None \<Rightarrow> None
      | Some names \<Rightarrow> affinity_names terms (nodeNames @ filter (\<lambda>n. n \<notin> set nodeNames) names))"

definition NodeAffinity_PreFilter :: "constraints \<Rightarrow> pre_filter" where
  "NodeAffinity_PreFilter c =
     (case RequiredTerms c of
        None \<Rightarrow> All_nodes
      | Some terms \<Rightarrow>
          if length terms = 0 then All_nodes
          else (case affinity_names terms [] of
              None \<Rightarrow> All_nodes
            | Some nodeNames \<Rightarrow>
                if length nodeNames = 0 then Pre_rejected (UnschedulableAndUnresolvable [''pod affinity terms conflict''])
                else Only_nodes nodeNames [''NodeAffinity'']))"

definition NodePorts_Filter :: "constraints \<Rightarrow> node_state \<Rightarrow> filter_status" where
  "NodePorts_Filter c n =
     (if \<not> fitsPorts (GetHostPorts c) (UsedPorts n)
      then Unschedulable [''node(s) didn'' @ [CHR 39] @ ''t have free ports for the requested pod ports''] else Accepted)"

definition Fit_Filter :: "filter_config \<Rightarrow> Resource \<Rightarrow> Pod \<Rightarrow> node_state \<Rightarrow> filter_status" where
  "Fit_Filter f r pod n =
     (let insufficientResources = fitsRequest f r (Info n) pod;
          failureReasons = map InsufficientReason insufficientResources in
      if insufficientResources = [] then Accepted
      else if list_ex Unresolvable insufficientResources then UnschedulableAndUnresolvable failureReasons
      else Unschedulable failureReasons)"

fun RunFilterPlugins :: "(node_state \<Rightarrow> filter_status) list \<Rightarrow> node_state \<Rightarrow> filter_status" where
  "RunFilterPlugins [] n = Accepted"
| "RunFilterPlugins (pl # plugins) n = (if pl n = Accepted then RunFilterPlugins plugins n else pl n)"

text \<open>
  The filters in the order of the default configuration (\<open>getDefaultPlugins\<close>), and an added pod. The filters on
  volumes, topology spread and the affinity of other pods are left out: they accept a pod that asks
  for none of that, on a node whose pods ask for none.
\<close>

definition default_filters :: "bool \<Rightarrow> filter_config \<Rightarrow> Resource \<Rightarrow> constraints \<Rightarrow> Pod \<Rightarrow> (node_state \<Rightarrow> filter_status) list" where
  "default_filters enable f r c pod =
     [NodeName_Filter pod, NodeUnschedulable_Filter enable c, TaintToleration_Filter enable c,
      NodeAffinity_Filter c, NodePorts_Filter c, Fit_Filter f r pod]"

definition add_copy :: "Resource \<Rightarrow> constraints \<Rightarrow> string \<Rightarrow> node_state \<Rightarrow> node_state" where
  "add_copy r c uid n = n\<lparr>Info := AddPodInfo (uid, r) (Info n), UsedPorts := updateUsedPorts (GetHostPorts c) (UsedPorts n)\<rparr>"

section \<open>What the affinity of a pod means\<close>

lemma skipped_affinity:
  "RequiredTerms c = None \<Longrightarrow> AddedSelector c = None \<Longrightarrow> PodSelector c = None \<Longrightarrow> NodeAffinity_Filter c n = Accepted"
  by (simp add: NodeAffinity_Filter_def Required_Match_meaning)

lemma affinity_accepts:
  assumes "AddedSelector c = map_option NewLazyErrorNodeSelector added"
  shows "NodeAffinity_Filter c n = Accepted \<longleftrightarrow>
    list_all (\<lambda>(k, v). NodeLabels n k = Some v) (case PodSelector c of None \<Rightarrow> [] | Some s \<Rightarrow> s) \<and>
    list_all (\<lambda>terms. list_ex (\<lambda>t. selects t (NodeLabels n) (node_name (Info n))) terms)
      (case (RequiredTerms c, added) of (None, None) \<Rightarrow> [] | (Some ts, None) \<Rightarrow> [ts] | (None, Some ts') \<Rightarrow> [ts'] | (Some ts, Some ts') \<Rightarrow> [ts, ts'])"
  by (auto simp: NodeAffinity_Filter_def assms NodeSelector_Match_def Lazy_Match_meaning Required_Match_meaning
      split: option.splits)

text \<open>A term that names its nodes selects no other.\<close>

lemma term_names_meaning:
  "term_names rs s = Some ns \<Longrightarrow> list_all (\<lambda>e. field_ok e \<and> field_asks e name) rs \<Longrightarrow>
     (\<And>ns'. s = Some ns' \<Longrightarrow> name \<in> set ns') \<Longrightarrow> name \<in> set ns"
proof (induction rs arbitrary: s)
  case (Cons r rs)
  show ?case
  proof (cases "ReqKey r = ''metadata.name'' \<and> ReqOperator r = ''In''")
    case True
    then have "name \<in> set (ReqValues r)"
      using Cons.prems(2) by (auto simp: field_ok_def field_asks_def length_Suc_conv)
    then show ?thesis
      using Cons.IH [of "Some (case s of None \<Rightarrow> remdups (ReqValues r) | Some names \<Rightarrow> filter (\<lambda>n. n \<in> set (ReqValues r)) names)"]
        Cons.prems True by (auto split: option.splits)
  next
    case False
    then show ?thesis
      using Cons by auto
  qed
qed auto

lemma affinity_names_meaning:
  "affinity_names terms acc = Some names \<Longrightarrow> name \<noteq> [] \<Longrightarrow>
     name \<in> set acc \<or> list_ex (\<lambda>t. selects t ls name) terms \<Longrightarrow> name \<in> set names"
proof (induction terms arbitrary: acc)
  case (Cons t terms)
  then obtain ns where ns: "term_names (MatchFields t) None = Some ns"
    by (auto split: option.splits)
  have "name \<in> set ns" if "selects t ls name"
    using term_names_meaning [OF ns] that Cons.prems(2) by (auto simp: selects_def list_all_iff)
  with Cons ns show ?case
    by auto
qed simp

lemma affinity_names_distinct: "affinity_names terms acc = Some names \<Longrightarrow> distinct acc \<Longrightarrow> distinct names"
proof (induction terms arbitrary: acc)
  case (Cons t terms)
  have "term_names rs s = Some ns \<Longrightarrow> (\<And>ns'. s = Some ns' \<Longrightarrow> distinct ns') \<Longrightarrow> distinct ns" for rs s ns
    by (induction rs s rule: term_names.induct) (auto split: if_splits option.splits)
  with Cons show ?case
    by (fastforce split: option.splits)
qed simp

text \<open>So the \<open>PreFilter\<close> leaves out no node that the filter would accept.\<close>

lemma PreFilter_sound:
  assumes "NodeAffinity_Filter c n = Accepted" and "node_name (Info n) \<noteq> []"
  shows "case NodeAffinity_PreFilter c of All_nodes \<Rightarrow> True | Only_nodes names plugins \<Rightarrow> node_name (Info n) \<in> set names | _ \<Rightarrow> False"
proof -
  have "list_ex (\<lambda>t. selects t (NodeLabels n) (node_name (Info n))) ts" if "RequiredTerms c = Some ts" for ts
    using assms(1) that by (auto simp: NodeAffinity_Filter_def Required_Match_meaning split: if_splits)
  then show ?thesis
    using affinity_names_meaning [OF _ assms(2), where ls = "NodeLabels n"]
    by (fastforce simp: NodeAffinity_PreFilter_def split: option.split)
qed

section \<open>When ports clash\<close>

text \<open>
  A used port is an address with a protocol and a number. Two of them clash if protocol and number agree, and
  the addresses do or one of them is the wildcard.
\<close>

type_synonym binding = "string \<times> string \<times> int"

definition binding_of :: "ContainerPort \<Rightarrow> binding" where
  "binding_of p =
     (let (ip, protocol) = sanitize (HostIP p) (Protocol p) in (ip, NewProtocolPort protocol (HostPort p)))"

definition used :: "HostPortInfo \<Rightarrow> binding set" where
  "used h = {(ip, pp) | ip pp m. map_of h ip = Some m \<and> pp \<in> set m}"

definition ports_ok :: "HostPortInfo \<Rightarrow> bool" where
  "ports_ok h \<longleftrightarrow> distinct (map fst h)"

definition clash :: "binding \<Rightarrow> binding \<Rightarrow> bool" where
  "clash = (\<lambda>(ip, pp) (ip', pp'). pp = pp' \<and> (ip = ip' \<or> ip = DefaultBindAllHostIP \<or> ip' = DefaultBindAllHostIP))"

lemma ports_okD: "ports_ok h \<Longrightarrow> (ip, m) \<in> set h \<longleftrightarrow> map_of h ip = Some m"
  by (simp add: ports_ok_def)

lemma used_iff: "(ip, pp) \<in> used h \<longleftrightarrow> (\<exists>m. map_of h ip = Some m \<and> pp \<in> set m)"
  by (cases pp) (auto simp: used_def)

lemma fitsPorts_Nil [simp]: "fitsPorts [] h"
  by (simp add: fitsPorts_def)

lemma CheckConflict_clash:
  assumes "ports_ok h" and "0 < HostPort p"
  shows "CheckConflict (HostIP p) (Protocol p) (HostPort p) h \<longleftrightarrow> (\<exists>x \<in> used h. clash (binding_of p) x)"
proof -
  obtain ip protocol where a: "sanitize (HostIP p) (Protocol p) = (ip, protocol)"
    by force
  let ?pp = "NewProtocolPort protocol (HostPort p)"
  have "CheckConflict (HostIP p) (Protocol p) (HostPort p) h \<longleftrightarrow>
      (if ip = DefaultBindAllHostIP then \<exists>k. (k, ?pp) \<in> used h
       else (DefaultBindAllHostIP, ?pp) \<in> used h \<or> (ip, ?pp) \<in> used h)"
    using assms by (auto simp: CheckConflict_def a list_ex_iff ports_okD Bex_def used_iff split: option.split)
  moreover have "(\<exists>x \<in> used h. clash (binding_of p) x) \<longleftrightarrow>
      (\<exists>k. (k, ?pp) \<in> used h \<and> (ip = k \<or> ip = DefaultBindAllHostIP \<or> k = DefaultBindAllHostIP))"
    by (force simp: clash_def binding_of_def a)
  ultimately show ?thesis
    by auto
qed

lemma AddPort_used:
  assumes "ports_ok h" and "0 < HostPort p"
  shows "ports_ok (AddPort (HostIP p) (Protocol p) (HostPort p) h)"
    and "used (AddPort (HostIP p) (Protocol p) (HostPort p) h) = insert (binding_of p) (used h)"
proof -
  obtain ip protocol where a: "sanitize (HostIP p) (Protocol p) = (ip, protocol)"
    by force
  show "ports_ok (AddPort (HostIP p) (Protocol p) (HostPort p) h)"
    using assms by (auto simp: AddPort_def a ports_ok_def Let_def split: option.split)
  have "x \<in> used (AddPort (HostIP p) (Protocol p) (HostPort p) h) \<longleftrightarrow> x = binding_of p \<or> x \<in> used h" for x
    using assms(2)
    by (cases x; cases "map_of h ip")
      (auto simp: AddPort_def a used_iff binding_of_def Let_def split: if_splits)
  then show "used (AddPort (HostIP p) (Protocol p) (HostPort p) h) = insert (binding_of p) (used h)"
    by blast
qed

lemma updateUsedPorts_used:
  assumes "list_all (\<lambda>p. 0 < HostPort p) ports" and "ports_ok h"
  shows "ports_ok (updateUsedPorts ports h) \<and> used (updateUsedPorts ports h) = binding_of ` set ports \<union> used h"
  using assms
proof (induction ports arbitrary: h)
  case (Cons p ports)
  then show ?case
    using AddPort_used [of h p] by (simp add: updateUsedPorts_def)
qed (simp add: updateUsedPorts_def)

lemma fitsPorts_clash:
  assumes "list_all (\<lambda>p. 0 < HostPort p) ports" and "ports_ok h"
  shows "fitsPorts ports h \<longleftrightarrow> (\<forall>p \<in> set ports. \<forall>x \<in> used h. \<not> clash (binding_of p) x)"
  using assms CheckConflict_clash [OF assms(2)] by (simp add: fitsPorts_def list_all_iff)

lemma host_ports_positive: "list_all (\<lambda>p. 0 < HostPort p) (GetHostPorts c)"
  by (auto simp: GetHostPorts_def list_all_iff split: if_splits)

text \<open>So a pod with host ports never fits next to a copy of itself.\<close>

lemma copy_blocks_ports:
  assumes "ports_ok h" and "GetHostPorts c \<noteq> []"
  shows "\<not> fitsPorts (GetHostPorts c) (updateUsedPorts (GetHostPorts c) h)"
proof -
  let ?p = "hd (GetHostPorts c)"
  have p: "?p \<in> set (GetHostPorts c)"
    using assms(2) by simp
  moreover have "binding_of ?p \<in> used (updateUsedPorts (GetHostPorts c) h)"
    using updateUsedPorts_used [OF host_ports_positive assms(1)] p by simp
  moreover have "clash x x" for x
    by (auto simp: clash_def)
  ultimately show ?thesis
    using fitsPorts_clash [OF host_ports_positive, of "updateUsedPorts (GetHostPorts c) h"]
      updateUsedPorts_used [OF host_ports_positive assms(1), of c] by blast
qed

section \<open>How many copies fit\<close>

definition eligible :: "bool \<Rightarrow> constraints \<Rightarrow> node_state \<Rightarrow> bool" where
  "eligible enable c n \<longleftrightarrow>
     NodeUnschedulable_Filter enable c n = Accepted \<and> TaintToleration_Filter enable c n = Accepted \<and>
     NodeAffinity_Filter c n = Accepted"

definition copies_room :: "bool \<Rightarrow> filter_config \<Rightarrow> Resource \<Rightarrow> constraints \<Rightarrow> node_state \<Rightarrow> nat" where
  "copies_room enable f r c n =
     (if \<not> eligible enable c n \<or> \<not> fitsPorts (GetHostPorts c) (UsedPorts n) then 0
      else if GetHostPorts c = [] then room f r (Info n) else min 1 (room f r (Info n)))"

definition with_copies :: "Resource \<Rightarrow> constraints \<Rightarrow> string list \<Rightarrow> node_state \<Rightarrow> node_state" where
  "with_copies r c uids n = fold (add_copy r c) uids n"

lemma crowded_name [simp]: "node_name (crowded r us n) = node_name n"
proof -
  have "node_name (fold (\<lambda>u. AddPodInfo (u, r)) us n) = node_name n"
    by (induction us arbitrary: n) (simp_all add: AddPodInfo_def update_resource_def Let_def)
  then show ?thesis
    by (simp add: crowded_def)
qed

lemma with_copies_same [simp]:
  "Info (with_copies r c us n) = crowded r us (Info n)" "eligible enable c' (with_copies r c us n) = eligible enable c' n"
proof -
  have "Info (with_copies r c us n) = crowded r us (Info n) \<and> Cordoned (with_copies r c us n) = Cordoned n \<and>
      Taints (with_copies r c us n) = Taints n \<and> NodeLabels (with_copies r c us n) = NodeLabels n"
    by (induction us arbitrary: n) (simp_all add: with_copies_def crowded_def add_copy_def)
  then show "Info (with_copies r c us n) = crowded r us (Info n)"
    "eligible enable c' (with_copies r c us n) = eligible enable c' n"
    by (simp_all add: eligible_def NodeUnschedulable_Filter_def TaintToleration_Filter_def NodeAffinity_Filter_def cong: option.case_cong)
qed

lemma with_copies_ports:
  assumes "ports_ok (UsedPorts n)" and "us \<noteq> []" and "GetHostPorts c \<noteq> []"
  shows "\<not> fitsPorts (GetHostPorts c) (UsedPorts (with_copies r c us n))"
proof -
  have "ports_ok (UsedPorts (with_copies r c us n))" for us
    by (induction us rule: rev_induct)
      (use assms(1) updateUsedPorts_used [OF host_ports_positive] in \<open>auto simp: with_copies_def add_copy_def\<close>)
  with assms(2,3) show ?thesis
    using copy_blocks_ports by (cases us rule: rev_cases) (auto simp: with_copies_def add_copy_def)
qed

lemma filters_accept:
  "pod_node pod = [] \<Longrightarrow> RunFilterPlugins (default_filters enable f r c pod) n = Accepted \<longleftrightarrow>
     eligible enable c n \<and> fitsPorts (GetHostPorts c) (UsedPorts n) \<and> fitsRequest f r (Info n) pod = []"
  by (auto simp: default_filters_def NodeName_Filter_def eligible_def NodePorts_Filter_def Fit_Filter_def Let_def
      split: if_splits)

lemma filters_admit:
  assumes "regular r (Info n)" and "ports_ok (UsedPorts n)" and "pod_node pod = []"
    and "length us \<le> copies_room enable f r c n"
  shows "RunFilterPlugins (default_filters enable f r c pod) (with_copies r c us n) = Accepted \<longleftrightarrow>
    length us < copies_room enable f r c n"
proof -
  have le: "copies_room enable f r c n \<le> room f r (Info n)"
    by (simp add: copies_room_def)
  have fit: "fitsRequest f r (crowded r us (Info n)) pod = [] \<longleftrightarrow> length us < room f r (Info n)"
    using fits_crowded [OF assms(1) _ assms(3)] assms(4) le by simp
  show ?thesis
  proof (cases us)
    case Nil
    with fit show ?thesis
      by (auto simp: filters_accept [OF assms(3)] copies_room_def with_copies_def crowded_def)
  next
    case (Cons u vs)
    then have "0 < copies_room enable f r c n"
      using assms(4) by (cases "copies_room enable f r c n") auto
    then have t: "eligible enable c n"
      by (simp add: copies_room_def split: if_splits)
    show ?thesis
    proof (cases "GetHostPorts c = []")
      case True
      with fit t show ?thesis
        by (simp add: filters_accept [OF assms(3)] copies_room_def)
    next
      case False
      then show ?thesis
        using with_copies_ports [OF assms(2), of us c r] Cons
        by (simp add: filters_accept [OF assms(3)] copies_room_def)
    qed
  qed
qed

end
