(* ===== verification/Pod_Requests.thy ===== *)
theory Pod_Requests
  imports Node_Fit Report
begin

text \<open>
  What the scheduler takes a pod to request: \<open>PodRequests\<close> of the vendored
  \<open>component-helpers/resource/helpers.go\<close>, as \<open>computePodResourceRequest\<close> of the filter
  \<open>NodeResourcesFit\<close> calls it (container status and dynamic allocation are not considered before a pod is
  scheduled). The report counts a pod's request in another way (\<open>getResourceRequest\<close> of theory
  \<open>Report\<close>); the second part relates the two. The fields of a pod that only this code reads are
  \<open>pod_extras\<close>. The lists are values: sharing of decimals between them is not modelled.
\<close>

record init_container =
  AlwaysRestart :: bool
  InitRequests :: ResourceList

record pod_extras =
  InitContainers :: "init_container list"
  PodLevelRequests :: "ResourceList option"
  Overhead :: "ResourceList option"

section \<open>Adding up requests\<close>

definition add_entry :: "string \<times> Quantity \<Rightarrow> ResourceList \<Rightarrow> ResourceList" where
  "add_entry = (\<lambda>(name, quantity) l. case map_of l name of
       None \<Rightarrow> alist_put name quantity l
     | Some val \<Rightarrow> alist_put name (Quantity_Add val quantity) l)"

definition addResourceList :: "ResourceList \<Rightarrow> ResourceList \<Rightarrow> ResourceList" where
  "addResourceList xs newList = fold add_entry newList xs"

definition max_entry :: "string \<times> Quantity \<Rightarrow> ResourceList \<Rightarrow> ResourceList" where
  "max_entry = (\<lambda>(name, quantity) l. case map_of l name of
       None \<Rightarrow> alist_put name quantity l
     | Some val \<Rightarrow> if 0 < Quantity_Cmp quantity val then alist_put name (Cmp_receiver quantity val) l else l)"

definition maxResourceList :: "ResourceList \<Rightarrow> ResourceList \<Rightarrow> ResourceList" where
  "maxResourceList xs newList = fold max_entry newList xs"

text \<open>
  One round of the loop over the init containers: the result, the sum of the restartable init containers so
  far, and what the init containers need.
\<close>

definition add_init_container ::
    "init_container \<Rightarrow> ResourceList \<times> ResourceList \<times> ResourceList \<Rightarrow> ResourceList \<times> ResourceList \<times> ResourceList" where
  "add_init_container c = (\<lambda>(result, restartable, init).
     if AlwaysRestart c then
       (let restartable = addResourceList restartable (InitRequests c) in
        (addResourceList result (InitRequests c), restartable, maxResourceList init restartable))
     else (result, restartable,
       maxResourceList init (addResourceList (addResourceList [] (InitRequests c)) restartable)))"

definition aggregateContainerResourcesByFn :: "Container list \<Rightarrow> init_container list \<Rightarrow> ResourceList" where
  "aggregateContainerResourcesByFn containers inits =
     (let result = fold (\<lambda>c l. addResourceList l (Requests c)) containers [];
          (result, restartable, init) = fold add_init_container inits (result, [], [])
      in maxResourceList result init)"

definition AggregateContainerRequests :: "Container list \<Rightarrow> init_container list \<Rightarrow> ResourceList" where
  "AggregateContainerRequests containers inits =
     addResourceList [] (aggregateContainerResourcesByFn containers inits)"

definition IsSupportedPodLevelResource :: "string \<Rightarrow> bool" where
  "IsSupportedPodLevelResource name \<longleftrightarrow> name = ''cpu'' \<or> name = ''memory'' \<or> has_prefix ''hugepages-'' name"

definition IsPodLevelRequestsSet :: "pod_extras \<Rightarrow> bool" where
  "IsPodLevelRequestsSet px =
     (case PodLevelRequests px of None \<Rightarrow> False
      | Some rl \<Rightarrow> list_ex (\<lambda>(name, quantity). IsSupportedPodLevelResource name) rl)"

definition applyPodLevelResources :: "ResourceList \<Rightarrow> ResourceList \<Rightarrow> ResourceList" where
  "applyPodLevelResources result effective =
     fold (\<lambda>(name, quantity) l. if IsSupportedPodLevelResource name then alist_put name quantity l else l)
       effective result"

definition PodRequests :: "bool \<Rightarrow> Pod \<Rightarrow> pod_extras \<Rightarrow> ResourceList" where
  "PodRequests SkipPodLevelResources pod px =
     (let reqs = AggregateContainerRequests (Containers (Spec pod)) (InitContainers px);
          reqs = (if \<not> SkipPodLevelResources \<and> IsPodLevelRequestsSet px
                  then applyPodLevelResources reqs (the (PodLevelRequests px)) else reqs)
      in case Overhead px of None \<Rightarrow> reqs | Some overhead \<Rightarrow> addResourceList reqs overhead)"

section \<open>The request of the filter\<close>

definition empty_resource :: Resource where
  "empty_resource = \<lparr>MilliCPU = 0, Memory = 0, EphemeralStorage = 0, AllowedPodNumber = 0, ScalarAmounts = []\<rparr>"

definition set_max_one :: "string \<times> Quantity \<Rightarrow> Resource \<Rightarrow> Resource" where
  "set_max_one = (\<lambda>(rName, rQuantity) r.
     if rName = ''memory'' then r\<lparr>Memory := max (Memory r) (Quantity_Value rQuantity)\<rparr>
     else if rName = ''cpu'' then r\<lparr>MilliCPU := max (MilliCPU r) (Quantity_MilliValue rQuantity)\<rparr>
     else if rName = ''ephemeral-storage'' then
       r\<lparr>EphemeralStorage := max (EphemeralStorage r) (Quantity_Value rQuantity)\<rparr>
     else if IsScalarResourceName rName then
       r\<lparr>ScalarAmounts := alist_put rName (max (scalar (ScalarAmounts r) rName) (Quantity_Value rQuantity)) (ScalarAmounts r)\<rparr>
     else r)"

definition SetMaxResource :: "ResourceList \<Rightarrow> Resource \<Rightarrow> Resource" where
  "SetMaxResource rl r = fold set_max_one rl r"

definition computePodResourceRequest :: "bool \<Rightarrow> Pod \<Rightarrow> pod_extras \<Rightarrow> Resource" where
  "computePodResourceRequest EnablePodLevelResources pod px =
     SetMaxResource (PodRequests (\<not> EnablePodLevelResources) pod px) empty_resource"

section \<open>Amounts per resource\<close>

text \<open>What a list demands of every resource, as a vector that can be added and joined.\<close>

datatype demand = Demand (demanded: "string \<Rightarrow> rat")

lemma demand_eq_iff: "d = e \<longleftrightarrow> (\<forall>n. demanded d n = demanded e n)"
  by (cases d; cases e) (auto simp: fun_eq_iff)

instantiation demand :: comm_monoid_add
begin

definition zero_demand :: demand where
  "zero_demand = Demand (\<lambda>n. 0)"

definition plus_demand :: "demand \<Rightarrow> demand \<Rightarrow> demand" where
  "plus_demand d e = Demand (\<lambda>n. demanded d n + demanded e n)"

instance
  by standard (simp_all add: demand_eq_iff zero_demand_def plus_demand_def)

end

instantiation demand :: semilattice_sup
begin

definition less_eq_demand :: "demand \<Rightarrow> demand \<Rightarrow> bool" where
  "less_eq_demand d e \<longleftrightarrow> (\<forall>n. demanded d n \<le> demanded e n)"

definition less_demand :: "demand \<Rightarrow> demand \<Rightarrow> bool" where
  "less_demand d e \<longleftrightarrow> d \<le> e \<and> \<not> e \<le> (d :: demand)"

definition sup_demand :: "demand \<Rightarrow> demand \<Rightarrow> demand" where
  "sup_demand d e = Demand (\<lambda>n. max (demanded d n) (demanded e n))"

instance
  by standard (auto simp: less_eq_demand_def less_demand_def sup_demand_def demand_eq_iff
      intro: order.trans order.antisym)

end

lemma demanded_simps [simp]:
  "demanded 0 n = 0" "demanded (d + e) n = demanded d n + demanded e n"
  "demanded (sup d e) n = max (demanded d n) (demanded e n)"
  by (simp_all add: zero_demand_def plus_demand_def sup_demand_def)

lemma demanded_sum_list: "demanded (sum_list ds) n = (\<Sum>d\<leftarrow>ds. demanded d n)"
  by (induction ds) simp_all

definition demand_of :: "ResourceList \<Rightarrow> demand" where
  "demand_of rl = Demand (\<lambda>n. case map_of rl n of None \<Rightarrow> 0 | Some q \<Rightarrow> qval q)"

text \<open>The lists of a valid pod: every name once, no negative amount.\<close>

definition rl_ok :: "ResourceList \<Rightarrow> bool" where
  "rl_ok rl \<longleftrightarrow> distinct (map fst rl) \<and> (\<forall>q \<in> snd ` set rl. quantity_ok q \<and> 0 \<le> qval q)"

lemma rl_ok_Nil [simp]: "rl_ok []"
  by (simp add: rl_ok_def)

lemma demand_of_Nil [simp]: "demand_of [] = 0"
  by (simp add: demand_of_def zero_demand_def)

lemma rl_ok_Cons: "rl_ok ((n, q) # rl) \<longleftrightarrow> n \<notin> fst ` set rl \<and> quantity_ok q \<and> 0 \<le> qval q \<and> rl_ok rl"
  by (auto simp: rl_ok_def)

lemma rl_ok_lookup: "rl_ok rl \<Longrightarrow> map_of rl n = Some q \<Longrightarrow> quantity_ok q \<and> 0 \<le> qval q"
  by (auto simp: rl_ok_def dest!: map_of_SomeD intro: rev_image_eqI)

lemma rl_ok_put:
  assumes "rl_ok rl" "quantity_ok q" "0 \<le> qval q"
  shows "rl_ok (alist_put n q rl)"
  using assms set_alist_put [of rl n q] by (auto simp: rl_ok_def)

lemma demanded_of: "demanded (demand_of rl) n = (case map_of rl n of None \<Rightarrow> 0 | Some q \<Rightarrow> qval q)"
  by (simp add: demand_of_def)

lemma demanded_nonneg: "rl_ok rl \<Longrightarrow> 0 \<le> demanded (demand_of rl) n"
  using rl_ok_lookup [of rl n] by (auto simp: demanded_of split: option.split)

text \<open>
  Both functions merge one entry of a list after the other into the other list: \<open>merge_entry\<close> is how,
  \<open>f\<close> what it does to the amounts.
\<close>

locale list_merge =
  fixes merge_entry :: "string \<times> Quantity \<Rightarrow> ResourceList \<Rightarrow> ResourceList"
    and f :: "rat \<Rightarrow> rat \<Rightarrow> rat"
  assumes merge_ok: "rl_ok l \<Longrightarrow> quantity_ok q \<Longrightarrow> 0 \<le> qval q \<Longrightarrow> rl_ok (merge_entry (name, q) l)"
    and merge_amount: "rl_ok l \<Longrightarrow> quantity_ok q \<Longrightarrow> 0 \<le> qval q \<Longrightarrow>
      demanded (demand_of (merge_entry (name, q) l)) n =
        (if n = name then f (demanded (demand_of l) n) (qval q) else demanded (demand_of l) n)"
    and f_zero: "0 \<le> a \<Longrightarrow> f a 0 = a"
begin

lemma merge_lists:
  "rl_ok xs \<Longrightarrow> rl_ok ys \<Longrightarrow> rl_ok (fold merge_entry ys xs) \<and>
    demanded (demand_of (fold merge_entry ys xs)) n = f (demanded (demand_of xs) n) (demanded (demand_of ys) n)"
proof (induction ys arbitrary: xs)
  case Nil
  then show ?case
    by (simp add: f_zero demanded_nonneg)
next
  case (Cons y ys)
  obtain name q where y: "y = (name, q)" by force
  with Cons.prems(2) have q: "name \<notin> fst ` set ys" "quantity_ok q" "0 \<le> qval q" "rl_ok ys"
    by (simp_all add: rl_ok_Cons)
  then have zero: "demanded (demand_of ys) name = 0"
    by (simp add: demanded_of map_of_eq_None_iff [THEN iffD2])
  have tail: "demanded (demand_of (y # ys)) n = (if n = name then qval q else demanded (demand_of ys) n)"
    by (simp add: demanded_of y)
  note ok = merge_ok [OF Cons.prems(1) q(2,3), of name]
  have "rl_ok (fold merge_entry ys (merge_entry y xs)) \<and>
      demanded (demand_of (fold merge_entry ys (merge_entry y xs))) n =
      f (demanded (demand_of (merge_entry y xs)) n) (demanded (demand_of ys) n)"
    using Cons.IH [OF _ q(4)] ok y by simp
  moreover have "0 \<le> demanded (demand_of (merge_entry y xs)) n"
    using demanded_nonneg [OF ok, of n] y by simp
  ultimately show ?case
    using merge_amount [OF Cons.prems(1) q(2,3), of name n] tail zero y by (auto simp: f_zero)
qed

end

interpretation addition: list_merge add_entry "(+)"
proof unfold_locales
  fix l :: ResourceList and q :: Quantity and name n :: string
  assume l: "rl_ok l" "quantity_ok q" "0 \<le> qval q"
  show "rl_ok (add_entry (name, q) l)"
    using l rl_ok_lookup [OF l(1), of name] Quantity_Add_exact [of _ q]
    by (auto simp: add_entry_def rl_ok_put split: option.split)
  show "demanded (demand_of (add_entry (name, q) l)) n =
      (if n = name then demanded (demand_of l) n + qval q else demanded (demand_of l) n)"
    using rl_ok_lookup [OF l(1), of name] Quantity_Add_exact [of _ q] l
    by (auto simp: add_entry_def demanded_of split: option.split)
qed simp

interpretation maximum: list_merge max_entry max
proof unfold_locales
  fix l :: ResourceList and q :: Quantity and name n :: string
  assume l: "rl_ok l" "quantity_ok q" "0 \<le> qval q"
  have cmp: "0 < Quantity_Cmp q x \<longleftrightarrow> qval x < qval q" for x
    using Quantity_Cmp_sgn [of q x] by (metis Quantity_Cmp_greater of_int_0_less_iff sgn_greater diff_gt_0_iff_gt)
  show "rl_ok (max_entry (name, q) l)"
    using l by (auto simp: max_entry_def rl_ok_put split: option.split)
  show "demanded (demand_of (max_entry (name, q) l)) n =
      (if n = name then max (demanded (demand_of l) n) (qval q) else demanded (demand_of l) n)"
    using l by (auto simp: max_entry_def demanded_of cmp split: option.split)
qed simp

lemma addResourceList_demand:
  assumes "rl_ok xs" "rl_ok ys"
  shows "rl_ok (addResourceList xs ys)" "demand_of (addResourceList xs ys) = demand_of xs + demand_of ys"
  using addition.merge_lists [OF assms] by (simp_all add: addResourceList_def demand_eq_iff)

lemma maxResourceList_demand:
  assumes "rl_ok xs" "rl_ok ys"
  shows "rl_ok (maxResourceList xs ys)" "demand_of (maxResourceList xs ys) = sup (demand_of xs) (demand_of ys)"
  using maximum.merge_lists [OF assms] by (simp_all add: maxResourceList_def demand_eq_iff)

section \<open>The request of a pod\<close>

text \<open>
  \<open>InitContainerUse(i)\<close> of the proposal for sidecar containers: what is needed while the \<open>i\<close>-th init container
  starts, the restartable init containers before it included.
\<close>

definition sidecars :: "init_container list \<Rightarrow> demand" where
  "sidecars cs = (\<Sum>c\<leftarrow>filter AlwaysRestart cs. demand_of (InitRequests c))"

definition init_uses :: "init_container list \<Rightarrow> demand list" where
  "init_uses cs = map (\<lambda>i. sidecars (take i cs) + demand_of (InitRequests (cs ! i))) [0..<length cs]"

definition container_demand :: "Container list \<Rightarrow> demand" where
  "container_demand cs = (\<Sum>c\<leftarrow>cs. demand_of (Requests c))"

lemma init_uses_Cons:
  "init_uses (c # cs) = demand_of (InitRequests c) #
     map (\<lambda>u. (if AlwaysRestart c then demand_of (InitRequests c) else 0) + u) (init_uses cs)"
proof -
  have "[0..<length (c # cs)] = 0 # map Suc [0..<length cs]"
    by (simp add: map_Suc_upt upt_conv_Cons del: upt_Suc)
  then show ?thesis
    unfolding init_uses_def by (simp add: sidecars_def add.assoc comp_def del: upt_Suc)
qed

lemma fold_containers:
  assumes "list_all (rl_ok \<circ> Requests) cs" "rl_ok l"
  shows "rl_ok (fold (\<lambda>c l. addResourceList l (Requests c)) cs l) \<and>
    demand_of (fold (\<lambda>c l. addResourceList l (Requests c)) cs l) = demand_of l + container_demand cs"
  using assms
  by (induction cs arbitrary: l) (simp_all add: addResourceList_demand container_demand_def add.assoc)

lemma fold_init_containers:
  assumes "list_all (rl_ok \<circ> InitRequests) cs" "rl_ok result" "rl_ok restartable" "rl_ok init"
    and "fold add_init_container cs (result, restartable, init) = (result', restartable', init')"
  shows "rl_ok result' \<and> rl_ok init' \<and> demand_of result' = demand_of result + sidecars cs \<and>
    demand_of init' = fold sup (map ((+) (demand_of restartable)) (init_uses cs)) (demand_of init)"
  using assms
proof (induction cs arbitrary: result restartable init)
  case Nil
  then show ?case
    by (simp add: sidecars_def init_uses_def)
next
  case (Cons c cs)
  obtain r s i where step: "add_init_container c (result, restartable, init) = (r, s, i)"
    by (metis prod_cases3)
  let ?d = "demand_of (InitRequests c)"
  let ?s = "if AlwaysRestart c then ?d else 0"
  have ok: "rl_ok r \<and> rl_ok s \<and> rl_ok i \<and> demand_of r = demand_of result + ?s \<and>
      demand_of s = demand_of restartable + ?s \<and> demand_of i = sup (demand_of init) (demand_of restartable + ?d)"
    using step Cons.prems(1-4)
    by (auto simp: add_init_container_def Let_def addResourceList_demand maxResourceList_demand add.commute
        split: if_splits)
  have "fold add_init_container cs (r, s, i) = (result', restartable', init')"
    using Cons.prems(5) step by simp
  from Cons.IH [OF _ _ _ _ this] ok Cons.prems(1)
  have "rl_ok result' \<and> rl_ok init' \<and> demand_of result' = demand_of result + ?s + sidecars cs \<and>
      demand_of init' = fold sup (map ((+) (demand_of restartable + ?s)) (init_uses cs))
        (sup (demand_of init) (demand_of restartable + ?d))"
    by simp
  moreover have "map ((+) (demand_of restartable + ?s)) us = map ((+) (demand_of restartable)) (map (\<lambda>u. ?s + u) us)" for us
    by (simp add: add.assoc comp_def)
  ultimately show ?case
    by (simp only: init_uses_Cons list.map fold_simps sidecars_def) (simp add: sup_commute add.assoc)
qed

lemma fold_sup: "fold sup us (sup a b) = sup a (fold sup us (b :: demand))"
proof (induction us arbitrary: b)
  case (Cons u us)
  show ?case
    using Cons [of "sup u b"] by (simp add: sup.left_commute [of u a b])
qed simp

lemma aggregate_demand:
  assumes "list_all (rl_ok \<circ> Requests) cs" "list_all (rl_ok \<circ> InitRequests) inits"
  shows "rl_ok (AggregateContainerRequests cs inits) \<and> demand_of (AggregateContainerRequests cs inits) =
    fold sup (init_uses inits) (container_demand cs + sidecars inits)"
proof -
  let ?r = "fold (\<lambda>c l. addResourceList l (Requests c)) cs []"
  obtain r s i where f: "fold add_init_container inits (?r, [], []) = (r, s, i)"
    by (metis prod_cases3)
  have r0: "rl_ok ?r" "demand_of ?r = container_demand cs"
    using fold_containers [OF assms(1) rl_ok_Nil] by simp_all
  have "rl_ok r \<and> rl_ok i \<and> demand_of r = container_demand cs + sidecars inits \<and>
      demand_of i = fold sup (map ((+) 0) (init_uses inits)) 0"
    using fold_init_containers [OF assms(2) r0(1) rl_ok_Nil rl_ok_Nil f] r0(2) by simp
  then have i: "rl_ok r" "rl_ok i" "demand_of r = container_demand cs + sidecars inits"
    "demand_of i = fold sup (init_uses inits) 0"
    by (simp_all add: map_idI)
  have "sup (demand_of r) 0 = demand_of r"
    using demanded_nonneg [OF i(1)] by (simp add: demand_eq_iff max_def order.antisym)
  then have "sup (demand_of r) (demand_of i) = fold sup (init_uses inits) (demand_of r)"
    by (simp add: i(4) fold_sup [symmetric])
  then show ?thesis
    using i(1-3) by (simp add: AggregateContainerRequests_def aggregateContainerResourcesByFn_def f
        addResourceList_demand maxResourceList_demand)
qed

section \<open>What the report says and what the scheduler counts\<close>

lemma requested_demand: "rl_ok rl \<Longrightarrow> requested n rl = demanded (demand_of rl) n"
proof (induction rl)
  case (Cons x rl)
  obtain m q where x: "x = (m, q)" by force
  with Cons.prems have "rl_ok rl" "map_of rl m = None"
    by (simp_all add: rl_ok_Cons map_of_eq_None_iff)
  with Cons.IH x show ?case
    by (simp add: requested_def demanded_of)
qed (simp add: requested_def)

lemma requested_containers:
  "list_all (rl_ok \<circ> Requests) cs \<Longrightarrow> requested n (concat (map Requests cs)) = demanded (container_demand cs) n"
  by (induction cs) (simp_all add: requested_append requested_demand container_demand_def requested_def [of _ "[]"])

lemma reported_demand:
  assumes "list_all (rl_ok \<circ> Requests) (Containers (Spec pod))" "name \<in> {''cpu'', ''memory''}"
  shows "amount_of (getResourceRequest pod) name = demanded (container_demand (Containers (Spec pod))) name"
proof -
  have "\<forall>(n, q) \<in> set (all_requests pod). quantity_ok q"
    using assms(1) by (force simp: all_requests_def list_all_iff rl_ok_def)
  then show ?thesis
    using request_amounts [of pod name] requested_containers [OF assms(1), of name] assms(2)
    by (simp add: all_requests_def Report.ResourceCPU_def Report.ResourceMemory_def)
qed

text \<open>A pod as the API server lets it in: every list of requests names a resource once, with no negative amount.\<close>

definition requests_ok :: "Pod \<Rightarrow> pod_extras \<Rightarrow> bool" where
  "requests_ok pod px \<longleftrightarrow>
     list_all (rl_ok \<circ> Requests) (Containers (Spec pod)) \<and> list_all (rl_ok \<circ> InitRequests) (InitContainers px) \<and>
     (case PodLevelRequests px of None \<Rightarrow> True | Some rl \<Rightarrow> rl_ok rl) \<and>
     (case Overhead px of None \<Rightarrow> True | Some rl \<Rightarrow> rl_ok rl)"

definition overhead_demand :: "pod_extras \<Rightarrow> demand" where
  "overhead_demand px = (case Overhead px of None \<Rightarrow> 0 | Some rl \<Rightarrow> demand_of rl)"

lemma apply_pod_level:
  assumes "rl_ok xs" "rl_ok ys"
  shows "rl_ok (applyPodLevelResources xs ys) \<and>
    demanded (demand_of (applyPodLevelResources xs ys)) n =
      (if IsSupportedPodLevelResource n \<and> n \<in> fst ` set ys then demanded (demand_of ys) n else demanded (demand_of xs) n)"
  using assms
proof (induction ys arbitrary: xs)
  case (Cons y ys)
  obtain m q where y: "y = (m, q)" by force
  let ?xs = "if IsSupportedPodLevelResource m then alist_put m q xs else xs"
  have q: "m \<notin> fst ` set ys" "rl_ok ys" "rl_ok ?xs"
    using Cons.prems y by (simp_all add: rl_ok_Cons rl_ok_put)
  have "applyPodLevelResources xs (y # ys) = applyPodLevelResources ?xs ys"
    by (simp add: applyPodLevelResources_def y)
  moreover have "demanded (demand_of ?xs) n =
      (if IsSupportedPodLevelResource m \<and> n = m then qval q else demanded (demand_of xs) n)"
    by (simp add: demanded_of)
  ultimately show ?case
    using Cons.IH [OF q(3,2)] q(1) y by (auto simp: demanded_of)
qed (simp add: applyPodLevelResources_def)

lemma PodRequests_demand:
  assumes "requests_ok pod px"
  shows "rl_ok (PodRequests skip pod px) \<and> demanded (demand_of (PodRequests skip pod px)) n =
    (if \<not> skip \<and> IsSupportedPodLevelResource n \<and> n \<in> fst ` set (case PodLevelRequests px of None \<Rightarrow> [] | Some rl \<Rightarrow> rl)
     then demanded (demand_of (the (PodLevelRequests px))) n
     else demanded (fold sup (init_uses (InitContainers px))
       (container_demand (Containers (Spec pod)) + sidecars (InitContainers px))) n) +
    demanded (overhead_demand px) n"
proof -
  let ?agg = "AggregateContainerRequests (Containers (Spec pod)) (InitContainers px)"
  let ?reqs = "if \<not> skip \<and> IsPodLevelRequestsSet px then applyPodLevelResources ?agg (the (PodLevelRequests px)) else ?agg"
  let ?level = "\<not> skip \<and> IsSupportedPodLevelResource n \<and>
    n \<in> fst ` set (case PodLevelRequests px of None \<Rightarrow> [] | Some rl \<Rightarrow> rl)"
  have agg: "rl_ok ?agg" "demand_of ?agg = fold sup (init_uses (InitContainers px))
      (container_demand (Containers (Spec pod)) + sidecars (InitContainers px))"
    using aggregate_demand [of "Containers (Spec pod)" "InitContainers px"] assms by (simp_all add: requests_ok_def)
  have reqs: "rl_ok ?reqs \<and> demanded (demand_of ?reqs) n =
      (if ?level then demanded (demand_of (the (PodLevelRequests px))) n else demanded (demand_of ?agg) n)"
  proof (cases "PodLevelRequests px")
    case None
    with agg show ?thesis
      by (simp add: IsPodLevelRequestsSet_def)
  next
    case (Some rl)
    then have "rl_ok rl"
      using assms by (simp add: requests_ok_def)
    from apply_pod_level [OF agg(1) this, of n] Some agg(1) show ?thesis
      by (auto simp: IsPodLevelRequestsSet_def list_ex_iff)
  qed
  show ?thesis
  proof (cases "Overhead px")
    case None
    with reqs agg(2) show ?thesis
      by (simp add: PodRequests_def Let_def overhead_demand_def)
  next
    case (Some rl)
    then have "rl_ok rl"
      using assms by (simp add: requests_ok_def)
    with reqs agg(2) Some show ?thesis
      by (simp add: PodRequests_def Let_def overhead_demand_def addResourceList_demand)
  qed
qed

text \<open>C20:
  The scheduler's request of a pod is the formula of the Kubernetes proposal for sidecar containers: per
  resource the larger of what the containers and sidecars need together and of what is needed while each
  init container starts (its own request and those of the sidecars before it), and the overhead on top,
  whatever the order and the representation of the quantities; requests of the pod as a whole
  replace it for cpu, memory and huge pages when the feature is on.\<close>

theorem pod_requests_formula:
  assumes "requests_ok pod px"
  shows "demanded (demand_of (PodRequests skip pod px)) n =
    (if \<not> skip \<and> IsSupportedPodLevelResource n \<and> n \<in> fst ` set (case PodLevelRequests px of None \<Rightarrow> [] | Some rl \<Rightarrow> rl)
     then demanded (demand_of (the (PodLevelRequests px))) n
     else demanded (fold sup (init_uses (InitContainers px))
       (container_demand (Containers (Spec pod)) + sidecars (InitContainers px))) n) +
    demanded (overhead_demand px) n"
  using PodRequests_demand [OF assms] by blast

definition two_step_pod :: Pod where
  "two_step_pod = \<lparr>Meta = \<lparr>Name = ''p'', Namespace = ''default'', UID = [], Annotations = None\<rparr>,
     Spec = \<lparr>NodeName = [], SchedulerName = [], NodeSelector = None,
       Containers = [\<lparr>ContainerName = ''c'', Image = [], ImagePullPolicy = [], Limits = [],
         Requests = [(''cpu'', NewQuantity 1 [])]\<rparr>], RestartPolicy = [], DNSPolicy = []\<rparr>,
     PStatus = \<lparr>Phase = [], Conditions = []\<rparr>\<rparr>"

definition two_step_extras :: pod_extras where
  "two_step_extras = \<lparr>InitContainers =
       [\<lparr>AlwaysRestart = True, InitRequests = [(''cpu'', NewMilliQuantity 500 [])]\<rparr>,
        \<lparr>AlwaysRestart = False, InitRequests = [(''cpu'', NewQuantity 2 [])]\<rparr>],
     PodLevelRequests = None, Overhead = Some [(''cpu'', NewMilliQuantity 250 [])]\<rparr>"

lemma two_step_ok: "requests_ok two_step_pod two_step_extras"
  by (simp add: requests_ok_def two_step_pod_def two_step_extras_def rl_ok_def quantity_ok_def NewQuantity_def
      NewMilliQuantity_def int64_def qval_def aval_def)

lemma two_step_amounts:
  "demanded (fold sup (init_uses (InitContainers two_step_extras))
     (container_demand (Containers (Spec two_step_pod)) + sidecars (InitContainers two_step_extras))) ''cpu'' = 5 / 2"
  "demanded (overhead_demand two_step_extras) ''cpu'' = 1 / 4"
  "demanded (container_demand (Containers (Spec two_step_pod))) ''cpu'' = 1"
  by (simp_all add: two_step_extras_def two_step_pod_def init_uses_Cons init_uses_def [of "[]"] sidecars_def
      container_demand_def overhead_demand_def demanded_of qval_def aval_def NewQuantity_def NewMilliQuantity_def
      power_int_def power_one_over)

theorem pod_requests_formula_witness:
  "demanded (demand_of (PodRequests True two_step_pod two_step_extras)) ''cpu'' = 11 / 4"
  using pod_requests_formula [OF two_step_ok, of True "''cpu''"] by (simp add: two_step_amounts)

lemma demanded_fold_sup: "demanded (fold sup us d) n = fold (\<lambda>u. max (demanded u n)) us (demanded d n)"
  by (induction us arbitrary: d) simp_all

lemma le_fold_max: "(a :: rat) \<le> fold (\<lambda>u. max (g u)) us a"
proof (induction us arbitrary: a)
  case (Cons u us)
  then show ?case
    using order.trans [OF max.cobounded2 Cons [of "max (g u) a"]] by simp
qed simp

lemma sidecars_nonneg: "list_all (rl_ok \<circ> InitRequests) cs \<Longrightarrow> 0 \<le> demanded (sidecars cs) n"
  unfolding sidecars_def demanded_sum_list
  by (rule sum_list_nonneg) (auto simp: list_all_iff demanded_nonneg)

lemma overhead_nonneg: "requests_ok pod px \<Longrightarrow> 0 \<le> demanded (overhead_demand px) n"
  by (auto simp: overhead_demand_def requests_ok_def demanded_nonneg split: option.splits)

text \<open>C21:
  How the requirements of the report differ from what the scheduler counts, for a pod without requests at the level of
  the pod, or when these are switched off (otherwise they replace the sum of the containers, and neither the
  equation nor the inequality need hold): the report adds up the containers only, so the scheduler's amount of cpu and
  memory is the report's raised by the sidecars, to the need of the init containers, and by the overhead. The two agree
  for a pod without init containers and overhead; otherwise the report may state less than every instance takes (here
  1 cpu instead of 2.75).\<close>

theorem report_and_scheduler:
  assumes "requests_ok pod px" "skip \<or> PodLevelRequests px = None" "name \<in> {''cpu'', ''memory''}"
  shows "demanded (demand_of (PodRequests skip pod px)) name =
      fold (\<lambda>u. max (demanded u name)) (init_uses (InitContainers px))
        (amount_of (getResourceRequest pod) name + demanded (sidecars (InitContainers px)) name) +
      demanded (overhead_demand px) name \<and>
    amount_of (getResourceRequest pod) name \<le> demanded (demand_of (PodRequests skip pod px)) name"
proof -
  have ok: "list_all (rl_ok \<circ> Requests) (Containers (Spec pod))" "list_all (rl_ok \<circ> InitRequests) (InitContainers px)"
    using assms(1) by (simp_all add: requests_ok_def)
  let ?a = "amount_of (getResourceRequest pod) name + demanded (sidecars (InitContainers px)) name"
  have eq: "demanded (demand_of (PodRequests skip pod px)) name =
      fold (\<lambda>u. max (demanded u name)) (init_uses (InitContainers px)) ?a + demanded (overhead_demand px) name"
    using PodRequests_demand [OF assms(1), of skip name] assms(2) reported_demand [OF ok(1) assms(3)]
    by (auto simp: demanded_fold_sup)
  have "?a \<le> fold (\<lambda>u. max (demanded u name)) (init_uses (InitContainers px)) ?a"
    by (rule le_fold_max)
  with eq sidecars_nonneg [OF ok(2), of name] overhead_nonneg [OF assms(1), of name] show ?thesis
    by linarith
qed

theorem report_and_scheduler_witness:
  "amount_of (getResourceRequest two_step_pod) ''cpu'' = 1 \<and>
   demanded (demand_of (PodRequests True two_step_pod two_step_extras)) ''cpu'' = 11 / 4"
proof -
  have "list_all (rl_ok \<circ> Requests) (Containers (Spec two_step_pod))"
    using two_step_ok by (simp add: requests_ok_def)
  then have "amount_of (getResourceRequest two_step_pod) ''cpu'' = 1"
    using reported_demand [of two_step_pod "''cpu''"] by (simp add: two_step_amounts)
  moreover have "fold (\<lambda>u. max (demanded u ''cpu'')) (init_uses (InitContainers two_step_extras))
      (1 + demanded (sidecars (InitContainers two_step_extras)) ''cpu'') = 5 / 2"
    using two_step_amounts(1,3) by (simp add: demanded_fold_sup)
  ultimately show ?thesis
    using report_and_scheduler [OF two_step_ok, of True "''cpu''"] by (simp add: two_step_amounts)
qed

section \<open>The filter's amounts\<close>

lemma int64_small [simp]: "int64 0" "int64 1" "int64 (- 1)"
  by (simp_all add: int64_def)

lemma int64MultiplyScale_int64: "int64 (fst (int64MultiplyScale a b))"
  by (simp add: int64MultiplyScale_def Let_def)

lemma scale_up_loop_int64: "int64 v \<Longrightarrow> int64 (fst (scale_up_loop n v))"
proof (induction n arbitrary: v)
  case (Suc n)
  then show ?case
    using int64MultiplyScale_int64 [of v 10] by (simp add: split_beta)
qed simp

lemma positiveScaleInt64_int64: "int64 v \<Longrightarrow> int64 (fst (positiveScaleInt64 v n))"
  using scale_up_loop_int64 [of v "nat n"]
  by (auto simp: positiveScaleInt64_def int64MultiplyScale_int64 int64MultiplyScale10_def
      int64MultiplyScale100_def int64MultiplyScale1000_def Let_def)

lemma int64_sdiv: "int64 v \<Longrightarrow> 1 < b \<Longrightarrow> int64 (v sdiv b)"
proof -
  assume v: "int64 v" "1 < b"
  have "\<bar>v\<bar> div b \<le> \<bar>v\<bar> div 2"
    using v(2) by (intro zdiv_mono2) simp_all
  then have "\<bar>v sdiv b\<bar> * 2 \<le> \<bar>v\<bar>"
    using v(2) abs_sdiv [of b v] by linarith
  with v(1) show ?thesis
    by (auto simp: int64_def)
qed

lemma scale_down_loop_int64: "int64 v \<Longrightarrow> int64 (fst (scale_down_loop n base v b))"
  by (induction n arbitrary: v b) (simp_all add: Let_def int64_sdiv)

lemma negativeScaleInt64_int64: "int64 v \<Longrightarrow> int64 (fst (negativeScaleInt64 v n))"
  by (simp add: negativeScaleInt64_def scale_down_loop_int64)

lemma scaledValue_int64: "int64 (scaledValue u s t)"
proof -
  have "int64_pow10 d > 1" if "0 < d" "d < 19" for d
    using that one_less_power [of "10 :: int" "nat d"] by (simp add: int64_pow10_def)
  then show ?thesis
    using int64_sdiv [of "wrap64 u" "int64_pow10 (s - t)"] by (simp add: scaledValue_def Let_def)
qed

lemma Quantity_Value_int64: "quantity_ok q \<Longrightarrow> int64 (Quantity_Value q) \<and> int64 (Quantity_MilliValue q)"
  by (simp add: Quantity_Value_def Quantity_MilliValue_def int64Amount_AsScaledInt64_def quantity_ok_def
      negativeScaleInt64_int64 positiveScaleInt64_int64 scaledValue_int64 split: option.split)

lemma max_amount: "int64 x \<Longrightarrow> amount a \<Longrightarrow> amount (max a x)"
  by (simp add: amount_def int64_def max_def)

lemma scalar_amount: "list_all (\<lambda>(n, x). amount x) m \<Longrightarrow> amount (scalar m n)"
  by (auto simp: scalar_def list_all_iff amount_def dest!: map_of_SomeD split: option.split)

lemma set_max_one_amounts:
  assumes "amounts r" "quantity_ok q"
  shows "amounts (set_max_one (name, q) r)"
proof -
  have "list_all (\<lambda>(n, x). amount x) (alist_put name x m)" if "amount x" "list_all (\<lambda>(n, x). amount x) m" for x m
    using that by (induction m) auto
  with assms Quantity_Value_int64 [OF assms(2)] show ?thesis
    by (auto simp: amounts_def set_max_one_def max_amount scalar_amount)
qed

lemma computePodResourceRequest_amounts:
  assumes "requests_ok pod px"
  shows "amounts (computePodResourceRequest level pod px)"
proof -
  have "amounts (fold set_max_one rl r)" if "amounts r" "\<forall>q \<in> snd ` set rl. quantity_ok q" for rl r
    using that by (induction rl arbitrary: r) (auto simp: set_max_one_amounts)
  moreover have "amounts empty_resource"
    by (simp add: amounts_def empty_resource_def amount_def)
  ultimately show ?thesis
    using PodRequests_demand [OF assms] by (auto simp: computePodResourceRequest_def SetMaxResource_def rl_ok_def)
qed

end
