(* ===== verification/Filtered_Capacity.thy ===== *)
theory Filtered_Capacity
  imports Run_Properties Node_Filters Pod_Requests
begin

text \<open>
  The capacity that a scheduler with the filters of \<open>Node_Filters\<close> finds, for the request that it computes
  from the template itself (\<open>Pod_Requests\<close>): cordoned and tainted nodes and those the template does not select do not count, and a pod with a host port
  fits once on a node whose port is free.
\<close>

definition admitted ::
    "bool \<Rightarrow> filter_config \<Rightarrow> Resource \<Rightarrow> constraints \<Rightarrow> (string \<Rightarrow> node_state) \<Rightarrow> string \<Rightarrow> Pod list \<Rightarrow> Pod \<Rightarrow> bool" where
  "admitted enable f r c state n ps p \<longleftrightarrow>
     RunFilterPlugins (default_filters enable f r c p) (with_copies r c (map (\<lambda>q. UID (Meta q)) ps) (state n)) = Accepted"

interpretation filter_capacity: node_capacity "admitted enable f r c state"
    "\<lambda>n. copies_room enable f r c (state n)" "{n. regular r (Info (state n)) \<and> ports_ok (UsedPorts (state n))}"
    for enable f r c state
  by unfold_locales (simp add: admitted_def filters_admit)

text \<open>The node selector of the template; what else the filters read of it, the model of pods does not have.\<close>

definition with_selector :: "Pod \<Rightarrow> constraints \<Rightarrow> constraints" where
  "with_selector t c = c\<lparr>PodSelector := map_option entries (NodeSelector (Spec t))\<rparr>"

definition node_ok :: "node_state \<Rightarrow> bool" where
  "node_ok n \<longleftrightarrow> amounts (Requested (Info n)) \<and> amounts (Allocatable (Info n)) \<and> ports_ok (UsedPorts n)"

text \<open>
  The number is exact for a scheduler with these filters: if pods are bound only to nodes
  that all of them accept and are called unschedulable only when every node is refused, an analysis that ended has
  counted the sum of the rooms of the nodes, or the limit if that is positive and less, whatever nodes the
  scheduler chose. The request is computed from the template. The room of a node is none if it is cordoned, has a taint
  the template does not tolerate or is not what its node selector and node affinity ask for, or if a host port of the template is taken; otherwise it is the least of its
  free pod slots and, for each requested resource that is checked, the free amount divided by the request,
  and at most one for a template with host ports.\<close>

lemma capacity_with_filters:
  fixes level enable :: bool and px :: pod_extras
  assumes "start_ok c0" and "StopReason (status c0) = []"
    and "requests_ok (template_of c0) px" and "list_all (\<lambda>n. node_ok (state n)) (node_list c0)"
    and "perform_all False as (initial_system c0) = Some s" and "main s = Returned None"
  defines "r \<equiv> computePodResourceRequest level (template_of c0) px"
  assumes "filtered_run (admitted enable f r c state) (node_list c0) as (initial_system c0)"
  defines "all_room \<equiv> int (\<Sum>n\<leftarrow>node_list c0. copies_room enable f r c (state n))"
  shows "int (length (ScheduledPods (cc s))) =
    (if 0 < maxSimulated c0 then min (maxSimulated c0) all_room else all_room)"
proof -
  have "amounts r"
    unfolding r_def by (rule computePodResourceRequest_amounts [OF assms(3)])
  then have "node_names c0 \<subseteq> {n. regular r (Info (state n)) \<and> ports_ok (UsedPorts (state n))}"
    using assms(4) by (auto simp: list_all_iff regular_def node_ok_def)
  from filter_capacity.filled_count [OF assms(1,2) this assms(5) _ assms(6)] assms(8) show ?thesis
    by (simp add: all_room_def)
qed

text \<open>
  An example: a template with a host port that tolerates a taint and asks for one of two zones, and a node in
  one of them, with that taint, on which the port is free.
\<close>

definition port_constraints :: constraints where
  "port_constraints =
     \<lparr>PodSelector = None,
      RequiredTerms = Some [\<lparr>MatchExpressions = [\<lparr>ReqKey = ''zone'', ReqOperator = ''In'', ReqValues = [''a'', ''b'']\<rparr>], MatchFields = []\<rparr>],
      AddedSelector = None, Tolerations = [\<lparr>TolKey = ''dedicated'', TolOperator = ''Exists'', TolValue = [], TolEffect = []\<rparr>],
      InitPorts = [], Ports = [[\<lparr>HostIP = [], Protocol = ''TCP'', HostPort = 8080\<rparr>]]\<rparr>"

definition port_state :: "string \<Rightarrow> node_state" where
  "port_state n =
     \<lparr>Info = sample_info n, UsedPorts = [(''10.0.0.1'', [(''UDP'', 8080)])], Cordoned = False,
      Taints = [\<lparr>TaintKey = ''dedicated'', TaintValue = ''web'', TaintEffect = ''NoSchedule''\<rparr>],
      NodeLabels = [''zone'' \<mapsto> ''b'']\<rparr>"

definition no_extras :: pod_extras where
  "no_extras = \<lparr>InitContainers = [], PodLevelRequests = None, Overhead = None\<rparr>"

text \<open>C9:
  What a pod asks of its node: the filter accepts a node exactly when it has every label of the node selector and some
  term of the required affinity selects it, and likewise some term of the affinity the configuration adds. A term
  selects a node if it is not empty, is well-formed, and all its requirements on labels and on the name hold;
  a malformed term does not spoil the others. What the plugin does before the filters agrees: it leaves out
  no node that the filter would accept.\<close>

theorem affinity_filter_meaning:
  fixes added :: "NodeSelectorTerm list option"
  assumes "AddedSelector c = map_option NewLazyErrorNodeSelector added" and "node_name (Info n) \<noteq> []"
  defines "selected terms \<equiv> list_ex (\<lambda>t. selects t (NodeLabels n) (node_name (Info n))) terms"
  shows "(NodeAffinity_Filter c n = Accepted \<longleftrightarrow>
      (case PodSelector c of None \<Rightarrow> True | Some kvs \<Rightarrow> list_all (\<lambda>(k, v). NodeLabels n k = Some v) kvs) \<and>
      (case RequiredTerms c of None \<Rightarrow> True | Some terms \<Rightarrow> selected terms) \<and>
      (case added of None \<Rightarrow> True | Some terms \<Rightarrow> selected terms)) \<and>
    (NodeAffinity_Filter c n = Accepted \<longrightarrow>
      (case NodeAffinity_PreFilter c of All_nodes \<Rightarrow> True | Only_nodes names plugins \<Rightarrow> node_name (Info n) \<in> set names | _ \<Rightarrow> False))"
  using affinity_accepts [OF assms(1)] PreFilter_sound [OF _ assms(2)]
  by (auto simp: selected_def split: option.splits)

text \<open>The first term of the template is malformed: the operator \<open>Gt\<close> takes a number.\<close>

theorem affinity_filter_meaning_witness:
  "let bad = \<lparr>MatchExpressions = [\<lparr>ReqKey = ''cores'', ReqOperator = ''Gt'', ReqValues = [''many'']\<rparr>], MatchFields = []\<rparr>;
       c = port_constraints\<lparr>RequiredTerms := map_option (Cons bad) (RequiredTerms port_constraints)\<rparr>
   in NodeAffinity_Filter c (port_state ''n1'') = Accepted"
  unfolding Let_def
proof (rule affinity_filter_meaning [where added = None, THEN conjunct1, THEN iffD2])
  show "node_name (Info (port_state ''n1'')) \<noteq> []"
    by code_simp
qed (simp add: port_constraints_def, code_simp)

end
