(* ===== verification/Bind_Plugins.thy ===== *)
theory Bind_Plugins
  imports Sched_Config Simulator
begin

text \<open>
  How the scheduler comes to bind with the program's plugin: the registry of plugins that
  \<open>createScheduler\<close> extends, the bind plugins of a profile (\<open>updatePluginList\<close> and \<open>expandMultiPointPlugins\<close>
  of \<open>framework/runtime/framework.go\<close>, for the one extension point), and the binding of a pod
  (\<open>RunBindPlugins\<close>; \<open>bind\<close> and \<open>extendersBinding\<close> of \<open>schedule_one.go\<close>). A plugin is what its name stands for in
  the registry: \<open>None\<close> if it does not implement the interface \<open>BindPlugin\<close>. The plugins of the scheduler itself and
  the extenders are arguments; what they do outside the state of the analysis is not seen.
\<close>

section \<open>The registry\<close>

datatype bind_status = Bound | Skipped | Rejected go_error | Failed go_error

type_synonym bind_function = "Pod \<Rightarrow> string \<Rightarrow> ClusterCapacity \<Rightarrow> panic + ClusterCapacity \<times> bind_status"
type_synonym registry = "string \<rightharpoonup> bind_function option"

definition capacity_binder :: "string \<Rightarrow> bind_function" where
  "capacity_binder uuid = (\<lambda>p nodeName c.
     map_sum id (\<lambda>(c, err). (c, case err of None \<Rightarrow> Bound | Some e \<Rightarrow> Failed e)) (Bind uuid p nodeName c))"

definition Register :: "string \<Rightarrow> bind_function option \<Rightarrow> registry \<Rightarrow> go_error + registry" where
  "Register name plugin r =
     (if r name \<noteq> None then Inl (Err (''a plugin named '' @ name @ '' already exists'')) else Inr (r(name \<mapsto> plugin)))"

definition outOfTreeRegistry :: "string \<Rightarrow> registry \<Rightarrow> go_error + registry" where
  "outOfTreeRegistry uuid r = Register ''ClusterCapacityBinder'' (Some (capacity_binder uuid)) r"

section \<open>The bind plugins of a profile\<close>

definition go_quote :: "string \<Rightarrow> string" where
  "go_quote s = CHR 0x22 # s @ [CHR 0x22]"

definition already_registered :: "string \<Rightarrow> go_error" where
  "already_registered name = Err (''plugin '' @ go_quote name @ '' already registered as '' @ go_quote ''BindPlugin'')"

definition not_existing :: "string \<Rightarrow> go_error" where
  "not_existing name = Err (''BindPlugin '' @ go_quote name @ '' does not exist'')"

fun update_loop :: "registry \<Rightarrow> string list \<Rightarrow> string list \<Rightarrow> go_error + string list" where
  "update_loop r plugins [] = Inr plugins"
| "update_loop r plugins (name # names) =
     (case r name of
        None \<Rightarrow> Inl (not_existing name)
      | Some None \<Rightarrow> Inl (Err (''plugin '' @ go_quote name @ '' does not extend BindPlugin plugin''))
      | Some (Some _) \<Rightarrow>
          if name \<in> set plugins then Inl (already_registered name) else update_loop r (plugins @ [name]) names)"

definition updatePluginList :: "registry \<Rightarrow> PluginSet \<Rightarrow> go_error + string list" where
  "updatePluginList r pluginSet = update_loop r [] (Enabled pluginSet)"

text \<open>The loop over the plugins enabled for all extension points: those to add, and those to override.\<close>

fun multi_point_loop ::
    "registry \<Rightarrow> PluginSet \<Rightarrow> string list \<times> string list \<Rightarrow> string list \<Rightarrow> go_error + string list \<times> string list" where
  "multi_point_loop r ps (multi, override) [] = Inr (multi, override)"
| "multi_point_loop r ps (multi, override) (name # names) =
     (case r name of
        None \<Rightarrow> Inl (not_existing name)
      | Some None \<Rightarrow> multi_point_loop r ps (multi, override) names
      | Some (Some _) \<Rightarrow>
          if name \<in> set (Disabled ps) then multi_point_loop r ps (multi, override) names
          else if name \<in> set (Enabled ps) then multi_point_loop r ps (multi, override @ [name]) names
          else if name \<in> set multi then Inl (already_registered name)
          else multi_point_loop r ps (multi @ [name], override) names)"

definition expandMultiPointPlugins :: "registry \<Rightarrow> Plugins \<Rightarrow> string list \<Rightarrow> go_error + string list" where
  "expandMultiPointPlugins r plugins registered =
     (let ps = BindPlugins plugins in
      if ''*'' \<in> set (Disabled ps) then Inr registered
      else (case multi_point_loop r ps ([], []) (Enabled (MultiPoint plugins)) of
          Inl e \<Rightarrow> Inl e
        | Inr (multi, override) \<Rightarrow>
            Inr (filter (\<lambda>name. name \<in> set override) (Enabled ps) @ multi @
                 filter (\<lambda>name. name \<notin> set override) (Enabled ps))))"

definition bind_plugins :: "registry \<Rightarrow> string \<Rightarrow> Plugins \<Rightarrow> go_error + string list" where
  "bind_plugins r profileName plugins =
     (case updatePluginList r (BindPlugins plugins) of
        Inl e \<Rightarrow> Inl e
      | Inr registered \<Rightarrow>
          (case (if Enabled (MultiPoint plugins) \<noteq> [] then expandMultiPointPlugins r plugins registered
                 else Inr registered) of
             Inl e \<Rightarrow> Inl e
           | Inr names \<Rightarrow>
               if names = []
               then Inl (Err (''at least one bind plugin is needed for profile with scheduler name '' @ go_quote profileName))
               else Inr names))"

section \<open>Binding a pod\<close>

fun RunBindPlugins :: "registry \<Rightarrow> string list \<Rightarrow> bind_function" where
  "RunBindPlugins r [] p nodeName c = Inr (c, Skipped)"
| "RunBindPlugins r (name # names) p nodeName c =
     (case the (the (r name)) p nodeName c of
        Inl panic \<Rightarrow> Inl panic
      | Inr (c, Skipped) \<Rightarrow> RunBindPlugins r names p nodeName c
      | Inr (c, Rejected e) \<Rightarrow> Inr (c, Rejected e)
      | Inr (c, Failed e) \<Rightarrow> Inr (c, Failed (Errorf (''running Bind plugin '' @ go_quote name) e))
      | Inr (c, Bound) \<Rightarrow> Inr (c, Bound))"

record extender =
  IsBinder :: bool
  IsIgnorable :: bool
  IsInterested :: "Pod \<Rightarrow> bool"
  ExtenderBind :: "Pod \<Rightarrow> string \<Rightarrow> go_error option"

fun extendersBinding :: "extender list \<Rightarrow> Pod \<Rightarrow> string \<Rightarrow> bool \<times> go_error option" where
  "extendersBinding [] pod node = (False, None)"
| "extendersBinding (x # xs) pod node =
     (if \<not> IsBinder x \<or> \<not> IsInterested x pod then extendersBinding xs pod node
      else (let err = ExtenderBind x pod node in
        if err \<noteq> None \<and> IsIgnorable x then extendersBinding xs pod node else (True, err)))"

definition sched_bind :: "registry \<Rightarrow> string list \<Rightarrow> extender list \<Rightarrow> bind_function" where
  "sched_bind r names extenders = (\<lambda>assumed targetNode c.
     (let (bound, err) = extendersBinding extenders assumed targetNode in
      if bound then Inr (c, case err of None \<Rightarrow> Bound | Some e \<Rightarrow> Failed e)
      else RunBindPlugins r names assumed targetNode c))"

section \<open>The program's plugin binds\<close>

abbreviation capacity_plugin_set :: PluginSet where
  "capacity_plugin_set \<equiv> \<lparr>Enabled = [''ClusterCapacityBinder''], Disabled = [''DefaultBinder'']\<rparr>"

text \<open>Every plugin enabled for all points exists, and none but the two known ones is a bind plugin.\<close>

definition known_multi_point :: "registry \<Rightarrow> string list \<Rightarrow> bool" where
  "known_multi_point r names =
     list_all (\<lambda>name. case r name of None \<Rightarrow> False | Some None \<Rightarrow> True
       | Some (Some _) \<Rightarrow> name = ''DefaultBinder'' \<or> name = ''ClusterCapacityBinder'') names"

lemma multi_point_overrides:
  "known_multi_point r names \<Longrightarrow>
     \<exists>override'. multi_point_loop r capacity_plugin_set ([], override) names = Inr ([], override')"
  by (induction names arbitrary: override) (auto simp: known_multi_point_def split: option.splits)

lemma capacity_profile_found:
  assumes "find (\<lambda>p. ProfileScheduler p = DefaultSchedulerName) (Profiles (capacity_config k)) = Some profile"
    and "ProfilePlugins profile = Some plugins"
  shows "ProfileScheduler profile = DefaultSchedulerName" "BindPlugins plugins = capacity_plugin_set"
  using capacity_binder_configured [of k, where defaults = "Inr k" and ApplyTo = Inr] assms
  by (auto simp: find_Some_iff)

lemma no_extender_binds:
  "\<not> list_ex (\<lambda>x. IsBinder x \<and> IsInterested x p) xs \<Longrightarrow> extendersBinding xs p node = (False, None)"
  by (induction xs) auto

text \<open>C39:
  In an analysis the scheduler binds pods with the program's plugin and with no other, whatever the
  configuration: the profile for the default scheduler ends up with the one bind plugin that \<open>createScheduler\<close> registers,
  provided that among the plugins it enables for all extension points only the scheduler's own
  \<open>DefaultBinder\<close> binds too; and then binding a pod that no extender takes is \<open>Bind\<close>, which counts it, with its error
  reported under the name of the plugin.\<close>

theorem capacity_plugin_binds:
  assumes "outOfTreeRegistry uuid intree = Inr r"
    and "find (\<lambda>p. ProfileScheduler p = DefaultSchedulerName) (Profiles (capacity_config k)) = Some profile"
    and "ProfilePlugins profile = Some plugins" and "known_multi_point r (Enabled (MultiPoint plugins))"
    and "\<not> list_ex (\<lambda>x. IsBinder x \<and> IsInterested x p) extenders"
  shows "\<exists>names. bind_plugins r (ProfileScheduler profile) plugins = Inr names \<and>
    sched_bind r names extenders p node c =
      map_sum id (\<lambda>(c, err). (c, case err of None \<Rightarrow> Bound
        | Some e \<Rightarrow> Failed (Errorf (''running Bind plugin '' @ go_quote ''ClusterCapacityBinder'') e))) (Bind uuid p node c)"
proof -
  note plugins = capacity_profile_found(2) [OF assms(2,3)]
  have r: "r ''ClusterCapacityBinder'' = Some (Some (capacity_binder uuid))"
    using assms(1) by (auto simp: outOfTreeRegistry_def Register_def split: if_splits)
  obtain override where "multi_point_loop r capacity_plugin_set ([], []) (Enabled (MultiPoint plugins)) = Inr ([], override)"
    using multi_point_overrides [OF assms(4)] by blast
  then have "bind_plugins r (ProfileScheduler profile) plugins = Inr [''ClusterCapacityBinder'']"
    by (simp add: bind_plugins_def updatePluginList_def r plugins expandMultiPointPlugins_def)
  moreover have "sched_bind r [''ClusterCapacityBinder''] extenders p node c =
      map_sum id (\<lambda>(c, err). (c, case err of None \<Rightarrow> Bound
        | Some e \<Rightarrow> Failed (Errorf (''running Bind plugin '' @ go_quote ''ClusterCapacityBinder'') e))) (Bind uuid p node c)"
    by (cases "Bind uuid p node c")
      (auto simp: sched_bind_def no_extender_binds [OF assms(5)] r capacity_binder_def split: option.split)
  ultimately show ?thesis
    by blast
qed

text \<open>An extender that binds takes the pod past the plugin: the analysis does not see it.\<close>

lemma extender_is_not_counted:
  assumes "IsBinder x" "IsInterested x p" "ExtenderBind x p node = None"
  shows "sched_bind r names (x # extenders) p node c = Inr (c, Bound)"
  using assms by (simp add: sched_bind_def)

text \<open>The default profile: the scheduler's plugins for all extension points, one of which binds.\<close>

definition default_plugins :: Plugins where
  "default_plugins = empty_plugins
     \<lparr>MultiPoint := \<lparr>Enabled = [''PrioritySort'', ''NodeResourcesFit'', ''DefaultBinder''], Disabled = []\<rparr>\<rparr>"

definition default_profile_config :: KubeSchedulerConfiguration where
  "default_profile_config =
     \<lparr>APIVersion = [], Profiles = [\<lparr>ProfileScheduler = DefaultSchedulerName,
        ProfilePlugins = Some default_plugins, ProfileRest = []\<rparr>], ConfigRest = []\<rparr>"

definition scheduler_registry :: registry where
  "scheduler_registry =
     [''PrioritySort'' \<mapsto> None, ''NodeResourcesFit'' \<mapsto> None, ''DefaultBinder'' \<mapsto> Some (\<lambda>p node c. Inr (c, Bound))]"

theorem capacity_plugin_binds_witness:
  "\<forall>p node c. \<exists>r names.
     outOfTreeRegistry ''u'' scheduler_registry = Inr r \<and>
     bind_plugins r DefaultSchedulerName (default_plugins\<lparr>BindPlugins := capacity_plugin_set\<rparr>) = Inr names \<and>
     sched_bind r names [] p node c =
       map_sum id (\<lambda>(c, err). (c, case err of None \<Rightarrow> Bound
         | Some e \<Rightarrow> Failed (Errorf (''running Bind plugin '' @ go_quote ''ClusterCapacityBinder'') e))) (Bind ''u'' p node c)"
proof (intro allI)
  fix p :: Pod and node :: string and c :: ClusterCapacity
  let ?r = "scheduler_registry(''ClusterCapacityBinder'' \<mapsto> Some (capacity_binder ''u''))"
    and ?plugins = "default_plugins\<lparr>BindPlugins := capacity_plugin_set\<rparr>"
    and ?profile = "capacity_profile (Profiles default_profile_config ! 0)"
  have r: "outOfTreeRegistry ''u'' scheduler_registry = Inr ?r"
    by (simp add: outOfTreeRegistry_def Register_def scheduler_registry_def)
  have "find (\<lambda>p. ProfileScheduler p = DefaultSchedulerName) (Profiles (capacity_config default_profile_config)) = Some ?profile"
    "ProfileScheduler ?profile = DefaultSchedulerName" "ProfilePlugins ?profile = Some ?plugins"
    by (simp_all add: capacity_config_def capacity_profile_def default_profile_config_def)
  moreover have "known_multi_point ?r (Enabled (MultiPoint ?plugins))"
    by (simp add: known_multi_point_def default_plugins_def scheduler_registry_def)
  ultimately show "\<exists>r names. outOfTreeRegistry ''u'' scheduler_registry = Inr r \<and>
     bind_plugins r DefaultSchedulerName ?plugins = Inr names \<and>
     sched_bind r names [] p node c =
       map_sum id (\<lambda>(c, err). (c, case err of None \<Rightarrow> Bound
         | Some e \<Rightarrow> Failed (Errorf (''running Bind plugin '' @ go_quote ''ClusterCapacityBinder'') e))) (Bind ''u'' p node c)"
    using capacity_plugin_binds [OF r, of default_profile_config ?profile ?plugins p "[]" node c] r by simp
qed

end
