(* ===== verification/Score_Heap.thy ===== *)
theory Score_Heap
  imports Prelude "HOL-Library.Product_Lexorder"
begin

text \<open>
  The nodes in the order of their scores: \<open>framework/sorted_nodes.go\<close> of the scheduler, which keeps them in a
  binary heap of \<open>container/heap\<close> (\<open>Init\<close>, \<open>Pop\<close> and \<open>down\<close> of the standard library). The scores a node has from
  the single plugins are left out, they are only logged.
\<close>

section \<open>The heap\<close>

record NodePluginScores =
  ScoredName :: string
  TotalScore :: int
  Randomizer :: int

definition outscores :: "NodePluginScores \<Rightarrow> NodePluginScores \<Rightarrow> bool" where
  "outscores a b \<longleftrightarrow>
     TotalScore b < TotalScore a \<or> (TotalScore a = TotalScore b \<and> Randomizer b < Randomizer a)"

definition Less :: "NodePluginScores list \<Rightarrow> nat \<Rightarrow> nat \<Rightarrow> bool" where
  "Less h i j = outscores (h ! i) (h ! j)"

definition Swap :: "NodePluginScores list \<Rightarrow> nat \<Rightarrow> nat \<Rightarrow> NodePluginScores list" where
  "Swap h i j = h[i := h ! j, j := h ! i]"

definition best_child :: "NodePluginScores list \<Rightarrow> nat \<Rightarrow> nat \<Rightarrow> nat" where
  "best_child h i n =
     (let j1 = 2 * i + 1; j2 = j1 + 1 in if j2 < n \<and> Less h j2 j1 then j2 else j1)"

function down :: "NodePluginScores list \<Rightarrow> nat \<Rightarrow> nat \<Rightarrow> NodePluginScores list" where
  "down h i n =
     (if n \<le> 2 * i + 1 then h
      else (let j = best_child h i n in if \<not> Less h j i then h else down (Swap h i j) j n))"
  by pat_completeness auto
termination
  by (relation "measure (\<lambda>(h, i, n). n - i)") (auto simp: best_child_def Let_def)

declare down.simps [simp del]

text \<open>\<open>heap.Init\<close>: the loop from the last parent down to the root.\<close>

primrec init_loop :: "nat \<Rightarrow> NodePluginScores list \<Rightarrow> NodePluginScores list" where
  "init_loop 0 h = h"
| "init_loop (Suc i) h = init_loop i (down h i (length h))"

definition NewSortedScoredNodes :: "NodePluginScores list \<Rightarrow> NodePluginScores list" where
  "NewSortedScoredNodes nodeScoreList = init_loop (length nodeScoreList div 2) nodeScoreList"

text \<open>
  \<open>heap.Pop\<close>: swap the root with the last element, sift down, take the last element. It panics on an empty heap;
  \<open>schedulePod\<close> calls it with two nodes or more.
\<close>

definition Pop_best :: "NodePluginScores list \<Rightarrow> NodePluginScores \<times> NodePluginScores list" where
  "Pop_best h = (let n = length h - 1; h = down (Swap h 0 n) 0 n in (last h, butlast h))"

section \<open>Sifting down\<close>

definition rank :: "NodePluginScores \<Rightarrow> int \<times> int" where
  "rank a = (TotalScore a, Randomizer a)"

lemma outscores_rank: "outscores a b \<longleftrightarrow> rank b < rank a"
  by (auto simp: outscores_def rank_def less_prod_def)

definition child :: "nat \<Rightarrow> nat \<Rightarrow> bool" where
  "child i j \<longleftrightarrow> j = 2 * i + 1 \<or> j = 2 * i + 2"

lemma child_order: "child i j \<Longrightarrow> i < j"
  by (auto simp: child_def)

lemma child_parent: "child i k \<Longrightarrow> child j k \<Longrightarrow> i = j"
  unfolding child_def by presburger

text \<open>From index \<open>k\<close> on, no node below \<open>n\<close> outranks its parent, unless the parent is the hole.\<close>

definition heap_but :: "nat option \<Rightarrow> nat \<Rightarrow> nat \<Rightarrow> NodePluginScores list \<Rightarrow> bool" where
  "heap_but hole k n h \<longleftrightarrow>
     (\<forall>i j. child i j \<longrightarrow> k \<le> i \<longrightarrow> j < n \<longrightarrow> hole \<noteq> Some i \<longrightarrow> rank (h ! j) \<le> rank (h ! i)) \<and>
     (\<forall>x i j. hole = Some x \<longrightarrow> child i x \<longrightarrow> child x j \<longrightarrow> k \<le> i \<longrightarrow> j < n \<longrightarrow> rank (h ! j) \<le> rank (h ! i))"

lemma Swap_nth: "i < length h \<Longrightarrow> j < length h \<Longrightarrow> Swap h i j ! m = (if m = j then h ! i else if m = i then h ! j else h ! m)"
  by (simp add: Swap_def nth_list_update)

lemma Swap_keeps: "i < length h \<Longrightarrow> j < length h \<Longrightarrow> mset (Swap h i j) = mset h \<and> length (Swap h i j) = length h"
  using mset_swap [of j h i] by (simp add: Swap_def)

lemma best_child_facts:
  assumes "2 * i + 1 < n"
  shows "child i (best_child h i n)" "best_child h i n < n"
    and "child i j \<Longrightarrow> j < n \<Longrightarrow> rank (h ! j) \<le> rank (h ! best_child h i n)"
  using assms by (auto simp: best_child_def child_def Less_def outscores_rank Let_def)

lemma down_keeps: "n \<le> length h \<Longrightarrow> mset (down h i n) = mset h \<and> length (down h i n) = length h \<and>
    (\<forall>m. n \<le> m \<longrightarrow> down h i n ! m = h ! m)"
proof (induction h i n rule: down.induct)
  case (1 h i n)
  show ?case
  proof (cases "n \<le> 2 * i + 1 \<or> \<not> Less h (best_child h i n) i")
    case True
    then show ?thesis
      by (auto simp: down.simps [of h i n] Let_def)
  next
    case False
    let ?j = "best_child h i n"
    have j: "?j < n" "i < n"
      using False best_child_facts(2) [where h = h and i = i and n = n] by auto
    have "down h i n = down (Swap h i ?j) ?j n"
      using False by (simp add: down.simps [of h i n] Let_def)
    moreover have "mset (Swap h i ?j) = mset h" "length (Swap h i ?j) = length h"
      using j "1.prems" Swap_keeps [of i h ?j] by simp_all
    moreover have "Swap h i ?j ! m = h ! m" if "n \<le> m" for m
      using that j by (simp add: Swap_def)
    ultimately show ?thesis
      using "1.IH" [of ?j] False "1.prems" by simp
  qed
qed

lemma down_heap:
  "n \<le> length h \<Longrightarrow> heap_but (Some i) k n h \<Longrightarrow> k \<le> i \<Longrightarrow> heap_but None k n (down h i n)"
proof (induction h i n rule: down.induct)
  case (1 h i n)
  show ?case
  proof (cases "n \<le> 2 * i + 1")
    case True
    with 1 show ?thesis
      by (auto simp: down.simps [of h i n] heap_but_def child_def)
  next
    case False
    let ?j = "best_child h i n" and ?h = "Swap h i (best_child h i n)"
    have b: "child i ?j" "?j < n" "\<And>m. child i m \<Longrightarrow> m < n \<Longrightarrow> rank (h ! m) \<le> rank (h ! ?j)"
      using False best_child_facts [where h = h and i = i and n = n] by auto
    have i: "i < n"
      using child_order [OF b(1)] b(2) by simp
    show ?thesis
    proof (cases "Less h ?j i")
      case False
      then have "rank (h ! m) \<le> rank (h ! i)" if "child i m" "m < n" for m
        using b(3) [OF that] by (auto simp: Less_def outscores_rank)
      then show ?thesis
        using False "1.prems" by (auto simp: down.simps [of h i n] Let_def heap_but_def)
    next
      case True
      have at: "?h ! m = (if m = ?j then h ! i else if m = i then h ! ?j else h ! m)" for m
        using Swap_nth [of i h ?j m] i b(2) "1.prems"(1) by simp
      have less: "rank (h ! i) < rank (h ! ?j)"
        using True by (simp add: Less_def outscores_rank)
      have ord: "i < ?j"
        by (rule child_order [OF b(1)])
      have old: "\<And>p c. child p c \<Longrightarrow> k \<le> p \<Longrightarrow> c < n \<Longrightarrow> p \<noteq> i \<Longrightarrow> rank (h ! c) \<le> rank (h ! p)"
        "\<And>p c. child p i \<Longrightarrow> child i c \<Longrightarrow> k \<le> p \<Longrightarrow> c < n \<Longrightarrow> rank (h ! c) \<le> rank (h ! p)"
        using "1.prems"(2) by (auto simp: heap_but_def)
      have "rank (?h ! c) \<le> rank (?h ! p)" if "child p c" "k \<le> p" "c < n" "p \<noteq> ?j" for p c
      proof (cases "p = i")
        case True
        then show ?thesis
          using b(3) [of c] that less ord by (auto simp: at)
      next
        case False
        then have "c \<noteq> ?j"
          using child_parent [OF that(1)] b(1) by blast
        then show ?thesis
          using old(1) [of p c] old(2) [of p ?j] that b(1,2) False by (auto simp: at)
      qed
      moreover have "rank (?h ! c) \<le> rank (?h ! p)" if "child p ?j" "child ?j c" "k \<le> p" "c < n" for p c
      proof -
        have "p = i" "c \<noteq> i" "c \<noteq> ?j"
          using child_parent [OF that(1) b(1)] child_order [OF that(2)] ord by auto
        then show ?thesis
          using old(1) [of ?j c] that "1.prems"(3) ord by (simp add: at)
      qed
      ultimately have "heap_but (Some ?j) k n ?h"
        by (auto simp: heap_but_def)
      then have "heap_but None k n (down ?h ?j n)"
        using "1.IH" [of ?j] \<open>\<not> n \<le> 2 * i + 1\<close> True "1.prems" ord by (simp add: Swap_def)
      then show ?thesis
        using \<open>\<not> n \<le> 2 * i + 1\<close> True by (simp add: down.simps [of h i n] Let_def)
    qed
  qed
qed

section \<open>The best node first\<close>

definition heap :: "NodePluginScores list \<Rightarrow> bool" where
  "heap h \<longleftrightarrow> heap_but None 0 (length h) h"

lemma heap_root:
  assumes "heap h" and "m < length h"
  shows "rank (h ! m) \<le> rank (h ! 0)"
  using assms(2)
proof (induction m rule: less_induct)
  case (less m)
  show ?case
  proof (cases m)
    case (Suc m')
    define p where "p = m' div 2"
    have c: "child p m"
      unfolding child_def p_def Suc by presburger
    then have "rank (h ! m) \<le> rank (h ! p)"
      using assms(1) less.prems by (auto simp: heap_def heap_but_def)
    moreover have "rank (h ! p) \<le> rank (h ! 0)"
      using less child_order [OF c] by simp
    ultimately show ?thesis
      by simp
  qed simp
qed

lemma init_loop_heap:
  "heap_but None i (length h) h \<Longrightarrow> mset (init_loop i h) = mset h \<and> heap (init_loop i h)"
proof (induction i arbitrary: h)
  case (Suc i)
  let ?h = "down h i (length h)"
  note d = down_keeps [OF order_refl, of h i]
  have "heap_but (Some i) i (length h) h"
    using Suc.prems child_order by (fastforce simp: heap_but_def)
  then have "heap_but None i (length ?h) ?h"
    using down_heap [of "length h" h i i] d by simp
  with Suc.IH [of ?h] d show ?case
    by simp
qed (simp add: heap_def)

lemma NewSortedScoredNodes_heap:
  "mset (NewSortedScoredNodes h) = mset h" "heap (NewSortedScoredNodes h)"
proof -
  have "heap_but None (length h div 2) (length h) h"
    unfolding heap_but_def child_def by auto
  then show "mset (NewSortedScoredNodes h) = mset h" "heap (NewSortedScoredNodes h)"
    using init_loop_heap by (auto simp: NewSortedScoredNodes_def)
qed

lemma Pop_best_heap:
  assumes "heap h" and "h \<noteq> []"
  shows "\<exists>x h'. Pop_best h = (x, h') \<and> heap h' \<and> mset h = add_mset x (mset h') \<and> (\<forall>y \<in> set h. rank y \<le> rank x)"
proof -
  define n where "n = length h - 1"
  have n: "length h = Suc n"
    using assms(2) by (simp add: n_def)
  let ?s = "Swap h 0 n" and ?d = "down (Swap h 0 n) 0 n"
  have len: "length ?s = Suc n"
    by (simp add: Swap_def n)
  have d: "mset ?d = mset h" "length ?d = Suc n" "?d ! n = h ! 0"
    using down_keeps [of n ?s 0] Swap_keeps [of 0 h n] Swap_nth [of 0 h n n] len n
    by simp_all
  then have ne: "?d \<noteq> []"
    by auto
  with d(2,3) have last: "last ?d = h ! 0"
    by (simp add: last_conv_nth)
  have "rank (?s ! j) \<le> rank (?s ! i)" if "child i j" "j < n" "i \<noteq> 0" for i j
    using assms(1) that child_order [OF that(1)] n Swap_nth [of 0 h n]
    by (auto simp: heap_def heap_but_def)
  then have "heap_but (Some 0) 0 n ?s"
    using child_order by (fastforce simp: heap_but_def)
  then have "heap_but None 0 n ?d"
    using down_heap [of n ?s 0 0] len by simp
  then have "heap (butlast ?d)"
    using d(2) child_order by (fastforce simp: heap_def heap_but_def nth_butlast)
  moreover have "mset h = add_mset (last ?d) (mset (butlast ?d))"
    using d(1) append_butlast_last_id [OF ne] by (metis add_mset_add_single mset_append mset_single_iff_right)
  moreover have "\<forall>y \<in> set h. rank y \<le> rank (last ?d)"
    using heap_root [OF assms(1)] by (auto simp: last in_set_conv_nth)
  moreover have "Pop_best h = (last ?d, butlast ?d)"
    by (simp add: Pop_best_def n_def Let_def)
  ultimately show ?thesis
    by blast
qed

end
