(* ===== verification/Schedule_One.thy ===== *)
theory Schedule_One
  imports Bind_Plugins Node_Filters Score_Heap "HOL-Library.List_Lexorder" "HOL-Library.Char_ord"
begin

text \<open>
  One cycle of the scheduler for one pod: \<open>schedule_one.go\<close> of the vendored scheduler from
  \<open>schedulingAlgorithm\<close> down, and the text of a failure (\<open>Diagnosis\<close> and \<open>FitError\<close> of \<open>framework/types.go\<close>,
  \<open>NodeToStatus\<close> of \<open>framework/interface.go\<close>). The methods of the framework and of the extenders that are called are fields of
  records. The workers that check the nodes in parallel are the order in which the checks take effect, an
  argument. Not modelled: pod groups, metrics, the plugins named in a diagnosis (which only
  steer the queue), and a profile without any filter plugin.
\<close>

section \<open>Statuses of nodes\<close>

fun Reasons :: "filter_status \<Rightarrow> string list" where
  "Reasons Accepted = []"
| "Reasons (Unschedulable rs) = rs"
| "Reasons (UnschedulableAndUnresolvable rs) = rs"

definition Status_Message :: "filter_status \<Rightarrow> string" where
  "Status_Message s = join '', '' (Reasons s)"

record NodeToStatus =
  nodeToStatus :: "(string \<times> filter_status) list"
  absentNodesStatus :: filter_status

definition NewDefaultNodeToStatus :: NodeToStatus where
  "NewDefaultNodeToStatus = \<lparr>nodeToStatus = [], absentNodesStatus = UnschedulableAndUnresolvable []\<rparr>"

definition NodeToStatus_Set :: "string \<Rightarrow> filter_status \<Rightarrow> NodeToStatus \<Rightarrow> NodeToStatus" where
  "NodeToStatus_Set nodeName s m = m\<lparr>nodeToStatus := alist_put nodeName s (nodeToStatus m)\<rparr>"

definition NodeToStatus_Len :: "NodeToStatus \<Rightarrow> nat" where
  "NodeToStatus_Len m = length (nodeToStatus m)"

record Diagnosis =
  NodeStatuses :: NodeToStatus
  PreFilterMsg :: string
  PostFilterMsg :: string

record FitError =
  NumAllNodes :: nat
  FitDiagnosis :: Diagnosis

section \<open>The text of a failure\<close>

definition add_reason :: "nat \<Rightarrow> string \<Rightarrow> (string \<times> nat) list \<Rightarrow> (string \<times> nat) list" where
  "add_reason k reason reasons =
     alist_put reason ((case map_of reasons reason of None \<Rightarrow> 0 | Some v \<Rightarrow> v) + k) reasons"

definition count_reasons :: "FitError \<Rightarrow> (string \<times> nat) list" where
  "count_reasons f =
     (let m = NodeStatuses (FitDiagnosis f);
          reasons = fold (\<lambda>(_, verdict) rs. fold (add_reason 1) (Reasons verdict) rs) (nodeToStatus m) []
      in if NodeToStatus_Len m < NumAllNodes f
         then fold (add_reason (NumAllNodes f - NodeToStatus_Len m)) (Reasons (absentNodesStatus m)) reasons
         else reasons)"

definition sortReasonsHistogram :: "(string \<times> nat) list \<Rightarrow> string list" where
  "sortReasonsHistogram reasons = sort (map (\<lambda>(k, v). show_nat v @ '' '' @ k) reasons)"

definition FitError_Error :: "FitError \<Rightarrow> string" where
  "FitError_Error f =
     (let reasonMsg = ''0/'' @ show_nat (NumAllNodes f) @ '' nodes are available:'';
          preFilterMsg = PreFilterMsg (FitDiagnosis f);
          postFilterMsg = PostFilterMsg (FitDiagnosis f);
          reasonMsg = reasonMsg @
            (if preFilterMsg \<noteq> [] then '' '' @ preFilterMsg @ ''.''
             else (let sortedFilterMsg = sortReasonsHistogram (count_reasons f) in
               if sortedFilterMsg \<noteq> [] then '' '' @ join '', '' sortedFilterMsg @ ''.'' else []))
      in if postFilterMsg \<noteq> [] then reasonMsg @ '' '' @ postFilterMsg else reasonMsg)"

section \<open>The scheduler and its framework\<close>

record node_extender = extender +
  IsFilter :: bool
  ExtenderFilter :: "Pod \<Rightarrow> node_state list \<Rightarrow>
    go_error + node_state list \<times> (string \<times> string) list \<times> (string \<times> string) list"
  IsPrioritizer :: bool
  Prioritize :: "Pod \<Rightarrow> string list \<Rightarrow> go_error + (string \<times> int) list \<times> int"

record Scheduler =
  percentageOfNodesToScore :: int
  Extenders :: "node_extender list"
  nextStartNodeIndex :: nat

text \<open>
  What a cycle asks of the framework. \<open>FilterNode\<close> is \<open>RunFilterPluginsWithNominatedPods\<close>, \<open>NodeHint\<close> the
  nominated node of the pod or the hint of the batch, \<open>PostFilter\<close> the message of the plugins for
  preemption, if there are any; a score comes with its random tie-breaker.
\<close>

record Framework =
  PercentageOfNodesToScore :: "int option"
  PreFilter :: pre_filter
  NodeHint :: string
  FilterNode :: "node_state \<Rightarrow> go_error + filter_status"
  HasScorePlugins :: bool
  RunPreScorePlugins :: "string list \<Rightarrow> go_error option"
  RunScorePlugins :: "string list \<Rightarrow> go_error + (string \<Rightarrow> int \<times> int)"
  PostFilter :: "(NodeToStatus \<Rightarrow> string) option"

abbreviation name_of :: "node_state \<Rightarrow> string" where
  "name_of n \<equiv> node_name (Info n)"

definition hasScoring :: "Scheduler \<Rightarrow> Framework \<Rightarrow> bool" where
  "hasScoring sched fw \<longleftrightarrow> HasScorePlugins fw \<or> list_ex IsPrioritizer (Extenders sched)"

definition hasExtenderFilters :: "Scheduler \<Rightarrow> bool" where
  "hasExtenderFilters sched \<longleftrightarrow> list_ex IsFilter (Extenders sched)"

definition numFeasibleNodesToFind :: "Scheduler \<Rightarrow> int option \<Rightarrow> int \<Rightarrow> int" where
  "numFeasibleNodesToFind sched profilePercentage numAllNodes =
     (if numAllNodes < 100 then numAllNodes
      else (let percentage = (case profilePercentage of Some p \<Rightarrow> p | None \<Rightarrow> percentageOfNodesToScore sched);
                percentage = (if percentage = 0 then max 5 (50 - numAllNodes sdiv 125) else percentage);
                numNodes = wrap32 (numAllNodes * percentage) sdiv 100
            in if numNodes < 100 then 100 else numNodes))"

section \<open>Looking for nodes that pass the filters\<close>

text \<open>The variables the workers share: the nodes found, the slots of the rest, the first error, the cancelled context.\<close>

record search =
  feasible :: "node_state list"
  results :: "(string \<times> filter_status) option list"
  search_error :: "go_error option"
  cancelled :: bool

definition checkNode :: "Framework \<Rightarrow> nat \<Rightarrow> nat \<Rightarrow> node_state list \<Rightarrow> nat \<Rightarrow> search \<Rightarrow> search" where
  "checkNode fw start numNodesToFind nodes i s =
     (let nodeInfo = nodes ! ((start + i) mod length nodes) in
      case FilterNode fw nodeInfo of
        Inl e \<Rightarrow> s\<lparr>search_error := (case search_error s of None \<Rightarrow> Some e | Some e' \<Rightarrow> Some e'), cancelled := True\<rparr>
      | Inr verdict \<Rightarrow>
          if verdict = Accepted then
            (if numNodesToFind < length (feasible s) + 1 then s\<lparr>cancelled := True\<rparr>
             else s\<lparr>feasible := feasible s @ [nodeInfo]\<rparr>)
          else s\<lparr>results := (results s)[i := Some (name_of nodeInfo, verdict)]\<rparr>)"

definition nodes_to_find :: "Scheduler \<Rightarrow> Framework \<Rightarrow> nat \<Rightarrow> nat" where
  "nodes_to_find sched fw numAllNodes =
     (if \<not> hasExtenderFilters sched \<and> \<not> hasScoring sched fw then 1
      else nat (numFeasibleNodesToFind sched (PercentageOfNodesToScore fw) (wrap32 (int numAllNodes))))"

definition run_checks :: "Scheduler \<Rightarrow> Framework \<Rightarrow> node_state list \<Rightarrow> nat list \<Rightarrow> search" where
  "run_checks sched fw nodes order =
     fold (checkNode fw (nextStartNodeIndex sched) (nodes_to_find sched fw (length nodes)) nodes) order
       \<lparr>feasible = [], results = replicate (length nodes) None, search_error = None, cancelled = False\<rparr>"

text \<open>
  The orders in which \<open>ParallelizeUntil\<close> may have run the checks: each index at most once, and all of them unless the
  context was cancelled.
\<close>

definition order_ok :: "Scheduler \<Rightarrow> Framework \<Rightarrow> node_state list \<Rightarrow> nat list \<Rightarrow> bool" where
  "order_ok sched fw nodes order \<longleftrightarrow>
     distinct order \<and> list_all (\<lambda>i. i < length nodes) order \<and>
     (cancelled (run_checks sched fw nodes order) \<or> list_all (\<lambda>i. i \<in> set order) [0..<length nodes])"

fun set_statuses :: "(string \<times> filter_status) option list \<Rightarrow> NodeToStatus \<Rightarrow> NodeToStatus" where
  "set_statuses [] m = m"
| "set_statuses (None # rs) m = set_statuses rs m"
| "set_statuses (Some (name, verdict) # rs) m = set_statuses rs (NodeToStatus_Set name verdict m)"

definition findNodesThatPassFilters ::
    "Scheduler \<Rightarrow> Framework \<Rightarrow> NodeToStatus \<Rightarrow> node_state list \<Rightarrow> nat list \<Rightarrow>
     node_state list \<times> NodeToStatus \<times> go_error option" where
  "findNodesThatPassFilters sched fw m nodes order =
     (let s = run_checks sched fw nodes order in (feasible s, set_statuses (results s) m, search_error s))"

section \<open>Extenders\<close>

definition set_failed :: "(string \<times> string) list \<Rightarrow> (string \<times> string) list \<Rightarrow> NodeToStatus \<Rightarrow> NodeToStatus" where
  "set_failed failedMap failedAndUnresolvableMap m =
     fold (\<lambda>(name, msg). if map_of failedAndUnresolvableMap name \<noteq> None then (\<lambda>m. m)
           else NodeToStatus_Set name (Unschedulable [msg])) failedMap
       (fold (\<lambda>(name, msg). NodeToStatus_Set name (UnschedulableAndUnresolvable [msg])) failedAndUnresolvableMap m)"

fun findNodesThatPassExtenders ::
    "node_extender list \<Rightarrow> Pod \<Rightarrow> node_state list \<Rightarrow> NodeToStatus \<Rightarrow> go_error + node_state list \<times> NodeToStatus" where
  "findNodesThatPassExtenders [] pod nodes m = Inr (nodes, m)"
| "findNodesThatPassExtenders (x # xs) pod nodes m =
     (if nodes = [] then Inr (nodes, m)
      else if \<not> IsInterested x pod then findNodesThatPassExtenders xs pod nodes m
      else (case ExtenderFilter x pod nodes of
          Inl e \<Rightarrow> if IsIgnorable x then findNodesThatPassExtenders xs pod nodes m else Inl e
        | Inr (feasibleList, failedMap, failedAndUnresolvableMap) \<Rightarrow>
            findNodesThatPassExtenders xs pod feasibleList
              (set_failed failedMap failedAndUnresolvableMap m)))"

section \<open>The nodes a pod fits on\<close>

text \<open>The status map is shared: what the check of the hinted node sets stays in it.\<close>

definition evaluateNominatedNode ::
    "Scheduler \<Rightarrow> Framework \<Rightarrow> Pod \<Rightarrow> node_state list \<Rightarrow> NodeToStatus \<Rightarrow> (go_error + node_state list) \<times> NodeToStatus" where
  "evaluateNominatedNode sched fw pod allNodes m =
     (case find (\<lambda>n. name_of n = NodeHint fw) allNodes of
        None \<Rightarrow> (Inl (Not_found (NodeHint fw)), m)
      | Some nodeInfo \<Rightarrow>
          (case findNodesThatPassFilters sched fw m [nodeInfo] [0] of
             (_, m, Some e) \<Rightarrow> (Inl e, m)
           | (nodes, m, None) \<Rightarrow>
               (case findNodesThatPassExtenders (Extenders sched) pod nodes m of
                  Inl e \<Rightarrow> (Inl e, m) | Inr (nodes, m) \<Rightarrow> (Inr nodes, m))))"

definition not_satisfied :: "string list \<Rightarrow> string" where
  "not_satisfied plugins = ''node(s) didn'' @ [CHR 39] @ ''t satisfy plugin(s) ['' @ join '' '' plugins @ '']''"

definition restrict_nodes :: "pre_filter \<Rightarrow> node_state list \<Rightarrow> NodeToStatus \<Rightarrow> node_state list \<times> NodeToStatus" where
  "restrict_nodes preRes allNodes m =
     (case preRes of
        Only_nodes names plugins \<Rightarrow>
          (List.map_filter (\<lambda>name. find (\<lambda>n. name_of n = name) allNodes) names,
           m\<lparr>absentNodesStatus := UnschedulableAndUnresolvable [not_satisfied plugins]\<rparr>)
      | _ \<Rightarrow> (allNodes, m))"

text \<open>The nodes that are searched. The order of a set of names is that of the list; the order of the checks is free.\<close>

abbreviation searched :: "Framework \<Rightarrow> node_state list \<Rightarrow> node_state list" where
  "searched fw nodes \<equiv> fst (restrict_nodes (PreFilter fw) nodes NewDefaultNodeToStatus)"

definition findNodesThatFitPod ::
    "Scheduler \<Rightarrow> Framework \<Rightarrow> Pod \<Rightarrow> node_state list \<Rightarrow> nat list \<Rightarrow>
     Scheduler \<times> (go_error + node_state list \<times> Diagnosis)" where
  "findNodesThatFitPod sched fw pod allNodes order =
     (let diagnosis = \<lparr>NodeStatuses = NewDefaultNodeToStatus, PreFilterMsg = [], PostFilterMsg = []\<rparr> in
      case PreFilter fw of
        Pre_failed e \<Rightarrow> (sched, Inl e)
      | Pre_rejected s \<Rightarrow> (sched, Inr ([], diagnosis
          \<lparr>NodeStatuses := NewDefaultNodeToStatus\<lparr>absentNodesStatus := s\<rparr>, PreFilterMsg := Status_Message s\<rparr>))
      | preRes \<Rightarrow>
          (let (hinted, m) = (if NodeHint fw = [] then (Inr [], NewDefaultNodeToStatus)
                 else evaluateNominatedNode sched fw pod allNodes NewDefaultNodeToStatus) in
           case hinted of
             Inr (n # ns) \<Rightarrow> (sched, Inr (n # ns, diagnosis\<lparr>NodeStatuses := m\<rparr>))
           | _ \<Rightarrow>
               (let (nodes, m) = restrict_nodes preRes allNodes m;
                    (feasibleNodes, m, err) = findNodesThatPassFilters sched fw m nodes order;
                    processedNodes = length feasibleNodes + NodeToStatus_Len m;
                    sched' = sched\<lparr>nextStartNodeIndex :=
                      (nextStartNodeIndex sched + processedNodes) mod length allNodes\<rparr> in
                case err of
                  Some e \<Rightarrow> (sched', Inl e)
                | None \<Rightarrow>
                    (case findNodesThatPassExtenders (Extenders sched) pod feasibleNodes m of
                       Inl e \<Rightarrow> (sched', Inl e)
                     | Inr (feasibleNodes, m) \<Rightarrow> (sched', Inr (feasibleNodes, diagnosis\<lparr>NodeStatuses := m\<rparr>))))))"

section \<open>Choosing a node\<close>

text \<open>The score of an extender is scaled by 100 / 10; a node it does not name gets nothing.\<close>

definition extender_score :: "Pod \<Rightarrow> string list \<Rightarrow> string \<Rightarrow> node_extender \<Rightarrow> int" where
  "extender_score pod names name x =
     (if \<not> IsInterested x pod then 0
      else (case Prioritize x pod names of
          Inl _ \<Rightarrow> 0
        | Inr (scores, weight) \<Rightarrow>
            sum_list (map (\<lambda>(host, score). if host = name then score * weight * 10 else 0) scores)))"

definition prioritizeNodes :: "Scheduler \<Rightarrow> Framework \<Rightarrow> Pod \<Rightarrow> string list \<Rightarrow> go_error + NodePluginScores list" where
  "prioritizeNodes sched fw pod names =
     (if Extenders sched = [] \<and> \<not> HasScorePlugins fw
      then Inr (map (\<lambda>name. \<lparr>ScoredName = name, TotalScore = 1, Randomizer = 0\<rparr>) names)
      else (case RunPreScorePlugins fw names of
          Some e \<Rightarrow> Inl e
        | None \<Rightarrow>
            (case RunScorePlugins fw names of
               Inl e \<Rightarrow> Inl e
             | Inr scores \<Rightarrow> Inr (map (\<lambda>name. \<lparr>ScoredName = name,
                 TotalScore = wrap64 (fst (scores name) + sum_list (map (extender_score pod names name) (Extenders sched))),
                 Randomizer = snd (scores name)\<rparr>) names))))"

record ScheduleResult =
  SuggestedHost :: string
  EvaluatedNodes :: nat
  FeasibleNodes :: nat

datatype schedule_error =
    ErrNoNodesAvailable
  | Fit_error FitError
  | Schedule_error go_error

definition schedulePod ::
    "Scheduler \<Rightarrow> Framework \<Rightarrow> Pod \<Rightarrow> node_state list \<Rightarrow> nat list \<Rightarrow>
     Scheduler \<times> (schedule_error + ScheduleResult)" where
  "schedulePod sched fw pod allNodes order =
     (if allNodes = [] then (sched, Inl ErrNoNodesAvailable)
      else (case findNodesThatFitPod sched fw pod allNodes order of
          (sched', Inl e) \<Rightarrow> (sched', Inl (Schedule_error e))
        | (sched', Inr (feasibleNodes, diagnosis)) \<Rightarrow>
            (let result = (\<lambda>host. \<lparr>SuggestedHost = host,
                   EvaluatedNodes = length feasibleNodes + NodeToStatus_Len (NodeStatuses diagnosis),
                   FeasibleNodes = length feasibleNodes\<rparr>) in
             case feasibleNodes of
               [] \<Rightarrow> (sched', Inl (Fit_error \<lparr>NumAllNodes = length allNodes, FitDiagnosis = diagnosis\<rparr>))
             | [n] \<Rightarrow> (sched', Inr (result (name_of n)))
             | _ \<Rightarrow>
                 (case prioritizeNodes sched' fw pod (map name_of feasibleNodes) of
                    Inl e \<Rightarrow> (sched', Inl (Schedule_error e))
                  | Inr priorityList \<Rightarrow>
                      (sched', Inr (result (ScoredName (fst (Pop_best (NewSortedScoredNodes priorityList))))))))))"

section \<open>Success or failure of a cycle\<close>

text \<open>
  The reason and the message of the condition that \<open>handleSchedulingFailure\<close> records. The text of an error that
  is neither of the two is an argument.
\<close>

definition failure_of :: "(go_error \<Rightarrow> string) \<Rightarrow> schedule_error \<Rightarrow> string \<times> string" where
  "failure_of error_text e =
     (case e of
        ErrNoNodesAvailable \<Rightarrow> (''Unschedulable'', ''no nodes available to schedule pods'')
      | Fit_error f \<Rightarrow> (''Unschedulable'', FitError_Error f)
      | Schedule_error e \<Rightarrow> (''SchedulerError'', error_text e))"

definition schedulingAlgorithm ::
    "(go_error \<Rightarrow> string) \<Rightarrow> Scheduler \<Rightarrow> Framework \<Rightarrow> Pod \<Rightarrow> node_state list \<Rightarrow> nat list \<Rightarrow>
     Scheduler \<times> ((string \<times> string) + ScheduleResult)" where
  "schedulingAlgorithm error_text sched fw pod allNodes order =
     (case schedulePod sched fw pod allNodes order of
        (sched', Inr r) \<Rightarrow> (sched', Inr r)
      | (sched', Inl (Fit_error f)) \<Rightarrow>
          (let d = FitDiagnosis f; f = (case PostFilter fw of None \<Rightarrow> f
             | Some post \<Rightarrow> f\<lparr>FitDiagnosis := d\<lparr>PostFilterMsg := post (NodeStatuses d)\<rparr>\<rparr>) in
           (sched', Inl (failure_of error_text (Fit_error f))))
      | (sched', Inl e) \<Rightarrow> (sched', Inl (failure_of error_text e)))"

end
