(* ===== verification/Schedule_Search.thy ===== *)
theory Schedule_Search
  imports Schedule_One
begin

text \<open>
  What a scheduling cycle guarantees, in whatever order the workers check the nodes, wherever the search
  starts and whatever node is hinted: the pod goes to a node that passes the filters if there is one,
  and the text of the failure counts all nodes if there is none. The locale \<open>reliable_framework\<close> is what this
  asks of the framework: its plugins do not fail, and none leaves out a node in its \<open>PreFilter\<close> that the filters would accept.
\<close>

section \<open>How many nodes are looked for\<close>

lemma nodes_to_find_bounds:
  assumes "nodes \<noteq> []" and "int (length nodes) < 2 ^ 31"
  shows "0 < nodes_to_find sched fw (length nodes)"
    and "hasScoring sched fw \<Longrightarrow> length nodes < 100 \<Longrightarrow> nodes_to_find sched fw (length nodes) = length nodes"
proof -
  have w: "wrap32 (int (length nodes)) = int (length nodes)"
    using assms(2) by (intro wrap32_id) (simp add: int32_def)
  have n: "0 < int (length nodes)"
    using assms(1) by simp
  have "0 < numFeasibleNodesToFind sched p (int (length nodes))" for p
    using n by (simp add: numFeasibleNodesToFind_def Let_def)
  then show "0 < nodes_to_find sched fw (length nodes)"
    by (simp add: nodes_to_find_def w)
  show "nodes_to_find sched fw (length nodes) = length nodes" if "hasScoring sched fw" "length nodes < 100"
    using that by (simp add: nodes_to_find_def w numFeasibleNodesToFind_def)
qed

section \<open>The text of a failure\<close>

text \<open>
  What the user reads: for each reason the number of times the nodes give it, whatever the order in which they
  were checked.
\<close>

definition histogram :: "string list \<Rightarrow> string list" where
  "histogram reasons = sort (map (\<lambda>r. show_nat (count_list reasons r) @ '' '' @ r) (remdups reasons))"

definition failure_text :: "(node_state \<Rightarrow> filter_status) \<Rightarrow> node_state list \<Rightarrow> string \<Rightarrow> string" where
  "failure_text verdict nodes post =
     (let h = histogram (concat (map (\<lambda>n. Reasons (verdict n)) nodes)) in
      ''0/'' @ show_nat (length nodes) @ '' nodes are available:'' @
      (if h = [] then [] else '' '' @ join '', '' h @ ''.'') @ (if post = [] then [] else '' '' @ post))"

text \<open>
  The text of a whole cycle. A plugin that rejects the pod before the filters run is quoted. A node that such a plugin leaves
  out gives that as its only reason, unless it is the hinted node, which is checked nevertheless.
\<close>

definition left_in :: "pre_filter \<Rightarrow> node_state \<Rightarrow> bool" where
  "left_in pre n \<longleftrightarrow> (case pre of Only_nodes names plugins \<Rightarrow> name_of n \<in> set names | _ \<Rightarrow> True)"

definition told :: "pre_filter \<Rightarrow> string \<Rightarrow> node_state \<Rightarrow> bool" where
  "told pre hint n \<longleftrightarrow> left_in pre n \<or> hint \<noteq> [] \<and> name_of n = hint"

definition absent_status :: "pre_filter \<Rightarrow> filter_status" where
  "absent_status pre = UnschedulableAndUnresolvable (case pre of Only_nodes names plugins \<Rightarrow> [not_satisfied plugins] | _ \<Rightarrow> [])"

definition fit_text :: "pre_filter \<Rightarrow> string \<Rightarrow> (node_state \<Rightarrow> filter_status) \<Rightarrow> node_state list \<Rightarrow> string \<Rightarrow> string" where
  "fit_text pre hint verdict nodes post =
     (case pre of
        Pre_rejected s \<Rightarrow> ''0/'' @ show_nat (length nodes) @ '' nodes are available:'' @ '' '' @ Status_Message s @ ''.'' @
          (if post = [] then [] else '' '' @ post)
      | _ \<Rightarrow> failure_text (\<lambda>n. if told pre hint n then verdict n else absent_status pre) nodes post)"

definition reason_count :: "(string \<times> nat) list \<Rightarrow> string \<Rightarrow> nat" where
  "reason_count m r = (case map_of m r of None \<Rightarrow> 0 | Some v \<Rightarrow> v)"

definition counted :: "(string \<times> nat) list \<Rightarrow> string list \<Rightarrow> bool" where
  "counted m rs \<longleftrightarrow> distinct (map fst m) \<and> fst ` set m = set rs \<and> (\<forall>r. reason_count m r = count_list rs r)"

lemma counted_add:
  assumes "counted m rs"
  shows "counted (fold (add_reason 1) new m) (rs @ new)"
  using assms
proof (induction new arbitrary: m rs)
  case (Cons r new)
  then have "counted (add_reason 1 r m) (rs @ [r])"
    by (auto simp: counted_def add_reason_def keys_alist_put reason_count_def)
  with Cons.IH show ?case
    by fastforce
qed simp

lemma counted_all:
  "counted m rs \<Longrightarrow> counted (fold (\<lambda>(_, verdict) rs. fold (add_reason 1) (Reasons verdict) rs) vs m)
    (rs @ concat (map (\<lambda>(_, verdict). Reasons verdict) vs))"
proof (induction vs arbitrary: m rs)
  case (Cons v vs)
  then show ?case
    using Cons.IH [OF counted_add [OF Cons.prems, of "Reasons (snd v)"]] by (simp add: case_prod_beta)
qed simp

lemma count_replicate: "count_list (replicate k r) x = (if x = r then k else 0)"
  by (induction k) auto

lemma counted_add_many:
  assumes "counted m rs" and "0 < k"
  shows "counted (fold (add_reason k) new m) (rs @ concat (map (replicate k) new))"
  using assms(1)
proof (induction new arbitrary: m rs)
  case (Cons r new)
  then have "counted (add_reason k r m) (rs @ replicate k r)"
    using assms(2) by (auto simp: counted_def add_reason_def keys_alist_put reason_count_def count_replicate)
  with Cons.IH show ?case
    by fastforce
qed simp

lemma sort_mset: "mset xs = mset ys \<Longrightarrow> sort xs = sort (ys :: 'a :: linorder list)"
  by (rule properties_for_sort) simp_all

lemma mset_concat_map:
  assumes "mset xs = mset ys"
  shows "mset (concat (map f xs)) = mset (concat (map f ys))"
proof -
  have "mset (concat (map f zs)) = \<Sum>\<^sub># (image_mset (\<lambda>z. mset (f z)) (mset zs))" for zs
    by (induction zs) simp_all
  then show ?thesis
    by (simp add: assms)
qed

lemma counted_histogram:
  assumes "counted m rs" and "mset rs = mset rs'"
  shows "sortReasonsHistogram m = histogram rs'"
proof -
  have rs: "set rs = set rs'" "count_list rs r = count_list rs' r" for r
    using assms(2) by (metis set_mset_mset, metis count_mset)
  have m: "distinct (map fst m)" "fst ` set m = set rs'" "\<And>r. reason_count m r = count_list rs' r"
    using assms(1) rs by (simp_all add: counted_def)
  have entry: "(k, v) \<in> set m \<longleftrightarrow> k \<in> set rs' \<and> v = count_list rs' k" for k v
  proof -
    have "(k, v) \<in> set m \<longleftrightarrow> map_of m k = Some v"
      using m(1) by simp
    moreover have "k \<in> set rs' \<longleftrightarrow> map_of m k \<noteq> None"
      by (simp add: map_of_eq_None_iff flip: m(2))
    ultimately show ?thesis
      using m(3) [of k] by (auto simp: reason_count_def)
  qed
  have "set m = set (map (\<lambda>r. (r, count_list rs' r)) (remdups rs'))"
    by (auto simp: entry)
  moreover have "distinct m" "distinct (map (\<lambda>r. (r, count_list rs' r)) (remdups rs'))"
    using m(1) by (auto simp: distinct_map inj_on_def)
  ultimately have "mset m = mset (map (\<lambda>r. (r, count_list rs' r)) (remdups rs'))"
    by (simp only: set_eq_iff_mset_eq_distinct)
  then have "mset (map (\<lambda>(k, v). show_nat v @ '' '' @ k) m) =
      mset (map (\<lambda>(k, v). show_nat v @ '' '' @ k) (map (\<lambda>r. (r, count_list rs' r)) (remdups rs')))"
    by (simp only: mset_map)
  from sort_mset [OF this] show ?thesis
    by (simp add: sortReasonsHistogram_def histogram_def comp_def)
qed

section \<open>The workers\<close>

text \<open>The node that check number \<open>i\<close> looks at.\<close>

definition checked_node :: "nat \<Rightarrow> node_state list \<Rightarrow> nat \<Rightarrow> node_state" where
  "checked_node start nodes i = nodes ! ((start + i) mod length nodes)"

lemma checked_node_mem: "nodes \<noteq> [] \<Longrightarrow> checked_node start nodes i \<in> set nodes"
  by (simp add: checked_node_def)

lemma every_node_checked:
  assumes "n \<in> set nodes"
  obtains i where "i < length nodes" "checked_node start nodes i = n"
proof -
  obtain j where j: "j < length nodes" "nodes ! j = n"
    using assms by (auto simp: in_set_conv_nth)
  define N where "N = length nodes"
  define r where "r = start mod N"
  define i where "i = (j + (N - r)) mod N"
  have "0 < N"
    using j(1) unfolding N_def by linarith
  then have r: "r \<le> N" "start = N * (start div N) + r"
    by (simp_all add: r_def less_imp_le)
  have "(start + i) mod N = (start + (j + (N - r))) mod N"
    by (simp add: i_def mod_add_right_eq)
  also have "start + (j + (N - r)) = j + N * (start div N + 1)"
    using r by simp
  also have "(j + N * (start div N + 1)) mod N = j"
    using j(1) by (simp only: mod_mult_self2) (simp add: N_def)
  finally have "checked_node start nodes i = n"
    using j(2) by (simp add: checked_node_def N_def)
  moreover have "i < length nodes"
    using \<open>0 < N\<close> unfolding i_def by (simp flip: N_def)
  ultimately show thesis
    by (rule that [rotated])
qed

locale reliable_framework =
  fixes fw :: Framework and verdict :: "node_state \<Rightarrow> filter_status" and score :: "string \<Rightarrow> int \<times> int"
  assumes filters: "FilterNode fw n = Inr (verdict n)"
    and scores: "RunPreScorePlugins fw names = None" "RunScorePlugins fw names = Inr score"
    and pre_filter: "case PreFilter fw of All_nodes \<Rightarrow> True
      | Only_nodes names plugins \<Rightarrow> distinct names \<and> (\<forall>n. name_of n \<noteq> [] \<longrightarrow> verdict n = Accepted \<longrightarrow> name_of n \<in> set names)
      | Pre_rejected s \<Rightarrow> Status_Message s \<noteq> [] \<and> (\<forall>n. name_of n \<noteq> [] \<longrightarrow> verdict n \<noteq> Accepted)
      | Pre_failed e \<Rightarrow> False"
begin

definition accepts :: "node_state \<Rightarrow> bool" where
  "accepts n \<longleftrightarrow> verdict n = Accepted"

text \<open>The state of the search after some checks.\<close>

definition slot :: "nat \<Rightarrow> node_state list \<Rightarrow> nat list \<Rightarrow> nat \<Rightarrow> (string \<times> filter_status) option" where
  "slot start nodes order i =
     (let n = checked_node start nodes i in
      if i \<in> set order \<and> \<not> accepts n then Some (name_of n, verdict n) else None)"

definition search_inv :: "nat \<Rightarrow> nat \<Rightarrow> node_state list \<Rightarrow> nat list \<Rightarrow> search \<Rightarrow> bool" where
  "search_inv start k nodes order s \<longleftrightarrow>
     (let found = filter accepts (map (checked_node start nodes) order) in
      search_error s = None \<and> feasible s = take k found \<and> (cancelled s \<longleftrightarrow> k < length found) \<and>
      results s = map (slot start nodes order) [0..<length nodes])"

lemma search_inv_check:
  assumes "search_inv start k nodes order s" and "i < length nodes"
  shows "search_inv start k nodes (order @ [i]) (checkNode fw start k nodes i s)"
proof -
  define n where "n = checked_node start nodes i"
  define found where "found = filter accepts (map (checked_node start nodes) order)"
  have s: "search_error s = None" "feasible s = take k found" "cancelled s \<longleftrightarrow> k < length found"
    "results s = map (slot start nodes order) [0..<length nodes]"
    using assms(1) by (simp_all add: search_inv_def found_def Let_def)
  have next_found: "filter accepts (map (checked_node start nodes) (order @ [i])) = found @ (if accepts n then [n] else [])"
    by (simp add: found_def n_def)
  have slots: "map (slot start nodes (order @ [i])) [0..<length nodes] =
      (if accepts n then results s else (results s)[i := Some (name_of n, verdict n)])"
    unfolding s(4) using assms(2) by (intro nth_equalityI) (auto simp: slot_def n_def Let_def nth_list_update)
  show ?thesis
  proof (cases "accepts n")
    case True
    have "checkNode fw start k nodes i s =
        (if k < length (feasible s) + 1 then s\<lparr>cancelled := True\<rparr> else s\<lparr>feasible := feasible s @ [n]\<rparr>)"
      using True by (simp add: checkNode_def filters accepts_def n_def checked_node_def Let_def)
    moreover have "k < length (feasible s) + 1 \<longleftrightarrow> k \<le> length found"
      unfolding s(2) length_take by linarith
    ultimately show ?thesis
      using True s slots unfolding search_inv_def next_found by (simp add: Let_def)
  next
    case False
    then have "checkNode fw start k nodes i s = s\<lparr>results := (results s)[i := Some (name_of n, verdict n)]\<rparr>"
      by (simp add: checkNode_def filters accepts_def n_def checked_node_def Let_def)
    then show ?thesis
      using False s slots unfolding search_inv_def next_found by (simp add: Let_def)
  qed
qed

lemma search_inv_run:
  assumes "list_all (\<lambda>i. i < length nodes) order"
  shows "search_inv (nextStartNodeIndex sched) (nodes_to_find sched fw (length nodes)) nodes order
    (run_checks sched fw nodes order)"
  using assms
proof (induction order rule: rev_induct)
  case Nil
  then show ?case
    by (auto simp: run_checks_def search_inv_def slot_def Let_def intro: nth_equalityI)
next
  case (snoc i order)
  then show ?case
    using search_inv_check [of _ _ nodes order _ i] by (simp add: run_checks_def)
qed

text \<open>What is recorded is true, and nothing is missing when no node was found.\<close>

definition recorded :: "node_state list \<Rightarrow> NodeToStatus \<Rightarrow> bool" where
  "recorded nodes m \<longleftrightarrow> distinct (map fst (nodeToStatus m)) \<and>
     set (nodeToStatus m) \<subseteq> (\<lambda>n. (name_of n, verdict n)) ` {n \<in> set nodes. \<not> accepts n}"

lemma recorded_default [simp]: "recorded nodes NewDefaultNodeToStatus"
  by (simp add: recorded_def NewDefaultNodeToStatus_def)

lemma absent_default [simp]: "absentNodesStatus NewDefaultNodeToStatus = UnschedulableAndUnresolvable []"
  by (simp add: NewDefaultNodeToStatus_def)

lemma recorded_Set:
  assumes "recorded nodes m" and "n \<in> set nodes" and "\<not> accepts n"
  shows "recorded nodes (NodeToStatus_Set (name_of n) (verdict n) m)"
  using assms by (auto simp: recorded_def NodeToStatus_Set_def set_alist_put)

lemma set_statuses_keeps:
  assumes "list_all (\<lambda>r. r = None \<or> (\<exists>n \<in> set nodes. \<not> accepts n \<and> r = Some (name_of n, verdict n))) rs"
    and "recorded nodes m"
  shows "recorded nodes (set_statuses rs m) \<and>
    fst ` set (nodeToStatus (set_statuses rs m)) = fst ` set (nodeToStatus m) \<union> {name. \<exists>v. Some (name, v) \<in> set rs} \<and>
    absentNodesStatus (set_statuses rs m) = absentNodesStatus m"
  using assms
proof (induction rs m rule: set_statuses.induct)
  case (3 name v rs m)
  then have "recorded nodes (NodeToStatus_Set name v m)"
    using recorded_Set by auto
  with 3 show ?case
    by (auto simp: NodeToStatus_Set_def keys_alist_put)
qed auto

lemma findNodesThatPassFilters_facts:
  assumes "order_ok sched fw nodes order" and "recorded all m" and "set nodes \<subseteq> set all"
    and "int (length nodes) < 2 ^ 31"
  obtains found m' where "findNodesThatPassFilters sched fw m nodes order = (found, m', None)"
    and "set found \<subseteq> {n \<in> set nodes. accepts n}" and "recorded all m'"
    and "absentNodesStatus m' = absentNodesStatus m" and "fst ` set (nodeToStatus m) \<subseteq> fst ` set (nodeToStatus m')"
    and "found = [] \<Longrightarrow> Ball (set nodes) (\<lambda>n. \<not> accepts n \<and> name_of n \<in> fst ` set (nodeToStatus m'))"
    and "hasScoring sched fw \<Longrightarrow> length nodes < 100 \<Longrightarrow> set found = {n \<in> set nodes. accepts n}"
proof (cases "nodes = []")
  case True
  then have "findNodesThatPassFilters sched fw m nodes order = ([], m, None)"
    using assms(1) by (cases order) (auto simp: order_ok_def findNodesThatPassFilters_def run_checks_def)
  then show thesis
    by (rule that) (use assms(2) True in simp_all)
next
  case False
  let ?start = "nextStartNodeIndex sched" and ?k = "nodes_to_find sched fw (length nodes)"
  let ?at = "checked_node ?start nodes" and ?s = "run_checks sched fw nodes order"
  define all_found where "all_found = filter accepts (map ?at order)"
  have order: "distinct order" "list_all (\<lambda>i. i < length nodes) order"
    "cancelled ?s \<or> list_all (\<lambda>i. i \<in> set order) [0..<length nodes]"
    using assms(1) by (simp_all add: order_ok_def)
  have s: "search_error ?s = None" "feasible ?s = take ?k all_found" "cancelled ?s \<longleftrightarrow> ?k < length all_found"
    "results ?s = map (slot ?start nodes order) [0..<length nodes]"
    using search_inv_run [OF order(2), of sched] by (simp_all add: search_inv_def all_found_def Let_def)
  have k: "0 < ?k"
    by (rule nodes_to_find_bounds(1) [OF False assms(4)])
  have at: "?at i \<in> set nodes" for i
    by (rule checked_node_mem [OF False])
  have "list_all (\<lambda>r. r = None \<or> (\<exists>n \<in> set all. \<not> accepts n \<and> r = Some (name_of n, verdict n))) (results ?s)"
    using at assms(3) by (auto simp: s(4) list_all_iff slot_def Let_def)
  note m' = set_statuses_keeps [OF this assms(2)]
  have complete: "i \<in> set order" if "\<not> cancelled ?s" "i < length nodes" for i
    using order(3) that by (auto simp: list_all_iff)
  show thesis
  proof (rule that)
    show "findNodesThatPassFilters sched fw m nodes order = (feasible ?s, set_statuses (results ?s) m, None)"
      by (simp add: findNodesThatPassFilters_def s(1) Let_def)
    show "set (feasible ?s) \<subseteq> {n \<in> set nodes. accepts n}"
      using at by (auto simp: s(2) all_found_def dest!: in_set_takeD)
    show "recorded all (set_statuses (results ?s) m)" "absentNodesStatus (set_statuses (results ?s) m) = absentNodesStatus m"
      "fst ` set (nodeToStatus m) \<subseteq> fst ` set (nodeToStatus (set_statuses (results ?s) m))"
      using m' by auto
    show "Ball (set nodes) (\<lambda>n. \<not> accepts n \<and> name_of n \<in> fst ` set (nodeToStatus (set_statuses (results ?s) m)))"
      if "feasible ?s = []"
    proof
      fix n assume "n \<in> set nodes"
      then obtain i where i: "i < length nodes" "?at i = n"
        by (rule every_node_checked)
      have none: "all_found = []"
        using that k by (simp add: s(2))
      then have "i \<in> set order"
        using complete [OF _ i(1)] s(3) by simp
      then have n: "\<not> accepts n"
        using none i(2) by (auto simp: all_found_def filter_empty_conv)
      then have "slot ?start nodes order i = Some (name_of n, verdict n)"
        using \<open>i \<in> set order\<close> i(2) by (simp add: slot_def)
      then have "Some (name_of n, verdict n) \<in> set (results ?s)"
        using i(1) by (force simp: s(4))
      then show "\<not> accepts n \<and> name_of n \<in> fst ` set (nodeToStatus (set_statuses (results ?s) m))"
        using m' n by auto
    qed
    show "set (feasible ?s) = {n \<in> set nodes. accepts n}" if "hasScoring sched fw" "length nodes < 100"
    proof -
      have "length all_found \<le> length order"
        by (simp add: all_found_def le_trans [OF length_filter_le])
      also have "length order \<le> length nodes"
        using distinct_card [OF order(1)] card_mono [of "{..<length nodes}" "set order"] order(2)
        by (auto simp: list_all_iff)
      finally have short: "length all_found \<le> ?k"
        using nodes_to_find_bounds(2) [OF False assms(4) that] by simp
      have "n \<in> set all_found" if n: "n \<in> set nodes" "accepts n" for n
      proof -
        obtain i where "i < length nodes" "?at i = n"
          using every_node_checked [OF n(1)] .
        then show ?thesis
          using complete [of i] s(3) short n(2) by (auto simp: all_found_def)
      qed
      then show ?thesis
        using at short by (auto simp: s(2) all_found_def)
    qed
  qed
qed

section \<open>The whole search\<close>

lemma order_ok_single: "order_ok sched fw [n] [0]"
  by (simp add: order_ok_def)

lemma find_named:
  "distinct (map name_of nodes) \<Longrightarrow> find (\<lambda>n. name_of n = name) nodes = Some n \<longleftrightarrow> n \<in> set nodes \<and> name_of n = name"
  by (induction nodes) auto

lemma set_picked: "set (List.map_filter f xs) = {y. \<exists>x \<in> set xs. f x = Some y}"
  by (induction xs) (auto split: option.splits)

text \<open>The nodes that no plugin has left out.\<close>

lemma searched_nodes:
  assumes "distinct (map name_of nodes)"
  shows "set (searched fw nodes) = {n \<in> set nodes. left_in (PreFilter fw) n}" "length (searched fw nodes) \<le> length nodes"
proof -
  have "set (searched fw nodes) = {n \<in> set nodes. left_in (PreFilter fw) n} \<and> length (searched fw nodes) \<le> length nodes"
  proof (cases "PreFilter fw")
    case (Only_nodes names plugins)
    let ?pick = "\<lambda>names. List.map_filter (\<lambda>name. find (\<lambda>n. name_of n = name) nodes) names"
    have pick: "set (?pick names) = {n \<in> set nodes. name_of n \<in> set names}" for names
      unfolding set_picked find_named [OF assms] by blast
    have "distinct (?pick names)" if "distinct names" for names
      using that
    proof (induction names)
      case (Cons name names)
      have "n \<notin> set (?pick names)" if "find (\<lambda>n. name_of n = name) nodes = Some n" for n
        using that Cons.prems unfolding pick find_named [OF assms] by auto
      with Cons show ?case
        by (auto split: option.split)
    qed simp
    moreover have "distinct names"
      using pre_filter by (simp add: Only_nodes)
    ultimately have "length (?pick names) = card (set (?pick names))"
      by (metis distinct_card)
    also have "\<dots> \<le> card (set nodes)"
      by (intro card_mono) (auto simp: pick)
    also have "\<dots> \<le> length nodes"
      by (rule card_length)
    finally show ?thesis
      by (simp add: Only_nodes restrict_nodes_def pick left_in_def)
  qed (auto simp: restrict_nodes_def left_in_def)
  then show "set (searched fw nodes) = {n \<in> set nodes. left_in (PreFilter fw) n}" "length (searched fw nodes) \<le> length nodes"
    by simp_all
qed

lemma restrict_nodes_eq:
  "absentNodesStatus m = UnschedulableAndUnresolvable [] \<Longrightarrow>
     restrict_nodes (PreFilter fw) nodes m = (searched fw nodes, m\<lparr>absentNodesStatus := absent_status (PreFilter fw)\<rparr>)"
  by (cases "PreFilter fw") (simp_all add: restrict_nodes_def absent_status_def)

lemma recorded_absent [simp]: "recorded nodes (m\<lparr>absentNodesStatus := x\<rparr>) = recorded nodes m"
  by (simp add: recorded_def)

lemma left_out: "name_of n \<noteq> [] \<Longrightarrow> \<not> left_in (PreFilter fw) n \<Longrightarrow> \<not> accepts n"
  using pre_filter by (auto simp: left_in_def accepts_def split: pre_filter.splits)

abbreviation all_told :: "node_state list \<Rightarrow> node_state list" where
  "all_told nodes \<equiv> filter (told (PreFilter fw) (NodeHint fw)) nodes"

lemma hinted_facts:
  assumes "Extenders sched = []" and "NodeHint fw \<noteq> []"
  obtains r m where "evaluateNominatedNode sched fw pod nodes NewDefaultNodeToStatus = (r, m)" "recorded (all_told nodes) m"
    and "absentNodesStatus m = UnschedulableAndUnresolvable []" "\<And>ns. r = Inr ns \<Longrightarrow> set ns \<subseteq> {n \<in> set nodes. accepts n}"
    and "\<forall>n ns. r \<noteq> Inr (n # ns) \<Longrightarrow> NodeHint fw \<in> name_of ` set nodes \<Longrightarrow> NodeHint fw \<in> fst ` set (nodeToStatus m)"
proof (cases "find (\<lambda>n. name_of n = NodeHint fw) nodes")
  case None
  then have "NodeHint fw \<notin> name_of ` set nodes"
    by (auto simp: find_None_iff)
  with None show ?thesis
    by (intro that [of "Inl (Not_found (NodeHint fw))" NewDefaultNodeToStatus]) (simp_all add: evaluateNominatedNode_def)
next
  case (Some n)
  then have n: "n \<in> set nodes" "name_of n = NodeHint fw"
    by (auto simp: find_Some_iff)
  then have here: "n \<in> set (all_told nodes)"
    using assms(2) by (simp add: told_def)
  obtain found m where "findNodesThatPassFilters sched fw NewDefaultNodeToStatus [n] [0] = (found, m, None)"
    "set found \<subseteq> {n' \<in> set [n]. accepts n'}" "recorded (all_told nodes) m"
    "absentNodesStatus m = absentNodesStatus NewDefaultNodeToStatus"
    "found = [] \<Longrightarrow> Ball (set [n]) (\<lambda>n. \<not> accepts n \<and> name_of n \<in> fst ` set (nodeToStatus m))"
    by (rule findNodesThatPassFilters_facts
        [OF order_ok_single recorded_default, where sched = sched and all = "all_told nodes"]) (use here in auto)
  with Some n assms show ?thesis
    by (intro that [of "Inr found" m]; cases found) (auto simp: evaluateNominatedNode_def)
qed

lemma FitError_text:
  assumes "recorded (all_told nodes) (NodeStatuses d)" and "PreFilterMsg d = []" and "distinct (map name_of nodes)"
    and "absentNodesStatus (NodeStatuses d) = absent_status (PreFilter fw)"
    and "Ball (set (all_told nodes)) (\<lambda>n. \<not> accepts n \<and> name_of n \<in> fst ` set (nodeToStatus (NodeStatuses d)))"
  shows "FitError_Error \<lparr>NumAllNodes = length nodes, FitDiagnosis = d\<rparr> =
    failure_text (\<lambda>n. if told (PreFilter fw) (NodeHint fw) n then verdict n else absent_status (PreFilter fw)) nodes (PostFilterMsg d)"
proof -
  let ?told = "told (PreFilter fw) (NodeHint fw)" and ?absent = "Reasons (absent_status (PreFilter fw))"
  let ?m = "nodeToStatus (NodeStatuses d)" and ?vs = "map (\<lambda>n. (name_of n, verdict n)) (all_told nodes)"
  let ?f = "\<lparr>NumAllNodes = length nodes, FitDiagnosis = d\<rparr>"
  have names: "distinct (map name_of (all_told nodes))"
    using assms(3) by (rule distinct_map_filter)
  have m: "distinct (map fst ?m)" "set ?m \<subseteq> (\<lambda>n. (name_of n, verdict n)) ` set (all_told nodes)"
    using assms(1) by (auto simp: recorded_def)
  have "(name_of n, verdict n) \<in> set ?m" if n: "n \<in> set (all_told nodes)" for n
  proof -
    obtain v where "(name_of n, v) \<in> set ?m"
      using assms(5) n by auto
    moreover then obtain n' where "n' \<in> set (all_told nodes)" "name_of n' = name_of n" "v = verdict n'"
      using m(2) by auto
    ultimately show ?thesis
      using names n by (metis distinct_map inj_onD)
  qed
  then have "set ?m = set ?vs"
    using m(2) by auto
  moreover have "distinct ?m" "distinct ?vs"
    using m(1) names by (auto simp: distinct_map inj_on_def)
  ultimately have same: "mset ?m = mset ?vs"
    by (simp only: set_eq_iff_mset_eq_distinct)
  then have len: "length ?m = length (all_told nodes)"
    by (metis length_map size_mset)
  define k where "k = length (filter (\<lambda>n. \<not> ?told n) nodes)"
  have k: "length nodes = length ?m + k"
    using sum_length_filter_compl [of ?told nodes] by (simp add: len k_def)
  let ?reasons = "concat (map (\<lambda>(_, v). Reasons v) ?m) @ concat (map (replicate k) ?absent)"
  have "counted (fold (\<lambda>(_, verdict) rs. fold (add_reason 1) (Reasons verdict) rs) ?m []) (concat (map (\<lambda>(_, v). Reasons v) ?m))"
    using counted_all [of "[]" "[]" ?m] by (simp add: counted_def reason_count_def)
  moreover have none: "concat (map (replicate 0) rs) = []" for rs :: "string list"
    by (induction rs) simp_all
  ultimately have "counted (count_reasons ?f) ?reasons"
    using counted_add_many [of _ _ k ?absent] k assms(4)
    by (cases "k = 0") (simp_all add: none count_reasons_def NodeToStatus_Len_def Let_def)
  moreover have "mset ?reasons = mset (concat (map (\<lambda>n. Reasons (if ?told n then verdict n else absent_status (PreFilter fw))) nodes))"
  proof -
    have "mset (concat (map (\<lambda>(_, v). Reasons v) ?m)) = mset (concat (map (\<lambda>n. Reasons (verdict n)) (all_told nodes)))"
      using mset_concat_map [OF same, of "\<lambda>(_, v). Reasons v"] by (simp add: comp_def)
    moreover have "mset (concat (map (\<lambda>n. Reasons (if ?told n then verdict n else absent_status (PreFilter fw))) nodes)) =
        mset (concat (map (\<lambda>n. Reasons (verdict n)) (all_told nodes))) + mset (concat (replicate k ?absent))"
      unfolding k_def by (induction nodes) simp_all
    moreover have "mset (concat (map (replicate k) rs)) = mset (concat (replicate k rs))" for rs :: "string list"
    proof -
      have "mset (concat (map (replicate k) rs)) = repeat_mset k (mset rs)"
        by (induction rs) simp_all
      moreover have "mset (concat (replicate k rs)) = repeat_mset k (mset rs)"
        by (induction k) simp_all
      ultimately show ?thesis
        by simp
    qed
    ultimately show ?thesis
      by simp
  qed
  ultimately have "sortReasonsHistogram (count_reasons ?f) =
      histogram (concat (map (\<lambda>n. Reasons (if ?told n then verdict n else absent_status (PreFilter fw))) nodes))"
    by (rule counted_histogram)
  then show ?thesis
    using assms(2) by (simp add: FitError_Error_def failure_text_def Let_def)
qed

text \<open>
  The result of the search: nodes that fit; all of them on a small cluster; and if there are none, no node fits and
  the diagnosis says so of all of them.
\<close>

lemma findNodesThatFitPod_facts:
  assumes "Extenders sched = []" and "nodes \<noteq> []" and "int (length nodes) < 2 ^ 31" and "order_ok sched fw (searched fw nodes) order"
    and "distinct (map name_of nodes)" and "list_all (\<lambda>n. name_of n \<noteq> []) nodes"
  obtains k found d where
    "findNodesThatFitPod sched fw pod nodes order = (sched\<lparr>nextStartNodeIndex := k\<rparr>, Inr (found, d))"
    and "set found \<subseteq> {n \<in> set nodes. accepts n}" "PostFilterMsg d = []"
    and "\<And>post. found = [] \<Longrightarrow> list_all (\<lambda>n. \<not> accepts n) nodes \<and>
      FitError_Error \<lparr>NumAllNodes = length nodes, FitDiagnosis = d\<lparr>PostFilterMsg := post\<rparr>\<rparr> =
        fit_text (PreFilter fw) (NodeHint fw) verdict nodes post"
    and "hasScoring sched fw \<Longrightarrow> length nodes < 100 \<Longrightarrow> NodeHint fw = [] \<Longrightarrow> set found = {n \<in> set nodes. accepts n}"
proof (cases "\<exists>s. PreFilter fw = Pre_rejected s")
  case True
  then obtain s where s: "PreFilter fw = Pre_rejected s"
    by blast
  then have none: "list_all (\<lambda>n. \<not> accepts n) nodes" "Status_Message s \<noteq> []"
    using pre_filter assms(6) by (auto simp: accepts_def list_all_iff)
  then show thesis
    by (intro that [of "nextStartNodeIndex sched" "[]" "\<lparr>NodeStatuses = NewDefaultNodeToStatus\<lparr>absentNodesStatus := s\<rparr>,
        PreFilterMsg = Status_Message s, PostFilterMsg = []\<rparr>"])
      (auto simp: findNodesThatFitPod_def s fit_text_def FitError_Error_def Let_def list_all_iff)
next
  case False
  let ?nodes = "searched fw nodes"
  note kept = searched_nodes [OF assms(5)]
  have pre: "fit_text (PreFilter fw) hint verdict nodes post =
      failure_text (\<lambda>n. if told (PreFilter fw) hint n then verdict n else absent_status (PreFilter fw)) nodes post" for hint post
    using False pre_filter by (auto simp: fit_text_def split: pre_filter.splits)
  obtain r m where r: "(if NodeHint fw = [] then (Inr [], NewDefaultNodeToStatus)
      else evaluateNominatedNode sched fw pod nodes NewDefaultNodeToStatus) = (r, m)" "recorded (all_told nodes) m"
    "absentNodesStatus m = UnschedulableAndUnresolvable []" "\<And>ns. r = Inr ns \<Longrightarrow> set ns \<subseteq> {n \<in> set nodes. accepts n}"
    "NodeHint fw = [] \<Longrightarrow> r = Inr []"
    "NodeHint fw \<noteq> [] \<Longrightarrow> \<forall>n ns. r \<noteq> Inr (n # ns) \<Longrightarrow> NodeHint fw \<in> name_of ` set nodes \<Longrightarrow> NodeHint fw \<in> fst ` set (nodeToStatus m)"
  proof (cases "NodeHint fw = []")
    case True
    then show thesis
      by (intro that [of "Inr []" NewDefaultNodeToStatus]) simp_all
  next
    case False
    obtain r m where "evaluateNominatedNode sched fw pod nodes NewDefaultNodeToStatus = (r, m)" "recorded (all_told nodes) m"
      "absentNodesStatus m = UnschedulableAndUnresolvable []" "\<And>ns. r = Inr ns \<Longrightarrow> set ns \<subseteq> {n \<in> set nodes. accepts n}"
      "\<forall>n ns. r \<noteq> Inr (n # ns) \<Longrightarrow> NodeHint fw \<in> name_of ` set nodes \<Longrightarrow> NodeHint fw \<in> fst ` set (nodeToStatus m)"
      by (rule hinted_facts [OF assms(1) False, of pod nodes]) blast
    with False show thesis
      by (intro that [of r m]) simp_all
  qed
  let ?m = "m\<lparr>absentNodesStatus := absent_status (PreFilter fw)\<rparr>"
  have fit: "findNodesThatFitPod sched fw pod nodes order =
    (case r of
       Inr (n # ns) \<Rightarrow> (sched, Inr (n # ns, \<lparr>NodeStatuses = m, PreFilterMsg = [], PostFilterMsg = []\<rparr>))
     | _ \<Rightarrow> (let (found, m', err) = findNodesThatPassFilters sched fw ?m ?nodes order;
          sched' = sched\<lparr>nextStartNodeIndex := (nextStartNodeIndex sched + (length found + NodeToStatus_Len m')) mod length nodes\<rparr> in
        case err of Some e \<Rightarrow> (sched', Inl e)
        | None \<Rightarrow> (sched', Inr (found, \<lparr>NodeStatuses = m', PreFilterMsg = [], PostFilterMsg = []\<rparr>))))"
  proof -
    consider "PreFilter fw = All_nodes" | names plugins where "PreFilter fw = Only_nodes names plugins"
      using False pre_filter by (cases "PreFilter fw") auto
    then show ?thesis
      by cases (use restrict_nodes_eq [OF r(3), of nodes] in
        \<open>simp_all add: findNodesThatFitPod_def r(1) assms(1) Let_def split_beta cong: option.case_cong sum.case_cong list.case_cong\<close>)
  qed
  show thesis
  proof (cases "\<exists>n ns. r = Inr (n # ns)")
    case True
    then obtain n ns where "r = Inr (n # ns)"
      by blast
    with fit r(4) [of "n # ns"] r(5) show thesis
      by (intro that [of "nextStartNodeIndex sched" "n # ns" "\<lparr>NodeStatuses = m, PreFilterMsg = [], PostFilterMsg = []\<rparr>"]) auto
  next
    case False
    then have search: "(case r of Inr (n # ns) \<Rightarrow> x n ns | _ \<Rightarrow> y) = y" for x y
      by (auto split: sum.split list.split)
    have len: "int (length ?nodes) < 2 ^ 31" "length nodes < 100 \<Longrightarrow> length ?nodes < 100"
      using kept(2) assms(3) by linarith+
    have sub: "set ?nodes \<subseteq> set (all_told nodes)" and m: "recorded (all_told nodes) ?m"
      using r(2) by (auto simp: kept(1) told_def)
    obtain found m' where f: "findNodesThatPassFilters sched fw ?m ?nodes order = (found, m', None)"
      "set found \<subseteq> {n \<in> set ?nodes. accepts n}" "recorded (all_told nodes) m'" "absentNodesStatus m' = absent_status (PreFilter fw)"
      "fst ` set (nodeToStatus m) \<subseteq> fst ` set (nodeToStatus m')"
      "found = [] \<Longrightarrow> Ball (set ?nodes) (\<lambda>n. \<not> accepts n \<and> name_of n \<in> fst ` set (nodeToStatus m'))"
      "hasScoring sched fw \<Longrightarrow> length ?nodes < 100 \<Longrightarrow> set found = {n \<in> set ?nodes. accepts n}"
      by (rule findNodesThatPassFilters_facts [OF assms(4) m sub len(1)]) simp
    let ?d = "\<lparr>NodeStatuses = m', PreFilterMsg = [], PostFilterMsg = []\<rparr>"
    have out: "\<not> accepts n" if "n \<in> set nodes" "\<not> left_in (PreFilter fw) n" for n
      using left_out that assms(6) by (auto simp: list_all_iff)
    show thesis
    proof (rule that)
      show "findNodesThatFitPod sched fw pod nodes order =
          (sched\<lparr>nextStartNodeIndex := (nextStartNodeIndex sched + (length found + NodeToStatus_Len m')) mod length nodes\<rparr>, Inr (found, ?d))"
        by (simp add: fit search f(1))
      show "set found \<subseteq> {n \<in> set nodes. accepts n}" "PostFilterMsg ?d = []"
        using f(2) kept(1) by auto
      show "set found = {n \<in> set nodes. accepts n}" if "hasScoring sched fw" "length nodes < 100"
        using f(7) [OF that(1) len(2) [OF that(2)]] kept(1) out by auto
      show "list_all (\<lambda>n. \<not> accepts n) nodes \<and>
          FitError_Error \<lparr>NumAllNodes = length nodes, FitDiagnosis = ?d\<lparr>PostFilterMsg := post\<rparr>\<rparr> =
            fit_text (PreFilter fw) (NodeHint fw) verdict nodes post" if "found = []" for post
      proof
        show none: "list_all (\<lambda>n. \<not> accepts n) nodes"
          using f(6) [OF that] kept(1) out by (auto simp: list_all_iff)
        have "name_of n \<in> fst ` set (nodeToStatus m')" if "n \<in> set (all_told nodes)" for n
        proof (cases "left_in (PreFilter fw) n")
          case False
          then have hint: "NodeHint fw \<noteq> []" "name_of n = NodeHint fw" "n \<in> set nodes"
            using that by (auto simp: told_def)
          then have "NodeHint fw \<in> name_of ` set nodes"
            by (metis imageI)
          then have "NodeHint fw \<in> fst ` set (nodeToStatus m)"
            using r(6) hint(1) \<open>\<not> (\<exists>n ns. r = Inr (n # ns))\<close> by blast
          with f(5) hint(2) show ?thesis
            by auto
        qed (use f(6) [OF \<open>found = []\<close>] kept(1) that in auto)
        then have "Ball (set (all_told nodes)) (\<lambda>n. \<not> accepts n \<and> name_of n \<in> fst ` set (nodeToStatus m'))"
          using none by (auto simp: list_all_iff)
        then show "FitError_Error \<lparr>NumAllNodes = length nodes, FitDiagnosis = ?d\<lparr>PostFilterMsg := post\<rparr>\<rparr> =
            fit_text (PreFilter fw) (NodeHint fw) verdict nodes post"
          using FitError_text [of nodes "?d\<lparr>PostFilterMsg := post\<rparr>"] f(3,4) assms(5) by (simp add: pre)
      qed
    qed
  qed
qed

text \<open>The nodes with the highest scores, of those that were found.\<close>

definition best_of :: "node_state list \<Rightarrow> node_state \<Rightarrow> bool" where
  "best_of found n \<longleftrightarrow> n \<in> set found \<and>
     (HasScorePlugins fw \<longrightarrow> (\<forall>n' \<in> set found. wrap64 (fst (score (name_of n'))) \<le> wrap64 (fst (score (name_of n)))))"

lemma chosen_node:
  assumes "Extenders sched = []" and "found \<noteq> []"
  obtains scored n where "prioritizeNodes sched fw pod (map name_of found) = Inr scored"
    and "best_of found n" "ScoredName (fst (Pop_best (NewSortedScoredNodes scored))) = name_of n"
proof -
  define entry where "entry n = (if HasScorePlugins fw
      then \<lparr>ScoredName = name_of n, TotalScore = wrap64 (fst (score (name_of n))), Randomizer = snd (score (name_of n))\<rparr>
      else \<lparr>ScoredName = name_of n, TotalScore = 1, Randomizer = 0\<rparr>)" for n
  let ?scored = "map entry found"
  have prio: "prioritizeNodes sched fw pod (map name_of found) = Inr ?scored"
    using assms(1) by (simp add: prioritizeNodes_def scores entry_def)
  note h = NewSortedScoredNodes_heap [of ?scored]
  have "NewSortedScoredNodes ?scored \<noteq> []"
    using h(1) assms(2) by (metis mset_zero_iff list.map_disc_iff)
  from Pop_best_heap [OF h(2) this] obtain x h' where x: "Pop_best (NewSortedScoredNodes ?scored) = (x, h')"
    "mset (NewSortedScoredNodes ?scored) = add_mset x (mset h')" "\<forall>y \<in> set (NewSortedScoredNodes ?scored). rank y \<le> rank x"
    by blast
  have same: "set (NewSortedScoredNodes ?scored) = entry ` set found"
    using h(1) by (metis set_map set_mset_mset)
  have "x \<in> entry ` set found"
    using x(2) same by (metis set_mset_mset union_single_eq_member)
  then obtain n where n: "n \<in> set found" "x = entry n"
    by blast
  have "TotalScore (entry n') \<le> TotalScore (entry n)" if "n' \<in> set found" for n'
    using x(3) that unfolding same n(2) by (auto simp: rank_def less_eq_prod_def)
  then have "best_of found n"
    using n(1) by (auto simp: best_of_def entry_def)
  with prio x(1) n(2) that [of ?scored n] show thesis
    by (simp add: entry_def)
qed

section \<open>The outcome of a cycle\<close>

text \<open>The pod goes to a node that passes the filters, if there is one; if not, the text of the failure counts every node.\<close>

definition cycle_outcome :: "Scheduler \<Rightarrow> node_state list \<Rightarrow> (string \<times> string) + ScheduleResult \<Rightarrow> bool" where
  "cycle_outcome sched nodes r \<longleftrightarrow>
     (case r of
        Inr res \<Rightarrow> (\<exists>n \<in> set nodes. accepts n \<and> SuggestedHost res = name_of n \<and>
          (HasScorePlugins fw \<and> length nodes < 100 \<and> NodeHint fw = [] \<longrightarrow>
            (\<forall>n' \<in> set nodes. accepts n' \<longrightarrow> wrap64 (fst (score (name_of n'))) \<le> wrap64 (fst (score (name_of n))))))
      | Inl (reason, msg) \<Rightarrow> list_all (\<lambda>n. \<not> accepts n) nodes \<and> reason = ''Unschedulable'' \<and>
          (if nodes = [] then msg = ''no nodes available to schedule pods''
           else (\<exists>post. (PostFilter fw = None \<longrightarrow> post = []) \<and>
             msg = fit_text (PreFilter fw) (NodeHint fw) verdict nodes post)))"

lemma schedulingAlgorithm_outcome:
  assumes "Extenders sched = []" and "int (length nodes) < 2 ^ 31" and "distinct (map name_of nodes)"
    and "order_ok sched fw (searched fw nodes) order" and "list_all (\<lambda>n. name_of n \<noteq> []) nodes"
  obtains k r where "schedulingAlgorithm error_text sched fw pod nodes order = (sched\<lparr>nextStartNodeIndex := k\<rparr>, r)"
    and "cycle_outcome sched nodes r"
proof (cases "nodes = []")
  case True
  then show thesis
    by (intro that [of "nextStartNodeIndex sched" "Inl (failure_of error_text ErrNoNodesAvailable)"])
      (simp_all add: schedulingAlgorithm_def schedulePod_def cycle_outcome_def failure_of_def)
next
  case False
  obtain k found d where f: "findNodesThatFitPod sched fw pod nodes order = (sched\<lparr>nextStartNodeIndex := k\<rparr>, Inr (found, d))"
    "set found \<subseteq> {n \<in> set nodes. accepts n}" "PostFilterMsg d = []"
    "\<And>post. found = [] \<Longrightarrow> list_all (\<lambda>n. \<not> accepts n) nodes \<and>
      FitError_Error \<lparr>NumAllNodes = length nodes, FitDiagnosis = d\<lparr>PostFilterMsg := post\<rparr>\<rparr> =
        fit_text (PreFilter fw) (NodeHint fw) verdict nodes post"
    "hasScoring sched fw \<Longrightarrow> length nodes < 100 \<Longrightarrow> NodeHint fw = [] \<Longrightarrow> set found = {n \<in> set nodes. accepts n}"
    by (rule findNodesThatFitPod_facts [OF assms(1) False assms(2,4,3,5), of pod]) blast
  let ?sched = "sched\<lparr>nextStartNodeIndex := k\<rparr>"
  show thesis
  proof (cases found)
    case Nil
    define post where "post = (case PostFilter fw of None \<Rightarrow> [] | Some p \<Rightarrow> p (NodeStatuses d))"
    have "d\<lparr>PostFilterMsg := []\<rparr> = d"
      using f(3) by simp
    then have "schedulingAlgorithm error_text sched fw pod nodes order =
        (?sched, Inl (''Unschedulable'', fit_text (PreFilter fw) (NodeHint fw) verdict nodes post))"
      using f(1) f(4) [OF Nil, of post] False Nil
      by (cases "PostFilter fw") (simp_all add: schedulingAlgorithm_def schedulePod_def failure_of_def post_def Let_def)
    moreover have "cycle_outcome sched nodes (Inl (''Unschedulable'', fit_text (PreFilter fw) (NodeHint fw) verdict nodes post))"
      using f(4) [OF Nil, of post] False by (auto simp: cycle_outcome_def post_def intro!: exI [of _ post])
    ultimately show thesis
      by (rule that)
  next
    case (Cons n ns)
    obtain best where best: "best_of found best" "\<exists>res. schedulePod sched fw pod nodes order = (?sched, Inr res) \<and>
        SuggestedHost res = name_of best"
    proof (cases ns)
      case Nil
      with Cons f(1) False show thesis
        by (intro that [of n]) (auto simp: best_of_def schedulePod_def Let_def)
    next
      case (Cons n' ns')
      have "Extenders ?sched = []" "found \<noteq> []"
        using assms(1) \<open>found = n # ns\<close> by simp_all
      then obtain scored best where "prioritizeNodes ?sched fw pod (map name_of found) = Inr scored"
        "best_of found best" "ScoredName (fst (Pop_best (NewSortedScoredNodes scored))) = name_of best"
        by (rule chosen_node)
      with Cons \<open>found = n # ns\<close> f(1) False show thesis
        by (intro that [of best]) (simp_all add: schedulePod_def Let_def)
    qed
    then obtain res where res: "schedulingAlgorithm error_text sched fw pod nodes order = (?sched, Inr res)"
      "SuggestedHost res = name_of best"
      by (auto simp: schedulingAlgorithm_def)
    have "hasScoring sched fw" if "HasScorePlugins fw"
      using that by (simp add: hasScoring_def)
    then have "cycle_outcome sched nodes (Inr res)"
      using best(1) f(2,5) res(2) by (auto simp: cycle_outcome_def best_of_def)
    with res(1) that show thesis
      by blast
  qed
qed

end

end
