(* ===== verification/Stop_Messages.thy ===== *)
theory Stop_Messages
  imports Capacity
begin

text \<open>
  Where the message of a stop reason comes from: it is the message with which the scheduler gave the
  pending pod up, carried unchanged from the condition of the pod through the event and the handler.
  \<open>says Q s\<close> is that every message on its way to the stop reason, and the one that has arrived, satisfies \<open>Q\<close>.
\<close>

definition says :: "(string \<Rightarrow> bool) \<Rightarrow> system \<Rightarrow> bool" where
  "says Q s \<longleftrightarrow>
     (\<forall>e \<in> set (drop (seen s) (events_of s)). \<forall>cond \<in> set (Conditions (PStatus (event_object e))).
        stopping (event_object e, cond) \<longrightarrow> Q (Message cond)) \<and>
     (\<forall>x \<in> set (todo s). stopping x \<longrightarrow> Q (Message (snd x))) \<and>
     (\<forall>m. StopReason (status (cc s)) = ''Unschedulable: '' @ m \<longrightarrow> Q m)"

lemma silent_pod: "stop_conditions p = 0 \<Longrightarrow> cond \<in> set (Conditions (PStatus p)) \<Longrightarrow> \<not> stopping (p, cond)"
  by (auto simp: stop_conditions_def stopping_def count_if_zero split: if_splits)

lemma says_silent:
  assumes "\<not> stop_pending s" and "outcome (placement_of s) \<noteq> Some No_room"
  shows "says Q s"
proof -
  have "stop_conditions (event_object e) = 0" if "e \<in> set (drop (seen s) (events_of s))" for e
    using assms(1) that by (auto simp: stop_pending_def stop_events_def)
  then show ?thesis
    using assms silent_pod by (auto simp: says_def stop_pending_def count_if_zero placement_of_def)
qed

lemma schedulable_silent:
  assumes "placement_inv c0 s" and "schedulable False s p"
  shows "\<not> stop_pending s" "StopReason (status (cc s)) = []" "stop_conditions p = 0"
    and "map_of (pods_of s) (object_key Meta p) = Some p"
proof -
  have c: "client_ok (marked s) (seen s) (cc s)" "tokens s \<le> 1" "reason_sent s"
    using assms(1) by (auto simp: placement_inv_def control_ok_def)
  show p: "map_of (pods_of s) (object_key Meta p) = Some p"
    by (rule schedulable_lookup [OF assms(2) c(1)])
  have u: "unassigned_pod p" "object_key Meta p \<notin> marked s"
    using assms(2) by (simp_all add: schedulable_def)
  show "stop_conditions p = 0"
    by (rule client_ok_quiet [OF c(1) p u])
  have "0 < active_pods (marked s) (cs_pods (client (cc s)))"
    by (rule active_pods_pos [OF p u])
  moreover from this have "senders (stop (cc s)) = []"
    using c(2) unfolding tokens_def length_0_conv [symmetric] by linarith
  ultimately show "\<not> stop_pending s" "StopReason (status (cc s)) = []"
    using c(2,3) by (auto simp: tokens_def stop_pending_def reason_sent_def split: if_splits)
qed

lemma says_mark:
  assumes "placement_inv c0 s" and "schedulable False s p" and "r = ''Unschedulable'' \<Longrightarrow> Q m"
  shows "says Q (do_mark (failure_condition r m) p s)"
proof -
  let ?cond = "failure_condition r m"
  note s = schedulable_silent [OF assms(1,2)]
  have "says Q s"
    by (rule says_silent) (simp_all add: s placement_of_def)
  moreover have "Q (Message cond)" if "cond \<in> set (set_condition ?cond (Conditions (PStatus p)))" "stopping (mark_pod ?cond p, cond)" for cond
  proof -
    have "\<not> stopping (p, cond)" if "cond \<in> set (Conditions (PStatus p))"
      by (rule silent_pod [OF s(3) that])
    then have "cond = ?cond"
      using that set_condition_subset [of ?cond "Conditions (PStatus p)"] by (auto simp: stopping_def mark_pod_def)
    with that(2) assms(3) show ?thesis
      by (simp add: stopping_def stop_condition_def failure_condition_def)
  qed
  moreover have "seen s \<le> length (events_of s)"
    using assms(1) by (auto simp: placement_inv_def control_ok_def client_ok_def)
  ultimately show ?thesis
    by (auto simp: says_def do_mark_eq [OF s(4)] mark_pod_def)
qed

lemma says_deliver:
  assumes "says Q s" and "todo s = []" and "seen s < length (events_of s)"
  shows "says Q (do_deliver s)"
proof -
  let ?e = "events_of s ! seen s"
  have d: "drop (seen s) (events_of s) = ?e # drop (Suc (seen s)) (events_of s)"
    by (rule Cons_nth_drop_Suc [OF assms(3), symmetric])
  have "set (update_conditions DefaultSchedulerName old (event_object ?e)) \<subseteq> set (Conditions (PStatus (event_object ?e)))" for old
    by (auto simp: update_conditions_def)
  then show ?thesis
    using assms(1) unfolding says_def d by (fastforce simp: do_deliver_def Let_def split: option.splits)
qed

lemma says_update:
  assumes "says Q s" and "control_ok s" and "todo s \<noteq> []"
  shows "says Q (do_update s)"
proof -
  obtain pod cond xs where x: "todo s = (pod, cond) # xs"
    using assms(3) by (metis list.exhaust surj_pair)
  show ?thesis
  proof (cases "stopping (pod, cond)")
    case True
    then have "Reason cond = ''Unschedulable''"
      by (simp add: stopping_def stop_condition_def)
    with True assms(1) show ?thesis
      by (auto simp: says_def update_stops(1) [OF assms(2) x True] x)
  next
    case False
    with assms(1) show ?thesis
      by (simp add: says_def update_ignores [OF x False] x)
  qed
qed

lemma says_perform:
  assumes inv: "placement_inv c0 s" and m: "int64 (maxSimulated c0)" and step: "perform False a s = Some s'"
    and Q: "says Q s \<or> (\<exists>u k n. a = Bind_to u k n)"
    and given_up: "\<And>k msg. a = Give_up k ''Unschedulable'' msg \<Longrightarrow> Q msg"
  shows "says Q s'"
proof -
  have C: "control_ok s" and R: "reason_sent s"
    using inv by (simp_all add: placement_inv_def)
  show ?thesis
  proof (cases a)
    case (Create u)
    then have s': "s' = do_create u s" "main s = Starting"
      using step by (simp_all split: if_splits)
    have "StopReason (status (cc s)) = []"
      using C R s'(2) by (auto simp: control_ok_def tokens_def reason_sent_def)
    then show ?thesis
      using create_no_stop [OF C s'(2)] create_placement [OF C s'(2), of u] s'(1)
      by (intro says_silent) (simp_all add: placement_of_def)
  next
    case Receive
    then have s': "s' = do_receive s" "main s = Receiving" "senders (stop (cc s)) \<noteq> []"
      using step by (simp_all split: if_splits)
    have "says Q s"
      using Receive Q by simp
    moreover obtain w where "do_receive s = (if w = Informer_goroutine then s\<lparr>parked := False\<rparr> else s)
      \<lparr>cc := (cc s)\<lparr>stop := \<lparr>senders = [], chan_closed = True\<rparr>\<rparr>, main := Returned None\<rparr>"
      by (rule receive_cases [OF C s'(2,3)]) blast
    ultimately show ?thesis
      by (simp add: says_def s'(1))
  next
    case (Bind_to u k n)
    then obtain p where p: "take_up False s k = Some p" "has_node s n" and s': "s' = do_bind u p n s"
      using step by (simp split: option.splits if_splits)
    have sch: "schedulable False s p"
      using take_up_sound [OF p(1)] by simp
    show ?thesis
      using bind_no_stop(1) [OF C sch p(2)] bind_placement(3) [OF inv sch p(2) m] s'
      by (intro says_silent) simp_all
  next
    case (Give_up k r msg)
    then obtain p where p: "take_up False s k = Some p" and s': "s' = do_mark (failure_condition r msg) p s"
      using step by (simp split: option.splits if_splits)
    show ?thesis
      unfolding s' by (rule says_mark [OF inv]) (use take_up_sound [OF p] given_up Give_up in auto)
  next
    case Deliver
    then have "s' = do_deliver s" "todo s = []" "seen s < length (events_of s)"
      using step by (simp_all split: if_splits)
    then show ?thesis
      using says_deliver Q Deliver by simp
  next
    case Handle
    then have "s' = do_update s" "todo s \<noteq> []"
      using step by (simp_all split: if_splits)
    then show ?thesis
      using says_update [OF _ C] Q Handle by simp
  qed
qed

end
