(* ===== verification/Schedule_Capacity.thy ===== *)
theory Schedule_Capacity
  imports Filtered_Capacity Schedule_Search Stop_Messages
begin

text \<open>
  An analysis whose scheduler is the one of \<open>Schedule_One\<close> with the filters of \<open>Node_Filters\<close>: every pod is
  bound to the node that a scheduling cycle chooses, and given up with the reason and text that a cycle
  ends with. What is free is free in the code: the order of the checks, the scores, the hints and the size
  of the sample of nodes. The cycle sees each node with the pods the analysis has put there.
\<close>

section \<open>The framework of an analysis\<close>

record cycle_env =
  profile_percentage :: "int option"
  node_hint :: string
  node_scores :: "(string \<Rightarrow> int \<times> int) option"
  post_filter :: "(NodeToStatus \<Rightarrow> string) option"
  check_order :: "nat list"

definition node_score :: "cycle_env \<Rightarrow> string \<Rightarrow> int \<times> int" where
  "node_score e = (case node_scores e of None \<Rightarrow> (\<lambda>_. (0, 0)) | Some f \<Rightarrow> f)"

text \<open>
  No pod of an analysis is nominated for a node, so that the filters run once per node. The pre-filter is that of
  \<open>NodeAffinity\<close>; that of \<open>NodeName\<close> restricts nothing for a pod that is not assigned, as every pod taken up here.
\<close>

definition capacity_framework :: "bool \<Rightarrow> filter_config \<Rightarrow> Resource \<Rightarrow> constraints \<Rightarrow> cycle_env \<Rightarrow> Pod \<Rightarrow> Framework" where
  "capacity_framework enable f r c e pod =
     \<lparr>PercentageOfNodesToScore = profile_percentage e, PreFilter = NodeAffinity_PreFilter c, NodeHint = node_hint e,
      FilterNode = (\<lambda>n. Inr (RunFilterPlugins (default_filters enable f r c pod) n)),
      HasScorePlugins = (node_scores e \<noteq> None), RunPreScorePlugins = (\<lambda>_. None),
      RunScorePlugins = (\<lambda>_. Inr (node_score e)), PostFilter = post_filter e\<rparr>"

lemma capacity_framework_fields [simp]:
  "PreFilter (capacity_framework enable f r c e pod) = NodeAffinity_PreFilter c"
  "HasScorePlugins (capacity_framework enable f r c e pod) = (node_scores e \<noteq> None)"
  "NodeHint (capacity_framework enable f r c e pod) = node_hint e"
  "PostFilter (capacity_framework enable f r c e pod) = post_filter e"
  by (simp_all add: capacity_framework_def)

interpretation capacity_cycle: reliable_framework "capacity_framework enable f r c e pod"
    "RunFilterPlugins (default_filters enable f r c pod)" "node_score e"
    for enable f r c e pod
proof unfold_locales
  let ?plugins = "default_filters enable f r c pod"
  have accepted: "RunFilterPlugins plugins n = Accepted \<longleftrightarrow> list_all (\<lambda>pl. pl n = Accepted) plugins" for plugins n
    by (induction plugins) simp_all
  have sound: "case NodeAffinity_PreFilter c of All_nodes \<Rightarrow> True | Only_nodes names plugins \<Rightarrow> name_of n \<in> set names | _ \<Rightarrow> False"
    if "name_of n \<noteq> []" "RunFilterPlugins ?plugins n = Accepted" for n
    using PreFilter_sound [of c n] that unfolding accepted by (simp add: default_filters_def)
  show "case PreFilter (capacity_framework enable f r c e pod) of All_nodes \<Rightarrow> True
      | Only_nodes names plugins \<Rightarrow> distinct names \<and>
          (\<forall>n. name_of n \<noteq> [] \<longrightarrow> RunFilterPlugins ?plugins n = Accepted \<longrightarrow> name_of n \<in> set names)
      | Pre_rejected s \<Rightarrow> Status_Message s \<noteq> [] \<and> (\<forall>n. name_of n \<noteq> [] \<longrightarrow> RunFilterPlugins ?plugins n \<noteq> Accepted)
      | Pre_failed e \<Rightarrow> False"
  proof -
    have "NodeAffinity_PreFilter c = Only_nodes names plugins \<Longrightarrow> distinct names" for names plugins
      by (auto simp: NodeAffinity_PreFilter_def split: option.splits if_splits intro: affinity_names_distinct)
    moreover have "NodeAffinity_PreFilter c = Pre_rejected s \<Longrightarrow> Status_Message s \<noteq> []" for s
      by (auto simp: NodeAffinity_PreFilter_def Status_Message_def split: option.splits if_splits)
    moreover have "NodeAffinity_PreFilter c \<noteq> Pre_failed e" for e
      by (auto simp: NodeAffinity_PreFilter_def split: option.splits)
    ultimately show ?thesis
      using sound by (cases "NodeAffinity_PreFilter c") force+
  qed
qed (simp_all add: capacity_framework_def)

section \<open>Runs of the scheduler\<close>

text \<open>The nodes as the scheduler's cache has them, in the order of its snapshot.\<close>

definition snapshot_nodes :: "Resource \<Rightarrow> constraints \<Rightarrow> (string \<Rightarrow> node_state) \<Rightarrow> string list \<Rightarrow> system \<Rightarrow> node_state list" where
  "snapshot_nodes r c state N s =
     map (\<lambda>n. with_copies r c (map (\<lambda>q. UID (Meta q)) (pods_on n s)) (state n)) N"

definition scheduled_step ::
    "(go_error \<Rightarrow> string) \<Rightarrow> (cycle_env \<Rightarrow> Pod \<Rightarrow> Framework) \<Rightarrow> (system \<Rightarrow> node_state list) \<Rightarrow> Scheduler \<Rightarrow>
     action \<Rightarrow> cycle_env \<Rightarrow> system \<Rightarrow> bool \<times> Scheduler" where
  "scheduled_step error_text fw nodes sched a e s =
     (let cycle = (\<lambda>p fits. (let (sched', r) = schedulingAlgorithm error_text sched (fw e p) p (nodes s) (check_order e) in
            (order_ok sched (fw e p) (searched (fw e p) (nodes s)) (check_order e) \<and> fits r, sched'))) in
      case a of
        Bind_to u k n \<Rightarrow> (case take_up False s k of None \<Rightarrow> (True, sched)
          | Some p \<Rightarrow> cycle p (\<lambda>r. case r of Inr res \<Rightarrow> SuggestedHost res = n | Inl _ \<Rightarrow> False))
      | Give_up k reason msg \<Rightarrow> (case take_up False s k of None \<Rightarrow> (True, sched)
          | Some p \<Rightarrow> cycle p (\<lambda>r. case r of Inr _ \<Rightarrow> False | Inl failure \<Rightarrow> failure = (reason, msg)))
      | _ \<Rightarrow> (True, sched))"

fun scheduled_run ::
    "(go_error \<Rightarrow> string) \<Rightarrow> (cycle_env \<Rightarrow> Pod \<Rightarrow> Framework) \<Rightarrow> (system \<Rightarrow> node_state list) \<Rightarrow> Scheduler \<Rightarrow>
     (action \<times> cycle_env) list \<Rightarrow> system \<Rightarrow> bool" where
  "scheduled_run error_text fw nodes sched [] s = True"
| "scheduled_run error_text fw nodes sched ((a, e) # as) s =
     (let (ok, sched') = scheduled_step error_text fw nodes sched a e s in
      ok \<and> (case perform False a s of None \<Rightarrow> True | Some s' \<Rightarrow> scheduled_run error_text fw nodes sched' as s'))"

definition named :: "(string \<Rightarrow> node_state) \<Rightarrow> string list \<Rightarrow> bool" where
  "named state N \<longleftrightarrow> list_all (\<lambda>n. node_name (Info (state n)) = n) N"

lemma snapshot_names: "named state N \<Longrightarrow> map name_of (snapshot_nodes r c state N s) = N"
  by (simp add: snapshot_nodes_def named_def list_all_iff map_idI)

text \<open>A decision of the scheduler, and what it means for the nodes.\<close>

definition outcome_at ::
    "bool \<Rightarrow> filter_config \<Rightarrow> Resource \<Rightarrow> constraints \<Rightarrow> cycle_env \<Rightarrow> Pod \<Rightarrow> node_state list \<Rightarrow>
     (string \<times> string) + ScheduleResult \<Rightarrow> bool" where
  "outcome_at enable f r c e p nodes res \<longleftrightarrow>
     (case res of
        Inr sr \<Rightarrow> (\<exists>n \<in> set nodes. RunFilterPlugins (default_filters enable f r c p) n = Accepted \<and> SuggestedHost sr = name_of n)
      | Inl (reason, msg) \<Rightarrow> list_all (\<lambda>n. RunFilterPlugins (default_filters enable f r c p) n \<noteq> Accepted) nodes \<and>
          reason = ''Unschedulable'' \<and>
          (if nodes = [] then msg = ''no nodes available to schedule pods''
           else (\<exists>hint post. msg = fit_text (NodeAffinity_PreFilter c) hint (RunFilterPlugins (default_filters enable f r c p)) nodes post)))"

lemma cycle_outcome_at:
  assumes "Extenders sched = []" and "int (length nodes) < 2 ^ 31" and "distinct (map name_of nodes)"
    and "order_ok sched (capacity_framework enable f r c e p) (searched (capacity_framework enable f r c e p) nodes) order"
    and "list_all (\<lambda>n. name_of n \<noteq> []) nodes"
  obtains k res where "schedulingAlgorithm error_text sched (capacity_framework enable f r c e p) p nodes order =
      (sched\<lparr>nextStartNodeIndex := k\<rparr>, res)" and "outcome_at enable f r c e p nodes res"
proof -
  obtain k res where o: "schedulingAlgorithm error_text sched (capacity_framework enable f r c e p) p nodes order =
      (sched\<lparr>nextStartNodeIndex := k\<rparr>, res)" "capacity_cycle.cycle_outcome enable f r c e p sched nodes res"
    by (rule capacity_cycle.schedulingAlgorithm_outcome [OF assms])
  then have "outcome_at enable f r c e p nodes res"
    by (auto simp: outcome_at_def capacity_cycle.cycle_outcome_def capacity_cycle.accepts_def split: sum.splits; blast)
  with o(1) that show thesis
    by blast
qed

text \<open>The obligations of a run: the snapshot holds the nodes of the cluster, and no extender is configured.\<close>

definition scheduler_ok :: "Scheduler \<Rightarrow> (string \<Rightarrow> node_state) \<Rightarrow> string list \<Rightarrow> ClusterCapacity \<Rightarrow> bool" where
  "scheduler_ok sched state N c0 \<longleftrightarrow>
     Extenders sched = [] \<and> distinct N \<and> set N = set (node_list c0) \<and> named state N \<and> int (length N) < 2 ^ 31"

lemma scheduler_ok_next: "scheduler_ok sched state N c0 \<Longrightarrow> scheduler_ok (sched\<lparr>nextStartNodeIndex := k\<rparr>) state N c0"
  by (simp add: scheduler_ok_def)

lemma scheduled_decision:
  assumes "scheduler_ok sched state N c0"
    and "scheduled_step error_text (capacity_framework enable f r c) (snapshot_nodes r c state N) sched a e s = (True, sched')"
  shows "scheduler_ok sched' state N c0"
    and "a = Bind_to u k n \<Longrightarrow> take_up False s k = Some p \<Longrightarrow>
      \<exists>res. outcome_at enable f r c e p (snapshot_nodes r c state N s) (Inr res) \<and> SuggestedHost res = n"
    and "a = Give_up k reason msg \<Longrightarrow> take_up False s k = Some p \<Longrightarrow>
      outcome_at enable f r c e p (snapshot_nodes r c state N s) (Inl (reason, msg))"
proof -
  have nodes: "distinct (map name_of (snapshot_nodes r c state N s))" "int (length (snapshot_nodes r c state N s)) < 2 ^ 31"
    using assms(1) snapshot_names [of state N r c s] by (simp_all add: scheduler_ok_def snapshot_nodes_def)
  have E: "Extenders sched = []"
    using assms(1) by (simp add: scheduler_ok_def)
  have "[] \<notin> set N"
    using assms(1) by (simp add: scheduler_ok_def node_names_def)
  moreover have "map name_of (snapshot_nodes r c state N s) = N"
    using assms(1) snapshot_names by (simp add: scheduler_ok_def)
  ultimately have "[] \<notin> set (map name_of (snapshot_nodes r c state N s))"
    by simp
  then have named: "list_all (\<lambda>n. name_of n \<noteq> []) (snapshot_nodes r c state N s)"
    by (simp add: list_all_iff image_iff) metis
  note cycle = cycle_outcome_at [OF E nodes(2,1) _ named, where error_text = error_text and order = "check_order e", unfolded capacity_framework_fields(1)]
  show "scheduler_ok sched' state N c0"
    using assms scheduler_ok_next [OF assms(1)]
    by (cases a) (auto simp: scheduled_step_def Let_def split: option.splits prod.splits elim!: cycle)
  show "\<exists>res. outcome_at enable f r c e p (snapshot_nodes r c state N s) (Inr res) \<and> SuggestedHost res = n"
    if "a = Bind_to u k n" "take_up False s k = Some p"
    using assms(2) that by (auto simp: scheduled_step_def Let_def split: prod.splits sum.splits elim!: cycle)
  show "outcome_at enable f r c e p (snapshot_nodes r c state N s) (Inl (reason, msg))"
    if "a = Give_up k reason msg" "take_up False s k = Some p"
    using assms(2) that by (auto simp: scheduled_step_def Let_def split: prod.splits sum.splits elim!: cycle)
qed

lemma scheduled_filtered_step:
  assumes "scheduler_ok sched state N c0"
    and "scheduled_step error_text (capacity_framework enable f r c) (snapshot_nodes r c state N) sched a e s = (True, sched')"
  shows "filtered_step (admitted enable f r c state) (node_list c0) a s"
proof -
  have N: "set N = set (node_list c0)" and named: "\<And>n. n \<in> set N \<Longrightarrow> node_name (Info (state n)) = n"
    using assms(1) by (auto simp: scheduler_ok_def named_def list_all_iff)
  note d = scheduled_decision(2,3) [OF assms]
  show ?thesis
  proof (cases a)
    case (Bind_to u k n)
    have "admitted enable f r c state n (pods_on n s) p" if p: "take_up False s k = Some p" for p
      using d(1) [OF Bind_to p] named by (auto simp: outcome_at_def snapshot_nodes_def admitted_def)
    then show ?thesis
      by (simp add: filtered_step_def Bind_to split: option.split)
  next
    case (Give_up k reason msg)
    have "list_all (\<lambda>n. \<not> admitted enable f r c state n (pods_on n s) p) (node_list c0)" if p: "take_up False s k = Some p" for p
      using d(2) [OF Give_up p] N by (auto simp: outcome_at_def snapshot_nodes_def admitted_def list_all_iff)
    then show ?thesis
      by (simp add: filtered_step_def Give_up split: option.split)
  qed (simp_all add: filtered_step_def)
qed

lemma scheduled_filtered:
  "scheduler_ok sched state N c0 \<Longrightarrow>
   scheduled_run error_text (capacity_framework enable f r c) (snapshot_nodes r c state N) sched as s \<Longrightarrow>
   filtered_run (admitted enable f r c state) (node_list c0) (map fst as) s"
proof (induction as arbitrary: sched s)
  case (Cons x as)
  obtain a e sched' where x: "x = (a, e)"
    and step: "scheduled_step error_text (capacity_framework enable f r c) (snapshot_nodes r c state N) sched a e s = (True, sched')"
    using Cons.prems(2) by (cases x) (auto split: prod.splits)
  show ?case
    using Cons.IH [OF scheduled_decision(1) [OF Cons.prems(1) step]] Cons.prems(2) step
      scheduled_filtered_step [OF Cons.prems(1) step] x by (auto split: option.splits)
qed simp

section \<open>The text the analysis ends with\<close>

lemma filters_any_pod:
  assumes "pod_node p = []" and "pod_node q = []"
  shows "default_filters enable f r c p = default_filters enable f r c q"
proof -
  have "NodeName_Filter p = NodeName_Filter q"
    by (rule ext) (simp add: NodeName_Filter_def assms)
  moreover have "adjustDeltas opts r' n p = r'" "adjustDeltas opts r' n q = r'" for opts r' n
    by (simp_all add: adjustDeltas_def assms)
  then have "Fit_Filter f r p = Fit_Filter f r q"
    by (intro ext) (simp add: Fit_Filter_def fitsRequest_def Let_def)
  ultimately show ?thesis
    by (simp add: default_filters_def)
qed

text \<open>The text is about all nodes of the cluster, each with the pods that were bound to it by then.\<close>

definition tells ::
    "bool \<Rightarrow> filter_config \<Rightarrow> Resource \<Rightarrow> constraints \<Rightarrow> (string \<Rightarrow> node_state) \<Rightarrow> string list \<Rightarrow> Pod \<Rightarrow> system \<Rightarrow> string \<Rightarrow> bool" where
  "tells enable f r c state N p s msg \<longleftrightarrow>
     (if N = [] then msg = ''no nodes available to schedule pods''
      else \<exists>hint post. msg =
        fit_text (NodeAffinity_PreFilter c) hint (RunFilterPlugins (default_filters enable f r c p)) (snapshot_nodes r c state N s) post)"

lemma tells_same:
  assumes "\<And>n. pods_on n s' = pods_on n s"
  shows "tells enable f r c state N p s' = tells enable f r c state N p s"
  by (rule ext) (simp add: tells_def snapshot_nodes_def assms)

lemma perform_pods_on:
  assumes inv: "placement_inv c0 s" and step: "perform False a s = Some s'" and "\<And>u k n. a \<noteq> Bind_to u k n"
  shows "pods_on n s' = pods_on n s"
proof -
  have C: "control_ok s"
    using inv by (simp add: placement_inv_def)
  have "Pods (status (cc s')) = Pods (status (cc s))"
  proof (cases a)
    case (Create u)
    then show ?thesis
      using step create_placement [OF C, of u] by (auto split: if_splits)
  next
    case Receive
    then show ?thesis
      using step receive_placement(1) [OF C] by (auto split: if_splits)
  next
    case (Give_up k r msg)
    then show ?thesis
      using step mark_placement(1) [OF C] by (auto dest!: take_up_sound split: option.splits if_splits)
  next
    case Handle
    then have "s' = do_update s" "todo s \<noteq> []"
      using step by (simp_all split: if_splits)
    then show ?thesis
      using update_placement [OF C] by auto
  qed (use assms step in \<open>auto split: if_splits\<close>)
  then show ?thesis
    by (simp add: pods_on_def ScheduledPods_def)
qed

lemma scheduled_says:
  assumes "int64 (maxSimulated c0)" and "pod_node p = []"
  shows "perform_all False (map fst as) s = Some s' \<Longrightarrow>
    scheduled_run error_text (capacity_framework enable f r c) (snapshot_nodes r c state N) sched as s \<Longrightarrow>
    scheduler_ok sched state N c0 \<Longrightarrow> placement_inv c0 s \<Longrightarrow> says (tells enable f r c state N p s) s \<Longrightarrow>
    says (tells enable f r c state N p s') s'"
proof (induction as arbitrary: sched s)
  case (Cons x as)
  obtain a e sched' where x: "x = (a, e)"
    and step: "scheduled_step error_text (capacity_framework enable f r c) (snapshot_nodes r c state N) sched a e s = (True, sched')"
    using Cons.prems(2) by (cases x) (auto split: prod.splits)
  obtain s1 where s1: "perform False a s = Some s1" "perform_all False (map fst as) s1 = Some s'"
    using Cons.prems(1) x by (auto split: option.splits)
  have run: "scheduled_run error_text (capacity_framework enable f r c) (snapshot_nodes r c state N) sched' as s1"
    using Cons.prems(2) x step s1(1) by simp
  have given_up: "tells enable f r c state N p s msg" if a: "a = Give_up k ''Unschedulable'' msg" for k msg
  proof -
    obtain q where q: "take_up False s k = Some q"
      using s1(1) a by (auto split: option.splits)
    then have "pod_node q = []"
      by (auto dest!: take_up_sound simp: schedulable_def unassigned_pod_def)
    then show ?thesis
      using scheduled_decision(3) [OF Cons.prems(3) step a q] filters_any_pod [OF assms(2)]
      by (auto simp: outcome_at_def tells_def snapshot_nodes_def split: if_splits)
  qed
  have "says (tells enable f r c state N p s1) s1"
  proof (cases "\<exists>u k n. a = Bind_to u k n")
    case True
    then show ?thesis
      by (intro says_perform [OF Cons.prems(4) assms(1) s1(1)]) auto
  next
    case False
    then have "tells enable f r c state N p s1 = tells enable f r c state N p s"
      using perform_pods_on [OF Cons.prems(4) s1(1)] by (intro tells_same) blast
    then show ?thesis
      using says_perform [OF Cons.prems(4) assms(1) s1(1), of "tells enable f r c state N p s"] Cons.prems(5) given_up
      by simp
  qed
  then show ?case
    using Cons.IH [OF s1(2) run scheduled_decision(1) [OF Cons.prems(3) step]]
      placement_preserved [OF assms(1) Cons.prems(4) perform_sound [OF s1(1)]] by blast
qed simp

lemma says_initially:
  assumes "start_ok c0" and "StopReason (status c0) = []"
  shows "says Q (initial_system c0)"
proof (rule says_silent)
  have "control_ok (initial_system c0)"
    using assms(1) by (simp add: start_ok_def control_initially)
  then show "\<not> stop_pending (initial_system c0)"
    by (auto simp: control_ok_def initial_system_def tokens_def stop_pending_def)
  show "outcome (placement_of (initial_system c0)) \<noteq> Some No_room"
    using placement_initially(2) [OF assms] by (simp add: no_placement_def)
qed

lemma scheduled_stop_message:
  assumes "start_ok c0" and "StopReason (status c0) = []" and "scheduler_ok sched state N c0"
    and "perform_all False (map fst as) (initial_system c0) = Some s" and "main s = Returned None"
    and "scheduled_run error_text (capacity_framework enable f r c) (snapshot_nodes r c state N) sched as (initial_system c0)"
    and "\<not> (0 < maxSimulated c0 \<and> int (length (ScheduledPods (cc s))) = maxSimulated c0)" and "pod_node p = []"
  obtains msg where "StopReason (status (cc s)) = ''Unschedulable: '' @ msg" and "tells enable f r c state N p s msg"
proof -
  have m: "int64 (maxSimulated c0)"
    using assms(1) by (simp add: start_ok_def)
  have "says (tells enable f r c state N p s) s"
    by (rule scheduled_says [OF m assms(8,4,6,3) placement_initially(1) [OF assms(1,2)] says_initially [OF assms(1,2)]])
  moreover have "reason_ok c0 (cc s)"
    by (rule finished_reason(1) [OF assms(1) perform_all_reachable [OF assms(4)] assms(5)])
  then obtain msg where "StopReason (status (cc s)) = ''Unschedulable: '' @ msg"
    using assms(7) by (auto simp: reason_ok_def ScheduledPods_def pods_bound_def)
  ultimately show thesis
    using that by (simp add: says_def)
qed

end
