(* ===== verification/Schedule_Results.thy ===== *)
theory Schedule_Results
  imports Schedule_Capacity
begin

text \<open>
  The properties of an analysis with the modelled scheduler: where a cycle sends a pod, how many pods are
  counted, and what the stop reason and the report say. The examples are a cycle over three nodes and
  the small cluster with a template that has a host port.
\<close>

section \<open>One cycle\<close>

text \<open>C4: One cycle of the scheduler, in whatever order its workers check the nodes, wherever it starts to search and
  whatever node is hinted: the pod goes to a node that all filters accept if there is one, and with fewer than
  100 nodes and no hint to one with the best score. If there is none, the pod is given up as
  unschedulable with a text that counts, for each reason, all the nodes that give it. Nodes that the required affinity of
  the pod does not name are left out of the search and counted with that as their reason.\<close>

theorem pod_goes_to_best_node:
  assumes "Extenders sched = []" and "int (length nodes) < 2 ^ 31" and "distinct (map name_of nodes)"
    and "order_ok sched (capacity_framework enable f r c e p) (searched (capacity_framework enable f r c e p) nodes) order"
    and "list_all (\<lambda>n. name_of n \<noteq> []) nodes"
  defines "verdict \<equiv> RunFilterPlugins (default_filters enable f r c p)"
  shows "case snd (schedulingAlgorithm error_text sched (capacity_framework enable f r c e p) p nodes order) of
      Inr res \<Rightarrow> (\<exists>n \<in> set nodes. verdict n = Accepted \<and> SuggestedHost res = name_of n \<and>
        (node_scores e \<noteq> None \<and> length nodes < 100 \<and> node_hint e = [] \<longrightarrow>
          (\<forall>n' \<in> set nodes. verdict n' = Accepted \<longrightarrow>
            wrap64 (fst (node_score e (name_of n'))) \<le> wrap64 (fst (node_score e (name_of n))))))
    | Inl (reason, msg) \<Rightarrow> list_all (\<lambda>n. verdict n \<noteq> Accepted) nodes \<and> reason = ''Unschedulable'' \<and>
        (if nodes = [] then msg = ''no nodes available to schedule pods''
         else \<exists>post. (post_filter e = None \<longrightarrow> post = []) \<and>
           msg = fit_text (NodeAffinity_PreFilter c) (node_hint e) verdict nodes post)"
proof -
  obtain k res where "schedulingAlgorithm error_text sched (capacity_framework enable f r c e p) p nodes order =
      (sched\<lparr>nextStartNodeIndex := k\<rparr>, res)" "capacity_cycle.cycle_outcome enable f r c e p sched nodes res"
    by (rule capacity_cycle.schedulingAlgorithm_outcome [OF assms(1-5)])
  then show ?thesis
    by (cases res) (auto simp: capacity_cycle.cycle_outcome_def capacity_cycle.accepts_def verdict_def)
qed

text \<open>Four nodes, the second of them cordoned and not named by the affinity of the pod, the fourth with another disk than the pod
  asks for, and the third with the best score.\<close>

definition four_nodes :: "node_state list" where
  "four_nodes = map (\<lambda>(n, off). \<lparr>Info = sample_info n, UsedPorts = [], Cordoned = off, Taints = [],
       NodeLabels = [''disk'' \<mapsto> if n = ''n4'' then ''hdd'' else ''ssd'']\<rparr>)
     [(''n1'', False), (''n2'', True), (''n3'', False), (''n4'', False)]"

definition names_term :: "string list \<Rightarrow> NodeSelectorTerm" where
  "names_term names =
     \<lparr>MatchExpressions = [], MatchFields = [\<lparr>ReqKey = ''metadata.name'', ReqOperator = ''In'', ReqValues = names\<rparr>]\<rparr>"

definition ssd_constraints :: constraints where
  "ssd_constraints =
     \<lparr>PodSelector = Some [(''disk'', ''ssd'')],
      RequiredTerms = Some [names_term [''n1''], names_term [''n3''], names_term [''n4'']], AddedSelector = None,
      Tolerations = [], InitPorts = [], Ports = []\<rparr>"

definition scored_env :: "nat list \<Rightarrow> cycle_env" where
  "scored_env order =
     \<lparr>profile_percentage = None, node_hint = [],
      node_scores = Some (\<lambda>n. if n = ''n3'' then (90, 1) else (40, 2)), post_filter = None, check_order = order\<rparr>"

definition first_cycle :: Scheduler where
  "first_cycle = \<lparr>percentageOfNodesToScore = 0, Extenders = [], nextStartNodeIndex = 1\<rparr>"

theorem pod_goes_to_best_node_witness:
  "let e = scored_env [2, 0, 1]; p = small_pod ''p'' [] [];
       verdict = RunFilterPlugins (default_filters True sample_filter sample_request ssd_constraints p);
       cycle = schedulingAlgorithm (\<lambda>_. []) first_cycle (capacity_framework True sample_filter sample_request ssd_constraints e p)
         p four_nodes [2, 0, 1]
   in map verdict four_nodes = [Accepted, UnschedulableAndUnresolvable [''node(s) were unschedulable''], Accepted,
        UnschedulableAndUnresolvable [''node(s) didn'' @ [CHR 39] @ ''t match Pod'' @ [CHR 39] @ ''s node affinity/selector'']] \<and>
      nextStartNodeIndex (fst cycle) = 0 \<and> (\<exists>res. snd cycle = Inr res \<and> SuggestedHost res = ''n3'')"
proof -
  let ?e = "scored_env [2, 0, 1]" and ?p = "small_pod ''p'' [] []"
  let ?fw = "capacity_framework True sample_filter sample_request ssd_constraints ?e ?p"
  let ?v = "RunFilterPlugins (default_filters True sample_filter sample_request ssd_constraints ?p)"
  let ?cycle = "schedulingAlgorithm (\<lambda>_. []) first_cycle ?fw ?p four_nodes [2, 0, 1]"
  have a: "Extenders first_cycle = []" "int (length four_nodes) < 2 ^ 31" "distinct (map name_of four_nodes)"
    "order_ok first_cycle ?fw (searched ?fw four_nodes) [2, 0, 1]" "list_all (\<lambda>n. name_of n \<noteq> []) four_nodes"
    by code_simp+
  have v: "map ?v four_nodes = [Accepted, UnschedulableAndUnresolvable [''node(s) were unschedulable''], Accepted,
        UnschedulableAndUnresolvable [''node(s) didn'' @ [CHR 39] @ ''t match Pod'' @ [CHR 39] @ ''s node affinity/selector'']]"
    by code_simp
  have k: "nextStartNodeIndex (fst ?cycle) = 0" "projr (snd ?cycle) = \<lparr>SuggestedHost = ''n3'', EvaluatedNodes = 3, FeasibleNodes = 2\<rparr>"
    by code_simp+
  have "\<not> list_all (\<lambda>n. ?v n \<noteq> Accepted) four_nodes"
    by code_simp
  then have "\<exists>res. snd ?cycle = Inr res"
    using pod_goes_to_best_node [OF a, of "\<lambda>_. []"]
    by (cases "snd ?cycle") (simp_all only: sum.case prod.case split_paired_all not_True_eq_False simp_thms, blast+)
  with v k show ?thesis
    by auto
qed

section \<open>The number of pods\<close>

text \<open>C3:
  The number the tool reports is exact: if every pod is bound where a cycle of the scheduler sends it and
  given up when a cycle finds no node for it, an analysis that ended has counted the sum of the rooms of the nodes, or
  the limit if that is positive and less, whatever the scores, hints, samples and orders of the checks.
  The request and the node selector are those of the template. The room of a node is none if it is cordoned, has a taint
  the template does not tolerate, or is not what its node selector and node affinity ask for, or if a host port of the
  template is taken; otherwise it is the least of its
  free pod slots and, for each requested resource that is checked, the free amount divided by the request,
  and at most one for a template with host ports.\<close>

theorem scheduled_capacity:
  fixes level enable :: bool and px :: pod_extras and rest :: constraints
  assumes "start_ok c0" and "StopReason (status c0) = []"
    and "requests_ok (template_of c0) px" and "list_all (\<lambda>n. node_ok (state n)) (node_list c0)"
    and "perform_all False (map fst as) (initial_system c0) = Some s" and "main s = Returned None"
  defines "r \<equiv> computePodResourceRequest level (template_of c0) px" and "c \<equiv> with_selector (template_of c0) rest"
  assumes "scheduler_ok sched state N c0"
    and "scheduled_run error_text (capacity_framework enable f r c) (snapshot_nodes r c state N) sched as (initial_system c0)"
  defines "all_room \<equiv> int (\<Sum>n\<leftarrow>node_list c0. copies_room enable f r c (state n))"
  shows "int (length (ScheduledPods (cc s))) =
    (if 0 < maxSimulated c0 then min (maxSimulated c0) all_room else all_room)"
  using capacity_with_filters [OF assms(1-6) scheduled_filtered [OF assms(9,10) [unfolded r_def]]]
  by (simp add: all_room_def r_def)

lemma reported_reason:
  assumes "start_ok c0" and "report c0 = None" and "reachable False c0 s" and "main s = Returned None"
    and "StopReason (status (cc s)) = ''Unschedulable: '' @ msg"
  shows "\<exists>c' rep. Report now (cc s) = Inr (c', rep) \<and> FailReason (ReviewStatusOf rep) =
    \<lparr>FailType = ''Unschedulable'', FailMessage = trim_char (CHR '' '') (first_line msg)\<rparr>"
proof -
  note fin = finished_reason [OF assms(1,3,4)]
  have "getMainFailReason (StopReason (status (cc s))) =
      Inr \<lparr>FailType = ''Unschedulable'', FailMessage = trim_char (CHR '' '') (first_line msg)\<rparr>"
    using getMainFailReason_parts [of "''Unschedulable''" msg] by (simp add: assms(5) newline_def)
  then show ?thesis
    using fin(2) assms(2) GetReport_one_template [of "status (cc s)" _ now "simulatedPod c0"]
    by (fastforce simp: Report_def frame_def Let_def)
qed

text \<open>
  The small cluster and a template with a host port. The second copy finds no free port, though there is
  cpu for 10 copies.
\<close>

definition no_port_text :: string where
  "no_port_text = ''0/1 nodes are available: 1 node(s) didn'' @ [CHR 39] @ ''t have free ports for the requested pod ports.''"

definition port_run :: "(action \<times> cycle_env) list" where
  "port_run = map (\<lambda>a. (a, scored_env [0]))
     [Create ''u0'', Bind_to ''u1'' (''default'', ''p-0'') ''n1'',
      Give_up (''default'', ''p-1'') ''Unschedulable'' no_port_text,
      Deliver, Deliver, Deliver, Deliver, Handle, Receive]"

definition port_request :: Resource where
  "port_request = computePodResourceRequest True (template_of (small_start [] 3)) no_extras"

abbreviation port_end :: system where
  "port_end \<equiv> end_of (map fst port_run) (small_start [] 3)"

lemma small_template: "template_of (small_start [] 3) = small_pod ''p'' [] []"
  by (simp add: small_start_def start_on_def New_def SyncWithClient_def NewSinglePodGenerator_def split_beta)

lemma port_selector: "with_selector (template_of (small_start [] 3)) port_constraints = port_constraints"
  by (simp add: small_template with_selector_def small_pod_def port_constraints_def)

lemma port_run_facts:
  "StopReason (status (small_start [] 3)) = []" "maxSimulated (small_start [] 3) = 3"
  "list_all (\<lambda>n. node_ok (port_state n)) (node_list (small_start [] 3))"
  "scheduler_ok first_cycle port_state [''n1''] (small_start [] 3)"
  "main port_end = Returned None" "length (ScheduledPods (cc port_end)) = 1"
  "scheduled_run (\<lambda>_. []) (capacity_framework False sample_filter port_request port_constraints)
     (snapshot_nodes port_request port_constraints port_state [''n1'']) first_cycle port_run (initial_system (small_start [] 3))"
  "perform_all False (map fst port_run) (initial_system (small_start [] 3)) = Some port_end"
  "requests_ok (template_of (small_start [] 3)) no_extras"
proof -
  show "perform_all False (map fst port_run) (initial_system (small_start [] 3)) = Some port_end"
  proof -
    have "perform_all False (map fst port_run) (initial_system (small_start [] 3)) \<noteq> None"
      by code_simp
    then show ?thesis by auto
  qed
  show "requests_ok (template_of (small_start [] 3)) no_extras"
    by (simp add: small_template requests_ok_def small_pod_def no_extras_def rl_ok_def quantity_ok_def NewMilliQuantity_def
        int64_def qval_def aval_def)
qed (code_simp+)

theorem scheduled_capacity_witness:
  "length (ScheduledPods (cc port_end)) = 1 \<and>
   room sample_filter port_request (sample_info ''n1'') = 10 \<and>
   copies_room False sample_filter port_request port_constraints (port_state ''n1'') = 1"
proof -
  have r: "(\<Sum>n\<leftarrow>node_list (small_start [] 3). copies_room False sample_filter port_request port_constraints (port_state n)) = 1"
    "room sample_filter port_request (sample_info ''n1'') = 10"
    "copies_room False sample_filter port_request port_constraints (port_state ''n1'') = 1"
    by code_simp+
  have "int (length (ScheduledPods (cc port_end))) = 1"
    using scheduled_capacity [OF small_start_ok(2) port_run_facts(1,9,3,8,5), where rest = port_constraints and level = True
        and sched = first_cycle and N = "[''n1'']" and error_text = "\<lambda>_. []" and enable = False and f = sample_filter]
      port_run_facts(4,7) r(1) port_run_facts(2) by (simp add: port_request_def port_selector)
  with r(2,3) show ?thesis
    by simp
qed

section \<open>The reason for the stop\<close>

text \<open>C8:
  When such an analysis ends below the limit, the stop reason is that of an unschedulable pod with the text of a
  cycle: it counts, for each reason, all nodes of the cluster that give it, each with the pods that were bound to it,
  and ends with whatever preemption has to say. The failure reason in the report has that text, up to its first line break.\<close>

theorem stop_reason_counts_nodes:
  assumes "start_ok c0" and "StopReason (status c0) = []" and "report c0 = None" and "scheduler_ok sched state N c0"
    and "perform_all False (map fst as) (initial_system c0) = Some s" and "main s = Returned None"
    and "scheduled_run error_text (capacity_framework enable f r c) (snapshot_nodes r c state N) sched as (initial_system c0)"
    and "\<not> (0 < maxSimulated c0 \<and> int (length (ScheduledPods (cc s))) = maxSimulated c0)" and "pod_node p = []"
  defines "verdict \<equiv> RunFilterPlugins (default_filters enable f r c p)"
  shows "\<exists>msg. (if N = [] then msg = ''no nodes available to schedule pods''
      else \<exists>hint post. msg = fit_text (NodeAffinity_PreFilter c) hint verdict (snapshot_nodes r c state N s) post) \<and>
    StopReason (status (cc s)) = ''Unschedulable: '' @ msg \<and>
    (\<exists>c' rep. Report now (cc s) = Inr (c', rep) \<and> FailReason (ReviewStatusOf rep) =
      \<lparr>FailType = ''Unschedulable'', FailMessage = trim_char (CHR '' '') (first_line msg)\<rparr>)"
proof -
  obtain msg where msg: "StopReason (status (cc s)) = ''Unschedulable: '' @ msg" "tells enable f r c state N p s msg"
    by (rule scheduled_stop_message [OF assms(1,2,4-9)])
  with reported_reason [OF assms(1,3) perform_all_reachable [OF assms(5)] assms(6) msg(1)] show ?thesis
    unfolding tells_def verdict_def by blast
qed

theorem stop_reason_counts_nodes_witness:
  "\<exists>hint post. StopReason (status (cc port_end)) = ''Unschedulable: '' @
     fit_text (NodeAffinity_PreFilter port_constraints) hint (RunFilterPlugins (default_filters False sample_filter port_request port_constraints (small_pod ''p'' [] [])))
       (snapshot_nodes port_request port_constraints port_state [''n1''] port_end) post"
proof -
  have "report (small_start [] 3) = None"
    by code_simp
  moreover have "pod_node (small_pod ''p'' [] []) = []"
    by code_simp
  moreover have "\<not> (0 < maxSimulated (small_start [] 3) \<and>
      int (length (ScheduledPods (cc port_end))) = maxSimulated (small_start [] 3))"
    using port_run_facts(2,6) by simp
  ultimately show ?thesis
    using stop_reason_counts_nodes [OF small_start_ok(2) port_run_facts(1) _ port_run_facts(4,8,5,7)] by fastforce
qed

end
