(* ===== verification/Report_Store.thy ===== *)
theory Report_Store
  imports Report Quantity_Parse
begin

text \<open>
  \<open>getResourceRequest\<close> with its pointers. A Go quantity that is not a scaled integer holds the
  address of its decimal, and copying the struct copies the address: \<open>rQuantity.Add\<close> writes into the
  decimal of the request it iterates over. The store is the list of the decimals, an address an
  index. \<open>Report\<close> models quantities as values; the refinement below shows that this is exact for
  one call, and the last theorem what the call leaves in the pod and a second call makes of it.
\<close>

section \<open>Quantities that point to their decimals\<close>

record Quantity_ref =
  ri :: int64Amount
  rd :: "nat option"
  rFormat :: string

type_synonym dec_store = "Dec list"

definition load :: "dec_store \<Rightarrow> Quantity_ref \<Rightarrow> Quantity" where
  "load h q = \<lparr>qi = ri q, qd = map_option (nth h) (rd q), Format = rFormat q\<rparr>"

text \<open>\<open>ToDec\<close> allocates the decimal of a scaled integer; the address is returned with it.\<close>

definition ToDec_ref :: "Quantity_ref \<Rightarrow> dec_store \<Rightarrow> Quantity_ref \<times> nat \<times> dec_store" where
  "ToDec_ref q h =
     (case rd q of Some a \<Rightarrow> (q, a, h)
      | None \<Rightarrow> (q\<lparr>rd := Some (length h), ri := \<lparr>ivalue = 0, iscale = 0\<rparr>\<rparr>, length h,
                 h @ [int64Amount_AsDec (ri q)]))"

definition Add_slow :: "Quantity_ref \<Rightarrow> Quantity_ref \<Rightarrow> dec_store \<Rightarrow> Quantity_ref \<times> dec_store" where
  "Add_slow q y h =
     (case ToDec_ref q h of (q', a, h') \<Rightarrow> (q', h'[a := Dec_Add (h' ! a) (Quantity_AsDec (load h' y))]))"

definition Add_ref :: "Quantity_ref \<Rightarrow> Quantity_ref \<Rightarrow> dec_store \<Rightarrow> Quantity_ref \<times> dec_store" where
  "Add_ref q y h =
     (if rd q = None \<and> rd y = None then
        (let q1 = (if ivalue (ri q) = 0 then q\<lparr>rFormat := rFormat y\<rparr> else q) in
         case int64Amount_Add (ri q1) (ri y) of
           Some i \<Rightarrow> (q1\<lparr>ri := i\<rparr>, h)
         | None \<Rightarrow> Add_slow q1 y h)
      else Add_slow (if Quantity_IsZero (load h q) then q\<lparr>rFormat := rFormat y\<rparr> else q) y h)"

section \<open>The requests of a pod\<close>

record Resources_ref =
  Primary_ref :: "string \<rightharpoonup> Quantity_ref"
  Scalar_ref :: "int dict option"

definition new_ref :: "int \<Rightarrow> int \<Rightarrow> string \<Rightarrow> Quantity_ref" where
  "new_ref v s format = \<lparr>ri = \<lparr>ivalue = v, iscale = s\<rparr>, rd = None, rFormat = format\<rparr>"

definition list_ref :: "(string \<rightharpoonup> Quantity_ref) \<Rightarrow> string \<Rightarrow> string \<Rightarrow> Quantity_ref" where
  "list_ref m name defaultFormat = (case m name of Some q \<Rightarrow> q | None \<Rightarrow> new_ref 0 0 defaultFormat)"

definition initial_ref :: Resources_ref where
  "initial_ref =
     \<lparr>Primary_ref = [ResourceCPU \<mapsto> new_ref 0 (- 3) DecimalSI, ResourceMemory \<mapsto> new_ref 0 0 BinarySI,
        ResourceNvidiaGPU \<mapsto> new_ref 0 (- 3) DecimalSI],
      Scalar_ref = None\<rparr>"

definition add_primary :: "string \<Rightarrow> string \<Rightarrow> Quantity_ref \<Rightarrow> Resources_ref \<times> dec_store \<Rightarrow> Resources_ref \<times> dec_store" where
  "add_primary name defaultFormat rQuantity rh =
     (case rh of (result, h) \<Rightarrow>
      case Add_ref rQuantity (list_ref (Primary_ref result) name defaultFormat) h of (q, h') \<Rightarrow>
        (result\<lparr>Primary_ref := (Primary_ref result)(name \<mapsto> q)\<rparr>, h'))"

definition add_request_ref :: "string \<times> Quantity_ref \<Rightarrow> Resources_ref \<times> dec_store \<Rightarrow> Resources_ref \<times> dec_store" where
  "add_request_ref rq rh =
     (let (rName, rQuantity) = rq; (result, h) = rh in
      if rName = ResourceMemory then add_primary ResourceMemory BinarySI rQuantity rh
      else if rName = ResourceCPU then add_primary ResourceCPU DecimalSI rQuantity rh
      else if IsScalarResourceName rName then
        (let scalars = (case Scalar_ref result of None \<Rightarrow> Mapping.empty | Some m \<Rightarrow> m);
             old = (case Mapping.lookup scalars rName of None \<Rightarrow> 0 | Some v \<Rightarrow> v)
         in (result\<lparr>Scalar_ref := Some (Mapping.update rName (wrap64 (old + Quantity_Value (load h rQuantity))) scalars)\<rparr>, h))
      else rh)"

definition getResourceRequest_ref ::
  "(string \<times> Quantity_ref) list list \<Rightarrow> dec_store \<Rightarrow> Resources_ref \<times> dec_store" where
  "getResourceRequest_ref containers h =
     fold (\<lambda>requests rh. fold add_request_ref requests rh) containers (initial_ref, h)"

section \<open>The values behind the pointers\<close>

definition load_resources :: "dec_store \<Rightarrow> Resources_ref \<Rightarrow> Resources" where
  "load_resources h r =
     \<lparr>PrimaryResources = map_option (load h) \<circ> Primary_ref r, ScalarResources = Scalar_ref r\<rparr>"

text \<open>The addresses of a quantity, and quantities that point into the store.\<close>

definition addr :: "Quantity_ref \<Rightarrow> nat list" where
  "addr q = (case rd q of None \<Rightarrow> [] | Some a \<Rightarrow> [a])"

definition in_store :: "dec_store \<Rightarrow> Quantity_ref \<Rightarrow> bool" where
  "in_store h q \<longleftrightarrow> (\<forall>a \<in> set (addr q). a < length h)"

lemma load_simps [simp]:
  "qi (load h q) = ri q" "qd (load h q) = map_option (nth h) (rd q)" "Format (load h q) = rFormat q"
  by (simp_all add: load_def)

lemma addr_format [simp]: "addr (q\<lparr>rFormat := f\<rparr>) = addr q" "addr (q\<lparr>ri := i\<rparr>) = addr q"
  by (simp_all add: addr_def)

lemma in_store_format [simp]: "in_store h (q\<lparr>rFormat := f\<rparr>) = in_store h q"
  by (simp add: in_store_def)

lemma load_format [simp]: "load h (q\<lparr>rFormat := f\<rparr>) = (load h q)\<lparr>Format := f\<rparr>"
  by (simp add: load_def)

lemma load_cong: "(\<And>a. a \<in> set (addr r) \<Longrightarrow> h' ! a = h ! a) \<Longrightarrow> load h' r = load h r"
  by (cases "rd r") (simp_all add: load_def addr_def)

lemma in_store_cong: "addr q = addr r \<Longrightarrow> in_store h q = in_store h r"
  by (simp add: in_store_def)

text \<open>The slow path: the receiver holds the sum, and only its own decimal was written.\<close>

lemma Add_slow_load:
  assumes "Add_slow q y h = (q', h')" and "in_store h q" and "in_store h y"
  shows "load h' q' = (Quantity_ToDec (load h q))\<lparr>qd := Some (Dec_Add (Quantity_AsDec (load h q)) (Quantity_AsDec (load h y)))\<rparr>"
    and "length h \<le> length h'" and "in_store h' q'"
    and "set (addr q') \<subseteq> set (addr q) \<union> {length h..}"
    and "in_store h r \<Longrightarrow> set (addr r) \<inter> set (addr q) = {} \<Longrightarrow> load h' r = load h r"
proof -
  have yl: "load (h @ [d]) y = load h y" for d
    using assms(3) by (cases "rd y") (simp_all add: load_def in_store_def addr_def nth_append)
  show "load h' q' = (Quantity_ToDec (load h q))\<lparr>qd := Some (Dec_Add (Quantity_AsDec (load h q)) (Quantity_AsDec (load h y)))\<rparr>"
    "length h \<le> length h'" "in_store h' q'" "set (addr q') \<subseteq> set (addr q) \<union> {length h..}"
    using assms(1,2) yl
    by (auto simp: Add_slow_def ToDec_ref_def load_def Quantity_ToDec_def Quantity_AsDec_def in_store_def addr_def
        split: option.splits)
  show "load h' r = load h r" if "in_store h r" "set (addr r) \<inter> set (addr q) = {}"
  proof (rule load_cong)
    fix a
    assume "a \<in> set (addr r)"
    with that have "a < length h" "a \<notin> set (addr q)"
      by (auto simp: in_store_def)
    then show "h' ! a = h ! a"
      using assms(1) by (auto simp: Add_slow_def ToDec_ref_def addr_def nth_append split: option.splits)
  qed
qed

lemma Add_ref_load:
  assumes "Add_ref q y h = (q', h')" and "in_store h q" and "in_store h y"
  shows "load h' q' = Quantity_Add (load h q) (load h y)"
    and "length h \<le> length h'" and "in_store h' q'"
    and "set (addr q') \<subseteq> set (addr q) \<union> {length h..}"
    and "in_store h r \<Longrightarrow> set (addr r) \<inter> set (addr q) = {} \<Longrightarrow> load h' r = load h r"
proof -
  note slow = Add_slow_load [where h = h and y = y and h' = h' and q' = q', OF _ _ assms(3)]
  define q1 where "q1 = (if ivalue (ri q) = 0 then q\<lparr>rFormat := rFormat y\<rparr> else q)"
  define q2 where "q2 = (if Quantity_IsZero (load h q) then q\<lparr>rFormat := rFormat y\<rparr> else q)"
  have q12: "addr q1 = addr q" "addr q2 = addr q" "in_store h q1" "in_store h q2" "ri q1 = ri q"
    using assms(2) by (simp_all add: q1_def q2_def)
  consider (fast) i where "rd q = None" "rd y = None" "int64Amount_Add (ri q) (ri y) = Some i"
      "q' = q1\<lparr>ri := i\<rparr>" "h' = h"
    | (overflow) "rd q = None" "rd y = None" "int64Amount_Add (ri q) (ri y) = None" "Add_slow q1 y h = (q', h')"
    | (decimal) "rd q \<noteq> None \<or> rd y \<noteq> None" "Add_slow q2 y h = (q', h')"
    using assms(1) q12(5) unfolding Add_ref_def q1_def [symmetric] q2_def [symmetric] Let_def
    by (auto split: if_splits option.splits)
  note cases = this
  show "load h' q' = Quantity_Add (load h q) (load h y)"
    using cases
  proof cases
    case fast
    then show ?thesis
      by (simp add: Quantity_Add_def load_def q1_def Let_def)
  next
    case overflow
    then show ?thesis
      using slow(1) [OF overflow(4) q12(3)] by (simp add: Quantity_Add_def Let_def q1_def)
  next
    case decimal
    then show ?thesis
      using slow(1) [OF decimal(2) q12(4)] by (auto simp: Quantity_Add_def Let_def q2_def)
  qed
  have "(h' = h \<and> addr q' = addr q) \<or> (\<exists>q0. addr q0 = addr q \<and> in_store h q0 \<and> Add_slow q0 y h = (q', h'))"
    using cases q12 by (cases; force)
  then show "length h \<le> length h'" "in_store h' q'" "set (addr q') \<subseteq> set (addr q) \<union> {length h..}"
    "in_store h r \<Longrightarrow> set (addr r) \<inter> set (addr q) = {} \<Longrightarrow> load h' r = load h r"
    using slow(2-4) slow(5) [where r = r] assms(2) in_store_cong [of q' q h] by (elim disjE exE conjE; force)+
qed

text \<open>Quantities that share no decimal stay as they are while one of them is added to.\<close>

definition separate :: "dec_store \<Rightarrow> Quantity_ref list \<Rightarrow> bool" where
  "separate h qs \<longleftrightarrow> (\<forall>q \<in> set qs. in_store h q) \<and> distinct (concat (map addr qs))"

lemma separate_add:
  assumes "separate h (q # y # qs)" and "Add_ref q y h = (q', h')"
  shows "separate h' (q' # qs)" and "\<forall>r \<in> set qs. load h' r = load h r"
    and "load h' q' = Quantity_Add (load h q) (load h y)"
proof -
  have i: "in_store h q" "in_store h y" "\<And>r. r \<in> set qs \<Longrightarrow> in_store h r"
    using assms(1) by (simp_all add: separate_def)
  note a = Add_ref_load [OF assms(2) i(1,2)]
  have apart: "set (addr r) \<inter> set (addr q) = {}" if "r \<in> set qs" for r
    using assms(1) that by (auto simp: separate_def)
  show "\<forall>r \<in> set qs. load h' r = load h r"
    using a(5) i(3) apart by blast
  show "load h' q' = Quantity_Add (load h q) (load h y)"
    by (rule a(1))
  have "in_store h' r" if "r \<in> set qs" for r
    using i(3) [OF that] a(2) by (auto simp: in_store_def)
  moreover have "set (addr q') \<inter> set (addr r) = {}" if "r \<in> set qs" for r
    using a(4) apart [OF that] i(3) [OF that] by (fastforce simp: in_store_def)
  moreover have "distinct (addr q')"
    by (simp add: addr_def split: option.splits)
  ultimately show "separate h' (q' # qs)"
    using assms(1) a(3) by (fastforce simp: separate_def)
qed

lemma separate_orders:
  "separate h (c # m # q # qs) \<Longrightarrow> separate h (q # m # c # qs)"
  "separate h (c # m # q # qs) \<Longrightarrow> separate h (q # c # m # qs)"
  "separate h (c # m # q # qs) \<Longrightarrow> separate h (c # m # qs)"
  "separate h (q # c # qs) \<Longrightarrow> separate h (c # q # qs)"
  by (auto simp: separate_def)

section \<open>The refinement\<close>

definition stored :: "dec_store \<Rightarrow> Resources_ref \<Rightarrow> (string \<times> Quantity_ref) list \<Rightarrow> bool" where
  "stored h r rest \<longleftrightarrow>
     (\<exists>c m. Primary_ref r ResourceCPU = Some c \<and> Primary_ref r ResourceMemory = Some m \<and>
        separate h (c # m # map snd rest)) \<and>
     (\<forall>n q. Primary_ref r n = Some q \<longrightarrow> n \<notin> {ResourceCPU, ResourceMemory} \<longrightarrow> rd q = None)"

lemma names_differ: "ResourceCPU \<noteq> ResourceMemory" "ResourceNvidiaGPU \<notin> {ResourceCPU, ResourceMemory}"
  by (simp_all add: ResourceCPU_def ResourceMemory_def ResourceNvidiaGPU_def)

lemma load_other: "rd q = None \<Longrightarrow> load h q = load h' q"
  by (simp add: load_def)

lemma add_primary_stored:
  assumes "stored h r ((n, q) # rest)" and "name \<in> {ResourceCPU, ResourceMemory}"
    and "add_primary name format q (r, h) = (r', h')"
  shows "stored h' r' rest \<and> (\<forall>x \<in> set rest. load h' (snd x) = load h (snd x)) \<and>
    load_resources h' r' = (load_resources h r)\<lparr>PrimaryResources := (PrimaryResources (load_resources h r))
      (name \<mapsto> Quantity_Add (load h q) (list_quantity (PrimaryResources (load_resources h r)) name format))\<rparr>"
proof -
  obtain c m where cm: "Primary_ref r ResourceCPU = Some c" "Primary_ref r ResourceMemory = Some m"
    and sep: "separate h (c # m # q # map snd rest)"
    and other: "\<And>n q. Primary_ref r n = Some q \<Longrightarrow> n \<notin> {ResourceCPU, ResourceMemory} \<Longrightarrow> rd q = None"
    using assms(1) unfolding stored_def by auto
  define old where "old = (if name = ResourceCPU then c else m)"
  define kept where "kept = (if name = ResourceCPU then m else c)"
  have old: "Primary_ref r name = Some old"
    using assms(2) cm by (auto simp: old_def)
  obtain q' where add: "Add_ref q old h = (q', h')" and r': "r' = r\<lparr>Primary_ref := (Primary_ref r)(name \<mapsto> q')\<rparr>"
    using assms(3) old by (auto simp: add_primary_def list_ref_def split: prod.splits)
  have "separate h (q # old # kept # map snd rest)"
    using separate_orders(1,2) [OF sep] by (simp add: old_def kept_def)
  note s = separate_add [OF this add]
  have st: "stored h' r' rest"
    using s(1) separate_orders(4) [OF s(1)] assms(2) cm other names_differ(1)
    by (auto simp: stored_def r' kept_def split: if_splits)
  have "load h' p = load h p" if "Primary_ref r n = Some p" "n \<noteq> name" for n p
    using that s(2) cm other [OF that(1)] load_other [of p h h'] assms(2)
    by (cases "n \<in> {ResourceCPU, ResourceMemory}") (auto simp: kept_def split: if_splits)
  then have "load_resources h' r' = (load_resources h r)\<lparr>PrimaryResources := (PrimaryResources (load_resources h r))
      (name \<mapsto> Quantity_Add (load h q) (list_quantity (PrimaryResources (load_resources h r)) name format))\<rparr>"
    using s(3) old by (auto simp: load_resources_def r' list_quantity_def fun_eq_iff option.map_sel intro!: option.map_cong0)
  with st s(2) show ?thesis by simp
qed

lemma stored_skip: "stored h r (x # rest) \<Longrightarrow> stored h r rest"
  using separate_orders(3) by (auto simp: stored_def)

lemma add_request_stored:
  assumes "stored h r (x # rest)" and "add_request_ref x (r, h) = (r', h')"
  shows "stored h' r' rest \<and> (\<forall>y \<in> set rest. load h' (snd y) = load h (snd y)) \<and>
    load_resources h' r' = add_request (apsnd (load h) x) (load_resources h r)"
proof -
  obtain n q where x: "x = (n, q)" by force
  consider (memory) "n = ResourceMemory" "add_primary ResourceMemory BinarySI q (r, h) = (r', h')"
    | (cpu) "n = ResourceCPU" "n \<noteq> ResourceMemory" "add_primary ResourceCPU DecimalSI q (r, h) = (r', h')"
    | (rest) "n \<notin> {ResourceCPU, ResourceMemory}"
    using assms(2) names_differ(1) by (auto simp: add_request_ref_def x split: if_splits)
  then show ?thesis
  proof cases
    case rest
    have "h' = h" "Primary_ref r' = Primary_ref r"
      "load_resources h' r' = add_request (apsnd (load h) x) (load_resources h r)"
      using assms(2) rest
      by (auto simp: add_request_ref_def add_request_def x load_resources_def Let_def split: if_splits)
    moreover have "stored h r rest"
      using assms(1) by (rule stored_skip)
    ultimately show ?thesis
      by (simp add: stored_def)
  next
    case memory
    from add_primary_stored [OF assms(1) [unfolded x] _ this(2)] this(1) show ?thesis
      by (simp add: x add_request_def Let_def)
  next
    case cpu
    from add_primary_stored [OF assms(1) [unfolded x] _ this(3)] this(1,2) show ?thesis
      by (simp add: x add_request_def Let_def)
  qed
qed

lemma fold_stored:
  "stored h r (xs @ ys) \<Longrightarrow> fold add_request_ref xs (r, h) = (r', h') \<Longrightarrow>
     stored h' r' ys \<and> (\<forall>y \<in> set ys. load h' (snd y) = load h (snd y)) \<and>
     load_resources h' r' = fold add_request (map (apsnd (load h)) xs) (load_resources h r)"
proof (induction xs arbitrary: r h)
  case (Cons x xs)
  obtain r1 h1 where step: "add_request_ref x (r, h) = (r1, h1)" by force
  have s: "stored h1 r1 (xs @ ys)" "\<forall>y \<in> set (xs @ ys). load h1 (snd y) = load h (snd y)"
    "load_resources h1 r1 = add_request (apsnd (load h) x) (load_resources h r)"
    using add_request_stored [of h r x "xs @ ys", OF _ step] Cons.prems(1) by auto
  have e: "map (apsnd (load h1)) xs = map (apsnd (load h)) xs"
    using s(2) by (auto simp: prod_eq_iff)
  have "fold add_request_ref xs (r1, h1) = (r', h')"
    using Cons.prems(2) step by simp
  from Cons.IH [OF s(1) this] s(2,3) e show ?case
    by simp
qed simp

lemma fold_add_request_stored:
  "stored h r rest \<Longrightarrow> fold add_request_ref rest (r, h) = (r', h') \<Longrightarrow>
     load_resources h' r' = fold add_request (map (apsnd (load h)) rest) (load_resources h r)"
  using fold_stored [of h r rest "[]"] by simp

lemma getResourceRequest_ref_fold:
  "getResourceRequest_ref containers h = fold add_request_ref (concat containers) (initial_ref, h)"
proof -
  have "fold (fold add_request_ref) cs rh = fold add_request_ref (concat cs) rh" for cs rh
    by (induction cs arbitrary: rh) simp_all
  then show ?thesis
    by (simp add: getResourceRequest_ref_def)
qed

lemma initial_stored:
  "separate h (map snd rest) \<Longrightarrow> stored h initial_ref rest"
  "load_resources h initial_ref = initial_resources"
  by (auto simp: stored_def initial_ref_def separate_def in_store_def addr_def new_ref_def
      load_resources_def initial_resources_def NewQuantity_def NewMilliQuantity_def load_def fun_eq_iff
      split: if_splits)

text \<open>C35: On the pointers of Go, where the additions write into the decimals of the pod, the resources of
  a pod are those that the computation on values gives, as long as no two of its requests share a decimal.\<close>

theorem resource_request_refines:
  assumes "map Requests (Containers (Spec pod)) = map (map (apsnd (load h))) containers"
    and "separate h (map snd (concat containers))"
    and "getResourceRequest_ref containers h = (r, h')"
  shows "load_resources h' r = getResourceRequest pod"
proof -
  have "all_requests pod = map (apsnd (load h)) (concat containers)"
    using assms(1) by (simp add: all_requests_def map_concat)
  then show ?thesis
    using fold_add_request_stored [OF initial_stored(1) [OF assms(2)]] assms(3) initial_stored(2)
    by (simp add: getResourceRequest_ref_fold getResourceRequest_fold)
qed

text \<open>A pod with two containers that want 1.5Gi of memory each, a quantity that is kept as a decimal.\<close>

definition half_gi :: Dec where
  "half_gi = \<lparr>unscaled = 15 * 2 ^ 30 * 10 ^ 8, dscale = 9\<rparr>"

definition two_containers :: "(string \<times> Quantity_ref) list list" where
  "two_containers = map (\<lambda>a. [(''memory'', \<lparr>ri = \<lparr>ivalue = 0, iscale = 0\<rparr>, rd = Some a, rFormat = BinarySI\<rparr>)]) [0, 1]"

theorem resource_request_refines_witness:
  "load_resources (snd (getResourceRequest_ref two_containers [half_gi, half_gi]))
     (fst (getResourceRequest_ref two_containers [half_gi, half_gi])) =
   getResourceRequest ((bound_to [])\<lparr>Spec := (Spec (bound_to []))\<lparr>Containers :=
     map (\<lambda>c. c\<lparr>Requests := [(''memory'', \<lparr>qi = \<lparr>ivalue = 0, iscale = 0\<rparr>, qd = Some half_gi, Format = BinarySI\<rparr>)]\<rparr>)
       (Containers (Spec (bound_to [])))\<rparr>\<rparr>)"
  by (rule resource_request_refines [where containers = two_containers and h = "[half_gi, half_gi]"])
    (simp_all add: bound_to_def two_containers_def load_def separate_def in_store_def addr_def)

lemma half_gi_text:
  "ParseQuantity ''1.5Gi'' = Inr \<lparr>qi = \<lparr>ivalue = 0, iscale = 0\<rparr>,
     qd = Some \<lparr>unscaled = 15 * 2 ^ 30 * 10 ^ 8, dscale = 9\<rparr>, Format = BinarySI\<rparr>"
  by code_simp

section \<open>What is left in the pod\<close>

text \<open>What happens to the decimal of a request: it takes the sum, and no later request writes to it.\<close>

lemma Add_ref_rd:
  assumes "Add_ref q y h = (q', h')" and "rd q = Some a"
  shows "rd q' = Some a"
proof -
  define q2 where "q2 = (if Quantity_IsZero (load h q) then q\<lparr>rFormat := rFormat y\<rparr> else q)"
  have "Add_slow q2 y h = (q', h')" "rd q2 = Some a"
    using assms by (simp_all add: Add_ref_def q2_def)
  then show ?thesis
    by (auto simp: Add_slow_def ToDec_ref_def)
qed

lemma qval_decimal: "rd q = Some a \<Longrightarrow> rd q' = Some a \<Longrightarrow> qval (load h q) = qval (load h q')"
  by (simp add: qval_def)

lemma stored_primary:
  assumes "stored h r ((n, q) # rest)" and "name \<in> {ResourceCPU, ResourceMemory}"
  obtains old where "Primary_ref r name = Some old" "in_store h old" "in_store h q"
proof -
  obtain c m where cm: "Primary_ref r ResourceCPU = Some c" "Primary_ref r ResourceMemory = Some m"
    and "separate h (c # m # q # map snd rest)"
    using assms(1) unfolding stored_def by auto
  then have "in_store h c" "in_store h m" "in_store h q"
    by (simp_all add: separate_def)
  with cm assms(2) that show thesis by auto
qed

lemma add_request_cases:
  assumes "add_request_ref (n, q) (r, h) = (r', h')"
  obtains (primary) format where "n \<in> {ResourceCPU, ResourceMemory}" "add_primary n format q (r, h) = (r', h')"
    | (other) "n \<notin> {ResourceCPU, ResourceMemory}" "h' = h"
  using assms names_differ(1)
  by (auto simp: add_request_ref_def Let_def split: if_splits intro: primary other)

lemma fold_keeps:
  "stored h r rest \<Longrightarrow> fold add_request_ref rest (r, h) = (r', h') \<Longrightarrow> in_store h q \<Longrightarrow>
     \<forall>x \<in> set rest. set (addr (snd x)) \<inter> set (addr q) = {} \<Longrightarrow> load h' q = load h q \<and> length h \<le> length h'"
proof (induction rest arbitrary: r h)
  case (Cons x rest)
  obtain n p where x: "x = (n, p)" by force
  obtain r1 h1 where step: "add_request_ref x (r, h) = (r1, h1)" by force
  note s = add_request_stored [OF Cons.prems(1) step]
  have "load h1 q = load h q \<and> length h \<le> length h1"
    using step [unfolded x]
  proof (cases rule: add_request_cases)
    case (primary format)
    obtain old where old: "Primary_ref r n = Some old" "in_store h old" "in_store h p"
      using stored_primary [OF Cons.prems(1) [unfolded x] primary(1)] .
    then obtain p' where add: "Add_ref p old h = (p', h1)"
      using primary(2) by (auto simp: add_primary_def list_ref_def split: prod.splits)
    have "set (addr q) \<inter> set (addr p) = {}"
      using Cons.prems(4) by (auto simp: x)
    then show ?thesis
      using Add_ref_load(2,5) [OF add old(3,2)] Cons.prems(3) by blast
  qed simp
  moreover from this have "in_store h1 q"
    using Cons.prems(3) by (auto simp: in_store_def)
  moreover have "fold add_request_ref rest (r1, h1) = (r', h')"
    using Cons.prems(2) step by simp
  ultimately show ?case
    using Cons.IH [of h1 r1] s Cons.prems(4) by auto
qed simp

lemma getResourceRequest_ref_store:
  assumes "separate h (map snd (concat containers))" and "getResourceRequest_ref containers h = (r, h')"
  shows "length h \<le> length h'" and "separate h' (map snd (concat containers))"
proof -
  have "in_store h (new_ref 0 0 [])" "addr (new_ref 0 0 []) = []"
    by (simp_all add: in_store_def addr_def new_ref_def)
  then show len: "length h \<le> length h'"
    using fold_keeps [OF initial_stored(1) [OF assms(1)], of r h' "new_ref 0 0 []"] assms(2)
    by (simp add: getResourceRequest_ref_fold)
  then show "separate h' (map snd (concat containers))"
    using assms(1) by (fastforce simp: separate_def in_store_def)
qed

lemma initial_amount: "amount_of initial_resources name = 0" if "name \<in> {ResourceCPU, ResourceMemory}"
  using that by (auto simp: initial_resources_def NewQuantity_def NewMilliQuantity_def qval_def aval_def)

lemma getResourceRequest_ref_effect:
  assumes "separate h (map snd (concat containers))"
    and "list_all (\<lambda>x. quantity_ok (load h (snd x))) (concat containers)"
    and "getResourceRequest_ref containers h = (r, h')"
    and "concat containers = before @ (name, q) # after" and "name \<in> {ResourceCPU, ResourceMemory}"
  shows "qval (load h' q) =
    qval (load h q) + (if rd q = None then 0 else requested name (map (apsnd (load h)) before))"
proof (cases "rd q")
  case None
  then show ?thesis
    by (simp add: load_other [of q h' h])
next
  case (Some a)
  have st: "stored h initial_ref (before @ (name, q) # after)"
    using initial_stored(1) [OF assms(1)] by (simp only: assms(4))
  obtain r1 h1 where b: "fold add_request_ref before (initial_ref, h) = (r1, h1)" by force
  obtain r2 h2 where step: "add_request_ref (name, q) (r1, h1) = (r2, h2)" by force
  have rest: "fold add_request_ref after (r2, h2) = (r, h')"
    using assms(3) b step by (simp add: getResourceRequest_ref_fold assms(4))
  note s1 = fold_stored [OF st b]
  from s1 have st1: "stored h1 r1 ((name, q) # after)" and q1: "load h1 q = load h q"
    by simp_all
  have st2: "stored h2 r2 after"
    using add_request_stored [OF st1 step] by blast
  obtain format where prim: "add_primary name format q (r1, h1) = (r2, h2)"
    using step assms(5) by (cases rule: add_request_cases) auto
  obtain old where old: "Primary_ref r1 name = Some old" "in_store h1 old" "in_store h1 q"
    using stored_primary [OF st1 assms(5)] .
  then obtain q' where add: "Add_ref q old h1 = (q', h2)"
    using prim by (auto simp: add_primary_def list_ref_def split: prod.splits)
  note a = Add_ref_load [OF add old(3,2)]
  have rd': "rd q' = Some a"
    by (rule Add_ref_rd [OF add Some])
  have ok: "\<forall>(n, y) \<in> set (map (apsnd (load h)) before). quantity_ok y" "quantity_ok (load h q)"
    using assms(2) by (force simp: list_all_iff assms(4))+
  have "resources_ok initial_resources"
    by (rule resources_ok_initial)
  from fold_add_request [OF this ok(1) assms(5)]
  have sums: "resources_ok (load_resources h1 r1)"
    "amount_of (load_resources h1 r1) name = amount_of initial_resources name + requested name (map (apsnd (load h)) before)"
    using s1 initial_stored(2) by simp_all
  have "PrimaryResources (load_resources h1 r1) name = Some (load h1 old)"
    by (simp add: load_resources_def old(1))
  with sums assms(5) have "quantity_ok (load h1 old)" "qval (load h1 old) = requested name (map (apsnd (load h)) before)"
    using initial_amount [OF assms(5)] by (auto simp: resources_ok_def)
  moreover have "qval (load h2 q') = qval (load h1 q) + qval (load h1 old)"
    using a(1) Quantity_Add_exact [of "load h1 q" "load h1 old"] ok(2) q1 \<open>quantity_ok (load h1 old)\<close> by simp
  moreover have "load h' q = load h2 q \<and> length h2 \<le> length h'"
  proof (rule fold_keeps [OF st2 rest])
    show "in_store h2 q"
      using old(3) a(2) by (auto simp: in_store_def)
    show "\<forall>x \<in> set after. set (addr (snd x)) \<inter> set (addr q) = {}"
      using assms(1) by (fastforce simp: assms(4) separate_def)
  qed
  moreover have "qval (load h2 q) = qval (load h2 q')"
    by (rule qval_decimal [OF Some rd'])
  ultimately show ?thesis
    by (simp add: Some q1)
qed

lemma load_ok: "quantity_ok (load h' q) = quantity_ok (load h q)"
  by (simp add: quantity_ok_def)

lemma getResourceRequest_ref_amount:
  assumes "separate h (map snd (concat containers))"
    and "list_all (\<lambda>x. quantity_ok (load h (snd x))) (concat containers)"
    and "getResourceRequest_ref containers h = (r, h')" and "name \<in> {ResourceCPU, ResourceMemory}"
  shows "amount_of (load_resources h' r) name = requested name (map (apsnd (load h)) (concat containers))"
proof -
  have "\<forall>(n, y) \<in> set (map (apsnd (load h)) (concat containers)). quantity_ok y"
    using assms(2) by (fastforce simp: list_all_iff)
  from fold_add_request [OF resources_ok_initial this assms(4)] show ?thesis
    using fold_add_request_stored [OF initial_stored(1) [OF assms(1)]] assms(3) initial_stored(2)
      initial_amount [OF assms(4)] by (simp add: getResourceRequest_ref_fold)
qed

lemma requested_Cons: "requested name (x # xs) = (if fst x = name then qval (snd x) else 0) + requested name xs"
  by (simp add: requested_def case_prod_unfold)

lemma requested_mono:
  "\<forall>x \<in> set xs. fst x = name \<longrightarrow> qval (f (snd x)) \<le> qval (g (snd x)) \<Longrightarrow>
     requested name (map (apsnd f) xs) \<le> requested name (map (apsnd g) xs)"
proof (induction xs)
  case (Cons x xs)
  then have "requested name (map (apsnd f) xs) \<le> requested name (map (apsnd g) xs)"
    by simp
  with Cons.prems show ?case
    by (auto simp: requested_Cons intro!: add_mono)
qed (simp add: requested_def)

lemma requested_nonneg: "\<forall>x \<in> set xs. 0 \<le> qval (snd x) \<Longrightarrow> 0 \<le> requested name xs"
proof (induction xs)
  case (Cons x xs)
  then have "0 \<le> requested name xs" "0 \<le> qval (snd x)"
    by simp_all
  then show ?case
    by (simp add: requested_Cons)
qed (simp add: requested_def)

text \<open>C36: But the pod is not left as it was. For requests that share no decimal and are not negative: a request of cpu or
  memory that is kept as a decimal at \<open>a\<close> reads afterwards as its own amount plus those of the earlier
  requests of the same resource, and asking again for the resources of the pod gives at least that much more.\<close>

theorem resource_request_changes_pod:
  assumes "separate h (map snd (concat containers))"
    and "list_all (\<lambda>x. quantity_ok (load h (snd x)) \<and> 0 \<le> qval (load h (snd x))) (concat containers)"
    and "concat containers = before @ (name, q) # after" and "name \<in> {ResourceCPU, ResourceMemory}" and "rd q = Some a"
    and "getResourceRequest_ref containers h = (r1, h1)" and "getResourceRequest_ref containers h1 = (r2, h2)"
  defines "earlier \<equiv> requested name (map (apsnd (load h)) before)"
  shows "dval (h1 ! a) = dval (h ! a) + earlier \<and>
    amount_of (load_resources h1 r1) name + earlier \<le> amount_of (load_resources h2 r2) name"
proof -
  have ok: "list_all (\<lambda>x. quantity_ok (load h (snd x))) (concat containers)"
    using assms(2) by (simp add: list_all_iff)
  then have ok1: "list_all (\<lambda>x. quantity_ok (load h1 (snd x))) (concat containers)"
    by (simp add: list_all_iff load_ok [of h1 _ h])
  note effect = getResourceRequest_ref_effect [OF assms(1) ok assms(6) _ assms(4)]
  have q: "qval (load h1 q) = qval (load h q) + earlier"
    using effect [OF assms(3)] assms(5) by (simp add: earlier_def)
  have grows: "qval (load h p) \<le> qval (load h1 p)" if "(name, p) \<in> set (concat containers)" for p
  proof -
    from split_list [OF that] obtain xs ys where split: "concat containers = xs @ (name, p) # ys"
      by blast
    have "0 \<le> requested name (map (apsnd (load h)) xs)"
      using assms(2) by (intro requested_nonneg) (simp add: list_all_iff split)
    then show ?thesis
      using effect [OF split] by (simp split: if_splits)
  qed
  have "requested name (map (apsnd (load h)) xs) \<le> requested name (map (apsnd (load h1)) xs)"
    if "set xs \<subseteq> set (concat containers)" for xs
    using that grows by (intro requested_mono) (auto simp: subset_iff)
  moreover have "set before \<subseteq> set (concat containers)" "set after \<subseteq> set (concat containers)"
    unfolding assms(3) by auto
  ultimately have "requested name (map (apsnd (load h)) before) \<le> requested name (map (apsnd (load h1)) before)"
    "requested name (map (apsnd (load h)) after) \<le> requested name (map (apsnd (load h1)) after)"
    by blast+
  then have
    "requested name (map (apsnd (load h)) (concat containers)) + earlier \<le> requested name (map (apsnd (load h1)) (concat containers))"
    using q by (simp add: assms(3) requested_append requested_Cons)
  moreover have "amount_of (load_resources h1 r1) name = requested name (map (apsnd (load h)) (concat containers))"
    by (rule getResourceRequest_ref_amount [OF assms(1) ok assms(6,4)])
  moreover have "amount_of (load_resources h2 r2) name = requested name (map (apsnd (load h1)) (concat containers))"
    by (rule getResourceRequest_ref_amount [OF getResourceRequest_ref_store(2) [OF assms(1,6)] ok1 assms(7,4)])
  ultimately show ?thesis
    using q assms(5) by (simp add: qval_def)
qed

text \<open>With two containers that request 1.5Gi of memory, the second request reads 3Gi afterwards, and the second
  answer is at least 4.5Gi instead of 3Gi.\<close>

lemma two_containers_ok:
  "separate [half_gi, half_gi] (map snd (concat two_containers))"
  "list_all (\<lambda>x. quantity_ok (load [half_gi, half_gi] (snd x)) \<and> 0 \<le> qval (load [half_gi, half_gi] (snd x)))
     (concat two_containers)"
  "requested ResourceMemory (map (apsnd (load [half_gi, half_gi])) [hd (concat two_containers)]) = 3 / 2 * 2 ^ 30"
  "dval half_gi = 3 / 2 * 2 ^ 30"
  by (simp_all add: two_containers_def separate_def in_store_def addr_def quantity_ok_def int64_def qval_def dval_def
      half_gi_def requested_def ResourceMemory_def power_int_minus)

theorem resource_request_changes_pod_witness:
  "case getResourceRequest_ref two_containers [half_gi, half_gi] of (r1, h1) \<Rightarrow>
   case getResourceRequest_ref two_containers h1 of (r2, h2) \<Rightarrow>
     dval (h1 ! 1) = 3 * 2 ^ 30 \<and>
     amount_of (load_resources h1 r1) ResourceMemory + 3 / 2 * 2 ^ 30 \<le> amount_of (load_resources h2 r2) ResourceMemory"
proof -
  obtain r1 h1 where 1: "getResourceRequest_ref two_containers [half_gi, half_gi] = (r1, h1)" by force
  obtain r2 h2 where 2: "getResourceRequest_ref two_containers h1 = (r2, h2)" by force
  have "concat two_containers = [hd (concat two_containers)] @
      (ResourceMemory, \<lparr>ri = \<lparr>ivalue = 0, iscale = 0\<rparr>, rd = Some 1, rFormat = BinarySI\<rparr>) # []"
    by (simp add: two_containers_def ResourceMemory_def)
  from resource_request_changes_pod [OF two_containers_ok(1,2) this _ _ 1 2] have
    "dval (h1 ! 1) = dval half_gi + 3 / 2 * 2 ^ 30"
    "amount_of (load_resources h1 r1) ResourceMemory + 3 / 2 * 2 ^ 30 \<le> amount_of (load_resources h2 r2) ResourceMemory"
    unfolding two_containers_ok(3) by simp_all
  then show ?thesis
    by (simp add: 1 2 two_containers_ok(4))
qed

end
