(* ===== verification/Recorder.thy ===== *)
theory Recorder
  imports Prelude
begin

text \<open>
  \<open>pkg/framework/record/recorder.go\<close>: an event recorder that writes every event to a channel. A channel
  of Go with a buffer is its buffer, its capacity and the queue of the goroutines parked in a send, with what
  each sends: a send parks when the buffer is full, and a receive that makes room completes the send that waits
  longest. A nil channel is \<open>None\<close>, and \<open>make\<close> panics for a negative size. The text of \<open>Eventf\<close> is that of
  \<open>fmt.Sprintf\<close>, an argument.
\<close>

section \<open>The recorder\<close>

record event =
  Eventtype :: string
  EventReason :: string
  EventMessage :: string

record event_chan =
  buffer :: "event list"
  buffer_size :: nat
  waiting :: "event list"

record recorder =
  Events :: "event_chan option"

definition NewRecorder :: "int \<Rightarrow> panic + recorder" where
  "NewRecorder bufferSize =
     (if bufferSize < 0 then Inl Makechan_size_out_of_range
      else Inr \<lparr>Events = Some \<lparr>buffer = [], buffer_size = nat bufferSize, waiting = []\<rparr>\<rparr>)"

definition send :: "event \<Rightarrow> event_chan \<Rightarrow> event_chan" where
  "send e ch =
     (if length (buffer ch) < buffer_size ch then ch\<lparr>buffer := buffer ch @ [e]\<rparr>
      else ch\<lparr>waiting := waiting ch @ [e]\<rparr>)"

definition receive :: "event_chan \<Rightarrow> (event \<times> event_chan) option" where
  "receive ch =
     (case buffer ch @ waiting ch of
        [] \<Rightarrow> None
      | e # es \<Rightarrow>
          Some (e, ch\<lparr>buffer := take (buffer_size ch) es, waiting := drop (buffer_size ch) es\<rparr>))"

definition Event :: "string \<Rightarrow> string \<Rightarrow> string \<Rightarrow> recorder \<Rightarrow> recorder" where
  "Event eventtype reason message r =
     (case Events r of None \<Rightarrow> r
      | Some ch \<Rightarrow> r\<lparr>Events := Some (send \<lparr>Eventtype = eventtype, EventReason = reason, EventMessage = message\<rparr> ch)\<rparr>)"

definition Eventf ::
    "(string \<Rightarrow> 'arg list \<Rightarrow> string) \<Rightarrow> string \<Rightarrow> string \<Rightarrow> string \<Rightarrow> 'arg list \<Rightarrow> recorder \<Rightarrow> recorder" where
  "Eventf Sprintf eventtype reason note args r =
     (case Events r of None \<Rightarrow> r
      | Some ch \<Rightarrow> r\<lparr>Events := Some (send \<lparr>Eventtype = eventtype, EventReason = reason,
          EventMessage = Sprintf note args\<rparr> ch)\<rparr>)"

definition PastEventf :: "recorder \<Rightarrow> recorder" where
  "PastEventf r = r"

definition AnnotatedEventf :: "recorder \<Rightarrow> recorder" where
  "AnnotatedEventf r = r"

section \<open>Its runs\<close>

text \<open>A run with the events written so far and the events received so far.\<close>

inductive recorder_step ::
    "recorder \<times> event list \<times> event list \<Rightarrow> recorder \<times> event list \<times> event list \<Rightarrow> bool" where
  written: "recorder_step (r, ws, rs)
     (Event t reason m r, ws @ [\<lparr>Eventtype = t, EventReason = reason, EventMessage = m\<rparr>], rs)"
| formatted: "recorder_step (r, ws, rs)
     (Eventf Sprintf t reason note (args :: string list) r,
      ws @ [\<lparr>Eventtype = t, EventReason = reason, EventMessage = Sprintf note args\<rparr>], rs)"
| past: "recorder_step (r, ws, rs) (PastEventf r, ws, rs)"
| annotated: "recorder_step (r, ws, rs) (AnnotatedEventf r, ws, rs)"
| received: "Events r = Some ch \<Longrightarrow> receive ch = Some (e, ch') \<Longrightarrow>
     recorder_step (r, ws, rs) (r\<lparr>Events := Some ch'\<rparr>, ws, rs @ [e])"

inductive_cases recorder_stepE: "recorder_step (r, ws, rs) s"

definition channel_ok :: "event_chan \<Rightarrow> bool" where
  "channel_ok ch \<longleftrightarrow> length (buffer ch) \<le> buffer_size ch \<and> (waiting ch \<noteq> [] \<longrightarrow> length (buffer ch) = buffer_size ch)"

lemma send_ok: "channel_ok ch \<Longrightarrow> channel_ok (send e ch) \<and> buffer_size (send e ch) = buffer_size ch \<and>
    buffer (send e ch) @ waiting (send e ch) = buffer ch @ waiting ch @ [e]"
  by (auto simp: channel_ok_def send_def)

lemma receive_ok: "receive ch = Some (e, ch') \<Longrightarrow> channel_ok ch' \<and> buffer_size ch' = buffer_size ch \<and>
    buffer ch @ waiting ch = e # buffer ch' @ waiting ch'"
  by (auto simp: channel_ok_def receive_def min_def split: list.splits)

definition queue_invariant :: "nat \<Rightarrow> recorder \<times> event list \<times> event list \<Rightarrow> bool" where
  "queue_invariant n = (\<lambda>(r, ws, rs). \<exists>ch. Events r = Some ch \<and> channel_ok ch \<and> buffer_size ch = n \<and>
     ws = rs @ buffer ch @ waiting ch)"

lemma queue_invariant_step: "queue_invariant n s \<Longrightarrow> recorder_step s s' \<Longrightarrow> queue_invariant n s'"
proof (cases s)
  fix r ws rs
  assume s: "s = (r, ws, rs)" and inv: "queue_invariant n s" and step: "recorder_step s s'"
  obtain ch where ch: "Events r = Some ch" "channel_ok ch" "buffer_size ch = n" "ws = rs @ buffer ch @ waiting ch"
    using inv by (auto simp: s queue_invariant_def)
  show ?thesis
    using step send_ok [OF ch(2)] receive_ok [of ch] ch unfolding s queue_invariant_def
    by (elim recorder_stepE) (fastforce simp: Event_def Eventf_def PastEventf_def AnnotatedEventf_def)+
qed

text \<open>C30:
  The recorder is a first-in first-out queue that loses nothing: in any interleaving of writers and readers of a
  recorder with a buffer of \<open>n\<close>, the events received are the first ones written, in order; those not
  received are in the buffer, which never holds more than \<open>n\<close>, or with a writer that is parked, and a writer is
  parked only while the buffer is full.\<close>

theorem recorder_queue:
  assumes "NewRecorder n = Inr r0" and "recorder_step\<^sup>*\<^sup>* (r0, [], []) (r, ws, rs)"
  shows "\<exists>ch. Events r = Some ch \<and> ws = rs @ buffer ch @ waiting ch \<and> length (buffer ch) \<le> nat n \<and>
    length (waiting ch) = length ws - length rs - nat n"
proof -
  have "queue_invariant (nat n) s" if "recorder_step\<^sup>*\<^sup>* (r0, [], []) s" for s
    using that
  proof (induction rule: rtranclp_induct)
    case base
    then show ?case
      using assms(1) by (auto simp: NewRecorder_def queue_invariant_def channel_ok_def split: if_splits)
  qed (rule queue_invariant_step)
  from this [OF assms(2)] show ?thesis
    by (fastforce simp: queue_invariant_def channel_ok_def)
qed

theorem recorder_queue_witness:
  "\<exists>r. recorder_step\<^sup>*\<^sup>* (projr (NewRecorder 1), [], [])
      (r, [\<lparr>Eventtype = ''a'', EventReason = [], EventMessage = []\<rparr>, \<lparr>Eventtype = ''b'', EventReason = [], EventMessage = []\<rparr>], []) \<and>
    (\<exists>ch. Events r = Some ch \<and> length (waiting ch) = 1)"
proof -
  let ?new = "projr (NewRecorder 1)" and ?e = "\<lambda>t. \<lparr>Eventtype = t, EventReason = [], EventMessage = []\<rparr>"
  let ?r = "Event ''b'' [] [] (Event ''a'' [] [] ?new)"
  have run: "recorder_step\<^sup>*\<^sup>* (?new, [], []) (?r, [?e ''a'', ?e ''b''], [])"
    using recorder_step.written [where r = ?new and ws = "[]" and rs = "[]" and t = "''a''" and reason = "[]" and m = "[]"]
      recorder_step.written [where r = "Event ''a'' [] [] ?new" and ws = "[?e ''a'']" and rs = "[]" and t = "''b''"
        and reason = "[]" and m = "[]"]
    by (auto intro: converse_rtranclp_into_rtranclp)
  moreover have "NewRecorder 1 = Inr ?new"
    by (simp add: NewRecorder_def)
  ultimately have "\<exists>ch. Events ?r = Some ch \<and> length (waiting ch) = 1"
    using recorder_queue [of 1 ?new ?r "[?e ''a'', ?e ''b'']" "[]"] by auto
  with run show ?thesis
    by blast
qed

end
