(* ===== verification/Spec2Isabelle.thy ===== *)
theory Spec2Isabelle
  imports Line_Properties Watch_Run Schedule_Results Bind_Plugins Report_Store Recorder
begin

text \<open>
  A model of cluster-capacity, the tool that answers how many more copies of a pod a Kubernetes
  cluster can take, with the theorems that make its answer correct.

  \<^bold>\<open>The program.\<close> \<open>cmd/cluster-capacity\<close> reads a pod specification, connects to a cluster, copies its
  objects into a fake API server and runs the real scheduler against it. A pod generator creates
  a copy of the pod; the scheduler binds it through the program's bind plugin, whose hook counts the
  pod and creates the next copy, or marks it unschedulable, which an informer handler turns into the
  stop of the analysis. The bound pods become a report, which is printed. \<open>cmd/genpod\<close> makes a
  pod specification from the limits of a namespace; \<open>cmd/hypercc\<close> is both commands in one binary.

  \<^bold>\<open>Theories and sources\<close> (paths under \<open>src/\<close>; \<open>vendor/k8s.io\<close> is left out of library paths):
  \<^item> \<open>Prelude\<close>, \<open>Go_Strings\<close>, \<open>Regex\<close>: panics, errors, wrap-around of \<open>int\<close> and \<open>int32\<close>, Go maps; package
    \<open>strings\<close> and the verbs of \<open>fmt\<close>; the regular expressions the program uses.
  \<^item> \<open>Objects\<close>: pods, nodes and the other objects as records of the fields the program touches.
  \<^item> \<open>Int64_Math\<close>, \<open>Quantity\<close>, \<open>Quantity_Text\<close>, \<open>Quantity_Parse\<close>: \<open>apimachinery/pkg/api/resource\<close> with
    \<open>gopkg.in/inf.v0\<close>. A quantity is a scaled 64-bit integer or a decimal; \<open>qval\<close> is the rational
    number it denotes, and \<open>Add\<close>, \<open>Cmp\<close>, \<open>Value\<close>, \<open>String\<close> and \<open>ParseQuantity\<close> are related to it.
  \<^item> \<open>Resource_Names\<close>, \<open>Node_Fit\<close>: the classification of resource names and the filter \<open>fitsRequest\<close> of
    the scheduler's plugin \<open>NodeResourcesFit\<close>. \<open>Pod_Requests\<close>: what that plugin takes a pod to request
    (\<open>component-helpers/resource/helpers.go\<close>), and how the request in the report relates to it. \<open>Node_Filters\<close>: the
    filters on the name of the node, cordoned and tainted nodes, node affinity and host ports, and how often a pod passes
    them all. \<open>Node_Affinity\<close>: node selectors and required node affinity
    (\<open>component-helpers/scheduling/corev1/nodeaffinity/nodeaffinity.go\<close>), and what their terms select.
  \<^item> \<open>Tracker\<close>: \<open>client-go/testing/fixture.go\<close>, the store behind the fake clientset with its log of
    watch events. The locale \<open>object_store\<close> states what its clients need of a store.
  \<^item> \<open>Pod_Generator\<close>: \<open>pkg/framework/podgenerator.go\<close>, behind the locale \<open>pod_generator\<close>.
  \<^item> \<open>Report\<close>, \<open>Report_Print\<close>: \<open>pkg/framework/report.go\<close>. \<open>Report_Store\<close>: \<open>getResourceRequest\<close> again, with the
    pointers of the quantities and a store of decimals, which the version on values abstracts.
  \<^item> \<open>Simulator\<close>: \<open>pkg/framework/simulator.go\<close> and \<open>plugins/clustercapacitybinder/plugin.go\<close>, one function per
    method or handler on the record \<open>ClusterCapacity\<close>. A send on the unbuffered channel \<open>stop\<close> parks
    the sender in \<open>senders\<close>; closing it while one is parked is a panic.
  \<^item> \<open>Sync\<close>, \<open>Sync_Start\<close>: \<open>SyncWithClient\<close>, the copying of the cluster, and the state it leaves.
  \<^item> \<open>Sim_Steps\<close>: the goroutines of an analysis (\<open>Run\<close>, the scheduler's bindings and status updates, the
    informer with the handler of \<open>createScheduler\<close>) as an inductive step relation \<open>sim_step\<close> on \<open>system\<close>;
    any interleaving is allowed. \<open>Sim_Exec\<close>: the same steps as a function, for concrete runs.
  \<^item> \<open>Sim_Control\<close>, \<open>Sim_Results\<close>, \<open>Sim_Liveness\<close>, \<open>Sim_Bound\<close>: the invariants of the reachable states and the
    weight that every step lowers.
  \<^item> \<open>Placement\<close>, \<open>Capacity\<close>: the abstract machine that places pods one after the other, the simulation of
    the analysis by it, and the number of pods a scheduler that follows its filters finds. \<open>Filtered_Capacity\<close>:
    that number for the filters of \<open>Node_Filters\<close> and the request computed from the template.
  \<^item> \<open>Run_Properties\<close>: the properties of a whole analysis. \<open>Sim_Shape\<close>: the well-formed states of any analysis.
    \<open>Run_Failures\<close>: what follows, in any analysis, where the assumptions of \<open>Run_Properties\<close> fail.
  \<^item> \<open>Watcher\<close>: the bounded channel of a watch (\<open>apimachinery/pkg/watch/watch.go\<close>), which \<open>Tracker\<close> and \<open>Sim_Steps\<close> leave
    unbounded, and \<open>SyncWithClient\<close> with it. \<open>Watch_Buffer\<close>: how many events an analysis writes, and when a buffer has room
    for them. \<open>Watch_Run\<close>: the steps of \<open>Sim_Steps\<close> with the bounded channel, as \<open>watched_step\<close>, and what can panic.
  \<^item> \<open>Labels\<close>, \<open>Nspod\<close>: label selectors, and \<open>pkg/client/nspod.go\<close>.
  \<^item> \<open>Sched_Config\<close>, \<open>Options\<close>, \<open>Version\<close>, \<open>Commands\<close>: \<open>pkg/utils/utils.go\<close>, the options of the commands with
    \<open>ParseAPISpec\<close>, \<open>pkg/version/version.go\<close>, and the commands themselves. What they ask of the outside
    world is a field of the record \<open>world\<close>.
  \<^item> \<open>Bind_Plugins\<close>: the registry of \<open>createScheduler\<close>, the bind plugins of a profile and the binding of a pod
    (\<open>framework/runtime/framework.go\<close>, \<open>schedule_one.go\<close> of the scheduler): that it is the program's plugin that binds.
  \<^item> \<open>Score_Heap\<close>, \<open>Schedule_One\<close>: one cycle of the scheduler for one pod (\<open>framework/sorted_nodes.go\<close>,
    \<open>schedule_one.go\<close>, \<open>framework/types.go\<close>): the search for nodes that pass the filters, by workers whose order is an
    argument, the node with the best score, and the text of a failure. \<open>Schedule_Search\<close>: what a cycle guarantees of
    every framework that meets the locale \<open>reliable_framework\<close>.
  \<^item> \<open>Schedule_Capacity\<close>, \<open>Schedule_Results\<close>: analyses in which each pod goes where a cycle sends it. \<open>Stop_Messages\<close>: the
    message of a failure on its way to the stop reason.
  \<^item> \<open>Flag_Values\<close>, \<open>Flags\<close>, \<open>Command_Line\<close>, \<open>Line_Properties\<close>: \<open>strconv\<close> and \<open>encoding/csv\<close> as the flags use them,
    the scanner of the vendored pflag, the flags of the two commands, what cobra does with a command line, and
    the mains of \<open>cmd/\<close>: from the arguments of a process to what it prints and its exit status.
  \<^item> \<open>Recorder\<close>: \<open>pkg/framework/record/recorder.go\<close>, which the rest of the program does not use.

  \<^bold>\<open>What is shown.\<close> For every interleaving, from a cluster whose pods are quiet (no pending pod, no name
  or condition the generator could clash with), when the scheduler gives a pod up once: the analysis can panic in one way
  only, when the channel of the watch is full, which needs about 10000 unread events; it ends within an
  explicit number of steps once only finitely many pods fit, \<open>Run\<close> then having returned unless a pod was given up for
  another reason than \<open>Unschedulable\<close>; it counts only copies of the template
  that sit on nodes of the copied cluster, keeps the limit, gives the reason it stopped, and refines the
  placement machine. A cycle of the scheduler sends a pod to a node that its filters accept, if there is one, and else fails
  with a text that counts the nodes for each reason; so the
  count is the sum of the rooms of the nodes or the limit, and the report quotes that text. The report conserves the counted pods
  and its amounts are the exact sums of the requests, also once printed and parsed again.
  The process prints that count and exits with 0. A command line means the list of its settings, in the ways of writing them that
  \<open>command_line_meaning\<close> names, and the options can be written and read back. Where the assumptions fail the code does not hold up: \<open>two_bindings_panic\<close>,
  \<open>second_failure_panics\<close>, \<open>lost_pod_hangs\<close> and \<open>stale_condition_stops\<close> say of every state in which a pod of the cluster waits
  for the scheduler too, a pod is given up twice, a name is taken or the template carries a stop condition, how the
  analysis goes wrong; the lemma \<open>foreign_pod_is_counted\<close> is a run that reports a pod of the cluster.

  \<^bold>\<open>Bounds.\<close> No definition has fuel. A \<open>perform_all\<close> takes the list of actions of a run; the loops of
  \<open>Int64_Math\<close> and \<open>Quantity_Text\<close> terminate by their measures. The parameter of \<open>sim_step\<close> says whether the
  scheduler may take up again a pod it has given up; the properties of a quiet cluster are those of \<open>False\<close>, those of
  \<open>Run_Failures\<close> and \<open>analysis_well_formed\<close> hold for both or say which. A run of \<open>Sim_Steps\<close> is one
  in which no watch channel was full; a full channel ends it with a panic (\<open>Watch_Run\<close>), and
  \<open>watch_buffer_suffices\<close> says how many pods exclude that. In \<open>Commands\<close> the simulation is a function that gives an
  error, a result or a panic; a \<open>Run\<close> that waits forever, as in \<open>lost_pod_hangs\<close>, is no outcome of it.

  \<^bold>\<open>Not modelled.\<close> The scheduler's filters on volumes, topology spread and the affinity of other pods, the values of its scores, its queues and
  the victims of preemption: they are free in the step relation and in the framework of a cycle, so that what holds of every
  choice holds of them. Of the plugins that restrict the nodes before the filters only \<open>NodeAffinity\<close>: \<open>NodeName\<close> does so for a
  pod that is assigned already, which the scheduler of an analysis never takes up. The status of
  running containers and dynamic resource allocation in the request of a pod.
  Resource versions, \<open>Patch\<close> (the scheduler's patch of a status is a tracker update, \<open>do_mark\<close>) and \<open>Delete\<close> of the clientset, the queue of the informer. The
  encoders of JSON and YAML and the text a quantity caches. The texts of usage, help and flag errors, and the
  commands cobra adds itself (\<open>help\<close>, \<open>completion\<close>). Strings are byte lists, and the texts the program cuts and quotes are
  taken to be ASCII.
\<close>

section \<open>The whole command\<close>

text \<open>
  The outcome of the simulator's method \<open>Run\<close> is that of a run of its goroutines: the state in which it returned nil,
  and the panic that ended one.
\<close>

definition simulation :: "(ClusterCapacity \<Rightarrow> panic + go_error option \<times> ClusterCapacity) \<Rightarrow> bool" where
  "simulation run \<longleftrightarrow> (\<forall>c c'. run c = Inr (None, c') \<longrightarrow>
     (\<exists>s. reachable False c s \<and> main s = Returned None \<and> cc s = c'))"

definition simulation_panics :: "(ClusterCapacity \<Rightarrow> panic + go_error option \<times> ClusterCapacity) \<Rightarrow> bool" where
  "simulation_panics run \<longleftrightarrow> (\<forall>c p. run c = Inl p \<longrightarrow>
     (\<exists>b. watched_reachable False c b \<and> crashed (sys b) = Some p))"

text \<open>A world in which the hypotheses hold: a cluster with one free node and an excluded one.\<close>

definition sample_run :: "ClusterCapacity \<Rightarrow> panic + go_error option \<times> ClusterCapacity" where
  "sample_run c =
     (case perform_all False full_run (initial_system c) of
        Some s \<Rightarrow> Inr (if main s = Returned None then (None, cc s) else (Some (Err ''no run''), c))
      | None \<Rightarrow> Inr (Some (Err ''no run''), c))"

lemma sample_run_simulation: "simulation sample_run" "simulation_panics sample_run"
  unfolding simulation_def simulation_panics_def sample_run_def
  by (auto split: option.splits if_splits dest!: perform_all_reachable)

definition sample_world :: world where
  "sample_world =
     \<lparr>CC_INCLUSTER = False, default_rules = Inr ''/home/.kube/config'', ReadFile = \<lambda>f. Inl (External f),
      decode_config = \<lambda>d. Inl (External d), validate_config = \<lambda>_. None,
      config_defaults = Inr \<lparr>APIVersion = [], Profiles = [], ConfigRest = []\<rparr>, ApplyTo = Inr,
      specs = sample_source\<lparr>decode_pod := \<lambda>_. Inr (small_pod ''p'' [] [])\<rparr>,
      LoadKubeconfig = \<lambda>_. Inr \<lparr>CurrentContext = ''c'', Contexts = [''c'' \<mapsto> ''k''], Clusters = [''k'' \<mapsto> ''https://k'']\<rparr>,
      BuildConfigFromFlags = \<lambda>master file. Inr master, InClusterConfig = Inl (External ''no cluster''),
      NewForConfig = \<lambda>_. None, dynamic_error = \<lambda>_. None, scheduler_error = \<lambda>_. None,
      snapshot = small_remote [], informers = \<lambda>_. Some (\<lambda>_. 1), simulate = sample_run, clock = 0,
      printing = \<lparr>json = \<lambda>_. Inr ''{}'', yaml = \<lambda>_. Inr ''{}''\<rparr>,
      get_namespace = \<lambda>n. Inl (Not_found n), list_limits = \<lambda>_. Inr [],
      map_order = [''memory'', ''cpu'', ''nvdia.com/gpu''], pod_encoder = \<lambda>_. None,
      built = \<lparr>build_version = ''v20200521-v0.18.0'', gitbranch = [], gitsha1 = [], buildDate = [],
        runtimeVersion = ''go1.24'', runtimeCompiler = ''gc'', goos = ''linux'', goarch = ''amd64''\<rparr>\<rparr>"

definition sample_options :: ClusterCapacityOptions where
  "sample_options = NewClusterCapacityOptions\<lparr>Kubeconfig := ''/home/.kube/config'', MaxLimit := 3,
     ExcludeNodes := [''n2''], PodSpecFile := ''pod.yaml''\<rparr>"

lemma sample_world_ok:
  "scoped (snapshot sample_world)" "quiet_snapshot (snapshot sample_world)" "simulation (simulate sample_world)"
  "OutputFormat sample_options = []" "\<not> Verbose sample_options" "int64 (MaxLimit sample_options)"
  "simulation_panics (simulate sample_world)"
  by (simp_all add: sample_world_def small_remote_scoped small_remote_quiet sample_run_simulation
      sample_options_def NewClusterCapacityOptions_def int64_def)

lemma sample_world_pod:
  "case ParseAPISpec (specs sample_world) sample_options DefaultSchedulerName of Inl _ \<Rightarrow> True | Inr pod \<Rightarrow> clean_template pod"
  by code_simp

text \<open>What \<open>Run\<close> prints in its terse form.\<close>

lemma command_prints_capacity:
  assumes "Run w opt = Inr (Inr out)" and "OutputFormat opt = []" and "\<not> Verbose opt"
    and "scoped (snapshot w)" and "quiet_snapshot (snapshot w)" and "int64 (MaxLimit opt)"
    and "simulation (simulate w)"
    and "case ParseAPISpec (specs w) opt DefaultSchedulerName of Inl _ \<Rightarrow> True | Inr pod \<Rightarrow> clean_template pod"
  shows "\<exists>pod c c0 s. ParseAPISpec (specs w) opt DefaultSchedulerName = Inr pod \<and>
    New None pod (MaxLimit opt) (ExcludeNodes opt) = Inr c \<and> SyncWithClient (snapshot w) c = (c0, None) \<and>
    reachable False c0 s \<and> main s = Returned None \<and>
    out = show_int (int (length (ScheduledPods (cc s)))) @ [newline] \<and>
    (0 < MaxLimit opt \<longrightarrow> int (length (ScheduledPods (cc s))) \<le> MaxLimit opt)"
proof -
  obtain cfg config pod review where pod: "ParseAPISpec (specs w) opt DefaultSchedulerName = Inr pod"
    and sim: "runSimulator w cfg config pod opt = Inr (Inr review)"
    and print: "ClusterCapacityReviewPrint (printing w) review (Verbose opt) (OutputFormat opt) = Inr out"
    using Run_result [OF assms(1)] .
  obtain c c0 c2 c3 where new: "New None pod (MaxLimit opt) (ExcludeNodes opt) = Inr c"
    and sync: "SyncWithClient (snapshot w) c = (c0, None)"
    and run: "simulate w c0 = Inr (None, c2)"
    and rep: "Report (clock w) c2 = Inr (c3, review)"
    using runSimulator_result [OF sim] .
  obtain s where s: "reachable False c0 s" "main s = Returned None" "cc s = c2"
    using assms(7) run unfolding simulation_def by blast
  have start: "start_ok c0"
    using synced_start [OF new sync assms(4,5) _ assms(6)] assms(8) pod by simp
  have c0: "report c0 = None" "maxSimulated c0 = MaxLimit opt"
    using sync New_eq [OF new] by (auto simp: SyncWithClient_def split: prod.splits)
  obtain x where x: "StatusPods (ReviewStatusOf review) = [x]"
    "instancesSum (ReplicasOnNodes x) = int (length (ScheduledPods (cc s)))"
    using finished_report [OF start c0(1) s(1,2), of "clock w"] rep s(3) by auto
  have "out = show_int (int (length (ScheduledPods (cc s)))) @ [newline]"
    using print assms(2,3) print_one_template [OF x(1)] x(2) by (simp add: ClusterCapacityReviewPrint_def)
  moreover have "0 < MaxLimit opt \<longrightarrow> int (length (ScheduledPods (cc s))) \<le> MaxLimit opt"
    using pods_below_limit [OF start s(1)] c0(2) by (simp add: ScheduledPods_def)
  ultimately show ?thesis
    using pod new sync s(1,2) by blast
qed

lemma validated_options:
  "Validate w opt = Inr opt' \<Longrightarrow> MaxLimit opt' = MaxLimit opt \<and>
     ParseAPISpec src opt' name = ParseAPISpec src opt name"
  by (auto simp: Validate_def ParseAPISpec_def split: if_splits sum.splits)

text \<open>C1:
  What the process \<open>cluster-capacity\<close> prints when it is called with flags that ask for the terse form, on a quiet
  cluster, and prints no error: the line with its version and one line with the number of pods that a run of
  the simulation from the copied cluster has bound, which is at most the limit when a limit is given; and
  its exit status is 0.\<close>

theorem process_prints_capacity:
  assumes "call_flags go g" and "list_all (fits g) ss" and "list_all (\<lambda>s. \<not> mentions_help s) ss"
    and "take 1 (command_words ss) \<notin> (\<lambda>x. [x]) ` set completion_commands"
    and "set_all g ss cluster_capacity_start = Inr v" and "\<not> help_requested v" and "cmd_options v = opt"
    and "OutputFormat opt = []" and "\<not> Verbose opt" and "int64 (MaxLimit opt)"
    and "scoped (snapshot w)" and "quiet_snapshot (snapshot w)" and "simulation (simulate w)"
    and "case ParseAPISpec (specs w) opt DefaultSchedulerName of Inl _ \<Rightarrow> True | Inr pod \<Rightarrow> clean_template pod"
    and "cluster_capacity_main w builtin go (written_all ss) = Inr (out, exit_code)"
    and "list_all (\<lambda>x. \<forall>e. x \<noteq> Written (Error_line e)) out"
  shows "exit_code = 0 \<and> (\<exists>pod c c0 s info. build_info (built w) = Inr info \<and>
    ParseAPISpec (specs w) opt DefaultSchedulerName = Inr pod \<and>
    New None pod (MaxLimit opt) (ExcludeNodes opt) = Inr c \<and> SyncWithClient (snapshot w) c = (c0, None) \<and>
    reachable False c0 s \<and> main s = Returned None \<and>
    out = [Written (Text (''Cluster capacity version '' @ show_info info @ nl)),
           Written (Text (show_int (int (length (ScheduledPods (cc s)))) @ [newline]))] \<and>
    (0 < MaxLimit opt \<longrightarrow> int (length (ScheduledPods (cc s))) \<le> MaxLimit opt))"
proof -
  have "NewClusterCapacityCommand go (written_all ss) = Inr (Called opt (arguments ss))"
    using run_settings [OF assms(1-4), of "[]"] assms(5-7) by simp
  then obtain ws where ws: "cluster_capacity_command w opt = Inr ws" "out = map Written ws" "exit_code = status_of ws"
    using assms(15) by (auto simp: cluster_capacity_main_def cmdExecute_def split: sum.splits)
  obtain opt' info printed where opt': "Validate w opt = Inr opt'" and run: "Run w opt' = Inr (Inr printed)"
    and info: "build_info (built w) = Inr info"
    and out: "ws = [Text (''Cluster capacity version '' @ show_info info @ nl), Text printed]"
    using ws(1) assms(16) by (auto simp: cluster_capacity_command_def ws(2) split: sum.splits)
  have same: "OutputFormat opt' = OutputFormat opt" "Verbose opt' = Verbose opt" "ExcludeNodes opt' = ExcludeNodes opt"
    "MaxLimit opt' = MaxLimit opt"
    "ParseAPISpec (specs w) opt' DefaultSchedulerName = ParseAPISpec (specs w) opt DefaultSchedulerName"
    using opt' validated_options [OF opt'] by (auto simp: Validate_def split: if_splits sum.splits)
  have "exit_code = 0"
    using ws(3) by (simp add: out status_of_def)
  have "\<exists>pod c c0 s. ParseAPISpec (specs w) opt DefaultSchedulerName = Inr pod \<and>
      New None pod (MaxLimit opt) (ExcludeNodes opt) = Inr c \<and> SyncWithClient (snapshot w) c = (c0, None) \<and>
      reachable False c0 s \<and> main s = Returned None \<and>
      printed = show_int (int (length (ScheduledPods (cc s)))) @ [newline] \<and>
      (0 < MaxLimit opt \<longrightarrow> int (length (ScheduledPods (cc s))) \<le> MaxLimit opt)"
    using command_prints_capacity [OF run, unfolded same] assms(8-14) by simp
  with info \<open>exit_code = 0\<close> show ?thesis
    unfolding ws(2) out by fastforce
qed

theorem process_prints_capacity_witness:
  "\<forall>builtin. \<exists>info c0 s. cluster_capacity_main sample_world builtin []
       [''--kubeconfig=/home/.kube/config'', ''--podspec=pod.yaml'', ''--max-limit=3'', ''--exclude-nodes=n2'',
        ''--default-config='', ''--verbose=false'', ''--output=''] =
     Inr ([Written (Text (''Cluster capacity version '' @ show_info info @ nl)), Written (Text (''1'' @ nl))], 0) \<and>
     reachable False c0 s \<and> main s = Returned None \<and> ''1'' @ nl = show_int (int (length (ScheduledPods (cc s)))) @ [newline]"
proof
  fix builtin :: "string \<Rightarrow> string list \<Rightarrow> int"
  have "show_nat 3 = ''3''"
    using digit_char_eq_iff [of 3 "CHR ''3''"] by (subst show_nat.simps) simp
  then have words: "written_all (line_of sample_options) = [''--kubeconfig=/home/.kube/config'', ''--podspec=pod.yaml'',
      ''--max-limit=3'', ''--exclude-nodes=n2'', ''--default-config='', ''--verbose=false'', ''--output='']"
    by (simp add: line_of_def written_all_def show_int_def sample_options_def NewClusterCapacityOptions_def)
  have opt: "int64 (MaxLimit sample_options)" "list_all csv_plain (ExcludeNodes sample_options)" "ExcludeNodes sample_options \<noteq> [[]]"
    by (simp_all add: sample_options_def NewClusterCapacityOptions_def int64_def csv_plain_def)
  note line = line_of_settings [OF call_sample_flags opt]
  obtain v where v: "set_all sample_flags (line_of sample_options) cluster_capacity_start = Inr v"
    "\<not> help_requested v" "cmd_options v = sample_options"
    using line(5) by blast
  obtain info where info: "cluster_capacity_command sample_world sample_options =
      Inr [Text (''Cluster capacity version '' @ show_info info @ nl), Text (''1'' @ nl)]"
  proof -
    have "Validate sample_world sample_options = Inr sample_options" "Run sample_world sample_options = Inr (Inr (''1'' @ nl))"
      by code_simp+
    moreover obtain info where "build_info (built sample_world) = Inr info"
      using splitVersion_total [of "build_version (built sample_world)"] by (auto simp: build_info_def Get_def)
    ultimately show ?thesis
      using that by (auto simp: cluster_capacity_command_def)
  qed
  have called: "NewClusterCapacityCommand [] (written_all (line_of sample_options)) = Inr (Called sample_options [])"
    using run_settings [OF call_sample_flags line(1,2,4), of "[]"] v line(3) by simp
  have main: "cluster_capacity_main sample_world builtin [] (written_all (line_of sample_options)) =
      Inr ([Written (Text (''Cluster capacity version '' @ show_info info @ nl)), Written (Text (''1'' @ nl))], 0)"
    using called info by (simp add: cluster_capacity_main_def cmdExecute_def status_of_def)
  show "\<exists>info c0 s. cluster_capacity_main sample_world builtin []
       [''--kubeconfig=/home/.kube/config'', ''--podspec=pod.yaml'', ''--max-limit=3'', ''--exclude-nodes=n2'',
        ''--default-config='', ''--verbose=false'', ''--output=''] =
     Inr ([Written (Text (''Cluster capacity version '' @ show_info info @ nl)), Written (Text (''1'' @ nl))], 0) \<and>
     reachable False c0 s \<and> main s = Returned None \<and> ''1'' @ nl = show_int (int (length (ScheduledPods (cc s)))) @ [newline]"
    using process_prints_capacity [OF call_sample_flags line(1,2,4) v sample_world_ok(4,5,6,1,2,3) sample_world_pod main] main
    unfolding words by auto
qed

text \<open>
  The buffers of the watches are large enough for the copied objects of each kind, and that of the watch on pods also
  for two events of each pod up to the limit and two more.
\<close>

definition fits_buffers :: "world \<Rightarrow> ClusterCapacityOptions \<Rightarrow> bool" where
  "fits_buffers w opt \<longleftrightarrow>
     list_all (\<lambda>n. n \<le> 10000) (copy_sizes (set (ExcludeNodes opt)) (snapshot w)) \<and>
     0 < MaxLimit opt \<and> to_copy keep_pod (r_pods (snapshot w)) + 2 * nat (MaxLimit opt) + 2 \<le> 10000"

lemma runSimulator_panic_causes:
  assumes "runSimulator w cfg config pod opt = Inl p" and "scoped (snapshot w)" and "quiet_snapshot (snapshot w)"
    and "int64 (MaxLimit opt)" and "simulation (simulate w)" and "simulation_panics (simulate w)" and "clean_template pod"
  shows "(\<exists>err. dynamic_error w cfg = Some err \<and> p = Panic_with err) \<or> p = Channel_full \<and> \<not> fits_buffers w opt"
proof -
  have start: "start_ok c0" "maxSimulated c0 = MaxLimit opt" "report c0 = None"
      "length (watches (cs_pods (client c0))) \<le> to_copy keep_pod (r_pods (snapshot w))"
    if new: "New None pod (MaxLimit opt) (ExcludeNodes opt) = Inr c" and sync: "SyncWithClient (snapshot w) c = (c0, None)" for c c0
    using synced_start [OF new sync assms(2,3,7,4)] sync New_eq [OF new]
      copy_events(2) [of "set (ExcludeNodes opt)" "snapshot w" NewSimpleClientset]
    by (auto simp: SyncWithClient_def NewSimpleClientset_def empty_tracker_def split: prod.splits)
  from assms(1) show ?thesis
  proof (cases rule: runSimulator_panic)
    case dynamic
    then show ?thesis by blast
  next
    case (copy c)
    have "client c = NewSimpleClientset" "excludeNodes c = set (ExcludeNodes opt)"
      using New_eq [OF copy(1)] by simp_all
    then have "\<not> fits_buffers w opt"
      using copy_fits [of c "snapshot w" "informers w"] copy(2) by (auto simp: fits_buffers_def DefaultChanSize_def)
    with copy_panic [OF copy(2)] show ?thesis by blast
  next
    case (run c c0)
    then obtain b where b: "watched_reachable False c0 b" "crashed (sys b) = Some p"
      using assms(6) unfolding simulation_panics_def by blast
    note s = start [OF run(1,2)]
    from never_panics [OF s(1) b(1)] b(2) s(2,4) show ?thesis
      by (auto simp: fits_buffers_def)
  next
    case (report c c0 c2)
    then obtain s where s: "reachable False c0 s" "main s = Returned None" "cc s = c2"
      using assms(5) unfolding simulation_def by blast
    note c0 = start [OF report(1,2)]
    from finished_report [OF c0(1,3) s(1,2), of "clock w"] s(3) report(4) show ?thesis
      by auto
  qed
qed

text \<open>C6:
  What can make \<open>cluster-capacity\<close> panic on a quiet cluster, when its scheduler gives a pod up once and \<open>Run\<close> returns or panics:
  whatever files, flags, API servers and versions it is given, and whether its steps succeed or fail, the command ends with
  its output or an error, or with one of two panics: that of the dynamic client, which \<open>New\<close> makes with \<open>NewForConfigOrDie\<close>,
  when the configuration is refused, or that of a full watch channel. The latter cannot occur with a positive limit when no kind has more
  than 10000 objects to copy and the pods to copy and twice the limit leave room for two more.\<close>

theorem command_panic_causes:
  assumes "scoped (snapshot w)" and "quiet_snapshot (snapshot w)" and "int64 (MaxLimit opt)"
    and "simulation (simulate w)" and "simulation_panics (simulate w)"
    and "case ParseAPISpec (specs w) opt DefaultSchedulerName of Inl _ \<Rightarrow> True | Inr pod \<Rightarrow> clean_template pod"
  shows "(\<exists>ws. cluster_capacity_command w opt = Inr ws) \<or>
    (\<exists>opt' cfg err. Validate w opt = Inr opt' \<and> client_config w (Kubeconfig opt') = Inr cfg \<and>
       dynamic_error w cfg = Some err \<and> cluster_capacity_command w opt = Inl (Panic_with err)) \<or>
    cluster_capacity_command w opt = Inl Channel_full \<and> \<not> fits_buffers w opt"
proof (cases "cluster_capacity_command w opt")
  case (Inl p)
  have "\<exists>info. build_info (built w) = Inr info"
    using splitVersion_total [of "build_version (built w)"] by (auto simp: build_info_def Get_def)
  then obtain opt' where v: "Validate w opt = Inr opt'" and run: "Run w opt' = Inl p"
    using Inl by (auto simp: cluster_capacity_command_def split: sum.splits)
  note opt' = validated_options [OF v]
  have ex: "ExcludeNodes opt' = ExcludeNodes opt"
    using v by (auto simp: Validate_def split: if_splits sum.splits)
  obtain cfg config pod where pod: "ParseAPISpec (specs w) opt' DefaultSchedulerName = Inr pod"
    and cfg: "client_config w (Kubeconfig opt') = Inr cfg" and sim: "runSimulator w cfg config pod opt' = Inl p"
    using run by (rule Run_panic)
  have "(\<exists>err. dynamic_error w cfg = Some err \<and> p = Panic_with err) \<or> p = Channel_full \<and> \<not> fits_buffers w opt'"
    using runSimulator_panic_causes [OF sim assms(1,2) _ assms(4,5)] assms(3,6) pod opt' by simp
  then show ?thesis
    using v cfg Inl opt' ex by (auto simp: fits_buffers_def)
qed simp

theorem command_panic_causes_witness:
  "\<exists>ws. cluster_capacity_command sample_world sample_options = Inr ws"
proof -
  have "fits_buffers sample_world sample_options"
    by (simp add: fits_buffers_def sample_world_def sample_options_def NewClusterCapacityOptions_def small_remote_def
        copy_sizes_def to_copy_def small_node_def)
  moreover have "dynamic_error sample_world cfg = None" for cfg
    by (simp add: sample_world_def)
  ultimately show ?thesis
    using command_panic_causes [OF sample_world_ok(1,2,6,3) sample_world_ok(7) sample_world_pod] by auto
qed

end
